(* ===== verification/Prelude.thy ===== *)
theory Prelude
  imports Main "HOL-Library.AList" "HOL-Library.Char_ord" "HOL-Library.List_Lexorder"
    "HOL-Library.Product_Lexorder"
begin

text \<open>
  Shared ground of the development: fallible results as sums (\<open>Inl\<close> is the error a Go
  function returns), the functions of Go's \<open>strings\<close> and \<open>strconv\<close> packages that the
  program uses, and facts on association lists (the model of Go maps).
  A Go \<open>string\<close> is a byte sequence, so it is a HOL \<open>string\<close>; \<open><\<close> on strings is the
  bytewise lexicographic order, as in Go.
\<close>

named_theorems result_simps \<open>rewriting of results that may be errors\<close>

section \<open>Results\<close>

definition bindE :: "'e + 'a \<Rightarrow> ('a \<Rightarrow> 'e + 'b) \<Rightarrow> 'e + 'b" where
  "bindE m f = (case m of Inl e \<Rightarrow> Inl e | Inr x \<Rightarrow> f x)"

lemma bindE_simps [simp]:
  "bindE (Inl e) f = Inl e"
  "bindE (Inr x) f = f x"
  by (simp_all add: bindE_def)

lemma bindE_Inr_iff [result_simps]:
  "bindE m f = Inr y \<longleftrightarrow> (\<exists>x. m = Inr x \<and> f x = Inr y)"
  by (cases m) auto

lemma bindE_Inl_iff [result_simps]:
  "bindE m f = Inl e \<longleftrightarrow> m = Inl e \<or> (\<exists>x. m = Inr x \<and> f x = Inl e)"
  by (cases m) auto

lemma bindE_InrE:
  assumes "bindE m f = Inr y"
  obtains x where "m = Inr x" "f x = Inr y"
  using assms by (cases m) auto

text \<open>A loop that stops at the first error.\<close>

fun mapE :: "('a \<Rightarrow> 'e + 'b) \<Rightarrow> 'a list \<Rightarrow> 'e + 'b list" where
  "mapE f [] = Inr []"
| "mapE f (x # xs) = bindE (f x) (\<lambda>y. bindE (mapE f xs) (\<lambda>ys. Inr (y # ys)))"

lemma mapE_ok: "(\<And>x. x \<in> set xs \<Longrightarrow> f x = Inr (g x)) \<Longrightarrow> mapE f xs = Inr (map g xs)"
  by (induction xs) auto

lemma mapE_Inr_length: "mapE f xs = Inr ys \<Longrightarrow> length ys = length xs"
  by (induction xs arbitrary: ys) (auto simp: bindE_Inr_iff)

lemma mapE_Inr_nth:
  "mapE f xs = Inr ys \<Longrightarrow> i < length xs \<Longrightarrow> f (xs ! i) = Inr (ys ! i)"
proof (induction xs arbitrary: ys i)
  case (Cons x xs)
  then show ?case by (cases i) (auto simp: bindE_Inr_iff)
qed simp

lemma mapE_Inr_all2: "mapE f xs = Inr ys \<longleftrightarrow> list_all2 (\<lambda>x y. f x = Inr y) xs ys"
proof (induction xs arbitrary: ys)
  case (Cons x xs)
  then show ?case by (auto simp: bindE_Inr_iff list_all2_Cons1)
qed auto

fun foldE :: "('a \<Rightarrow> 'b \<Rightarrow> 'e + 'b) \<Rightarrow> 'a list \<Rightarrow> 'b \<Rightarrow> 'e + 'b" where
  "foldE f [] s = Inr s"
| "foldE f (x # xs) s = bindE (f x s) (\<lambda>s'. foldE f xs s')"

lemma foldE_invariant:
  assumes "foldE f xs s = Inr s'" and "P [] s"
    and "\<And>ys y t t'. P ys t \<Longrightarrow> f y t = Inr t' \<Longrightarrow> P (ys @ [y]) t'"
  shows "P xs s'"
proof -
  have "foldE f zs t = Inr s' \<Longrightarrow> P ys t \<Longrightarrow> P (ys @ zs) s'" for ys zs t
  proof (induction zs arbitrary: ys t)
    case (Cons z zs)
    from Cons.prems(1) obtain t' where "f z t = Inr t'" "foldE f zs t' = Inr s'"
      by (auto simp: bindE_Inr_iff)
    then show ?case using Cons.IH [of t' "ys @ [z]"] assms(3) [OF Cons.prems(2)] by simp
  qed simp
  from this [OF assms(1,2)] show ?thesis by simp
qed

definition is_ok :: "'e + 'a \<Rightarrow> bool" where
  "is_ok r = (case r of Inl _ \<Rightarrow> False | Inr _ \<Rightarrow> True)"

lemma is_ok_simps [simp]: "is_ok (Inr x)" "\<not> is_ok (Inl e)"
  by (simp_all add: is_ok_def)

section \<open>Characters and decimal numbers\<close>

abbreviation byte_of :: "char \<Rightarrow> nat" where
  "byte_of c \<equiv> of_char c"

definition is_digit :: "char \<Rightarrow> bool" where
  "is_digit c \<longleftrightarrow> 48 \<le> byte_of c \<and> byte_of c \<le> 57"

definition digit_val :: "char \<Rightarrow> nat" where
  "digit_val c = byte_of c - 48"

definition digit_char :: "nat \<Rightarrow> char" where
  "digit_char d = char_of (48 + d)"

lemma byte_of_digit_char [simp]: "d < 10 \<Longrightarrow> byte_of (digit_char d) = 48 + d"
  by (simp add: digit_char_def of_char_of)

lemma digit_char_facts [simp]:
  assumes "d < 10"
  shows "is_digit (digit_char d)" "digit_val (digit_char d) = d"
  using assms by (simp_all add: is_digit_def digit_val_def)

text \<open>\<open>strconv.Itoa\<close> on a non-negative number, and \<open>%d\<close> on any.\<close>

fun nat_str :: "nat \<Rightarrow> string" where
  "nat_str n = (if n < 10 then [digit_char n] else nat_str (n div 10) @ [digit_char (n mod 10)])"

declare nat_str.simps [simp del]

definition int_str :: "int \<Rightarrow> string" where
  "int_str i = (if i < 0 then CHR ''-'' # nat_str (nat (- i)) else nat_str (nat i))"

text \<open>The value of a non-empty digit string.\<close>

definition digits_val :: "string \<Rightarrow> nat option" where
  "digits_val s = (if s \<noteq> [] \<and> list_all is_digit s
     then Some (foldl (\<lambda>a c. 10 * a + digit_val c) 0 s) else None)"

lemma nat_str_nonempty [simp]: "nat_str n \<noteq> []"
  by (subst nat_str.simps) simp

lemma nat_str_digits: "list_all is_digit (nat_str n)"
proof (induction n rule: nat_str.induct)
  case (1 n)
  then show ?case by (subst nat_str.simps) simp
qed

lemma nat_str_foldl: "foldl (\<lambda>a c. 10 * a + digit_val c) 0 (nat_str n) = n"
proof (induction n rule: nat_str.induct)
  case (1 n)
  then show ?case by (subst nat_str.simps) simp
qed

lemma digits_val_nat_str [simp]: "digits_val (nat_str n) = Some n"
  by (simp add: digits_val_def nat_str_digits nat_str_foldl)

lemma nat_str_inj: "nat_str m = nat_str n \<Longrightarrow> m = n"
  by (metis digits_val_nat_str option.inject)

lemma nat_str_not_in: "\<not> is_digit c \<Longrightarrow> c \<notin> set (nat_str n)"
  using nat_str_digits [of n] by (auto simp: list_all_iff)

lemma nat_str_hd_digit: "is_digit (hd (nat_str n))"
  using nat_str_digits [of n] by (cases "nat_str n") auto

text \<open>
  \<open>strconv.ParseInt(s, 10, 64)\<close>, and \<open>strconv.Atoi\<close> on a 64-bit platform: an optional
  sign, decimal digits, and a range check. \<open>strconv.ParseUint(s, 10, 64)\<close> takes no sign.
\<close>

definition max_int64 :: int where
  "max_int64 = 2 ^ 63 - 1"

definition parse_int64 :: "string \<Rightarrow> int option" where
  "parse_int64 s = (case s of [] \<Rightarrow> None
   | c # cs \<Rightarrow>
      (if c = CHR ''-'' then
         (case digits_val cs of None \<Rightarrow> None
          | Some n \<Rightarrow> if int n \<le> max_int64 + 1 then Some (- int n) else None)
       else
         (case digits_val (if c = CHR ''+'' then cs else s) of None \<Rightarrow> None
          | Some n \<Rightarrow> if int n \<le> max_int64 then Some (int n) else None)))"

definition parse_uint64 :: "string \<Rightarrow> nat option" where
  "parse_uint64 s = (case digits_val s of None \<Rightarrow> None
     | Some n \<Rightarrow> if n < 2 ^ 64 then Some n else None)"

lemma parse_int64_nat_str:
  "int n \<le> max_int64 \<Longrightarrow> parse_int64 (nat_str n) = Some (int n)"
proof -
  assume n: "int n \<le> max_int64"
  obtain c cs where s: "nat_str n = c # cs" by (cases "nat_str n") auto
  have "is_digit c" using nat_str_hd_digit [of n] s by simp
  then have "c \<noteq> CHR ''-''" "c \<noteq> CHR ''+''" by (auto simp: is_digit_def)
  with s n show ?thesis
    using digits_val_nat_str [of n] by (simp add: parse_int64_def)
qed

lemma parse_uint64_nat_str: "n < 2 ^ 64 \<Longrightarrow> parse_uint64 (nat_str n) = Some n"
  by (simp add: parse_uint64_def)

lemma parse_int64_range:
  "parse_int64 s = Some i \<Longrightarrow> - (2 ^ 63) \<le> i \<and> i \<le> max_int64"
  by (auto simp: parse_int64_def max_int64_def split: list.splits if_splits option.splits)

section \<open>Go's strings package\<close>

text \<open>
  \<open>strings.TrimSpace\<close>, \<open>strings.ToLower\<close> on ASCII text. (Go also trims the few
  non-ASCII spaces and maps non-ASCII letters; the model leaves bytes above 127 alone.)
\<close>

definition is_space :: "char \<Rightarrow> bool" where
  "is_space c \<longleftrightarrow> byte_of c \<in> {9, 10, 11, 12, 13, 32}"

definition trim_left :: "(char \<Rightarrow> bool) \<Rightarrow> string \<Rightarrow> string" where
  "trim_left p s = dropWhile p s"

definition trim_right :: "(char \<Rightarrow> bool) \<Rightarrow> string \<Rightarrow> string" where
  "trim_right p s = rev (dropWhile p (rev s))"

definition trim_space :: "string \<Rightarrow> string" where
  "trim_space s = trim_right is_space (trim_left is_space s)"

definition lower_char :: "char \<Rightarrow> char" where
  "lower_char c = (if 65 \<le> byte_of c \<and> byte_of c \<le> 90 then char_of (byte_of c + 32) else c)"

definition to_lower :: "string \<Rightarrow> string" where
  "to_lower s = map lower_char s"

lemma lower_char_idem [simp]: "lower_char (lower_char c) = lower_char c"
  by (simp add: lower_char_def of_char_of)

lemma to_lower_idem [simp]: "to_lower (to_lower s) = to_lower s"
  by (simp add: to_lower_def)

lemma is_space_lower [simp]: "is_space (lower_char c) = is_space c"
  by (auto simp: is_space_def lower_char_def of_char_of)

lemma dropWhile_idem [simp]: "dropWhile p (dropWhile p xs) = dropWhile p xs"
  by (induction xs) auto

lemma dropWhile_hd: "dropWhile p xs = xs \<longleftrightarrow> xs = [] \<or> \<not> p (hd xs)"
proof (cases xs)
  case (Cons y ys)
  have "length (dropWhile p ys) \<le> length ys" by (rule length_dropWhile_le)
  then have "dropWhile p ys \<noteq> y # ys" by (metis length_Cons not_less_eq_eq order_refl)
  then show ?thesis using Cons by auto
qed simp

lemma trim_space_ends:
  "trim_space s = s \<longleftrightarrow> s = [] \<or> (\<not> is_space (hd s) \<and> \<not> is_space (last s))"
proof
  assume eq: "trim_space s = s"
  show "s = [] \<or> (\<not> is_space (hd s) \<and> \<not> is_space (last s))"
  proof (cases "s = []")
    case False
    let ?t = "dropWhile is_space s"
    have "length (rev (dropWhile is_space (rev ?t))) \<le> length ?t"
      using length_dropWhile_le [of is_space "rev ?t"] by simp
    moreover have "s = rev (dropWhile is_space (rev ?t))"
      using eq unfolding trim_space_def trim_right_def trim_left_def by (rule sym)
    ultimately have "length s \<le> length ?t" by metis
    moreover obtain us where us: "s = us @ ?t" by (metis takeWhile_dropWhile_id)
    moreover have "length s = length us + length ?t" using us by (metis length_append)
    ultimately have "us = []" by simp
    with us have t: "?t = s" by simp
    with eq have "dropWhile is_space (rev s) = rev s"
      by (simp add: trim_space_def trim_right_def trim_left_def rev_swap)
    then have "\<not> is_space (hd (rev s))" using False by (simp add: dropWhile_hd)
    moreover from t have "\<not> is_space (hd s)" using False by (simp add: dropWhile_hd)
    ultimately show ?thesis using False by (simp add: hd_rev)
  qed simp
next
  assume "s = [] \<or> (\<not> is_space (hd s) \<and> \<not> is_space (last s))"
  then have "dropWhile is_space s = s" "dropWhile is_space (rev s) = rev s"
    by (auto simp: dropWhile_hd hd_rev)
  then show "trim_space s = s"
    by (simp add: trim_space_def trim_right_def trim_left_def)
qed

lemma trim_space_idem [simp]: "trim_space (trim_space s) = trim_space s"
proof -
  let ?t = "dropWhile is_space s"
  let ?u = "rev (dropWhile is_space (rev ?t))"
  have u: "trim_space s = ?u" by (simp add: trim_space_def trim_right_def trim_left_def)
  show ?thesis
  proof (cases "?u = []")
    case True
    then show ?thesis by (simp add: u trim_space_ends)
  next
    case False
    have last_u: "\<not> is_space (last ?u)"
      using False hd_dropWhile [of is_space "rev ?t"] by (simp add: last_rev)
    have "\<exists>vs. ?t = ?u @ vs"
      by (metis rev_append rev_rev_ident takeWhile_dropWhile_id)
    then have "hd ?u = hd ?t" using False by (metis hd_append2)
    moreover have "?t \<noteq> []" using False by (metis dropWhile.simps(1) rev.simps(1))
    ultimately have "\<not> is_space (hd ?u)" using hd_dropWhile by metis
    with last_u show ?thesis by (simp only: u trim_space_ends) simp
  qed
qed

lemma trim_space_Nil [simp]: "trim_space [] = []"
  by (simp add: trim_space_ends)

lemma trim_space_to_lower: "trim_space (to_lower s) = to_lower (trim_space s)"
  by (simp add: trim_space_def trim_right_def trim_left_def to_lower_def rev_map
      dropWhile_map comp_def)

text \<open>\<open>strings.HasPrefix\<close>, \<open>TrimPrefix\<close>, \<open>TrimSuffix\<close>, \<open>Cut\<close>, \<open>Split\<close>, \<open>Join\<close>.\<close>

definition has_prefix :: "string \<Rightarrow> string \<Rightarrow> bool" where
  "has_prefix s p \<longleftrightarrow> take (length p) s = p"

definition trim_prefix :: "string \<Rightarrow> string \<Rightarrow> string" where
  "trim_prefix s p = (if has_prefix s p then drop (length p) s else s)"

definition trim_suffix :: "string \<Rightarrow> string \<Rightarrow> string" where
  "trim_suffix s p = (if has_prefix (rev s) (rev p) then take (length s - length p) s else s)"

definition cut :: "char \<Rightarrow> string \<Rightarrow> (string \<times> string) option" where
  "cut c s = (if c \<in> set s
     then Some (takeWhile (\<lambda>x. x \<noteq> c) s, tl (dropWhile (\<lambda>x. x \<noteq> c) s)) else None)"

fun split_on :: "char \<Rightarrow> string \<Rightarrow> string list" where
  "split_on c [] = [[]]"
| "split_on c (x # xs) =
     (if x = c then [] # split_on c xs
      else (case split_on c xs of [] \<Rightarrow> [[x]] | y # ys \<Rightarrow> (x # y) # ys))"

fun join :: "string \<Rightarrow> string list \<Rightarrow> string" where
  "join sep [] = []"
| "join sep [x] = x"
| "join sep (x # y # ys) = x @ sep @ join sep (y # ys)"

lemma split_on_nonempty [simp]: "split_on c s \<noteq> []"
  by (cases s) (auto split: list.splits)

lemma split_on_no_sep: "c \<notin> set s \<Longrightarrow> split_on c s = [s]"
  by (induction s) auto

lemma split_on_append: "c \<notin> set s \<Longrightarrow> split_on c (s @ c # t) = s # split_on c t"
  by (induction s) auto

lemma split_on_join:
  "xs \<noteq> [] \<Longrightarrow> (\<And>x. x \<in> set xs \<Longrightarrow> c \<notin> set x) \<Longrightarrow> split_on c (join [c] xs) = xs"
proof (induction xs)
  case (Cons x ys)
  note IH = Cons.IH and x = Cons.prems(2) [of x]
  show ?case
  proof (cases ys)
    case Nil
    then show ?thesis using x by (simp add: split_on_no_sep)
  next
    case (Cons y zs)
    have "split_on c (join [c] ys) = ys"
      using Cons Cons.prems(2) by (intro IH) auto
    then show ?thesis using x Cons by (simp add: split_on_append)
  qed
qed simp

lemma cut_append: "c \<notin> set s \<Longrightarrow> cut c (s @ c # t) = Some (s, t)"
  by (induction s) (auto simp: cut_def)

lemma takeWhile_until: "c \<notin> set s \<Longrightarrow> takeWhile (\<lambda>x. x \<noteq> c) (s @ c # t) = s"
  by (induction s) auto

lemma cut_none: "c \<notin> set s \<Longrightarrow> cut c s = None"
  by (simp add: cut_def)

lemma cut_Some_append:
  assumes "cut c s = Some (a, b)"
  shows "s = a @ c # b \<and> c \<notin> set a"
proof -
  let ?p = "\<lambda>x. x \<noteq> c"
  from assms have mem: "c \<in> set s" and a: "a = takeWhile ?p s" and b: "b = tl (dropWhile ?p s)"
    by (auto simp: cut_def split: if_splits)
  have ne: "dropWhile ?p s \<noteq> []" using mem by auto
  then have "hd (dropWhile ?p s) = c" using hd_dropWhile [of ?p s] by blast
  then have "dropWhile ?p s = c # b" using ne b by (cases "dropWhile ?p s") auto
  moreover have "s = takeWhile ?p s @ dropWhile ?p s" by simp
  moreover have "c \<notin> set a" using a by (auto dest: set_takeWhileD)
  ultimately show ?thesis using a by metis
qed

section \<open>Association lists\<close>

text \<open>
  A Go map is an association list with distinct keys: \<open>map_of\<close> looks up,
  \<open>AList.update\<close> stores, \<open>AList.delete\<close> deletes, \<open>length\<close> is \<open>len\<close>. Go visits
  a map in an unspecified order; the model visits it in the list's order and the theorems
  hold for every list, so for every order.
\<close>

lemmas map_of_upd = update_conv'
lemmas map_of_del = delete_conv'

lemma dom_update: "dom (map_of (AList.update k v al)) = insert k (dom (map_of al))"
  by (simp add: update_conv')

lemma map_of_filter_key_snd:
  "distinct (map fst al) \<Longrightarrow>
   map_of (filter (\<lambda>(k, v). P k v) al) k = (case map_of al k of None \<Rightarrow> None
     | Some v \<Rightarrow> if P k v then Some v else None)"
proof (induction al)
  case (Cons a al)
  have nf: "map_of al (fst a) = None" if "fst a \<notin> fst ` set al"
    using that by (simp add: map_of_eq_None_iff)
  show ?case
    using Cons nf by (cases a) (auto split: option.splits)
qed simp

text \<open>Storing the elements of a list one after the other under distinct keys.\<close>

lemma distinct_built: "distinct (map fst m) \<Longrightarrow> distinct (map fst (foldl (\<lambda>m x. AList.update (k x) (v x) m) m xs))"
  by (induction xs arbitrary: m) (simp_all add: distinct_update)

lemma map_of_foldl_update:
  "distinct (map k xs) \<Longrightarrow>
   map_of (foldl (\<lambda>m x. AList.update (k x) (v x) m) m0 xs) key =
     (case List.find (\<lambda>x. k x = key) xs of Some x \<Rightarrow> Some (v x) | None \<Rightarrow> map_of m0 key)"
proof (induction xs arbitrary: m0)
  case (Cons x xs)
  have "List.find (\<lambda>y. k y = key) xs = None" if "k x = key"
    using Cons.prems that by (auto simp: find_None_iff image_iff)
  then show ?case using Cons by (auto simp: update_conv' split: option.splits)
qed simp

text \<open>A Go map of slices: a missing key reads as the nil slice.\<close>

definition lookup_list :: "('k \<times> 'a list) list \<Rightarrow> 'k \<Rightarrow> 'a list" where
  "lookup_list m k = (case map_of m k of None \<Rightarrow> [] | Some xs \<Rightarrow> xs)"

lemma lookup_list_update:
  "lookup_list (AList.update k xs m) k' = (if k' = k then xs else lookup_list m k')"
  by (simp add: lookup_list_def update_conv')

lemma lookup_list_Nil [simp]: "lookup_list [] k = []"
  by (simp add: lookup_list_def)

lemma find_SomeD: "List.find P xs = Some x \<Longrightarrow> x \<in> set xs \<and> P x"
  by (auto simp: find_Some_iff)

lemma find_None_all: "List.find P xs = None \<longleftrightarrow> (\<forall>x\<in>set xs. \<not> P x)"
  by (auto simp: find_None_iff)

lemma find_Some_iff_mem: "(\<exists>x. List.find P xs = Some x) \<longleftrightarrow> (\<exists>x\<in>set xs. P x)"
  using find_None_all [of P xs] by (cases "List.find P xs") auto

lemma find_unique:
  "\<lbrakk>x \<in> set xs; P x; \<And>y. y \<in> set xs \<Longrightarrow> P y \<Longrightarrow> y = x\<rbrakk> \<Longrightarrow> List.find P xs = Some x"
proof (induction xs)
  case (Cons a xs)
  show ?case
  proof (cases "P a")
    case True
    then show ?thesis using Cons.prems(3) [of a] by simp
  next
    case False
    then have "x \<in> set xs" using Cons.prems(1,2) by auto
    then have "List.find P xs = Some x"
      using Cons.prems(2,3) by (intro Cons.IH) (metis list.set_intros(2))+
    then show ?thesis using False by simp
  qed
qed simp

lemma find_key_unique:
  "\<lbrakk>distinct (map f xs); x \<in> set xs\<rbrakk> \<Longrightarrow> List.find (\<lambda>y. f y = f x) xs = Some x"
  by (rule find_unique) (auto simp: distinct_map inj_on_def)

end
