(* ===== verification/Netip.thy ===== *)
theory Netip
  imports Prelude "HOL-Library.Word"
begin

unbundle bit_operations_syntax

text \<open>
  The part of Go's standard package \<open>net/netip\<close> that the program uses: the address type
  with its zero value, parsing, printing, order, successor, prefixes and the address
  classes. An IPv4 address is a \<open>uint32\<close>, an IPv6 address 128 bits and a zone. The zero
  \<open>netip.Addr\<close> (and what \<open>Next\<close> makes of it) is \<open>Invalid\<close>.
\<close>

datatype addr = Invalid "128 word" | V4 "32 word" | V6 "128 word" string

section \<open>Order\<close>

text \<open>\<open>Addr.Compare\<close> compares the bit lengths (0, 32, 128), then the bits, then the zones.\<close>

fun addr_key :: "addr \<Rightarrow> nat \<times> nat \<times> string" where
  "addr_key (Invalid x) = (0, unat x, [])"
| "addr_key (V4 a) = (32, unat a, [])"
| "addr_key (V6 a z) = (128, unat a, z)"

lemma addr_key_inj: "addr_key a = addr_key b \<Longrightarrow> a = b"
  by (cases a; cases b) (auto simp: unsigned_word_eqI)

instantiation addr :: linorder
begin

definition less_eq_addr :: "addr \<Rightarrow> addr \<Rightarrow> bool" where
  "less_eq_addr a b \<longleftrightarrow> addr_key a \<le> addr_key b"

definition less_addr :: "addr \<Rightarrow> addr \<Rightarrow> bool" where
  "less_addr a b \<longleftrightarrow> addr_key a < addr_key b"

instance
proof
  fix a b c :: addr
  show "a < b \<longleftrightarrow> a \<le> b \<and> \<not> b \<le> a"
    unfolding less_eq_addr_def less_addr_def by auto
  show "a \<le> a"
    unfolding less_eq_addr_def by (rule order_refl)
  show "a \<le> b \<Longrightarrow> b \<le> c \<Longrightarrow> a \<le> c"
    unfolding less_eq_addr_def by (rule order_trans)
  show "a \<le> b \<Longrightarrow> b \<le> a \<Longrightarrow> a = b"
    unfolding less_eq_addr_def by (rule addr_key_inj) (rule order_antisym)
  show "a \<le> b \<or> b \<le> a"
    unfolding less_eq_addr_def by (rule linear)
qed

end

lemma V4_less [simp]: "V4 a < V4 b \<longleftrightarrow> a < b"
  by (simp add: less_addr_def word_less_nat_alt)

lemma Invalid_less_V4 [simp]: "Invalid x < V4 b"
  by (simp add: less_addr_def)

section \<open>Parsing and printing\<close>

text \<open>
  \<open>parseIPv4Fields\<close>: the loop's state is the rest of the text, the fields so far, the
  current field's value and its number of digits. A dot needs a digit before it and
  something after it; a field has no leading zero and is at most 255.
\<close>

fun parse_v4_fields :: "string \<Rightarrow> nat list \<Rightarrow> nat \<Rightarrow> nat \<Rightarrow> nat list option" where
  "parse_v4_fields [] fs val dl = (if length fs < 3 then None else Some (fs @ [val]))"
| "parse_v4_fields (c # cs) fs val dl =
     (if is_digit c then
        (if dl = 1 \<and> val = 0 then None
         else let v = val * 10 + digit_val c in
           if v > 255 then None else parse_v4_fields cs fs v (dl + 1))
      else if c = CHR ''.'' then
        (if dl = 0 \<or> cs = [] then None
         else if length fs = 3 then None
         else parse_v4_fields cs (fs @ [val]) 0 0)
      else None)"

definition v4_of_fields :: "nat list \<Rightarrow> 32 word" where
  "v4_of_fields fs = word_of_nat (foldl (\<lambda>a f. a * 256 + f) 0 fs)"

definition parse_v4 :: "string \<Rightarrow> addr option" where
  "parse_v4 s = map_option (\<lambda>fs. V4 (v4_of_fields fs)) (parse_v4_fields s [] 0 0)"

definition is_hex :: "char \<Rightarrow> bool" where
  "is_hex c \<longleftrightarrow> is_digit c \<or> (97 \<le> byte_of c \<and> byte_of c \<le> 102) \<or> (65 \<le> byte_of c \<and> byte_of c \<le> 70)"

definition hex_val :: "char \<Rightarrow> nat" where
  "hex_val c = (if is_digit c then digit_val c
     else if 97 \<le> byte_of c then byte_of c - 87 else byte_of c - 55)"

text \<open>
  The loop of \<open>parseIPv6\<close> over 16-bit groups: the rest of the text, the groups so far and
  the position of the ellipsis. It returns the groups, the ellipsis and the unread text.
\<close>

function parse_v6_loop ::
  "string \<Rightarrow> nat list \<Rightarrow> nat option \<Rightarrow> (nat list \<times> nat option \<times> string) option" where
  "parse_v6_loop s gs ell =
    (if length gs \<ge> 8 then Some (gs, ell, s)
     else let hs = takeWhile is_hex s; rest = dropWhile is_hex s in
       if hs = [] \<or> length hs > 4 then None
       else if rest \<noteq> [] \<and> hd rest = CHR ''.'' then
         (if (ell = None \<and> length gs \<noteq> 6) \<or> length gs + 2 > 8 then None
          else case parse_v4_fields s [] 0 0 of None \<Rightarrow> None
            | Some fs \<Rightarrow> Some (gs @ [fs ! 0 * 256 + fs ! 1, fs ! 2 * 256 + fs ! 3], ell, []))
       else let gs' = gs @ [foldl (\<lambda>a c. a * 16 + hex_val c) 0 hs] in
         if rest = [] then Some (gs', ell, [])
         else if hd rest \<noteq> CHR '':'' \<or> length rest = 1 then None
         else let s1 = tl rest in
           if hd s1 = CHR '':'' then
             (if ell \<noteq> None then None
              else if tl s1 = [] then Some (gs', Some (length gs'), [])
              else parse_v6_loop (tl s1) gs' (Some (length gs')))
           else parse_v6_loop s1 gs' ell)"
  by pat_completeness auto
termination
  by (relation "measure (\<lambda>(s, gs, ell). 8 - length gs)") (auto simp: Let_def)

declare parse_v6_loop.simps [simp del]

definition v6_of_groups :: "nat list \<Rightarrow> 128 word" where
  "v6_of_groups gs = word_of_nat (foldl (\<lambda>a g. a * 65536 + g) 0 gs)"

definition parse_v6 :: "string \<Rightarrow> addr option" where
  "parse_v6 inp =
    (let (s, zone, bad) = (case cut (CHR ''%'') inp of None \<Rightarrow> (inp, [], False)
           | Some (b, a) \<Rightarrow> (b, a, a = [])) in
     if bad then None
     else let lead = (take 2 s = ''::''); s1 = (if lead then drop 2 s else s) in
       if lead \<and> s1 = [] then Some (V6 0 zone)
       else case parse_v6_loop s1 [] (if lead then Some 0 else None) of None \<Rightarrow> None
         | Some (gs, ell, rest) \<Rightarrow>
             if rest \<noteq> [] then None
             else if length gs < 8 then
               (case ell of None \<Rightarrow> None
                | Some k \<Rightarrow> Some (V6 (v6_of_groups
                    (take k gs @ replicate (8 - length gs) 0 @ drop k gs)) zone))
             else if ell \<noteq> None then None
             else Some (V6 (v6_of_groups gs) zone))"

text \<open>\<open>netip.ParseAddr\<close>: the first of \<open>.\<close>, \<open>:\<close>, \<open>%\<close> decides the family.\<close>

definition parse_addr :: "string \<Rightarrow> addr option" where
  "parse_addr s = (case List.find (\<lambda>c. c \<in> {CHR ''.'', CHR '':'', CHR ''%''}) s of
     None \<Rightarrow> None
   | Some c \<Rightarrow> if c = CHR ''.'' then parse_v4 s
       else if c = CHR '':'' then parse_v6 s else None)"

text \<open>\<open>Addr.String\<close>. IPv6 is written as RFC 5952 asks, the first longest run of zeros as \<open>::\<close>.\<close>

definition v4_byte :: "32 word \<Rightarrow> nat \<Rightarrow> nat" where
  "v4_byte a k = unat (drop_bit (24 - 8 * k) a) mod 256"

definition v4_string :: "32 word \<Rightarrow> string" where
  "v4_string a = join ''.'' (map (\<lambda>k. nat_str (v4_byte a k)) [0, 1, 2, 3])"

definition hex_digit :: "nat \<Rightarrow> char" where
  "hex_digit d = (if d < 10 then digit_char d else char_of (87 + d))"

fun hex_str :: "nat \<Rightarrow> string" where
  "hex_str n = (if n < 16 then [hex_digit n] else hex_str (n div 16) @ [hex_digit (n mod 16)])"

declare hex_str.simps [simp del]

definition v6_group :: "128 word \<Rightarrow> nat \<Rightarrow> nat" where
  "v6_group a k = unat (drop_bit (112 - 16 * k) a) mod 65536"

definition zero_span :: "nat list \<Rightarrow> nat \<times> nat" where
  "zero_span gs = foldl (\<lambda>(b, e) i. let l = length (takeWhile (\<lambda>g. g = 0) (drop i gs)) in
     if l \<ge> 2 \<and> l > e - b then (i, i + l) else (b, e)) (255, 255) [0..<8]"

function v6_text :: "nat list \<Rightarrow> nat \<times> nat \<Rightarrow> nat \<Rightarrow> string" where
  "v6_text gs (b, e) i =
    (if i \<ge> 8 then []
     else if i = b \<and> e > b then ''::'' @ (if e \<ge> 8 then [] else hex_str (gs ! e) @ v6_text gs (b, e) (e + 1))
     else (if i > 0 then '':'' else []) @ hex_str (gs ! i) @ v6_text gs (b, e) (i + 1))"
  by pat_completeness auto
termination
  by (relation "measure (\<lambda>(gs, p, i). 8 - i)") auto

declare v6_text.simps [simp del]

definition is_4in6 :: "addr \<Rightarrow> bool" where
  "is_4in6 a = (case a of V6 x _ \<Rightarrow> drop_bit 32 x = 65535 | _ \<Rightarrow> False)"

definition unmap :: "addr \<Rightarrow> addr" where
  "unmap a = (if is_4in6 a then (case a of V6 x _ \<Rightarrow> V4 (ucast x) | _ \<Rightarrow> a) else a)"

definition zone_text :: "string \<Rightarrow> string" where
  "zone_text z = (if z = [] then [] else CHR ''%'' # z)"

fun addr_string :: "addr \<Rightarrow> string" where
  "addr_string (Invalid _) = ''invalid IP''"
| "addr_string (V4 a) = v4_string a"
| "addr_string (V6 a z) =
    (if is_4in6 (V6 a z) then ''::ffff:'' @ v4_string (ucast a) @ zone_text z
     else let gs = map (v6_group a) [0..<8] in v6_text gs (zero_span gs) 0 @ zone_text z)"

section \<open>Successor, classes, prefixes\<close>

text \<open>\<open>Addr.Next\<close> is the zero address past the last one.\<close>

fun addr_next :: "addr \<Rightarrow> addr" where
  "addr_next (Invalid x) = Invalid (x + 1)"
| "addr_next (V4 a) = (if a + 1 = 0 then Invalid 0 else V4 (a + 1))"
| "addr_next (V6 a z) = (if a + 1 = 0 then Invalid 0 else V6 (a + 1) z)"

definition is_v4 :: "addr \<Rightarrow> bool" where
  "is_v4 a = (case a of V4 _ \<Rightarrow> True | _ \<Rightarrow> False)"

definition is_v6 :: "addr \<Rightarrow> bool" where
  "is_v6 a = (case a of V6 _ _ \<Rightarrow> True | _ \<Rightarrow> False)"

definition is_loopback :: "addr \<Rightarrow> bool" where
  "is_loopback a = (case unmap a of Invalid _ \<Rightarrow> False
     | V4 x \<Rightarrow> v4_byte x 0 = 127 | V6 x _ \<Rightarrow> x = 1)"

definition is_link_local_unicast :: "addr \<Rightarrow> bool" where
  "is_link_local_unicast a = (case unmap a of Invalid _ \<Rightarrow> False
     | V4 x \<Rightarrow> v4_byte x 0 = 169 \<and> v4_byte x 1 = 254
     | V6 x _ \<Rightarrow> drop_bit 118 x = 0x3fa)"

definition is_link_local_multicast :: "addr \<Rightarrow> bool" where
  "is_link_local_multicast a = (case unmap a of Invalid _ \<Rightarrow> False
     | V4 x \<Rightarrow> v4_byte x 0 = 224 \<and> v4_byte x 1 = 0 \<and> v4_byte x 2 = 0
     | V6 x _ \<Rightarrow> drop_bit 112 x AND 0xff0f = 0xff02)"

definition is_multicast :: "addr \<Rightarrow> bool" where
  "is_multicast a = (case unmap a of Invalid _ \<Rightarrow> False
     | V4 x \<Rightarrow> v4_byte x 0 div 16 = 14
     | V6 x _ \<Rightarrow> drop_bit 120 x = 0xff)"

text \<open>\<open>IsUnspecified\<close> compares with the two unspecified addresses and does not unmap.\<close>

definition is_unspecified :: "addr \<Rightarrow> bool" where
  "is_unspecified a \<longleftrightarrow> a = V4 0 \<or> a = V6 0 []"

record pfx =
  pfx_ip :: addr
  pfx_bits :: nat

text \<open>\<open>netip.ParsePrefix\<close>: the bits are decimal without sign or leading zero.\<close>

definition parse_prefix :: "string \<Rightarrow> pfx option" where
  "parse_prefix s = (case cut (CHR ''/'') (rev s) of None \<Rightarrow> None
   | Some (rbits, rip) \<Rightarrow>
      (case parse_addr (rev rip) of None \<Rightarrow> None
       | Some ip \<Rightarrow>
          (let bits = rev rbits; maxb = (if is_v6 ip then 128 else 32) in
            if (case ip of V6 _ z \<Rightarrow> z \<noteq> [] | _ \<Rightarrow> False) then None
            else if length bits > 1 \<and> (byte_of (hd bits) < 49 \<or> 57 < byte_of (hd bits)) then None
            else case parse_int64 bits of None \<Rightarrow> None
              | Some b \<Rightarrow> if b < 0 \<or> b > maxb then None
                  else Some \<lparr>pfx_ip = ip, pfx_bits = nat b\<rparr>)))"

text \<open>\<open>Prefix.Masked\<close> and \<open>Prefix.Contains\<close>: families must agree, a zone never matches.\<close>

definition masked_addr :: "pfx \<Rightarrow> addr" where
  "masked_addr p = (case pfx_ip p of Invalid x \<Rightarrow> Invalid x
     | V4 a \<Rightarrow> V4 (push_bit (32 - pfx_bits p) (drop_bit (32 - pfx_bits p) a))
     | V6 a z \<Rightarrow> V6 (push_bit (128 - pfx_bits p) (drop_bit (128 - pfx_bits p) a)) [])"

definition pfx_contains :: "pfx \<Rightarrow> addr \<Rightarrow> bool" where
  "pfx_contains p ip = (case (pfx_ip p, ip) of
     (V4 a, V4 b) \<Rightarrow> drop_bit (32 - pfx_bits p) (a XOR b) = 0
   | (V6 a _, V6 b z) \<Rightarrow> z = [] \<and> drop_bit (128 - pfx_bits p) (a XOR b) = 0
   | _ \<Rightarrow> False)"

section \<open>IPv4 text round trip\<close>

lemma nat_str_1: "n < 10 \<Longrightarrow> nat_str n = [digit_char n]"
  by (subst nat_str.simps) simp

lemma nat_str_2: "10 \<le> n \<Longrightarrow> n < 100 \<Longrightarrow> nat_str n = [digit_char (n div 10), digit_char (n mod 10)]"
  by (subst nat_str.simps) (simp add: nat_str_1)

lemma nat_str_3:
  "100 \<le> n \<Longrightarrow> n < 1000 \<Longrightarrow>
   nat_str n = [digit_char (n div 100), digit_char (n div 10 mod 10), digit_char (n mod 10)]"
  by (subst nat_str.simps) (simp add: nat_str_2 div_mult2_eq [symmetric])

lemma parse_v4_fields_num:
  assumes "n < 256"
  shows "parse_v4_fields (nat_str n @ rest) fs 0 0
    = parse_v4_fields rest fs n (length (nat_str n))"
proof -
  consider "n < 10" | "10 \<le> n" "n < 100" | "100 \<le> n" using assms by linarith
  then show ?thesis
  proof cases
    case 1
    then show ?thesis by (simp add: nat_str_1)
  next
    case 2
    then have "0 < n div 10" "n div 10 < 10" by auto
    with 2 show ?thesis by (simp add: nat_str_2 Let_def)
  next
    case 3
    have d: "0 < n div 100" "n div 100 < 10" "n div 10 mod 10 < 10" using 3 assms by auto
    have "n div 100 = n div 10 div 10" by (simp flip: div_mult2_eq)
    then have "n div 100 * 10 + n div 10 mod 10 = n div 10" by simp
    then show ?thesis using 3 d assms by (auto simp add: nat_str_3 Let_def)
  qed
qed

lemma unat32_lt: "unat (a :: 32 word) < 2 ^ 32"
  using unsigned_less [of a] by simp

lemma v4_byte_lt [simp]: "v4_byte a k < 256"
  by (simp add: v4_byte_def)

lemma v4_bytes_join:
  "((v4_byte a 0 * 256 + v4_byte a 1) * 256 + v4_byte a 2) * 256 + v4_byte a 3 = unat a"
proof -
  let ?n = "unat a"
  have n: "?n < 2 ^ 32" by (rule unat32_lt)
  have b: "v4_byte a 0 = ?n div 16777216" "v4_byte a 1 = ?n div 65536 mod 256"
    "v4_byte a 2 = ?n div 256 mod 256" "v4_byte a 3 = ?n mod 256"
    using n by (simp_all add: v4_byte_def drop_bit_eq_div unat_div)
  have "?n div 16777216 = ?n div 65536 div 256" "?n div 65536 = ?n div 256 div 256"
    by (simp_all flip: div_mult2_eq)
  then show ?thesis unfolding b by simp
qed

lemma v4_of_fields_bytes: "v4_of_fields (map (v4_byte a) [0, 1, 2, 3]) = a"
  using v4_bytes_join [of a] by (simp add: v4_of_fields_def)

lemma parse_v4_fields_string:
  "parse_v4_fields (v4_string a) [] 0 0 = Some (map (v4_byte a) [0, 1, 2, 3])"
proof -
  have dot: "\<not> is_digit (CHR ''.'')" by (simp add: is_digit_def)
  have num: "parse_v4_fields (nat_str n) fs 0 0 = parse_v4_fields [] fs n (length (nat_str n))"
    if "n < 256" for n fs
    using parse_v4_fields_num [OF that, of "[]"] by simp
  show ?thesis
    by (simp add: v4_string_def parse_v4_fields_num num dot)
qed

lemma v4_string_chars: "c \<in> set (v4_string a) \<Longrightarrow> is_digit c \<or> c = CHR ''.''"
  using nat_str_digits by (auto simp: v4_string_def list_all_iff)

lemma v4_string_nonempty [simp]: "v4_string a \<noteq> []"
  by (simp add: v4_string_def)

lemma parse_addr_v4_string [simp]: "parse_addr (v4_string a) = Some (V4 a)"
proof -
  have "List.find (\<lambda>c. c \<in> {CHR ''.'', CHR '':'', CHR ''%''}) (v4_string a) = Some (CHR ''.'')"
  proof (rule find_unique)
    show "CHR ''.'' \<in> set (v4_string a)" by (simp add: v4_string_def)
  next
    fix y assume "y \<in> set (v4_string a)" "y \<in> {CHR ''.'', CHR '':'', CHR ''%''}"
    then show "y = CHR ''.''" using v4_string_chars [of y a] by (auto simp: is_digit_def)
  qed simp
  then show ?thesis
    using v4_of_fields_bytes [of a]
    by (simp add: parse_addr_def parse_v4_def parse_v4_fields_string)
qed

lemma v4_string_inj: "v4_string a = v4_string b \<longleftrightarrow> a = b"
  by (metis addr.inject(2) option.inject parse_addr_v4_string)

text \<open>The equations that evaluate address texts by simplification.\<close>

lemma foldl_zeros: "foldl (\<lambda>a g. a * b + g) 0 (replicate n (0::nat)) = 0"
  by (induction n) auto

lemmas addr_eval = parse_addr_def parse_v4_def parse_v6_def parse_v6_loop.simps parse_prefix_def
  cut_def is_digit_def digit_val_def is_hex_def hex_val_def v4_of_fields_def v6_of_groups_def foldl_zeros
  parse_int64_def digits_val_def max_int64_def is_v4_def is_v6_def Let_def

lemmas addr_text_eval = v4_string_def v4_byte_def nat_str_1 nat_str_2 nat_str_3
  digit_char_def char_of_def bit_0

end
