(* ===== verification/Origin.thy ===== *)
theory Origin
  imports Netip
begin

text \<open>
  \<open>shared/origin/origin.go\<close>: where a service's backend lives (\<open>Spec\<close>), its validation, the
  addresses a backend must not have, and the resolver's cache key.
\<close>

section \<open>Model\<close>

abbreviation Host :: string where "Host \<equiv> ''host''"
abbreviation Container :: string where "Container \<equiv> ''container''"
abbreviation IP :: string where "IP \<equiv> ''ip''"
abbreviation Hostname :: string where "Hostname \<equiv> ''hostname''"

definition Valid :: "string \<Rightarrow> bool" where
  "Valid k \<longleftrightarrow> k \<in> {Host, Container, IP, Hostname}"

record spec =
  o_kind :: string
  o_value :: string
  o_network :: string

datatype origin_error = UnknownKind | NetworkNotAllowed | HostTakesNoValue | ValueRequired
  | NotAnIP | RefusedLoopback | RefusedLinkLocal | RefusedUnspecified | RefusedMulticast

definition spec_string :: "spec \<Rightarrow> string" where
  "spec_string s = (if o_kind s = Host then Host else o_kind s @ '':'' @ o_value s)"

definition cache_key :: "spec \<Rightarrow> string" where
  "cache_key s = o_kind s @ [CHR 0x00] @ o_value s @ [CHR 0x00] @ o_network s"

definition safe_backend_addr :: "addr \<Rightarrow> origin_error option" where
  "safe_backend_addr a =
    (if is_loopback a then Some RefusedLoopback
     else if is_link_local_unicast a \<or> is_link_local_multicast a then Some RefusedLinkLocal
     else if is_unspecified a then Some RefusedUnspecified
     else if is_multicast a then Some RefusedMulticast
     else None)"

definition safe_backend_ip :: "string \<Rightarrow> origin_error option" where
  "safe_backend_ip ip = (case parse_addr ip of None \<Rightarrow> Some NotAnIP | Some a \<Rightarrow> safe_backend_addr a)"

definition validate :: "spec \<Rightarrow> origin_error + spec" where
  "validate s0 =
    (let s = \<lparr>o_kind = to_lower (trim_space (o_kind s0)), o_value = trim_space (o_value s0),
              o_network = trim_space (o_network s0)\<rparr> in
     if \<not> Valid (o_kind s) then Inl UnknownKind
     else if o_network s \<noteq> [] \<and> o_kind s \<noteq> Container then Inl NetworkNotAllowed
     else if o_kind s = Host then
       (if o_value s \<noteq> [] then Inl HostTakesNoValue else Inr s)
     else if o_value s = [] then Inl ValueRequired
     else if o_kind s = IP then
       (case parse_addr (o_value s) of None \<Rightarrow> Inl NotAnIP
        | Some a \<Rightarrow> (case safe_backend_addr a of Some e \<Rightarrow> Inl e | None \<Rightarrow> Inr s))
     else Inr s)"

section \<open>Lemmas\<close>

text \<open>What a validated origin promises: the contract the store and the resolver rely on.\<close>

definition spec_ok :: "spec \<Rightarrow> bool" where
  "spec_ok s \<longleftrightarrow> Valid (o_kind s) \<and> trim_space (o_value s) = o_value s
    \<and> trim_space (o_network s) = o_network s
    \<and> (o_network s = [] \<or> o_kind s = Container)
    \<and> (o_kind s = Host \<longleftrightarrow> o_value s = [])
    \<and> (o_kind s = IP \<longrightarrow> safe_backend_ip (o_value s) = None)"

lemma Valid_normal: "Valid k \<Longrightarrow> to_lower (trim_space k) = k"
  by (auto simp: Valid_def to_lower_def lower_char_def trim_space_def trim_left_def
      trim_right_def is_space_def)

lemma validate_ok: "validate s = Inr t \<Longrightarrow> spec_ok t"
  by (auto simp: validate_def spec_ok_def Let_def safe_backend_ip_def
      split: if_splits option.splits)

lemma validate_fixpoint: "spec_ok t \<Longrightarrow> validate t = Inr t"
proof -
  assume ok: "spec_ok t"
  then have "to_lower (trim_space (o_kind t)) = o_kind t"
    by (simp add: spec_ok_def Valid_normal)
  with ok show ?thesis
    by (cases t) (auto simp: validate_def spec_ok_def Let_def safe_backend_ip_def
        split: option.splits)
qed

lemma validate_kind: "validate s = Inr t \<Longrightarrow> o_kind t \<in> {Host, Container, IP, Hostname}"
  using validate_ok [of s t] by (auto simp: spec_ok_def Valid_def)

lemma append_sep_inject:
  "\<lbrakk>c \<notin> set a; c \<notin> set b; a @ c # x = b @ c # y\<rbrakk> \<Longrightarrow> a = b \<and> x = y"
proof (induction a arbitrary: b)
  case Nil
  then show ?case by (cases b) auto
next
  case (Cons z a)
  then show ?case by (cases b) auto
qed

lemma cache_key_inject:
  assumes "CHR 0x00 \<notin> set (o_kind s @ o_value s @ o_network s)"
    and "CHR 0x00 \<notin> set (o_kind t @ o_value t @ o_network t)"
    and "cache_key s = cache_key t"
  shows "s = t"
proof -
  have "o_kind s = o_kind t \<and>
      o_value s @ CHR 0x00 # o_network s = o_value t @ CHR 0x00 # o_network t"
    using assms by (intro append_sep_inject) (auto simp: cache_key_def)
  moreover from this have "o_value s = o_value t \<and> o_network s = o_network t"
    using assms by (intro append_sep_inject) auto
  ultimately show ?thesis by (cases s, cases t) simp
qed

section \<open>Properties\<close>

definition normalize :: "spec \<Rightarrow> spec" where
  "normalize s = \<lparr>o_kind = to_lower (trim_space (o_kind s)),
     o_value = trim_space (o_value s), o_network = trim_space (o_network s)\<rparr>"

lemma validate_normalize: "validate (normalize s) = validate s"
  by (simp add: validate_def normalize_def trim_space_to_lower)

lemma validate_output: "validate s = Inr t \<Longrightarrow> t = normalize s"
  by (auto simp: validate_def normalize_def Let_def split: if_splits option.splits)

text \<open>
  C29: \<open>Validate\<close> accepts exactly the specs whose normal form (trimmed, kind in lower case)
  meets the contract, and returns the normal form: a known kind, a network only for a
  container, a value exactly when the kind is not \<open>host\<close>, and for kind \<open>ip\<close> an address
  that \<open>SafeBackendIP\<close> does not refuse. It is idempotent, errors included.
\<close>

theorem validate_contract:
  "(validate s = Inr t \<longleftrightarrow> t = normalize s \<and> spec_ok t) \<and> bindE (validate s) validate = validate s"
proof
  show "validate s = Inr t \<longleftrightarrow> t = normalize s \<and> spec_ok t"
    using validate_ok [of s t] validate_output [of s t] validate_fixpoint [of t]
      validate_normalize [of s] by metis
  show "bindE (validate s) validate = validate s"
    using validate_ok validate_fixpoint by (cases "validate s") auto
qed

text \<open>
  \<open>SafeBackendAddr\<close> refuses every loopback, link-local and multicast address, in the
  plain and in the IPv4-mapped form, and the two unspecified addresses.
\<close>

theorem safe_backend_refuses:
  assumes "safe_backend_addr a = None"
  shows "\<not> is_loopback (unmap a) \<and> \<not> is_link_local_unicast (unmap a)
    \<and> \<not> is_link_local_multicast (unmap a) \<and> \<not> is_multicast (unmap a)
    \<and> a \<noteq> V4 0 \<and> a \<noteq> V6 0 []"
proof -
  have "unmap (unmap a) = unmap a"
    by (auto simp: unmap_def is_4in6_def split: addr.splits)
  with assms show ?thesis
    by (auto simp: safe_backend_addr_def is_loopback_def is_link_local_unicast_def
        is_link_local_multicast_def is_multicast_def is_unspecified_def split: if_splits)
qed

theorem safe_backend_refuses_witness:
  "\<not> is_loopback (unmap (V4 0x0A000005)) \<and> V4 0x0A000005 \<noteq> V4 0"
  using safe_backend_refuses [of "V4 0x0A000005"]
  by (simp add: safe_backend_addr_def is_loopback_def is_link_local_unicast_def
      is_link_local_multicast_def is_multicast_def is_unspecified_def unmap_def is_4in6_def
      v4_byte_def)

text \<open>
  The IPv4-mapped form of the unspecified address passes validation: \<open>IsUnspecified\<close>
  does not unmap, so \<open>::ffff:0.0.0.0\<close> is accepted as an \<open>ip\<close> origin although it unmaps to
  0.0.0.0, which is refused.
\<close>

theorem mapped_unspecified_accepted:
  "validate \<lparr>o_kind = IP, o_value = ''::ffff:0.0.0.0'', o_network = []\<rparr>
     = Inr \<lparr>o_kind = IP, o_value = ''::ffff:0.0.0.0'', o_network = []\<rparr>
   \<and> map_option unmap (parse_addr ''::ffff:0.0.0.0'') = Some (V4 0)
   \<and> validate \<lparr>o_kind = IP, o_value = ''0.0.0.0'', o_network = []\<rparr> = Inl RefusedUnspecified"
  by (simp add: validate_def addr_eval trim_space_def trim_left_def trim_right_def to_lower_def lower_char_def is_space_def Valid_def safe_backend_addr_def is_loopback_def is_link_local_unicast_def is_link_local_multicast_def is_multicast_def is_unspecified_def unmap_def is_4in6_def v4_byte_def)

text \<open>
  The resolver's cache keeps different origins apart: on specs whose fields hold no NUL
  byte, \<open>CacheKey\<close> is injective.
\<close>

theorem cache_key_inj:
  assumes "CHR 0x00 \<notin> set (o_kind s @ o_value s @ o_network s)"
    and "CHR 0x00 \<notin> set (o_kind t @ o_value t @ o_network t)"
    and "cache_key s = cache_key t"
  shows "s = t"
  using assms by (rule cache_key_inject)

theorem cache_key_inj_witness:
  "cache_key \<lparr>o_kind = Container, o_value = ''web'', o_network = ''a''\<rparr>
    \<noteq> cache_key \<lparr>o_kind = Container, o_value = ''web'', o_network = ''b''\<rparr>"
  using cache_key_inj [of "\<lparr>o_kind = Container, o_value = ''web'', o_network = ''a''\<rparr>"
      "\<lparr>o_kind = Container, o_value = ''web'', o_network = ''b''\<rparr>"] by auto

end
