(* ===== verification/Database.thy ===== *)
theory Database
  imports Origin
begin

text \<open>
  The database of \<open>daemon/store\<close>: the tables of \<open>migrations/0001_initial.sql\<close> and
  \<open>0002_origin_kind.sql\<close>, the SQL statements of the store as operations on them (SQLite
  enforces UNIQUE, CHECK, foreign keys with ON DELETE CASCADE, and AUTOINCREMENT), and the
  transaction wrapper \<open>withTx\<close> of \<open>store.go\<close>.

  A table is the list of its rows in insertion order. A statement may fail for reasons the
  program cannot see (disk, lock): \<open>sql_fails\<close> of the environment says which one does, by
  its label and a distinguishing number; a statement that violates a constraint fails too.
\<close>

section \<open>Environment and errors\<close>

datatype store_error = ErrNotFound | ErrNameTaken | ErrIPInUse | ErrPortConflict
  | ErrInvalidInput | ErrDriver string

record env =
  nowTimestamp :: string
  sql_fails :: "string \<Rightarrow> int \<Rightarrow> bool"

text \<open>Running a statement: \<open>None\<close> as its outcome is a constraint violation.\<close>

definition exec_sql :: "env \<Rightarrow> string \<Rightarrow> int \<Rightarrow> 'a option \<Rightarrow> store_error + 'a" where
  "exec_sql ev lbl i r = (if sql_fails ev lbl i then Inl (ErrDriver lbl)
     else case r of None \<Rightarrow> Inl (ErrDriver lbl) | Some x \<Rightarrow> Inr x)"

lemma exec_sql_Inr [result_simps]:
  "exec_sql ev lbl i r = Inr x \<longleftrightarrow> \<not> sql_fails ev lbl i \<and> r = Some x"
  by (auto simp: exec_sql_def split: option.splits)

lemma exec_sql_ok [simp]: "\<not> sql_fails ev lbl i \<Longrightarrow> exec_sql ev lbl i (Some x) = Inr x"
  by (simp add: exec_sql_def)

lemma exec_sql_Inl [result_simps]:
  "exec_sql ev lbl i r = Inl e \<longleftrightarrow> e = ErrDriver lbl \<and> (sql_fails ev lbl i \<or> r = None)"
  by (auto simp: exec_sql_def split: option.splits)

section \<open>Tables\<close>

text \<open>
  \<open>User\<close> of \<open>users.go\<close>; a row of \<open>users\<close> has the nullable columns \<open>email\<close> and \<open>endpoint\<close>
  as options, so the record is polymorphic in their type.
\<close>

record 'c user =
  u_id :: int
  u_name :: string
  u_email :: 'c
  u_public_key :: string
  u_private_key :: string
  u_preshared_key :: string
  u_ip :: string
  u_endpoint :: 'c
  u_created :: string
  u_updated :: string

record user_group =
  ug_id :: int
  ug_name :: string
  ug_lan_mode :: bool
  ug_created :: string
  ug_updated :: string

record service_port =
  sp_id :: int
  sp_service :: int
  sp_port :: int
  sp_protocol :: string

record 'c service_row =
  s_id :: int
  s_name :: string
  s_hostname :: string
  s_origin :: spec
  s_ip :: string
  s_description :: 'c
  s_created :: string
  s_updated :: string

record service_group =
  sg_id :: int
  sg_name :: string
  sg_created :: string
  sg_updated :: string

record policy_rule =
  r_id :: int
  r_subject_type :: string
  r_subject_id :: int
  r_object_type :: string
  r_object_id :: int
  r_action :: string
  r_created :: string
  r_updated :: string

text \<open>The tables, and the AUTOINCREMENT counters (\<open>sqlite_sequence\<close>).\<close>

record db =
  t_users :: "string option user list"
  t_user_groups :: "user_group list"
  t_ug_members :: "(int \<times> int) list"
  t_services :: "string option service_row list"
  t_ports :: "service_port list"
  t_service_groups :: "service_group list"
  t_sg_members :: "(int \<times> int) list"
  t_rules :: "policy_rule list"
  t_settings :: "(string \<times> string) list"
  q_users :: int
  q_user_groups :: int
  q_services :: int
  q_ports :: int
  q_service_groups :: int
  q_rules :: int

definition empty_db :: db where
  "empty_db = \<lparr>t_users = [], t_user_groups = [], t_ug_members = [], t_services = [],
     t_ports = [], t_service_groups = [], t_sg_members = [], t_rules = [], t_settings = [],
     q_users = 0, q_user_groups = 0, q_services = 0, q_ports = 0, q_service_groups = 0,
     q_rules = 0\<rparr>"

section \<open>Rows\<close>

text \<open>The AUTOINCREMENT id of a new row: one more than any before, while 64 bits last.\<close>

definition next_rowid :: "int \<Rightarrow> int option" where
  "next_rowid q = (if q < max_int64 then Some (q + 1) else None)"

definition no_row :: "('r \<Rightarrow> 'k) \<Rightarrow> 'k \<Rightarrow> 'r list \<Rightarrow> bool" where
  "no_row key k t = list_all (\<lambda>r. key r \<noteq> k) t"

definition other_row_has :: "('r \<Rightarrow> int) \<Rightarrow> int \<Rightarrow> ('r \<Rightarrow> 'k) \<Rightarrow> 'k \<Rightarrow> 'r list \<Rightarrow> bool" where
  "other_row_has idf i key k t = list_ex (\<lambda>r. idf r \<noteq> i \<and> key r = k) t"

definition update_rows :: "('r \<Rightarrow> int) \<Rightarrow> int \<Rightarrow> ('r \<Rightarrow> 'r) \<Rightarrow> 'r list \<Rightarrow> 'r list" where
  "update_rows idf i f t = map (\<lambda>r. if idf r = i then f r else r) t"

definition row_by :: "('r \<Rightarrow> 'k) \<Rightarrow> 'k \<Rightarrow> 'r list \<Rightarrow> 'r option" where
  "row_by key k t = List.find (\<lambda>r. key r = k) t"

definition has_id :: "('r \<Rightarrow> int) \<Rightarrow> 'r list \<Rightarrow> int \<Rightarrow> bool" where
  "has_id idf t i = list_ex (\<lambda>r. idf r = i) t"

definition order_by :: "('r \<Rightarrow> int) \<Rightarrow> 'r list \<Rightarrow> 'r list" where
  "order_by idf t = sort_key idf t"

definition nullableString :: "string \<Rightarrow> string option" where
  "nullableString s = (if s = [] then None else Some s)"

definition coalesce :: "string option \<Rightarrow> string" where
  "coalesce c = (case c of None \<Rightarrow> [] | Some s \<Rightarrow> s)"

lemma coalesce_nullable [simp]: "coalesce (nullableString s) = s"
  by (simp add: coalesce_def nullableString_def)

lemma no_row_iff: "no_row key k t \<longleftrightarrow> k \<notin> key ` set t"
  by (auto simp: no_row_def list_all_iff)

lemma other_row_has_iff:
  "other_row_has idf i key k t \<longleftrightarrow> (\<exists>r\<in>set t. idf r \<noteq> i \<and> key r = k)"
  by (auto simp: other_row_has_def list_ex_iff)

lemma has_id_iff: "has_id idf t i \<longleftrightarrow> i \<in> idf ` set t"
  by (auto simp: has_id_def list_ex_iff)

lemma row_by_Some: "row_by key k t = Some r \<Longrightarrow> r \<in> set t \<and> key r = k"
  by (auto simp: row_by_def dest: find_SomeD)

lemma row_by_None: "row_by key k t = None \<longleftrightarrow> k \<notin> key ` set t"
  by (auto simp: row_by_def find_None_all)

lemma row_by_unique:
  "\<lbrakk>distinct (map key t); r \<in> set t\<rbrakk> \<Longrightarrow> row_by key (key r) t = Some r"
  by (simp add: row_by_def find_key_unique)

lemma set_order_by [simp]: "set (order_by idf t) = set t"
  by (simp add: order_by_def)

lemma order_by_sorted: "sorted_wrt (<) (map idf t) \<Longrightarrow> order_by idf t = t"
  by (simp add: order_by_def sorted_sort_id sort_key_id_if_sorted strict_sorted_imp_sorted)

lemma update_rows_ids: "(\<And>r. idf (f r) = idf r) \<Longrightarrow> map idf (update_rows idf i f t) = map idf t"
  by (simp add: update_rows_def)

lemma set_update_rows:
  "set (update_rows idf i f t) = (\<lambda>r. if idf r = i then f r else r) ` set t"
  by (simp add: update_rows_def)

section \<open>Statements\<close>

definition sql_insert_user ::
  "string \<Rightarrow> string option \<Rightarrow> string \<Rightarrow> string \<Rightarrow> string \<Rightarrow> string \<Rightarrow> string option \<Rightarrow> string \<Rightarrow> db
    \<Rightarrow> (int \<times> db) option" where
  "sql_insert_user nm email pub priv psk ip endp now d =
    (if no_row u_name nm (t_users d) \<and> no_row u_ip ip (t_users d) then
       (case next_rowid (q_users d) of None \<Rightarrow> None
        | Some i \<Rightarrow> Some (i, d\<lparr>q_users := i, t_users := t_users d @
            [\<lparr>u_id = i, u_name = nm, u_email = email, u_public_key = pub, u_private_key = priv,
              u_preshared_key = psk, u_ip = ip, u_endpoint = endp, u_created = now,
              u_updated = now\<rparr>]\<rparr>))
     else None)"

definition sql_update_user ::
  "int \<Rightarrow> string \<Rightarrow> string option \<Rightarrow> string option \<Rightarrow> string \<Rightarrow> db \<Rightarrow> db option" where
  "sql_update_user i nm email endp now d =
    (if other_row_has u_id i u_name nm (t_users d) then None
     else Some (d\<lparr>t_users := update_rows u_id i
       (\<lambda>r. r\<lparr>u_name := nm, u_email := email, u_endpoint := endp, u_updated := now\<rparr>)
       (t_users d)\<rparr>))"

definition sql_delete_user :: "int \<Rightarrow> db \<Rightarrow> db" where
  "sql_delete_user i d = d\<lparr>t_users := filter (\<lambda>r. u_id r \<noteq> i) (t_users d),
     t_ug_members := filter (\<lambda>(uid, gid). uid \<noteq> i) (t_ug_members d)\<rparr>"

definition sql_insert_user_group ::
  "string \<Rightarrow> bool \<Rightarrow> string \<Rightarrow> db \<Rightarrow> (int \<times> db) option" where
  "sql_insert_user_group nm lan now d =
    (if no_row ug_name nm (t_user_groups d) then
       (case next_rowid (q_user_groups d) of None \<Rightarrow> None
        | Some i \<Rightarrow> Some (i, d\<lparr>q_user_groups := i, t_user_groups := t_user_groups d @
            [\<lparr>ug_id = i, ug_name = nm, ug_lan_mode = lan, ug_created = now, ug_updated = now\<rparr>]\<rparr>))
     else None)"

definition sql_update_user_group ::
  "int \<Rightarrow> string \<Rightarrow> bool \<Rightarrow> string \<Rightarrow> db \<Rightarrow> db option" where
  "sql_update_user_group i nm lan now d =
    (if other_row_has ug_id i ug_name nm (t_user_groups d) then None
     else Some (d\<lparr>t_user_groups := update_rows ug_id i
       (\<lambda>r. r\<lparr>ug_name := nm, ug_lan_mode := lan, ug_updated := now\<rparr>) (t_user_groups d)\<rparr>))"

definition sql_delete_user_group :: "int \<Rightarrow> db \<Rightarrow> db" where
  "sql_delete_user_group i d = d\<lparr>t_user_groups := filter (\<lambda>r. ug_id r \<noteq> i) (t_user_groups d),
     t_ug_members := filter (\<lambda>(uid, gid). gid \<noteq> i) (t_ug_members d)\<rparr>"

text \<open>\<open>INSERT OR IGNORE\<close>: a duplicate key is no error, a missing foreign key is.\<close>

definition sql_add_ug_member :: "int \<Rightarrow> int \<Rightarrow> db \<Rightarrow> db option" where
  "sql_add_ug_member uid gid d =
    (if \<not> has_id u_id (t_users d) uid \<or> \<not> has_id ug_id (t_user_groups d) gid then None
     else if (uid, gid) \<in> set (t_ug_members d) then Some d
     else Some (d\<lparr>t_ug_members := t_ug_members d @ [(uid, gid)]\<rparr>))"

definition sql_remove_ug_member :: "int \<Rightarrow> int \<Rightarrow> db \<Rightarrow> db" where
  "sql_remove_ug_member uid gid d = d\<lparr>t_ug_members := removeAll (uid, gid) (t_ug_members d)\<rparr>"

definition origin_kind_check :: "string \<Rightarrow> bool" where
  "origin_kind_check k \<longleftrightarrow> k = [] \<or> Valid k"

definition sql_insert_service ::
  "string \<Rightarrow> string \<Rightarrow> spec \<Rightarrow> string \<Rightarrow> string option \<Rightarrow> string \<Rightarrow> db \<Rightarrow> (int \<times> db) option" where
  "sql_insert_service nm host org ip descr now d =
    (if no_row s_name nm (t_services d) \<and> no_row s_hostname host (t_services d)
        \<and> no_row s_ip ip (t_services d) \<and> origin_kind_check (o_kind org) then
       (case next_rowid (q_services d) of None \<Rightarrow> None
        | Some i \<Rightarrow> Some (i, d\<lparr>q_services := i, t_services := t_services d @
            [\<lparr>s_id = i, s_name = nm, s_hostname = host, s_origin = org, s_ip = ip,
              s_description = descr, s_created = now, s_updated = now\<rparr>]\<rparr>))
     else None)"

definition sql_update_service ::
  "int \<Rightarrow> string \<Rightarrow> string \<Rightarrow> spec \<Rightarrow> string \<Rightarrow> string option \<Rightarrow> string \<Rightarrow> db \<Rightarrow> db option" where
  "sql_update_service i nm host org ip descr now d =
    (if other_row_has s_id i s_name nm (t_services d)
        \<or> other_row_has s_id i s_hostname host (t_services d)
        \<or> other_row_has s_id i s_ip ip (t_services d) \<or> \<not> origin_kind_check (o_kind org) then None
     else Some (d\<lparr>t_services := update_rows s_id i
       (\<lambda>r. r\<lparr>s_name := nm, s_hostname := host, s_origin := org, s_ip := ip,
              s_description := descr, s_updated := now\<rparr>) (t_services d)\<rparr>))"

definition sql_delete_service :: "int \<Rightarrow> db \<Rightarrow> db" where
  "sql_delete_service i d = d\<lparr>t_services := filter (\<lambda>r. s_id r \<noteq> i) (t_services d),
     t_ports := filter (\<lambda>p. sp_service p \<noteq> i) (t_ports d),
     t_sg_members := filter (\<lambda>(sid, gid). sid \<noteq> i) (t_sg_members d)\<rparr>"

definition sql_clear_ports :: "int \<Rightarrow> db \<Rightarrow> db" where
  "sql_clear_ports i d = d\<lparr>t_ports := filter (\<lambda>p. sp_service p \<noteq> i) (t_ports d)\<rparr>"

definition sql_insert_port :: "int \<Rightarrow> int \<Rightarrow> string \<Rightarrow> db \<Rightarrow> (int \<times> db) option" where
  "sql_insert_port sid p proto d =
    (if has_id s_id (t_services d) sid \<and> proto \<in> {''tcp'', ''udp''}
        \<and> no_row (\<lambda>r. (sp_service r, sp_port r, sp_protocol r)) (sid, p, proto) (t_ports d) then
       (case next_rowid (q_ports d) of None \<Rightarrow> None
        | Some i \<Rightarrow> Some (i, d\<lparr>q_ports := i, t_ports := t_ports d @
            [\<lparr>sp_id = i, sp_service = sid, sp_port = p, sp_protocol = proto\<rparr>]\<rparr>))
     else None)"

definition sql_insert_service_group :: "string \<Rightarrow> string \<Rightarrow> db \<Rightarrow> (int \<times> db) option" where
  "sql_insert_service_group nm now d =
    (if no_row sg_name nm (t_service_groups d) then
       (case next_rowid (q_service_groups d) of None \<Rightarrow> None
        | Some i \<Rightarrow> Some (i, d\<lparr>q_service_groups := i, t_service_groups := t_service_groups d @
            [\<lparr>sg_id = i, sg_name = nm, sg_created = now, sg_updated = now\<rparr>]\<rparr>))
     else None)"

definition sql_update_service_group :: "int \<Rightarrow> string \<Rightarrow> string \<Rightarrow> db \<Rightarrow> db option" where
  "sql_update_service_group i nm now d =
    (if other_row_has sg_id i sg_name nm (t_service_groups d) then None
     else Some (d\<lparr>t_service_groups := update_rows sg_id i
       (\<lambda>r. r\<lparr>sg_name := nm, sg_updated := now\<rparr>) (t_service_groups d)\<rparr>))"

definition sql_delete_service_group :: "int \<Rightarrow> db \<Rightarrow> db" where
  "sql_delete_service_group i d =
    d\<lparr>t_service_groups := filter (\<lambda>r. sg_id r \<noteq> i) (t_service_groups d),
      t_sg_members := filter (\<lambda>(sid, gid). gid \<noteq> i) (t_sg_members d)\<rparr>"

definition sql_add_sg_member :: "int \<Rightarrow> int \<Rightarrow> db \<Rightarrow> db option" where
  "sql_add_sg_member sid gid d =
    (if \<not> has_id s_id (t_services d) sid \<or> \<not> has_id sg_id (t_service_groups d) gid then None
     else if (sid, gid) \<in> set (t_sg_members d) then Some d
     else Some (d\<lparr>t_sg_members := t_sg_members d @ [(sid, gid)]\<rparr>))"

definition sql_remove_sg_member :: "int \<Rightarrow> int \<Rightarrow> db \<Rightarrow> db" where
  "sql_remove_sg_member sid gid d = d\<lparr>t_sg_members := removeAll (sid, gid) (t_sg_members d)\<rparr>"

definition validSubject :: "string \<Rightarrow> bool" where
  "validSubject t \<longleftrightarrow> t \<in> {''user'', ''user_group''}"

definition validObject :: "string \<Rightarrow> bool" where
  "validObject t \<longleftrightarrow> t \<in> {''user'', ''user_group'', ''service'', ''service_group''}"

definition validAction :: "string \<Rightarrow> bool" where
  "validAction a \<longleftrightarrow> a \<in> {''allow'', ''deny''}"

definition sql_insert_rule ::
  "string \<Rightarrow> int \<Rightarrow> string \<Rightarrow> int \<Rightarrow> string \<Rightarrow> string \<Rightarrow> db \<Rightarrow> (int \<times> db) option" where
  "sql_insert_rule st si ot oi act now d =
    (if validSubject st \<and> validObject ot \<and> validAction act then
       (case next_rowid (q_rules d) of None \<Rightarrow> None
        | Some i \<Rightarrow> Some (i, d\<lparr>q_rules := i, t_rules := t_rules d @
            [\<lparr>r_id = i, r_subject_type = st, r_subject_id = si, r_object_type = ot,
              r_object_id = oi, r_action = act, r_created = now, r_updated = now\<rparr>]\<rparr>))
     else None)"

definition sql_update_rule :: "int \<Rightarrow> string \<Rightarrow> string \<Rightarrow> db \<Rightarrow> db option" where
  "sql_update_rule i act now d =
    (if validAction act then
       Some (d\<lparr>t_rules := update_rows r_id i (\<lambda>r. r\<lparr>r_action := act, r_updated := now\<rparr>)
         (t_rules d)\<rparr>)
     else None)"

definition sql_delete_rules :: "(policy_rule \<Rightarrow> bool) \<Rightarrow> db \<Rightarrow> db" where
  "sql_delete_rules p d = d\<lparr>t_rules := filter (\<lambda>r. \<not> p r) (t_rules d)\<rparr>"

definition sql_upsert_setting :: "string \<Rightarrow> string \<Rightarrow> db \<Rightarrow> db" where
  "sql_upsert_setting k v d = d\<lparr>t_settings := AList.update k v (t_settings d)\<rparr>"

section \<open>Transactions\<close>

text \<open>
  \<open>withTx\<close>: the result, the database after it, and the kinds of change told to the
  subscribers. A Go function also returns a zero value beside an error; the model drops it.
\<close>

definition withTx ::
  "env \<Rightarrow> string \<Rightarrow> (db \<Rightarrow> store_error + 'a \<times> db) \<Rightarrow> db
    \<Rightarrow> (store_error + 'a) \<times> db \<times> string list" where
  "withTx ev kind fn d =
    (if sql_fails ev ''begin tx'' 0 then (Inl (ErrDriver ''begin tx''), d, [])
     else case fn d of
       Inl e \<Rightarrow> (Inl e, d, [])
     | Inr (x, d') \<Rightarrow>
        (if sql_fails ev ''commit'' 0 then (Inl (ErrDriver ''commit''), d, [])
         else (Inr x, d', if kind \<noteq> [] then [kind] else [])))"

text \<open>What a transaction body owes the store, and what the store gets from \<open>withTx\<close>.\<close>

locale tx_body =
  fixes I :: "db \<Rightarrow> bool"
    and body :: "db \<Rightarrow> store_error + 'a \<times> db"
  assumes body_keeps: "\<lbrakk>I d; body d = Inr (x, d')\<rbrakk> \<Longrightarrow> I d'"
begin

lemma keeps: "I d \<Longrightarrow> withTx ev kind body d = (r, d', ks) \<Longrightarrow> I d'"
  by (auto simp: withTx_def split: if_splits sum.splits prod.splits intro: body_keeps)

end

lemma withTx_error: "withTx ev kind body d = (Inl e, d', ks) \<Longrightarrow> d' = d \<and> ks = []"
  by (auto simp: withTx_def split: if_splits sum.splits prod.splits)

lemma withTx_ok:
  "withTx ev kind body d = (Inr x, d', ks) \<Longrightarrow>
    body d = Inr (x, d') \<and> ks = (if kind \<noteq> [] then [kind] else [])"
  by (auto simp: withTx_def split: if_splits sum.splits prod.splits)

lemma withTx_run:
  "\<lbrakk>\<not> sql_fails ev ''begin tx'' 0; \<not> sql_fails ev ''commit'' 0\<rbrakk> \<Longrightarrow>
   withTx ev kind body d = (case body d of Inl e \<Rightarrow> (Inl e, d, [])
     | Inr (x, d') \<Rightarrow> (Inr x, d', if kind \<noteq> [] then [kind] else []))"
  by (auto simp: withTx_def split: sum.splits)

end
