(* ===== verification/Invariant.thy ===== *)
theory Invariant
  imports Database
begin

text \<open>
  The well-formedness of a database, \<open>db_wf\<close>, and its preservation by each statement of
  \<open>Database\<close> under the checks that the store makes before it. Beyond what the schema
  enforces, it says that users and user groups share one namespace, services and service
  groups another, users and services one set of addresses, and that policy rules refer to rows
  that exist (their ids are no foreign keys of the schema).
\<close>

named_theorems wf_intro \<open>preservation of well-formedness\<close>

section \<open>Keys of a table\<close>

definition ids_ok :: "int \<Rightarrow> int list \<Rightarrow> bool" where
  "ids_ok q is \<longleftrightarrow> sorted_wrt (<) is \<and> list_all (\<lambda>i. 0 < i \<and> i \<le> q) is \<and> 0 \<le> q \<and> q \<le> max_int64"

lemma ids_ok_distinct: "ids_ok q is \<Longrightarrow> distinct is"
  by (auto simp: ids_ok_def strict_sorted_iff)

lemma ids_ok_append:
  "\<lbrakk>ids_ok q is; next_rowid q = Some i\<rbrakk> \<Longrightarrow> ids_ok i (is @ [i])"
  by (auto simp: ids_ok_def next_rowid_def sorted_wrt_append list_all_iff split: if_splits)

lemma ids_ok_filter: "ids_ok q (map f t) \<Longrightarrow> ids_ok q (map f (filter P t))"
proof -
  have "sorted_wrt (<) (map f t) \<Longrightarrow> sorted_wrt (<) (map f (filter P t))"
    by (induction t) auto
  then show "ids_ok q (map f t) \<Longrightarrow> ids_ok q (map f (filter P t))"
    by (auto simp: ids_ok_def list_all_iff)
qed

lemma ids_ok_fresh: "\<lbrakk>ids_ok q is; next_rowid q = Some i\<rbrakk> \<Longrightarrow> i \<notin> set is \<and> 0 < i"
  by (auto simp: ids_ok_def next_rowid_def list_all_iff split: if_splits)

lemma distinct_update_rows:
  assumes "distinct (map idf t)" and "distinct (map key t @ others)"
    and "\<And>r. key (f r) = k"
    and "\<not> other_row_has idf i key k t" and "k \<notin> set others"
  shows "distinct (map key (update_rows idf i f t) @ others)"
proof -
  have "distinct (map key (update_rows idf i f t))"
    using assms(1,2,4)
  proof (induction t)
    case (Cons r t)
    have no: "key r' \<noteq> k" if "r' \<in> set t" "idf r' \<noteq> i" for r'
      using Cons.prems(3) that by (auto simp: other_row_has_iff)
    have IH: "distinct (map key (update_rows idf i f t))"
      using Cons.prems by (intro Cons.IH) (auto simp: other_row_has_iff)
    have "(if idf r = i then k else key r) \<notin> key ` set (update_rows idf i f t)"
    proof (cases "idf r = i")
      case True
      then have "\<And>r'. r' \<in> set t \<Longrightarrow> idf r' \<noteq> i" using Cons.prems(1) by (force simp: image_iff)
      then show ?thesis using True no by (auto simp: set_update_rows)
    next
      case False
      then have "key r \<noteq> k" using Cons.prems(3) by (auto simp: other_row_has_iff)
      then show ?thesis using False Cons.prems(2) assms(3) by (auto simp: set_update_rows)
    qed
    then show ?case using IH assms(3) by (auto simp: update_rows_def)
  qed (simp add: update_rows_def)
  then show ?thesis using assms(2,3,5) by (auto simp: set_update_rows)
qed

lemma update_rows_key: "(\<And>r. key (f r) = key r) \<Longrightarrow> map key (update_rows idf i f t) = map key t"
  by (simp add: update_rows_def)

lemma update_rows_same_key:
  assumes "distinct (map idf t)" "r0 \<in> set t" "idf r0 = i" "\<And>r. key (f r) = key r0"
  shows "map key (update_rows idf i f t) = map key t"
proof -
  have "key (if idf r = i then f r else r) = key r" if "r \<in> set t" for r
    using assms that by (auto simp: distinct_map dest: inj_onD)
  then show ?thesis by (simp add: update_rows_def)
qed

lemma distinct_map_filter_append:
  "distinct (map f t @ others) \<Longrightarrow> distinct (map f (filter P t) @ others)"
  by (auto simp: distinct_map_filter)

section \<open>The invariant\<close>

definition principal_names :: "db \<Rightarrow> string list" where
  "principal_names d = map u_name (t_users d) @ map ug_name (t_user_groups d)"

definition object_names :: "db \<Rightarrow> string list" where
  "object_names d = map s_name (t_services d) @ map sg_name (t_service_groups d)"

definition addresses :: "db \<Rightarrow> string list" where
  "addresses d = map u_ip (t_users d) @ map s_ip (t_services d)"

definition row_exists :: "db \<Rightarrow> string \<Rightarrow> int \<Rightarrow> bool" where
  "row_exists d kind i \<longleftrightarrow> (kind = ''user'' \<and> has_id u_id (t_users d) i)
    \<or> (kind = ''user_group'' \<and> has_id ug_id (t_user_groups d) i)
    \<or> (kind = ''service'' \<and> has_id s_id (t_services d) i)
    \<or> (kind = ''service_group'' \<and> has_id sg_id (t_service_groups d) i)"

definition rule_ok :: "db \<Rightarrow> policy_rule \<Rightarrow> bool" where
  "rule_ok d r \<longleftrightarrow> validSubject (r_subject_type r) \<and> validObject (r_object_type r)
    \<and> validAction (r_action r) \<and> row_exists d (r_subject_type r) (r_subject_id r)
    \<and> row_exists d (r_object_type r) (r_object_id r)"

definition rule_key :: "policy_rule \<Rightarrow> string \<times> int \<times> string \<times> int" where
  "rule_key r = (r_subject_type r, r_subject_id r, r_object_type r, r_object_id r)"

definition port_key :: "service_port \<Rightarrow> int \<times> int \<times> string" where
  "port_key p = (sp_service p, sp_port p, sp_protocol p)"

definition port_valid :: "int \<Rightarrow> string \<Rightarrow> bool" where
  "port_valid p proto \<longleftrightarrow> 0 < p \<and> p \<le> 65535 \<and> proto \<in> {''tcp'', ''udp''}"

definition wf_ids :: "db \<Rightarrow> bool" where
  "wf_ids d \<longleftrightarrow> ids_ok (q_users d) (map u_id (t_users d))
    \<and> ids_ok (q_user_groups d) (map ug_id (t_user_groups d))
    \<and> ids_ok (q_services d) (map s_id (t_services d))
    \<and> ids_ok (q_ports d) (map sp_id (t_ports d))
    \<and> ids_ok (q_service_groups d) (map sg_id (t_service_groups d))
    \<and> ids_ok (q_rules d) (map r_id (t_rules d))"

definition wf_names :: "db \<Rightarrow> bool" where
  "wf_names d \<longleftrightarrow> distinct (principal_names d) \<and> distinct (object_names d)
    \<and> distinct (addresses d) \<and> distinct (map s_hostname (t_services d))
    \<and> distinct (map fst (t_settings d))"

definition wf_members :: "db \<Rightarrow> bool" where
  "wf_members d \<longleftrightarrow> distinct (t_ug_members d) \<and> distinct (t_sg_members d)
    \<and> (\<forall>m\<in>set (t_ug_members d). has_id u_id (t_users d) (fst m) \<and> has_id ug_id (t_user_groups d) (snd m))
    \<and> (\<forall>m\<in>set (t_sg_members d). has_id s_id (t_services d) (fst m)
         \<and> has_id sg_id (t_service_groups d) (snd m))"

definition wf_services :: "db \<Rightarrow> bool" where
  "wf_services d \<longleftrightarrow> (\<forall>s\<in>set (t_services d). spec_ok (s_origin s))
    \<and> distinct (map port_key (t_ports d))
    \<and> (\<forall>p\<in>set (t_ports d). port_valid (sp_port p) (sp_protocol p)
         \<and> has_id s_id (t_services d) (sp_service p))"

definition wf_rules :: "db \<Rightarrow> bool" where
  "wf_rules d \<longleftrightarrow> distinct (map rule_key (t_rules d)) \<and> (\<forall>r\<in>set (t_rules d). rule_ok d r)"

definition db_wf :: "db \<Rightarrow> bool" where
  "db_wf d \<longleftrightarrow> wf_ids d \<and> wf_names d \<and> wf_members d \<and> wf_services d \<and> wf_rules d"

lemmas wf_unfold = db_wf_def wf_ids_def wf_names_def wf_members_def wf_services_def wf_rules_def

lemma db_wf_empty: "db_wf empty_db"
  by (simp add: wf_unfold empty_db_def ids_ok_def max_int64_def principal_names_def
      object_names_def addresses_def)


section \<open>Statements keep the invariant\<close>

lemma has_id_append [simp]: "has_id f (t @ u) i \<longleftrightarrow> has_id f t i \<or> has_id f u i"
  by (simp add: has_id_def)

lemma has_id_Cons [simp]: "has_id f (r # t) i \<longleftrightarrow> f r = i \<or> has_id f t i"
  by (simp add: has_id_def)

lemma has_id_Nil [simp]: "\<not> has_id f [] i"
  by (simp add: has_id_def)

lemma has_id_filter [simp]: "has_id f (filter (\<lambda>r. f r \<noteq> i) t) j \<longleftrightarrow> has_id f t j \<and> j \<noteq> i"
  by (auto simp: has_id_def list_ex_iff)

lemma has_id_update [simp]:
  "(\<And>r. f (g r) = f r) \<Longrightarrow> has_id f (update_rows f i g t) j \<longleftrightarrow> has_id f t j"
  by (simp add: has_id_iff flip: set_map) (simp add: update_rows_ids)

lemma rules_mono:
  assumes "wf_rules d" and "t_rules d' = t_rules d"
    and "\<And>k j. row_exists d k j \<Longrightarrow> row_exists d' k j"
  shows "wf_rules d'"
  using assms by (auto simp: wf_rules_def rule_ok_def)

lemma rules_mono_tables:
  assumes "db_wf d" and "t_rules d' = t_rules d"
    and "\<And>j. has_id u_id (t_users d) j \<Longrightarrow> has_id u_id (t_users d') j"
    and "\<And>j. has_id ug_id (t_user_groups d) j \<Longrightarrow> has_id ug_id (t_user_groups d') j"
    and "\<And>j. has_id s_id (t_services d) j \<Longrightarrow> has_id s_id (t_services d') j"
    and "\<And>j. has_id sg_id (t_service_groups d) j \<Longrightarrow> has_id sg_id (t_service_groups d') j"
  shows "wf_rules d'"
proof (rule rules_mono [OF _ assms(2)])
  show "wf_rules d" using assms(1) by (simp add: db_wf_def)
  fix k j
  assume "row_exists d k j"
  then show "row_exists d' k j" unfolding row_exists_def using assms(3-6) by blast
qed

text \<open>No rule mentions the row, so it may go.\<close>

definition unreferenced :: "db \<Rightarrow> string \<Rightarrow> int \<Rightarrow> bool" where
  "unreferenced d kind i \<longleftrightarrow> (\<forall>r\<in>set (t_rules d).
     (r_subject_type r, r_subject_id r) \<noteq> (kind, i) \<and> (r_object_type r, r_object_id r) \<noteq> (kind, i))"

lemma rules_unreferenced:
  assumes "db_wf d" and "t_rules d' = t_rules d" and "unreferenced d kind i"
    and "\<And>k j. row_exists d k j \<Longrightarrow> (k, j) \<noteq> (kind, i) \<Longrightarrow> row_exists d' k j"
  shows "wf_rules d'"
proof -
  have "rule_ok d' r" if "r \<in> set (t_rules d)" for r
  proof -
    have "rule_ok d r" using assms(1) that by (simp add: db_wf_def wf_rules_def)
    moreover have "(r_subject_type r, r_subject_id r) \<noteq> (kind, i)"
      "(r_object_type r, r_object_id r) \<noteq> (kind, i)"
      using assms(3) that by (auto simp: unreferenced_def)
    ultimately show ?thesis using assms(4) unfolding rule_ok_def by blast
  qed
  then show ?thesis using assms(1,2) by (simp add: db_wf_def wf_rules_def)
qed

lemma wf_delete_rules: "db_wf d \<Longrightarrow> db_wf (sql_delete_rules p d)"
  by (simp add: sql_delete_rules_def wf_unfold principal_names_def object_names_def
      addresses_def rule_ok_def row_exists_def ids_ok_filter distinct_map_filter)

lemma unreferenced_scrub:
  "(\<And>r. r \<in> set (t_rules d) \<Longrightarrow> (r_subject_type r, r_subject_id r) = (kind, i)
      \<or> (r_object_type r, r_object_id r) = (kind, i) \<Longrightarrow> p r)
    \<Longrightarrow> unreferenced (sql_delete_rules p d) kind i"
  by (auto simp: unreferenced_def sql_delete_rules_def)

lemma wf_insert_user:
  assumes "db_wf d" and "sql_insert_user nm email pub priv psk ip endp now d = Some (i, d')"
    and "nm \<notin> set (principal_names d)" and "ip \<notin> set (addresses d)"
  shows "db_wf d'"
proof -
  from assms(2) have q: "next_rowid (q_users d) = Some i"
    by (auto simp: sql_insert_user_def split: if_splits option.splits)
  with assms(2) have d': "d' = d\<lparr>q_users := i, t_users := t_users d @
      [\<lparr>u_id = i, u_name = nm, u_email = email, u_public_key = pub, u_private_key = priv,
        u_preshared_key = psk, u_ip = ip, u_endpoint = endp, u_created = now, u_updated = now\<rparr>]\<rparr>"
    by (auto simp: sql_insert_user_def split: if_splits)
  have "wf_rules d'"
    using assms(1) by (rule rules_mono_tables) (simp_all add: d')
  moreover have "wf_ids d'"
    using assms(1) ids_ok_append [OF _ q, of "map u_id (t_users d)"]
    by (simp add: db_wf_def d' wf_ids_def)
  moreover have "wf_names d'"
    using assms(1,3,4) by (simp add: db_wf_def d' wf_names_def principal_names_def
        object_names_def addresses_def)
  moreover have "wf_members d'" "wf_services d'"
    using assms(1) by (simp_all add: db_wf_def d' wf_members_def wf_services_def)
  ultimately show ?thesis by (simp add: db_wf_def)
qed

lemma wf_update_user:
  assumes "db_wf d" and "sql_update_user i nm email endp now d = Some d'"
    and "\<And>r. r \<in> set (t_user_groups d) \<Longrightarrow> ug_name r \<noteq> nm"
  shows "db_wf d'"
proof -
  let ?f = "\<lambda>r. r\<lparr>u_name := nm, u_email := email, u_endpoint := endp, u_updated := now\<rparr>"
  from assms(2) have no: "\<not> other_row_has u_id i u_name nm (t_users d)"
    and d': "d' = d\<lparr>t_users := update_rows u_id i ?f (t_users d)\<rparr>"
    by (auto simp: sql_update_user_def split: if_splits)
  have ids: "distinct (map u_id (t_users d))"
    using assms(1) by (auto simp: db_wf_def wf_ids_def dest: ids_ok_distinct)
  have "distinct (map u_name (update_rows u_id i ?f (t_users d)) @ map ug_name (t_user_groups d))"
    using assms(1,3) ids no
    by (intro distinct_update_rows) (auto simp: db_wf_def wf_names_def principal_names_def)
  moreover have "map u_ip (update_rows u_id i ?f (t_users d)) = map u_ip (t_users d)"
    "map u_id (update_rows u_id i ?f (t_users d)) = map u_id (t_users d)"
    by (simp_all add: update_rows_key)
  moreover have "wf_rules d'"
    using assms(1) by (rule rules_mono_tables) (simp_all add: d')
  ultimately have "wf_rules d'" "wf_names d'" "wf_ids d'" "wf_members d'" "wf_services d'"
    using assms(1)
    by (simp_all add: db_wf_def d' wf_ids_def wf_names_def wf_members_def wf_services_def
        principal_names_def object_names_def addresses_def)
  then show ?thesis by (simp add: db_wf_def)
qed

lemma wf_delete_user:
  assumes wf: "db_wf d" and un: "unreferenced d ''user'' i"
  shows "db_wf (sql_delete_user i d)"
proof -
  let ?d = "sql_delete_user i d"
  have "wf_rules ?d"
    using wf _ un by (rule rules_unreferenced) (auto simp: sql_delete_user_def row_exists_def)
  moreover have "wf_names ?d"
    using wf by (simp add: db_wf_def sql_delete_user_def wf_names_def principal_names_def
        object_names_def addresses_def distinct_map_filter) blast
  moreover have "wf_members ?d"
    using wf by (auto simp: db_wf_def sql_delete_user_def wf_members_def)
  moreover have "wf_ids ?d" "wf_services ?d"
    using wf by (simp_all add: db_wf_def sql_delete_user_def wf_ids_def wf_services_def
        ids_ok_filter)
  ultimately show ?thesis by (simp add: db_wf_def)
qed

lemma wf_insert_user_group:
  assumes wf: "db_wf d" and ins: "sql_insert_user_group nm lan now d = Some (i, d')"
    and "nm \<notin> set (principal_names d)"
  shows "db_wf d'"
proof -
  from ins have q: "next_rowid (q_user_groups d) = Some i"
    by (auto simp: sql_insert_user_group_def split: if_splits option.splits)
  with ins have d': "d' = d\<lparr>q_user_groups := i, t_user_groups := t_user_groups d @
      [\<lparr>ug_id = i, ug_name = nm, ug_lan_mode = lan, ug_created = now, ug_updated = now\<rparr>]\<rparr>"
    by (auto simp: sql_insert_user_group_def split: if_splits)
  have "wf_rules d'" using wf by (rule rules_mono_tables) (simp_all add: d')
  moreover have "wf_ids d'"
    using wf ids_ok_append [OF _ q, of "map ug_id (t_user_groups d)"]
    by (simp add: db_wf_def d' wf_ids_def)
  moreover have "wf_names d'" "wf_members d'" "wf_services d'"
    using wf assms(3) by (simp_all add: db_wf_def d' wf_names_def principal_names_def
        object_names_def addresses_def wf_members_def wf_services_def)
  ultimately show ?thesis by (simp add: db_wf_def)
qed

lemma distinct_append_commute: "distinct (xs @ ys) \<longleftrightarrow> distinct (ys @ xs)"
  by auto

lemma wf_update_user_group:
  assumes wf: "db_wf d" and upd: "sql_update_user_group i nm lan now d = Some d'"
    and "\<And>r. r \<in> set (t_users d) \<Longrightarrow> u_name r \<noteq> nm"
  shows "db_wf d'"
proof -
  let ?t = "update_rows ug_id i (\<lambda>r. r\<lparr>ug_name := nm, ug_lan_mode := lan, ug_updated := now\<rparr>)
    (t_user_groups d)"
  from upd have no: "\<not> other_row_has ug_id i ug_name nm (t_user_groups d)"
    and d': "d' = d\<lparr>t_user_groups := ?t\<rparr>"
    by (auto simp: sql_update_user_group_def split: if_splits)
  have "distinct (map ug_id (t_user_groups d))"
    using wf by (auto simp: db_wf_def wf_ids_def dest: ids_ok_distinct)
  then have "distinct (map ug_name ?t @ map u_name (t_users d))"
    using wf assms(3) no by (intro distinct_update_rows)
      (auto simp: db_wf_def wf_names_def principal_names_def)
  then have "distinct (map u_name (t_users d) @ map ug_name ?t)"
    by (simp only: distinct_append_commute)
  moreover have "map ug_id ?t = map ug_id (t_user_groups d)" by (simp add: update_rows_key)
  moreover have "wf_rules d'" using wf by (rule rules_mono_tables) (simp_all add: d')
  ultimately have "wf_rules d'" "wf_names d'" "wf_ids d'" "wf_members d'" "wf_services d'"
    using wf
    by (simp_all add: db_wf_def d' wf_ids_def wf_names_def wf_members_def wf_services_def
        principal_names_def object_names_def addresses_def)
  then show ?thesis by (simp add: db_wf_def)
qed

lemma wf_delete_user_group:
  assumes wf: "db_wf d" and un: "unreferenced d ''user_group'' i"
  shows "db_wf (sql_delete_user_group i d)"
proof -
  let ?d = "sql_delete_user_group i d"
  have "wf_rules ?d"
    using wf _ un by (rule rules_unreferenced) (auto simp: sql_delete_user_group_def row_exists_def)
  moreover have "wf_names ?d"
    using wf by (simp add: db_wf_def sql_delete_user_group_def wf_names_def principal_names_def
        object_names_def addresses_def distinct_map_filter) blast
  moreover have "wf_members ?d"
    using wf by (auto simp: db_wf_def sql_delete_user_group_def wf_members_def)
  moreover have "wf_ids ?d" "wf_services ?d"
    using wf by (simp_all add: db_wf_def sql_delete_user_group_def wf_ids_def wf_services_def
        ids_ok_filter)
  ultimately show ?thesis by (simp add: db_wf_def)
qed

lemma wf_add_ug_member:
  assumes wf: "db_wf d" and ins: "sql_add_ug_member uid gid d = Some d'"
  shows "db_wf d'"
proof -
  have "d' = d \<or> (has_id u_id (t_users d) uid \<and> has_id ug_id (t_user_groups d) gid
      \<and> (uid, gid) \<notin> set (t_ug_members d) \<and> d' = d\<lparr>t_ug_members := t_ug_members d @ [(uid, gid)]\<rparr>)"
    using ins by (auto simp: sql_add_ug_member_def split: if_splits)
  then show ?thesis
    using wf by (elim disjE) (simp_all add: wf_unfold principal_names_def object_names_def
        addresses_def rule_ok_def row_exists_def)
qed

lemma wf_remove_ug_member: "db_wf d \<Longrightarrow> db_wf (sql_remove_ug_member uid gid d)"
  by (simp add: sql_remove_ug_member_def wf_unfold principal_names_def object_names_def
      addresses_def rule_ok_def row_exists_def distinct_removeAll)

lemma wf_insert_service:
  assumes wf: "db_wf d" and ins: "sql_insert_service nm host org ip descr now d = Some (i, d')"
    and "nm \<notin> set (object_names d)" and "ip \<notin> set (addresses d)" and "spec_ok org"
  shows "db_wf d'"
proof -
  from ins have q: "next_rowid (q_services d) = Some i"
    and host: "host \<notin> s_hostname ` set (t_services d)"
    by (auto simp: sql_insert_service_def no_row_iff split: if_splits option.splits)
  with ins have d': "d' = d\<lparr>q_services := i, t_services := t_services d @
      [\<lparr>s_id = i, s_name = nm, s_hostname = host, s_origin = org, s_ip = ip,
        s_description = descr, s_created = now, s_updated = now\<rparr>]\<rparr>"
    by (auto simp: sql_insert_service_def split: if_splits)
  have "wf_rules d'" using wf by (rule rules_mono_tables) (simp_all add: d')
  moreover have "wf_ids d'"
    using wf ids_ok_append [OF _ q, of "map s_id (t_services d)"]
    by (simp add: db_wf_def d' wf_ids_def)
  moreover have "wf_names d'" "wf_members d'" "wf_services d'"
    using wf assms(3,4,5) host by (simp_all add: db_wf_def d' wf_names_def principal_names_def
        object_names_def addresses_def wf_members_def wf_services_def)
  ultimately show ?thesis by (simp add: db_wf_def)
qed

lemma wf_update_service:
  assumes wf: "db_wf d" and upd: "sql_update_service i nm host org ip descr now d = Some d'"
    and "\<And>r. r \<in> set (t_service_groups d) \<Longrightarrow> sg_name r \<noteq> nm"
    and "\<And>r. r \<in> set (t_users d) \<Longrightarrow> u_ip r \<noteq> ip" and "spec_ok org"
  shows "db_wf d'"
proof -
  let ?f = "\<lambda>r. r\<lparr>s_name := nm, s_hostname := host, s_origin := org, s_ip := ip,
              s_description := descr, s_updated := now\<rparr>"
  let ?t = "update_rows s_id i ?f (t_services d)"
  from upd have no: "\<not> other_row_has s_id i s_name nm (t_services d)"
      "\<not> other_row_has s_id i s_hostname host (t_services d)"
      "\<not> other_row_has s_id i s_ip ip (t_services d)"
    and d': "d' = d\<lparr>t_services := ?t\<rparr>"
    by (auto simp: sql_update_service_def split: if_splits)
  have ids: "distinct (map s_id (t_services d))"
    using wf by (auto simp: db_wf_def wf_ids_def dest: ids_ok_distinct)
  have "distinct (map s_name ?t @ map sg_name (t_service_groups d))"
    using wf assms(3) no ids by (intro distinct_update_rows)
      (auto simp: db_wf_def wf_names_def object_names_def)
  moreover have "distinct (map s_hostname ?t @ [])"
    using wf no ids by (intro distinct_update_rows) (auto simp: db_wf_def wf_names_def)
  moreover have "distinct (map s_ip ?t @ map u_ip (t_users d))"
    using wf assms(4) no ids by (intro distinct_update_rows)
      (auto simp: db_wf_def wf_names_def addresses_def)
  then have "distinct (map u_ip (t_users d) @ map s_ip ?t)"
    by (simp only: distinct_append_commute)
  ultimately have "wf_names d'"
    using wf by (simp add: db_wf_def d' wf_names_def principal_names_def object_names_def
        addresses_def)
  moreover have "wf_services d'"
    using wf assms(5) by (auto simp: db_wf_def d' wf_services_def set_update_rows)
  moreover have "map s_id ?t = map s_id (t_services d)" by (simp add: update_rows_key)
  then have "wf_ids d'" using wf by (simp add: db_wf_def d' wf_ids_def)
  moreover have "wf_rules d'" using wf by (rule rules_mono_tables) (simp_all add: d')
  moreover have "wf_members d'" using wf by (simp add: db_wf_def d' wf_members_def)
  ultimately show ?thesis by (simp add: db_wf_def)
qed

lemma wf_delete_service:
  assumes wf: "db_wf d" and un: "unreferenced d ''service'' i"
  shows "db_wf (sql_delete_service i d)"
proof -
  let ?d = "sql_delete_service i d"
  have "wf_rules ?d"
    using wf _ un by (rule rules_unreferenced) (auto simp: sql_delete_service_def row_exists_def)
  moreover have "wf_names ?d"
    using wf by (simp add: db_wf_def sql_delete_service_def wf_names_def principal_names_def
        object_names_def addresses_def distinct_map_filter) blast
  moreover have "wf_members ?d" "wf_services ?d"
    using wf by (auto simp: db_wf_def sql_delete_service_def wf_members_def wf_services_def
        distinct_map_filter)
  moreover have "wf_ids ?d"
    using wf by (simp add: db_wf_def sql_delete_service_def wf_ids_def ids_ok_filter)
  ultimately show ?thesis by (simp add: db_wf_def)
qed

lemma wf_clear_ports: "db_wf d \<Longrightarrow> db_wf (sql_clear_ports i d)"
  by (simp add: sql_clear_ports_def wf_unfold principal_names_def object_names_def
      addresses_def rule_ok_def row_exists_def ids_ok_filter distinct_map_filter)

lemma wf_insert_port:
  assumes wf: "db_wf d" and ins: "sql_insert_port sid p proto d = Some (i, d')"
    and "0 < p" and "p \<le> 65535"
  shows "db_wf d'"
proof -
  from ins have q: "next_rowid (q_ports d) = Some i"
    and p: "has_id s_id (t_services d) sid" "proto \<in> {''tcp'', ''udp''}"
      "(sid, p, proto) \<notin> port_key ` set (t_ports d)"
    by (auto simp: sql_insert_port_def no_row_iff port_key_def split: if_splits option.splits)
  from ins q have d': "d' = d\<lparr>q_ports := i, t_ports := t_ports d @
      [\<lparr>sp_id = i, sp_service = sid, sp_port = p, sp_protocol = proto\<rparr>]\<rparr>"
    by (auto simp: sql_insert_port_def split: if_splits)
  have "wf_rules d'" using wf by (rule rules_mono_tables) (simp_all add: d')
  moreover have "wf_ids d'"
    using wf ids_ok_append [OF _ q, of "map sp_id (t_ports d)"]
    by (simp add: db_wf_def d' wf_ids_def)
  moreover have "wf_services d'"
    using wf assms(3,4) p by (simp add: db_wf_def d' wf_services_def port_key_def port_valid_def)
  moreover have "wf_names d'" "wf_members d'"
    using wf by (simp_all add: db_wf_def d' wf_names_def principal_names_def
        object_names_def addresses_def wf_members_def)
  ultimately show ?thesis by (simp add: db_wf_def)
qed

lemma wf_insert_service_group:
  assumes wf: "db_wf d" and ins: "sql_insert_service_group nm now d = Some (i, d')"
    and "nm \<notin> set (object_names d)"
  shows "db_wf d'"
proof -
  from ins have q: "next_rowid (q_service_groups d) = Some i"
    by (auto simp: sql_insert_service_group_def split: if_splits option.splits)
  with ins have d': "d' = d\<lparr>q_service_groups := i, t_service_groups := t_service_groups d @
      [\<lparr>sg_id = i, sg_name = nm, sg_created = now, sg_updated = now\<rparr>]\<rparr>"
    by (auto simp: sql_insert_service_group_def split: if_splits)
  have "wf_rules d'" using wf by (rule rules_mono_tables) (simp_all add: d')
  moreover have "wf_ids d'"
    using wf ids_ok_append [OF _ q, of "map sg_id (t_service_groups d)"]
    by (simp add: db_wf_def d' wf_ids_def)
  moreover have "wf_names d'" "wf_members d'" "wf_services d'"
    using wf assms(3) by (simp_all add: db_wf_def d' wf_names_def principal_names_def
        object_names_def addresses_def wf_members_def wf_services_def)
  ultimately show ?thesis by (simp add: db_wf_def)
qed

lemma wf_update_service_group:
  assumes wf: "db_wf d" and upd: "sql_update_service_group i nm now d = Some d'"
    and "\<And>r. r \<in> set (t_services d) \<Longrightarrow> s_name r \<noteq> nm"
  shows "db_wf d'"
proof -
  let ?t = "update_rows sg_id i (\<lambda>r. r\<lparr>sg_name := nm, sg_updated := now\<rparr>) (t_service_groups d)"
  from upd have no: "\<not> other_row_has sg_id i sg_name nm (t_service_groups d)"
    and d': "d' = d\<lparr>t_service_groups := ?t\<rparr>"
    by (auto simp: sql_update_service_group_def split: if_splits)
  have "distinct (map sg_id (t_service_groups d))"
    using wf by (auto simp: db_wf_def wf_ids_def dest: ids_ok_distinct)
  then have "distinct (map sg_name ?t @ map s_name (t_services d))"
    using wf assms(3) no by (intro distinct_update_rows)
      (auto simp: db_wf_def wf_names_def object_names_def)
  then have "distinct (map s_name (t_services d) @ map sg_name ?t)"
    by (simp only: distinct_append_commute)
  moreover have "map sg_id ?t = map sg_id (t_service_groups d)" by (simp add: update_rows_key)
  moreover have "wf_rules d'" using wf by (rule rules_mono_tables) (simp_all add: d')
  ultimately have "wf_rules d'" "wf_names d'" "wf_ids d'" "wf_members d'" "wf_services d'"
    using wf
    by (simp_all add: db_wf_def d' wf_ids_def wf_names_def wf_members_def wf_services_def
        principal_names_def object_names_def addresses_def)
  then show ?thesis by (simp add: db_wf_def)
qed

lemma wf_delete_service_group:
  assumes wf: "db_wf d" and un: "unreferenced d ''service_group'' i"
  shows "db_wf (sql_delete_service_group i d)"
proof -
  let ?d = "sql_delete_service_group i d"
  have "wf_rules ?d"
    using wf _ un by (rule rules_unreferenced)
      (auto simp: sql_delete_service_group_def row_exists_def)
  moreover have "wf_names ?d"
    using wf by (simp add: db_wf_def sql_delete_service_group_def wf_names_def
        principal_names_def object_names_def addresses_def distinct_map_filter) blast
  moreover have "wf_members ?d"
    using wf by (auto simp: db_wf_def sql_delete_service_group_def wf_members_def)
  moreover have "wf_ids ?d" "wf_services ?d"
    using wf by (simp_all add: db_wf_def sql_delete_service_group_def wf_ids_def
        wf_services_def ids_ok_filter)
  ultimately show ?thesis by (simp add: db_wf_def)
qed

lemma wf_add_sg_member:
  assumes wf: "db_wf d" and ins: "sql_add_sg_member sid gid d = Some d'"
  shows "db_wf d'"
proof -
  have "d' = d \<or> (has_id s_id (t_services d) sid \<and> has_id sg_id (t_service_groups d) gid
      \<and> (sid, gid) \<notin> set (t_sg_members d) \<and> d' = d\<lparr>t_sg_members := t_sg_members d @ [(sid, gid)]\<rparr>)"
    using ins by (auto simp: sql_add_sg_member_def split: if_splits)
  then show ?thesis
    using wf by (elim disjE) (simp_all add: wf_unfold principal_names_def object_names_def
        addresses_def rule_ok_def row_exists_def)
qed

lemma wf_remove_sg_member: "db_wf d \<Longrightarrow> db_wf (sql_remove_sg_member sid gid d)"
  by (simp add: sql_remove_sg_member_def wf_unfold principal_names_def object_names_def
      addresses_def rule_ok_def row_exists_def distinct_removeAll)

lemma row_exists_rules [simp]:
  "row_exists (d\<lparr>t_rules := rs\<rparr>) k j = row_exists d k j"
  "row_exists (d\<lparr>q_rules := q\<rparr>) k j = row_exists d k j"
  by (simp_all add: row_exists_def)

lemma wf_insert_rule:
  assumes wf: "db_wf d" and ins: "sql_insert_rule st si ot oi act now d = Some (i, d')"
    and "row_exists d st si" and "row_exists d ot oi"
    and "(st, si, ot, oi) \<notin> rule_key ` set (t_rules d)"
  shows "db_wf d'"
proof -
  from ins have q: "next_rowid (q_rules d) = Some i"
    and v: "validSubject st" "validObject ot" "validAction act"
    by (auto simp: sql_insert_rule_def split: if_splits option.splits)
  from ins q have d': "d' = d\<lparr>q_rules := i, t_rules := t_rules d @
      [\<lparr>r_id = i, r_subject_type = st, r_subject_id = si, r_object_type = ot,
        r_object_id = oi, r_action = act, r_created = now, r_updated = now\<rparr>]\<rparr>"
    by (auto simp: sql_insert_rule_def split: if_splits)
  have "wf_rules d'"
    using wf v assms(3-5) by (auto simp: db_wf_def d' wf_rules_def rule_ok_def rule_key_def)
  moreover have "wf_ids d'"
    using wf ids_ok_append [OF _ q, of "map r_id (t_rules d)"]
    by (simp add: db_wf_def d' wf_ids_def)
  moreover have "wf_names d'" "wf_members d'" "wf_services d'"
    using wf by (simp_all add: db_wf_def d' wf_names_def principal_names_def
        object_names_def addresses_def wf_members_def wf_services_def)
  ultimately show ?thesis by (simp add: db_wf_def)
qed

lemma wf_update_rule:
  assumes wf: "db_wf d" and upd: "sql_update_rule i act now d = Some d'"
  shows "db_wf d'"
proof -
  let ?t = "update_rows r_id i (\<lambda>r. r\<lparr>r_action := act, r_updated := now\<rparr>) (t_rules d)"
  from upd have v: "validAction act" and d': "d' = d\<lparr>t_rules := ?t\<rparr>"
    by (auto simp: sql_update_rule_def split: if_splits)
  have keys: "map r_id ?t = map r_id (t_rules d)" "map rule_key ?t = map rule_key (t_rules d)"
    by (simp_all add: update_rows_key rule_key_def)
  have "wf_rules d'"
    using wf v keys by (auto simp: db_wf_def d' wf_rules_def rule_ok_def set_update_rows)
  moreover have "wf_ids d'" "wf_names d'" "wf_members d'" "wf_services d'"
    using wf keys by (simp_all add: db_wf_def d' wf_ids_def wf_names_def principal_names_def
        object_names_def addresses_def wf_members_def wf_services_def)
  ultimately show ?thesis by (simp add: db_wf_def)
qed

lemma wf_upsert_setting: "db_wf d \<Longrightarrow> db_wf (sql_upsert_setting k v d)"
  by (simp add: sql_upsert_setting_def wf_unfold principal_names_def object_names_def
      addresses_def rule_ok_def row_exists_def distinct_update)

end
