(* ===== verification/Users.thy ===== *)
theory Users
  imports Invariant
begin

text \<open>
  \<open>daemon/store/namespace.go\<close>, \<open>users.go\<close> and \<open>settings.go\<close>: the two namespaces, the
  address check, and the operations on users and settings. An update's fields are options, a
  Go nil pointer being \<open>None\<close>.
\<close>

section \<open>Names and addresses\<close>

datatype name_space = NamespacePrincipal | NamespaceObject

definition namespaceTables :: "name_space \<Rightarrow> string list" where
  "namespaceTables ns = (case ns of NamespacePrincipal \<Rightarrow> [''users'', ''user_groups'']
     | NamespaceObject \<Rightarrow> [''services'', ''service_groups''])"

text \<open>\<open>SELECT id FROM tbl WHERE name = ?\<close> and \<open>SELECT id FROM tbl WHERE ip_address = ?\<close>.\<close>

definition select_id_by_name :: "db \<Rightarrow> string \<Rightarrow> string \<Rightarrow> int option" where
  "select_id_by_name d tbl nm =
    (if tbl = ''users'' then map_option u_id (row_by u_name nm (t_users d))
     else if tbl = ''user_groups'' then map_option ug_id (row_by ug_name nm (t_user_groups d))
     else if tbl = ''services'' then map_option s_id (row_by s_name nm (t_services d))
     else map_option sg_id (row_by sg_name nm (t_service_groups d)))"

definition select_id_by_ip :: "db \<Rightarrow> string \<Rightarrow> string \<Rightarrow> int option" where
  "select_id_by_ip d tbl ip =
    (if tbl = ''users'' then map_option u_id (row_by u_ip ip (t_users d))
     else map_option s_id (row_by s_ip ip (t_services d)))"

fun check_tables ::
  "(string \<Rightarrow> store_error + int option) \<Rightarrow> store_error \<Rightarrow> string \<Rightarrow> int \<Rightarrow> string list
    \<Rightarrow> store_error + unit" where
  "check_tables q err excl exclId [] = Inr ()"
| "check_tables q err excl exclId (t # ts) = bindE (q t) (\<lambda>r. case r of
     None \<Rightarrow> check_tables q err excl exclId ts
   | Some i \<Rightarrow> if t = excl \<and> i = exclId then check_tables q err excl exclId ts else Inl err)"

definition checkNameAvailable ::
  "env \<Rightarrow> name_space \<Rightarrow> string \<Rightarrow> string \<Rightarrow> int \<Rightarrow> db \<Rightarrow> store_error + unit" where
  "checkNameAvailable ev ns nm excludeTable excludeID d =
    check_tables (\<lambda>t. exec_sql ev (''namespace check on '' @ t) 0 (Some (select_id_by_name d t nm)))
      ErrNameTaken excludeTable excludeID (namespaceTables ns)"

definition checkIPAvailable ::
  "env \<Rightarrow> string \<Rightarrow> string \<Rightarrow> int \<Rightarrow> db \<Rightarrow> store_error + unit" where
  "checkIPAvailable ev ip excludeTable excludeID d =
    check_tables (\<lambda>t. exec_sql ev (''ip check on '' @ t) 0 (Some (select_id_by_ip d t ip)))
      ErrIPInUse excludeTable excludeID [''users'', ''services'']"

lemma check_tables_Inr:
  "check_tables q err excl exclId ts = Inr u \<longleftrightarrow>
    list_all (\<lambda>t. q t = Inr None \<or> (q t = Inr (Some exclId) \<and> t = excl)) ts"
proof (induction ts)
  case (Cons t ts)
  then show ?case by (cases "q t") (auto split: option.splits)
qed simp

declare check_tables.simps [simp del]

lemma check_tables_Inl:
  "check_tables q err excl exclId ts = Inl e \<Longrightarrow>
    (\<exists>t\<in>set ts. q t = Inl e) \<or> (e = err \<and> (\<exists>t\<in>set ts. \<exists>i. q t = Inr (Some i) \<and> (t, i) \<noteq> (excl, exclId)))"
proof (induction ts)
  case (Cons t ts)
  then show ?case by (cases "q t") (auto simp: check_tables.simps split: option.splits if_splits)
qed (simp add: check_tables.simps)

lemma name_available_table:
  assumes "checkNameAvailable ev ns nm excl exclId d = Inr u" "t \<in> set (namespaceTables ns)"
    and "select_id_by_name d t nm = Some i"
  shows "t = excl \<and> i = exclId"
  using assms by (auto simp: checkNameAvailable_def check_tables_Inr list_all_iff result_simps)

lemma ip_available_table:
  assumes "checkIPAvailable ev ip excl exclId d = Inr u" "t \<in> {''users'', ''services''}"
    and "select_id_by_ip d t ip = Some i"
  shows "t = excl \<and> i = exclId"
  using assms by (auto simp: checkIPAvailable_def check_tables_Inr result_simps)

lemma row_by_mem: "k \<in> key ` set t \<Longrightarrow> \<exists>r. row_by key k t = Some r"
  by (metis not_None_eq row_by_None)

lemma principal_free:
  assumes "checkNameAvailable ev NamespacePrincipal nm excl exclId d = Inr u"
  shows "excl \<noteq> ''user_groups'' \<Longrightarrow> r \<in> set (t_user_groups d) \<Longrightarrow> ug_name r \<noteq> nm"
    and "excl \<noteq> ''users'' \<Longrightarrow> r' \<in> set (t_users d) \<Longrightarrow> u_name r' \<noteq> nm"
proof -
  show "ug_name r \<noteq> nm" if "excl \<noteq> ''user_groups''" "r \<in> set (t_user_groups d)"
    using name_available_table [OF assms, of "''user_groups''"] that
      row_by_mem [of nm ug_name "t_user_groups d"]
    by (auto simp: namespaceTables_def select_id_by_name_def)
  show "u_name r' \<noteq> nm" if "excl \<noteq> ''users''" "r' \<in> set (t_users d)"
    using name_available_table [OF assms, of "''users''"] that
      row_by_mem [of nm u_name "t_users d"]
    by (auto simp: namespaceTables_def select_id_by_name_def)
qed

lemma object_free:
  assumes "checkNameAvailable ev NamespaceObject nm excl exclId d = Inr u"
  shows "excl \<noteq> ''service_groups'' \<Longrightarrow> r \<in> set (t_service_groups d) \<Longrightarrow> sg_name r \<noteq> nm"
    and "excl \<noteq> ''services'' \<Longrightarrow> r' \<in> set (t_services d) \<Longrightarrow> s_name r' \<noteq> nm"
proof -
  show "sg_name r \<noteq> nm" if "excl \<noteq> ''service_groups''" "r \<in> set (t_service_groups d)"
    using name_available_table [OF assms, of "''service_groups''"] that
      row_by_mem [of nm sg_name "t_service_groups d"]
    by (auto simp: namespaceTables_def select_id_by_name_def)
  show "s_name r' \<noteq> nm" if "excl \<noteq> ''services''" "r' \<in> set (t_services d)"
    using name_available_table [OF assms, of "''services''"] that
      row_by_mem [of nm s_name "t_services d"]
    by (auto simp: namespaceTables_def select_id_by_name_def)
qed

lemma ip_free:
  assumes "checkIPAvailable ev ip excl exclId d = Inr u"
  shows "excl \<noteq> ''users'' \<Longrightarrow> r \<in> set (t_users d) \<Longrightarrow> u_ip r \<noteq> ip"
    and "excl \<noteq> ''services'' \<Longrightarrow> r' \<in> set (t_services d) \<Longrightarrow> s_ip r' \<noteq> ip"
proof -
  show "u_ip r \<noteq> ip" if "excl \<noteq> ''users''" "r \<in> set (t_users d)"
    using ip_available_table [OF assms, of "''users''"] that row_by_mem [of ip u_ip "t_users d"]
    by (auto simp: select_id_by_ip_def)
  show "s_ip r' \<noteq> ip" if "excl \<noteq> ''services''" "r' \<in> set (t_services d)"
    using ip_available_table [OF assms, of "''services''"] that
      row_by_mem [of ip s_ip "t_services d"]
    by (auto simp: select_id_by_ip_def)
qed

lemma names_free:
  "checkNameAvailable ev NamespacePrincipal nm [] exclId d = Inr u \<Longrightarrow> nm \<notin> set (principal_names d)"
  "checkNameAvailable ev NamespaceObject nm [] exclId d = Inr u \<Longrightarrow> nm \<notin> set (object_names d)"
  "checkIPAvailable ev ip [] exclId d = Inr u \<Longrightarrow> ip \<notin> set (addresses d)"
  using principal_free [of ev nm "[]" exclId d u] object_free [of ev nm "[]" exclId d u]
    ip_free [of ev ip "[]" exclId d u]
  by (force simp: principal_names_def object_names_def addresses_def)+

text \<open>An update keeps the row's own name when it changes none, so it is free for it.\<close>

lemma wf_other_names:
  assumes "db_wf d"
  shows "u \<in> set (t_users d) \<Longrightarrow> g \<in> set (t_user_groups d) \<Longrightarrow> u_name u \<noteq> ug_name g"
    and "s \<in> set (t_services d) \<Longrightarrow> h \<in> set (t_service_groups d) \<Longrightarrow> s_name s \<noteq> sg_name h"
    and "u \<in> set (t_users d) \<Longrightarrow> s \<in> set (t_services d) \<Longrightarrow> u_ip u \<noteq> s_ip s"
  using assms by (auto simp: db_wf_def wf_names_def principal_names_def object_names_def
      addresses_def)

section \<open>Users\<close>

record create_user_input =
  cu_name :: string
  cu_email :: string
  cu_public_key :: string
  cu_private_key :: string
  cu_preshared_key :: string
  cu_ip :: string
  cu_endpoint :: string

record update_user_input =
  uu_name :: "string option"
  uu_email :: "string option"
  uu_endpoint :: "string option"

definition scanUser :: "string option user \<Rightarrow> string user" where
  "scanUser r = \<lparr>u_id = u_id r, u_name = u_name r, u_email = coalesce (u_email r),
     u_public_key = u_public_key r, u_private_key = u_private_key r,
     u_preshared_key = u_preshared_key r, u_ip = u_ip r, u_endpoint = coalesce (u_endpoint r),
     u_created = u_created r, u_updated = u_updated r\<rparr>"

definition query_user :: "env \<Rightarrow> string option user option \<Rightarrow> store_error + string user" where
  "query_user ev row = bindE (exec_sql ev ''scan user'' 0 (Some row))
     (\<lambda>r. case r of None \<Rightarrow> Inl ErrNotFound | Some u \<Rightarrow> Inr (scanUser u))"

definition userByID :: "env \<Rightarrow> int \<Rightarrow> db \<Rightarrow> store_error + string user" where
  "userByID ev i d = query_user ev (row_by u_id i (t_users d))"

definition GetUser :: "env \<Rightarrow> int \<Rightarrow> db \<Rightarrow> store_error + string user" where
  "GetUser ev i d = query_user ev (row_by u_id i (t_users d))"

definition GetUserByName :: "env \<Rightarrow> string \<Rightarrow> db \<Rightarrow> store_error + string user" where
  "GetUserByName ev nm d = query_user ev (row_by u_name nm (t_users d))"

definition ListUsers :: "env \<Rightarrow> db \<Rightarrow> store_error + string user list" where
  "ListUsers ev d = exec_sql ev ''list users'' 0 (Some (map scanUser (order_by u_id (t_users d))))"

text \<open>A \<open>map[string]struct{}\<close> is the list of its keys.\<close>

definition TakenUserIPs :: "env \<Rightarrow> db \<Rightarrow> store_error + string list" where
  "TakenUserIPs ev d = exec_sql ev ''list user IPs'' 0 (Some (map u_ip (t_users d)))"

definition create_user_tx ::
  "env \<Rightarrow> create_user_input \<Rightarrow> db \<Rightarrow> store_error + string user \<times> db" where
  "create_user_tx ev inp d =
    bindE (checkNameAvailable ev NamespacePrincipal (cu_name inp) [] 0 d) (\<lambda>_.
    bindE (checkIPAvailable ev (cu_ip inp) [] 0 d) (\<lambda>_.
    bindE (exec_sql ev ''insert user'' 0
      (sql_insert_user (cu_name inp) (nullableString (cu_email inp)) (cu_public_key inp)
        (cu_private_key inp) (cu_preshared_key inp) (cu_ip inp)
        (nullableString (cu_endpoint inp)) (nowTimestamp ev) d)) (\<lambda>(i, d').
    Inr (\<lparr>u_id = i, u_name = cu_name inp, u_email = cu_email inp,
           u_public_key = cu_public_key inp, u_private_key = cu_private_key inp,
           u_preshared_key = cu_preshared_key inp, u_ip = cu_ip inp,
           u_endpoint = cu_endpoint inp, u_created = nowTimestamp ev,
           u_updated = nowTimestamp ev\<rparr>, d'))))"

definition CreateUser ::
  "env \<Rightarrow> create_user_input \<Rightarrow> db \<Rightarrow> (store_error + string user) \<times> db \<times> string list" where
  "CreateUser ev inp d =
    (if cu_name inp = [] \<or> cu_public_key inp = [] \<or> cu_private_key inp = []
        \<or> cu_preshared_key inp = [] \<or> cu_ip inp = [] then (Inl ErrInvalidInput, d, [])
     else withTx ev ''users'' (create_user_tx ev inp) d)"

definition update_user_tx ::
  "env \<Rightarrow> int \<Rightarrow> update_user_input \<Rightarrow> db \<Rightarrow> store_error + string user \<times> db" where
  "update_user_tx ev i inp d =
    bindE (userByID ev i d) (\<lambda>cur0.
    bindE (case uu_name inp of None \<Rightarrow> Inr cur0
      | Some nm \<Rightarrow> if nm \<noteq> u_name cur0
          then bindE (checkNameAvailable ev NamespacePrincipal nm ''users'' i d)
                 (\<lambda>_. Inr (cur0\<lparr>u_name := nm\<rparr>))
          else Inr cur0) (\<lambda>cur1.
    let cur2 = (case uu_email inp of None \<Rightarrow> cur1 | Some e \<Rightarrow> cur1\<lparr>u_email := e\<rparr>);
        cur3 = (case uu_endpoint inp of None \<Rightarrow> cur2 | Some e \<Rightarrow> cur2\<lparr>u_endpoint := e\<rparr>);
        cur = cur3\<lparr>u_updated := nowTimestamp ev\<rparr> in
    bindE (exec_sql ev ''update user'' 0
      (sql_update_user i (u_name cur) (nullableString (u_email cur))
        (nullableString (u_endpoint cur)) (u_updated cur) d)) (\<lambda>d'. Inr (cur, d'))))"

definition UpdateUser ::
  "env \<Rightarrow> int \<Rightarrow> update_user_input \<Rightarrow> db \<Rightarrow> (store_error + string user) \<times> db \<times> string list" where
  "UpdateUser ev i inp d = withTx ev ''users'' (update_user_tx ev i inp) d"

text \<open>The rules scrubbed with a user: those on it as subject or as object.\<close>

definition rule_mentions :: "string \<Rightarrow> int \<Rightarrow> policy_rule \<Rightarrow> bool" where
  "rule_mentions kind i r \<longleftrightarrow> (r_subject_type r = kind \<and> r_subject_id r = i)
     \<or> (r_object_type r = kind \<and> r_object_id r = i)"

definition delete_user_tx :: "env \<Rightarrow> int \<Rightarrow> db \<Rightarrow> store_error + unit \<times> db" where
  "delete_user_tx ev i d =
    bindE (userByID ev i d) (\<lambda>_.
    bindE (exec_sql ev ''scrub user policies'' 0
      (Some (sql_delete_rules (rule_mentions ''user'' i) d))) (\<lambda>d1.
    bindE (exec_sql ev ''delete user'' 0 (Some (sql_delete_user i d1))) (\<lambda>d2.
    Inr ((), d2))))"

definition DeleteUser :: "env \<Rightarrow> int \<Rightarrow> db \<Rightarrow> (store_error + unit) \<times> db \<times> string list" where
  "DeleteUser ev i d = withTx ev ''users'' (delete_user_tx ev i) d"

section \<open>Settings\<close>

definition GetSetting :: "env \<Rightarrow> string \<Rightarrow> db \<Rightarrow> store_error + string" where
  "GetSetting ev k d = bindE (exec_sql ev ''get setting'' 0 (Some (map_of (t_settings d) k)))
     (\<lambda>r. case r of None \<Rightarrow> Inl ErrNotFound | Some v \<Rightarrow> Inr v)"

definition set_setting_tx :: "env \<Rightarrow> string \<Rightarrow> string \<Rightarrow> db \<Rightarrow> store_error + unit \<times> db" where
  "set_setting_tx ev k v d =
    bindE (exec_sql ev ''set setting'' 0 (Some (sql_upsert_setting k v d))) (\<lambda>d'. Inr ((), d'))"

definition SetSetting ::
  "env \<Rightarrow> string \<Rightarrow> string \<Rightarrow> db \<Rightarrow> (store_error + unit) \<times> db \<times> string list" where
  "SetSetting ev k v d = withTx ev ''settings'' (set_setting_tx ev k v) d"

definition ListSettings :: "env \<Rightarrow> db \<Rightarrow> store_error + (string \<times> string) list" where
  "ListSettings ev d = exec_sql ev ''list settings'' 0 (Some (sort_key fst (t_settings d)))"

section \<open>They keep the invariant\<close>

lemma query_user_Inr [result_simps]:
  "query_user ev row = Inr u \<longleftrightarrow>
    \<not> sql_fails ev ''scan user'' 0 \<and> (\<exists>r. row = Some r \<and> u = scanUser r)"
  by (auto simp: query_user_def result_simps split: option.splits)

lemma scanUser_sel [simp]:
  "u_id (scanUser r) = u_id r" "u_name (scanUser r) = u_name r" "u_ip (scanUser r) = u_ip r"
  "u_public_key (scanUser r) = u_public_key r" "u_preshared_key (scanUser r) = u_preshared_key r"
  by (simp_all add: scanUser_def)

lemma userByID_Inr: "userByID ev i d = Inr u \<Longrightarrow> \<exists>r\<in>set (t_users d). u = scanUser r \<and> u_id r = i"
  by (auto simp: userByID_def result_simps dest: row_by_Some)

interpretation create_user: tx_body db_wf "create_user_tx ev inp" for ev inp
  by unfold_locales
    (auto simp: create_user_tx_def result_simps
      intro: wf_insert_user [OF _ _ names_free(1) names_free(3)])

interpretation update_user: tx_body db_wf "update_user_tx ev i inp" for ev i inp
proof unfold_locales
  fix d d' x
  assume wf: "db_wf d" and run: "update_user_tx ev i inp d = Inr (x, d')"
  from run obtain cur0 cur1 where c0: "userByID ev i d = Inr cur0"
    and c1: "(case uu_name inp of None \<Rightarrow> Inr cur0
      | Some nm \<Rightarrow> if nm \<noteq> u_name cur0
          then bindE (checkNameAvailable ev NamespacePrincipal nm ''users'' i d)
                 (\<lambda>_. Inr (cur0\<lparr>u_name := nm\<rparr>))
          else Inr cur0) = Inr cur1"
    and upd: "\<exists>e p. sql_update_user i (u_name cur1) e p (nowTimestamp ev) d = Some d'"
    unfolding update_user_tx_def Let_def
    by (elim bindE_InrE) (simp add: result_simps split: option.splits, blast+)
  have "ug_name g \<noteq> u_name cur1" if g: "g \<in> set (t_user_groups d)" for g
  proof (cases "cur1 = cur0")
    case True
    then show ?thesis using userByID_Inr [OF c0] wf_other_names(1) [OF wf _ g] by fastforce
  next
    case False
    then show ?thesis
      using c1 principal_free(1) [of ev "u_name cur1" "''users''" i d _ g] g
      by (auto simp: result_simps split: option.splits if_splits)
  qed
  then show "db_wf d'" using upd wf_update_user [OF wf] by blast
qed

interpretation delete_user: tx_body db_wf "delete_user_tx ev i" for ev i
  by unfold_locales (auto simp: delete_user_tx_def result_simps rule_mentions_def
      intro!: wf_delete_user wf_delete_rules unreferenced_scrub)

interpretation set_setting: tx_body db_wf "set_setting_tx ev k v" for ev k v
  by unfold_locales (auto simp: set_setting_tx_def result_simps intro: wf_upsert_setting)

lemma users_keep:
  assumes "db_wf d"
  shows "CreateUser ev inp d = (r, d', ks) \<Longrightarrow> db_wf d'"
    and "UpdateUser ev i uin d = (ru, d', ks) \<Longrightarrow> db_wf d'"
    and "DeleteUser ev i d = (rd, d', ks) \<Longrightarrow> db_wf d'"
    and "SetSetting ev k v d = (rd, d', ks) \<Longrightarrow> db_wf d'"
proof -
  show "CreateUser ev inp d = (r, d', ks) \<Longrightarrow> db_wf d'"
    using assms by (auto simp: CreateUser_def split: if_splits intro: create_user.keeps)
  show "UpdateUser ev i uin d = (ru, d', ks) \<Longrightarrow> db_wf d'"
    unfolding UpdateUser_def by (rule update_user.keeps [OF assms])
  show "DeleteUser ev i d = (rd, d', ks) \<Longrightarrow> db_wf d'"
    unfolding DeleteUser_def by (rule delete_user.keeps [OF assms])
  show "SetSetting ev k v d = (rd, d', ks) \<Longrightarrow> db_wf d'"
    unfolding SetSetting_def by (rule set_setting.keeps [OF assms])
qed

end
