(* ===== verification/Services.thy ===== *)
theory Services
  imports Users
begin

text \<open>
  \<open>daemon/store/services.go\<close>: services with their ports. A \<open>Service\<close> is a row of
  \<open>services\<close> with its rows of \<open>service_ports\<close>, ordered by port and protocol.
\<close>

section \<open>Model\<close>

record service = "string service_row" +
  s_ports :: "service_port list"

record create_service_input =
  cs_name :: string
  cs_hostname :: string
  cs_origin :: spec
  cs_ip :: string
  cs_description :: string
  cs_ports :: "service_port list"

record update_service_input =
  us_name :: "string option"
  us_hostname :: "string option"
  us_origin :: "spec option"
  us_ip :: "string option"
  us_description :: "string option"
  us_ports :: "service_port list"
  us_replace_ports :: bool

definition mk_service ::
  "int \<Rightarrow> string \<Rightarrow> string \<Rightarrow> spec \<Rightarrow> string \<Rightarrow> string \<Rightarrow> string \<Rightarrow> string \<Rightarrow> service_port list \<Rightarrow> service"
where
  "mk_service i nm host org ip descr cr upd ps = \<lparr>s_id = i, s_name = nm, s_hostname = host,
     s_origin = org, s_ip = ip, s_description = descr, s_created = cr, s_updated = upd,
     s_ports = ps\<rparr>"

definition scanService :: "string option service_row \<Rightarrow> service" where
  "scanService r = mk_service (s_id r) (s_name r) (s_hostname r) (s_origin r) (s_ip r)
     (coalesce (s_description r)) (s_created r) (s_updated r) []"

definition ports_of :: "db \<Rightarrow> int \<Rightarrow> service_port list" where
  "ports_of d sid = sort_key (\<lambda>p. (sp_port p, sp_protocol p))
     (filter (\<lambda>p. sp_service p = sid) (t_ports d))"

definition loadServicePorts :: "env \<Rightarrow> int \<Rightarrow> db \<Rightarrow> store_error + service_port list" where
  "loadServicePorts ev sid d = exec_sql ev ''load service ports'' sid (Some (ports_of d sid))"

definition queryServices ::
  "env \<Rightarrow> (db \<Rightarrow> string option service_row list) \<Rightarrow> db \<Rightarrow> store_error + service list" where
  "queryServices ev tail d =
    bindE (exec_sql ev ''list services'' 0 (Some (map scanService (tail d)))) (\<lambda>out.
    mapE (\<lambda>s. bindE (loadServicePorts ev (s_id s) d) (\<lambda>ps. Inr (s\<lparr>s_ports := ps\<rparr>))) out)"

definition first_or_not_found :: "store_error + 'a list \<Rightarrow> store_error + 'a" where
  "first_or_not_found r = bindE r (\<lambda>xs. case xs of [] \<Rightarrow> Inl ErrNotFound | x # _ \<Rightarrow> Inr x)"

definition GetService :: "env \<Rightarrow> int \<Rightarrow> db \<Rightarrow> store_error + service" where
  "GetService ev i d =
    first_or_not_found (queryServices ev (\<lambda>d. filter (\<lambda>r. s_id r = i) (t_services d)) d)"

definition GetServiceByName :: "env \<Rightarrow> string \<Rightarrow> db \<Rightarrow> store_error + service" where
  "GetServiceByName ev nm d =
    first_or_not_found (queryServices ev (\<lambda>d. filter (\<lambda>r. s_name r = nm) (t_services d)) d)"

definition ListServices :: "env \<Rightarrow> db \<Rightarrow> store_error + service list" where
  "ListServices ev d = queryServices ev (\<lambda>d. order_by s_id (t_services d)) d"

definition TakenServiceIPs :: "env \<Rightarrow> db \<Rightarrow> store_error + string list" where
  "TakenServiceIPs ev d = exec_sql ev ''list service IPs'' 0 (Some (map s_ip (t_services d)))"

definition serviceByID :: "env \<Rightarrow> int \<Rightarrow> db \<Rightarrow> store_error + service" where
  "serviceByID ev i d =
    bindE (exec_sql ev ''scan service'' 0 (Some (row_by s_id i (t_services d)))) (\<lambda>row.
    case row of None \<Rightarrow> Inl ErrNotFound
    | Some r \<Rightarrow> bindE (loadServicePorts ev i d) (\<lambda>ps. Inr ((scanService r)\<lparr>s_ports := ps\<rparr>)))"

definition checkHostnameAvailable :: "env \<Rightarrow> string \<Rightarrow> int \<Rightarrow> db \<Rightarrow> store_error + unit" where
  "checkHostnameAvailable ev host excludeID d =
    bindE (exec_sql ev ''hostname check'' 0
      (Some (map_option s_id (row_by s_hostname host (t_services d))))) (\<lambda>r.
    case r of None \<Rightarrow> Inr ()
    | Some i \<Rightarrow> if i = excludeID then Inr () else Inl ErrNameTaken)"

text \<open>The loop of \<open>replaceServicePorts\<close>, at index \<open>n\<close> of the input.\<close>

fun insert_ports ::
  "env \<Rightarrow> int \<Rightarrow> int \<Rightarrow> service_port list \<Rightarrow> db \<Rightarrow> store_error + service_port list \<times> db" where
  "insert_ports ev sid n [] d = Inr ([], d)"
| "insert_ports ev sid n (p # ps) d =
    (if sp_protocol p \<noteq> ''tcp'' \<and> sp_protocol p \<noteq> ''udp'' then Inl ErrInvalidInput
     else if sp_port p \<le> 0 \<or> sp_port p > 65535 then Inl ErrInvalidInput
     else bindE (exec_sql ev ''insert service port'' n
            (sql_insert_port sid (sp_port p) (sp_protocol p) d)) (\<lambda>(i, d1).
          bindE (insert_ports ev sid (n + 1) ps d1) (\<lambda>(out, d2).
          Inr (\<lparr>sp_id = i, sp_service = sid, sp_port = sp_port p,
                 sp_protocol = sp_protocol p\<rparr> # out, d2))))"

definition replaceServicePorts ::
  "env \<Rightarrow> int \<Rightarrow> service_port list \<Rightarrow> db \<Rightarrow> store_error + service_port list \<times> db" where
  "replaceServicePorts ev sid ps d =
    bindE (exec_sql ev ''clear service ports'' 0 (Some (sql_clear_ports sid d)))
      (\<lambda>d1. insert_ports ev sid 0 ps d1)"

definition create_service_tx ::
  "env \<Rightarrow> create_service_input \<Rightarrow> db \<Rightarrow> store_error + service \<times> db" where
  "create_service_tx ev inp d =
    bindE (checkNameAvailable ev NamespaceObject (cs_name inp) [] 0 d) (\<lambda>_.
    bindE (checkIPAvailable ev (cs_ip inp) [] 0 d) (\<lambda>_.
    bindE (checkHostnameAvailable ev (cs_hostname inp) 0 d) (\<lambda>_.
    bindE (exec_sql ev ''insert service'' 0
      (sql_insert_service (cs_name inp) (cs_hostname inp) (cs_origin inp) (cs_ip inp)
        (nullableString (cs_description inp)) (nowTimestamp ev) d)) (\<lambda>(i, d1).
    bindE (replaceServicePorts ev i (cs_ports inp) d1) (\<lambda>(ps, d2).
    Inr (mk_service i (cs_name inp) (cs_hostname inp) (cs_origin inp) (cs_ip inp)
           (cs_description inp) (nowTimestamp ev) (nowTimestamp ev) ps, d2))))))"

definition CreateService ::
  "env \<Rightarrow> create_service_input \<Rightarrow> db \<Rightarrow> (store_error + service) \<times> db \<times> string list" where
  "CreateService ev inp d =
    (if cs_name inp = [] \<or> cs_hostname inp = [] \<or> cs_ip inp = [] then (Inl ErrInvalidInput, d, [])
     else case validate (cs_origin inp) of
       Inl e \<Rightarrow> (Inl ErrInvalidInput, d, [])
     | Inr org \<Rightarrow> withTx ev ''services'' (create_service_tx ev (inp\<lparr>cs_origin := org\<rparr>)) d)"

text \<open>The fields that an update changes, after the checks of \<open>UpdateService\<close> in their order.\<close>

definition edit_service ::
  "env \<Rightarrow> int \<Rightarrow> update_service_input \<Rightarrow> db \<Rightarrow> service \<Rightarrow> store_error + service" where
  "edit_service ev i inp d cur0 =
    bindE (case us_name inp of None \<Rightarrow> Inr cur0
      | Some nm \<Rightarrow> if nm \<noteq> s_name cur0
          then bindE (checkNameAvailable ev NamespaceObject nm ''services'' i d)
                 (\<lambda>_. Inr (cur0\<lparr>s_name := nm\<rparr>))
          else Inr cur0) (\<lambda>cur1.
    bindE (case us_hostname inp of None \<Rightarrow> Inr cur1
      | Some h \<Rightarrow> if h \<noteq> s_hostname cur1
          then bindE (checkHostnameAvailable ev h i d) (\<lambda>_. Inr (cur1\<lparr>s_hostname := h\<rparr>))
          else Inr cur1) (\<lambda>cur2.
    bindE (case us_origin inp of None \<Rightarrow> Inr cur2
      | Some org \<Rightarrow> (case validate org of Inl e \<Rightarrow> Inl ErrInvalidInput
          | Inr spec \<Rightarrow> Inr (cur2\<lparr>s_origin := spec\<rparr>))) (\<lambda>cur3.
    bindE (case us_ip inp of None \<Rightarrow> Inr cur3
      | Some ip \<Rightarrow> if ip \<noteq> s_ip cur3
          then bindE (checkIPAvailable ev ip ''services'' i d) (\<lambda>_. Inr (cur3\<lparr>s_ip := ip\<rparr>))
          else Inr cur3) (\<lambda>cur4.
    let cur5 = (case us_description inp of None \<Rightarrow> cur4 | Some t \<Rightarrow> cur4\<lparr>s_description := t\<rparr>) in
    Inr (cur5\<lparr>s_updated := nowTimestamp ev\<rparr>)))))"

definition update_service_tx ::
  "env \<Rightarrow> int \<Rightarrow> update_service_input \<Rightarrow> db \<Rightarrow> store_error + service \<times> db" where
  "update_service_tx ev i inp d =
    bindE (serviceByID ev i d) (\<lambda>cur0.
    bindE (edit_service ev i inp d cur0) (\<lambda>cur.
    bindE (exec_sql ev ''update service'' 0
      (sql_update_service i (s_name cur) (s_hostname cur) (s_origin cur) (s_ip cur)
        (nullableString (s_description cur)) (s_updated cur) d)) (\<lambda>d1.
    if us_replace_ports inp then
      bindE (replaceServicePorts ev i (us_ports inp) d1) (\<lambda>(ps, d2). Inr (cur\<lparr>s_ports := ps\<rparr>, d2))
    else
      bindE (loadServicePorts ev i d1) (\<lambda>ps. Inr (cur\<lparr>s_ports := ps\<rparr>, d1)))))"

definition UpdateService ::
  "env \<Rightarrow> int \<Rightarrow> update_service_input \<Rightarrow> db \<Rightarrow> (store_error + service) \<times> db \<times> string list" where
  "UpdateService ev i inp d = withTx ev ''services'' (update_service_tx ev i inp) d"

definition object_is :: "string \<Rightarrow> int \<Rightarrow> policy_rule \<Rightarrow> bool" where
  "object_is kind i r \<longleftrightarrow> r_object_type r = kind \<and> r_object_id r = i"

definition delete_service_tx :: "env \<Rightarrow> int \<Rightarrow> db \<Rightarrow> store_error + unit \<times> db" where
  "delete_service_tx ev i d =
    bindE (serviceByID ev i d) (\<lambda>_.
    bindE (exec_sql ev ''scrub service policies'' 0
      (Some (sql_delete_rules (object_is ''service'' i) d))) (\<lambda>d1.
    bindE (exec_sql ev ''delete service'' 0 (Some (sql_delete_service i d1))) (\<lambda>d2.
    Inr ((), d2))))"

definition DeleteService :: "env \<Rightarrow> int \<Rightarrow> db \<Rightarrow> (store_error + unit) \<times> db \<times> string list" where
  "DeleteService ev i d = withTx ev ''services'' (delete_service_tx ev i) d"

section \<open>They keep the invariant\<close>

lemma mk_service_sel [simp]:
  "s_id (mk_service i nm host org ip descr cr upd ps) = i"
  "s_name (mk_service i nm host org ip descr cr upd ps) = nm"
  "s_hostname (mk_service i nm host org ip descr cr upd ps) = host"
  "s_origin (mk_service i nm host org ip descr cr upd ps) = org"
  "s_ip (mk_service i nm host org ip descr cr upd ps) = ip"
  "s_ports (mk_service i nm host org ip descr cr upd ps) = ps"
  by (simp_all add: mk_service_def)

lemma scanService_sel [simp]:
  "s_id (scanService r) = s_id r" "s_name (scanService r) = s_name r"
  "s_hostname (scanService r) = s_hostname r" "s_origin (scanService r) = s_origin r"
  "s_ip (scanService r) = s_ip r"
  by (simp_all add: scanService_def)

lemma insert_ports_wf:
  "insert_ports ev sid n ps d = Inr (out, d') \<Longrightarrow> db_wf d \<Longrightarrow> db_wf d'"
proof (induction ps arbitrary: n d out)
  case (Cons p ps)
  from Cons.prems(1) obtain i d1 out' where
    p: "sp_port p > 0" "sp_port p \<le> 65535"
    and ins: "sql_insert_port sid (sp_port p) (sp_protocol p) d = Some (i, d1)"
    and rest: "insert_ports ev sid (n + 1) ps d1 = Inr (out', d')"
    by (auto simp: result_simps split: if_splits)
  show ?case
    using rest wf_insert_port [OF Cons.prems(2) ins p] by (rule Cons.IH)
qed simp

lemma replaceServicePorts_wf:
  "replaceServicePorts ev sid ps d = Inr (out, d') \<Longrightarrow> db_wf d \<Longrightarrow> db_wf d'"
  by (auto simp: replaceServicePorts_def result_simps intro: insert_ports_wf wf_clear_ports)

lemma create_service_wf:
  assumes "spec_ok (cs_origin inp)" "db_wf d" "create_service_tx ev inp d = Inr (x, d')"
  shows "db_wf d'"
proof -
  from assms(3) obtain i d1 ps where
    free: "checkNameAvailable ev NamespaceObject (cs_name inp) [] 0 d = Inr ()"
      "checkIPAvailable ev (cs_ip inp) [] 0 d = Inr ()"
    and ins: "sql_insert_service (cs_name inp) (cs_hostname inp) (cs_origin inp) (cs_ip inp)
        (nullableString (cs_description inp)) (nowTimestamp ev) d = Some (i, d1)"
    and rep: "replaceServicePorts ev i (cs_ports inp) d1 = Inr (ps, d')"
    by (auto simp: create_service_tx_def result_simps)
  have "db_wf d1"
    using wf_insert_service [OF assms(2) ins names_free(2) [OF free(1)] names_free(3) [OF free(2)]
        assms(1)] .
  with rep show ?thesis by (rule replaceServicePorts_wf)
qed

lemma serviceByID_Inr:
  "serviceByID ev i d = Inr s \<Longrightarrow>
    \<exists>r\<in>set (t_services d). s_id r = i \<and> s = (scanService r)\<lparr>s_ports := ports_of d i\<rparr>"
  by (auto simp: serviceByID_def loadServicePorts_def result_simps
      split: option.splits dest: row_by_Some)

text \<open>An edited service has a free name, a free address and a valid origin.\<close>

definition edit_ok :: "db \<Rightarrow> service \<Rightarrow> bool" where
  "edit_ok d s \<longleftrightarrow> (\<forall>h\<in>set (t_service_groups d). sg_name h \<noteq> s_name s)
    \<and> (\<forall>u\<in>set (t_users d). u_ip u \<noteq> s_ip s) \<and> spec_ok (s_origin s)"

lemma edit_service_ok:
  assumes "edit_ok d cur0" and "edit_service ev i inp d cur0 = Inr cur"
  shows "edit_ok d cur"
proof -
  from assms(2) obtain cur1 cur2 cur3 cur4 where
    c1: "(case us_name inp of None \<Rightarrow> Inr cur0
      | Some nm \<Rightarrow> if nm \<noteq> s_name cur0
          then bindE (checkNameAvailable ev NamespaceObject nm ''services'' i d)
                 (\<lambda>_. Inr (cur0\<lparr>s_name := nm\<rparr>))
          else Inr cur0) = Inr cur1"
    and c2: "(case us_hostname inp of None \<Rightarrow> Inr cur1
      | Some h \<Rightarrow> if h \<noteq> s_hostname cur1
          then bindE (checkHostnameAvailable ev h i d) (\<lambda>_. Inr (cur1\<lparr>s_hostname := h\<rparr>))
          else Inr cur1) = Inr cur2"
    and c3: "(case us_origin inp of None \<Rightarrow> Inr cur2
      | Some org \<Rightarrow> (case validate org of Inl e \<Rightarrow> Inl ErrInvalidInput
          | Inr spec \<Rightarrow> Inr (cur2\<lparr>s_origin := spec\<rparr>))) = Inr cur3"
    and c4: "(case us_ip inp of None \<Rightarrow> Inr cur3
      | Some ip \<Rightarrow> if ip \<noteq> s_ip cur3
          then bindE (checkIPAvailable ev ip ''services'' i d) (\<lambda>_. Inr (cur3\<lparr>s_ip := ip\<rparr>))
          else Inr cur3) = Inr cur4"
    and c: "cur = (case us_description inp of None \<Rightarrow> cur4 | Some t \<Rightarrow> cur4\<lparr>s_description := t\<rparr>)
        \<lparr>s_updated := nowTimestamp ev\<rparr>"
    unfolding edit_service_def Let_def by (elim bindE_InrE) simp
  have "edit_ok d cur1"
    using c1 assms(1) object_free(1) [of ev _ "''services''" i d]
    by (auto simp: edit_ok_def result_simps split: option.splits if_splits)
  then have "edit_ok d cur2"
    using c2 by (auto simp: edit_ok_def result_simps split: option.splits if_splits)
  then have "edit_ok d cur3"
    using c3 by (auto simp: edit_ok_def validate_ok split: option.splits sum.splits)
  then have "edit_ok d cur4"
    using c4 ip_free(1) [of ev _ "''services''" i d]
    by (auto simp: edit_ok_def result_simps split: option.splits if_splits)
  then show ?thesis by (simp add: c edit_ok_def split: option.splits)
qed

interpretation update_service: tx_body db_wf "update_service_tx ev i inp" for ev i inp
proof unfold_locales
  fix d d' x
  assume wf: "db_wf d" and run: "update_service_tx ev i inp d = Inr (x, d')"
  from run obtain cur0 cur d1 where
    c0: "serviceByID ev i d = Inr cur0" and c: "edit_service ev i inp d cur0 = Inr cur"
    and upd: "sql_update_service i (s_name cur) (s_hostname cur) (s_origin cur) (s_ip cur)
        (nullableString (s_description cur)) (s_updated cur) d = Some d1"
    and fin: "d' = d1 \<or> (\<exists>ps. replaceServicePorts ev i (us_ports inp) d1 = Inr (ps, d'))"
    by (auto simp: update_service_tx_def result_simps split: if_splits)
  from serviceByID_Inr [OF c0] obtain r where r: "r \<in> set (t_services d)"
    and r0: "cur0 = (scanService r)\<lparr>s_ports := ports_of d i\<rparr>" by blast
  have "\<forall>h\<in>set (t_service_groups d). sg_name h \<noteq> s_name r"
    "\<forall>u\<in>set (t_users d). u_ip u \<noteq> s_ip r"
    using wf_other_names(2) [OF wf r] wf_other_names(3) [OF wf _ r] by metis+
  then have "edit_ok d cur0"
    using wf r by (simp add: r0 edit_ok_def db_wf_def wf_services_def)
  then have "edit_ok d cur" using c by (rule edit_service_ok)
  then have "db_wf d1"
    using wf_update_service [OF wf upd] by (auto simp: edit_ok_def)
  with fin show "db_wf d'" by (auto intro: replaceServicePorts_wf)
qed

lemma rule_subject_not_service:
  assumes "db_wf d" "r \<in> set (t_rules d)"
  shows "r_subject_type r \<noteq> ''service''" "r_subject_type r \<noteq> ''service_group''"
  using assms by (auto simp: db_wf_def wf_rules_def rule_ok_def validSubject_def)

interpretation delete_service: tx_body db_wf "delete_service_tx ev i" for ev i
  by unfold_locales (auto simp: delete_service_tx_def result_simps object_is_def
      dest: rule_subject_not_service
      intro!: wf_delete_service wf_delete_rules unreferenced_scrub)

lemma services_keep:
  assumes "db_wf d"
  shows "CreateService ev inp d = (r, d', ks) \<Longrightarrow> db_wf d'"
    and "UpdateService ev i uin d = (r, d', ks) \<Longrightarrow> db_wf d'"
    and "DeleteService ev i d = (rd, d', ks) \<Longrightarrow> db_wf d'"
proof -
  show "CreateService ev inp d = (r, d', ks) \<Longrightarrow> db_wf d'"
    using assms create_service_wf [of "inp\<lparr>cs_origin := org\<rparr>" for org] validate_ok [of "cs_origin inp"]
    by (auto simp: CreateService_def withTx_def split: if_splits sum.splits prod.splits)
  show "UpdateService ev i uin d = (r, d', ks) \<Longrightarrow> db_wf d'"
    unfolding UpdateService_def by (rule update_service.keeps [OF assms])
  show "DeleteService ev i d = (rd, d', ks) \<Longrightarrow> db_wf d'"
    unfolding DeleteService_def by (rule delete_service.keeps [OF assms])
qed

end
