(* ===== verification/StoreGroups.thy ===== *)
theory StoreGroups
  imports Services
begin

text \<open>
  \<open>daemon/store/groups.go\<close> and \<open>daemon/store/policies.go\<close>: user groups, service groups,
  memberships and policy rules.
\<close>

section \<open>User groups\<close>

definition query_row ::
  "env \<Rightarrow> string \<Rightarrow> 'r option \<Rightarrow> store_error + 'r" where
  "query_row ev lbl row = bindE (exec_sql ev lbl 0 (Some row))
     (\<lambda>r. case r of None \<Rightarrow> Inl ErrNotFound | Some x \<Rightarrow> Inr x)"

lemma query_row_Inr [result_simps]:
  "query_row ev lbl row = Inr x \<longleftrightarrow> \<not> sql_fails ev lbl 0 \<and> row = Some x"
  by (auto simp: query_row_def result_simps split: option.splits)

definition userGroupByID :: "env \<Rightarrow> int \<Rightarrow> db \<Rightarrow> store_error + user_group" where
  "userGroupByID ev i d = query_row ev ''scan user_group'' (row_by ug_id i (t_user_groups d))"

definition GetUserGroup :: "env \<Rightarrow> int \<Rightarrow> db \<Rightarrow> store_error + user_group" where
  "GetUserGroup ev i d = query_row ev ''scan user_group'' (row_by ug_id i (t_user_groups d))"

definition GetUserGroupByName :: "env \<Rightarrow> string \<Rightarrow> db \<Rightarrow> store_error + user_group" where
  "GetUserGroupByName ev nm d = query_row ev ''scan user_group'' (row_by ug_name nm (t_user_groups d))"

definition ListUserGroups :: "env \<Rightarrow> db \<Rightarrow> store_error + user_group list" where
  "ListUserGroups ev d = exec_sql ev ''list user_groups'' 0 (Some (order_by ug_id (t_user_groups d)))"

definition create_user_group_tx ::
  "env \<Rightarrow> string \<Rightarrow> bool \<Rightarrow> db \<Rightarrow> store_error + user_group \<times> db" where
  "create_user_group_tx ev nm lan d =
    bindE (checkNameAvailable ev NamespacePrincipal nm [] 0 d) (\<lambda>_.
    bindE (exec_sql ev ''insert user_group'' 0
      (sql_insert_user_group nm lan (nowTimestamp ev) d)) (\<lambda>(i, d').
    Inr (\<lparr>ug_id = i, ug_name = nm, ug_lan_mode = lan, ug_created = nowTimestamp ev,
           ug_updated = nowTimestamp ev\<rparr>, d')))"

definition CreateUserGroup ::
  "env \<Rightarrow> string \<Rightarrow> bool \<Rightarrow> db \<Rightarrow> (store_error + user_group) \<times> db \<times> string list" where
  "CreateUserGroup ev nm lan d = (if nm = [] then (Inl ErrInvalidInput, d, [])
     else withTx ev ''user_groups'' (create_user_group_tx ev nm lan) d)"

record update_user_group_input =
  uug_name :: "string option"
  uug_lan_mode :: "bool option"

definition update_user_group_tx ::
  "env \<Rightarrow> int \<Rightarrow> update_user_group_input \<Rightarrow> db \<Rightarrow> store_error + user_group \<times> db" where
  "update_user_group_tx ev i inp d =
    bindE (userGroupByID ev i d) (\<lambda>cur0.
    bindE (case uug_name inp of None \<Rightarrow> Inr cur0
      | Some nm \<Rightarrow> if nm \<noteq> ug_name cur0
          then bindE (checkNameAvailable ev NamespacePrincipal nm ''user_groups'' i d)
                 (\<lambda>_. Inr (cur0\<lparr>ug_name := nm\<rparr>))
          else Inr cur0) (\<lambda>cur1.
    let cur2 = (case uug_lan_mode inp of None \<Rightarrow> cur1 | Some b \<Rightarrow> cur1\<lparr>ug_lan_mode := b\<rparr>);
        cur = cur2\<lparr>ug_updated := nowTimestamp ev\<rparr> in
    bindE (exec_sql ev ''update user_group'' 0
      (sql_update_user_group i (ug_name cur) (ug_lan_mode cur) (ug_updated cur) d))
      (\<lambda>d'. Inr (cur, d'))))"

definition UpdateUserGroup ::
  "env \<Rightarrow> int \<Rightarrow> update_user_group_input \<Rightarrow> db \<Rightarrow> (store_error + user_group) \<times> db \<times> string list" where
  "UpdateUserGroup ev i inp d = withTx ev ''user_groups'' (update_user_group_tx ev i inp) d"

definition delete_user_group_tx :: "env \<Rightarrow> int \<Rightarrow> db \<Rightarrow> store_error + unit \<times> db" where
  "delete_user_group_tx ev i d =
    bindE (userGroupByID ev i d) (\<lambda>_.
    bindE (exec_sql ev ''scrub user_group policies'' 0
      (Some (sql_delete_rules (rule_mentions ''user_group'' i) d))) (\<lambda>d1.
    bindE (exec_sql ev ''delete user_group'' 0 (Some (sql_delete_user_group i d1))) (\<lambda>d2.
    Inr ((), d2))))"

definition DeleteUserGroup :: "env \<Rightarrow> int \<Rightarrow> db \<Rightarrow> (store_error + unit) \<times> db \<times> string list" where
  "DeleteUserGroup ev i d = withTx ev ''user_groups'' (delete_user_group_tx ev i) d"

definition add_user_to_group_tx :: "env \<Rightarrow> int \<Rightarrow> int \<Rightarrow> db \<Rightarrow> store_error + unit \<times> db" where
  "add_user_to_group_tx ev gid uid d =
    bindE (userGroupByID ev gid d) (\<lambda>_.
    bindE (userByID ev uid d) (\<lambda>_.
    bindE (exec_sql ev ''add user_group member'' 0 (sql_add_ug_member uid gid d))
      (\<lambda>d'. Inr ((), d'))))"

definition AddUserToGroup ::
  "env \<Rightarrow> int \<Rightarrow> int \<Rightarrow> db \<Rightarrow> (store_error + unit) \<times> db \<times> string list" where
  "AddUserToGroup ev gid uid d = withTx ev ''membership'' (add_user_to_group_tx ev gid uid) d"

definition remove_user_from_group_tx :: "env \<Rightarrow> int \<Rightarrow> int \<Rightarrow> db \<Rightarrow> store_error + unit \<times> db" where
  "remove_user_from_group_tx ev gid uid d =
    bindE (exec_sql ev ''remove user_group member'' 0 (Some (sql_remove_ug_member uid gid d)))
      (\<lambda>d'. Inr ((), d'))"

definition RemoveUserFromGroup ::
  "env \<Rightarrow> int \<Rightarrow> int \<Rightarrow> db \<Rightarrow> (store_error + unit) \<times> db \<times> string list" where
  "RemoveUserFromGroup ev gid uid d =
     withTx ev ''membership'' (remove_user_from_group_tx ev gid uid) d"

definition UserGroupMembers :: "env \<Rightarrow> int \<Rightarrow> db \<Rightarrow> store_error + string user list" where
  "UserGroupMembers ev gid d = exec_sql ev ''list user_group members'' gid
     (Some (map scanUser (order_by u_id
       (filter (\<lambda>u. (u_id u, gid) \<in> set (t_ug_members d)) (t_users d)))))"

definition UserGroupIDsForUser :: "env \<Rightarrow> int \<Rightarrow> db \<Rightarrow> store_error + int list" where
  "UserGroupIDsForUser ev uid d = exec_sql ev ''list groups for user'' uid
     (Some (map snd (filter (\<lambda>m. fst m = uid) (t_ug_members d))))"

section \<open>Service groups\<close>

definition serviceGroupByID :: "env \<Rightarrow> int \<Rightarrow> db \<Rightarrow> store_error + service_group" where
  "serviceGroupByID ev i d =
    query_row ev ''scan service_group'' (row_by sg_id i (t_service_groups d))"

definition GetServiceGroup :: "env \<Rightarrow> int \<Rightarrow> db \<Rightarrow> store_error + service_group" where
  "GetServiceGroup ev i d =
    query_row ev ''scan service_group'' (row_by sg_id i (t_service_groups d))"

definition GetServiceGroupByName :: "env \<Rightarrow> string \<Rightarrow> db \<Rightarrow> store_error + service_group" where
  "GetServiceGroupByName ev nm d =
    query_row ev ''scan service_group'' (row_by sg_name nm (t_service_groups d))"

definition ListServiceGroups :: "env \<Rightarrow> db \<Rightarrow> store_error + service_group list" where
  "ListServiceGroups ev d =
    exec_sql ev ''list service_groups'' 0 (Some (order_by sg_id (t_service_groups d)))"

definition create_service_group_tx ::
  "env \<Rightarrow> string \<Rightarrow> db \<Rightarrow> store_error + service_group \<times> db" where
  "create_service_group_tx ev nm d =
    bindE (checkNameAvailable ev NamespaceObject nm [] 0 d) (\<lambda>_.
    bindE (exec_sql ev ''insert service_group'' 0
      (sql_insert_service_group nm (nowTimestamp ev) d)) (\<lambda>(i, d').
    Inr (\<lparr>sg_id = i, sg_name = nm, sg_created = nowTimestamp ev,
           sg_updated = nowTimestamp ev\<rparr>, d')))"

definition CreateServiceGroup ::
  "env \<Rightarrow> string \<Rightarrow> db \<Rightarrow> (store_error + service_group) \<times> db \<times> string list" where
  "CreateServiceGroup ev nm d = (if nm = [] then (Inl ErrInvalidInput, d, [])
     else withTx ev ''service_groups'' (create_service_group_tx ev nm) d)"

definition update_service_group_tx ::
  "env \<Rightarrow> int \<Rightarrow> string option \<Rightarrow> db \<Rightarrow> store_error + service_group \<times> db" where
  "update_service_group_tx ev i nmo d =
    bindE (serviceGroupByID ev i d) (\<lambda>cur0.
    bindE (case nmo of None \<Rightarrow> Inr cur0
      | Some nm \<Rightarrow> if nm \<noteq> sg_name cur0
          then bindE (checkNameAvailable ev NamespaceObject nm ''service_groups'' i d)
                 (\<lambda>_. Inr (cur0\<lparr>sg_name := nm\<rparr>))
          else Inr cur0) (\<lambda>cur1.
    let cur = cur1\<lparr>sg_updated := nowTimestamp ev\<rparr> in
    bindE (exec_sql ev ''update service_group'' 0
      (sql_update_service_group i (sg_name cur) (sg_updated cur) d)) (\<lambda>d'. Inr (cur, d'))))"

definition UpdateServiceGroup ::
  "env \<Rightarrow> int \<Rightarrow> string option \<Rightarrow> db \<Rightarrow> (store_error + service_group) \<times> db \<times> string list" where
  "UpdateServiceGroup ev i nmo d = withTx ev ''service_groups'' (update_service_group_tx ev i nmo) d"

definition delete_service_group_tx :: "env \<Rightarrow> int \<Rightarrow> db \<Rightarrow> store_error + unit \<times> db" where
  "delete_service_group_tx ev i d =
    bindE (serviceGroupByID ev i d) (\<lambda>_.
    bindE (exec_sql ev ''scrub service_group policies'' 0
      (Some (sql_delete_rules (object_is ''service_group'' i) d))) (\<lambda>d1.
    bindE (exec_sql ev ''delete service_group'' 0 (Some (sql_delete_service_group i d1))) (\<lambda>d2.
    Inr ((), d2))))"

definition DeleteServiceGroup :: "env \<Rightarrow> int \<Rightarrow> db \<Rightarrow> (store_error + unit) \<times> db \<times> string list" where
  "DeleteServiceGroup ev i d = withTx ev ''service_groups'' (delete_service_group_tx ev i) d"

definition add_service_to_group_tx :: "env \<Rightarrow> int \<Rightarrow> int \<Rightarrow> db \<Rightarrow> store_error + unit \<times> db" where
  "add_service_to_group_tx ev gid sid d =
    bindE (serviceGroupByID ev gid d) (\<lambda>_.
    bindE (serviceByID ev sid d) (\<lambda>_.
    bindE (exec_sql ev ''add service_group member'' 0 (sql_add_sg_member sid gid d))
      (\<lambda>d'. Inr ((), d'))))"

definition AddServiceToGroup ::
  "env \<Rightarrow> int \<Rightarrow> int \<Rightarrow> db \<Rightarrow> (store_error + unit) \<times> db \<times> string list" where
  "AddServiceToGroup ev gid sid d = withTx ev ''membership'' (add_service_to_group_tx ev gid sid) d"

definition remove_service_from_group_tx ::
  "env \<Rightarrow> int \<Rightarrow> int \<Rightarrow> db \<Rightarrow> store_error + unit \<times> db" where
  "remove_service_from_group_tx ev gid sid d =
    bindE (exec_sql ev ''remove service_group member'' 0 (Some (sql_remove_sg_member sid gid d)))
      (\<lambda>d'. Inr ((), d'))"

definition RemoveServiceFromGroup ::
  "env \<Rightarrow> int \<Rightarrow> int \<Rightarrow> db \<Rightarrow> (store_error + unit) \<times> db \<times> string list" where
  "RemoveServiceFromGroup ev gid sid d =
     withTx ev ''membership'' (remove_service_from_group_tx ev gid sid) d"

definition ServiceGroupMembers :: "env \<Rightarrow> int \<Rightarrow> db \<Rightarrow> store_error + service list" where
  "ServiceGroupMembers ev gid d = queryServices ev (\<lambda>d. order_by s_id
     (filter (\<lambda>s. (s_id s, gid) \<in> set (t_sg_members d)) (t_services d))) d"

definition ServiceGroupIDsForService :: "env \<Rightarrow> int \<Rightarrow> db \<Rightarrow> store_error + int list" where
  "ServiceGroupIDsForService ev sid d = exec_sql ev ''list groups for service'' sid
     (Some (map snd (filter (\<lambda>m. fst m = sid) (t_sg_members d))))"

section \<open>Policy rules\<close>

record create_policy_input =
  cp_subject_type :: string
  cp_subject_id :: int
  cp_object_type :: string
  cp_object_id :: int
  cp_action :: string

definition assertExists :: "env \<Rightarrow> string \<Rightarrow> int \<Rightarrow> db \<Rightarrow> store_error + unit" where
  "assertExists ev kind i d =
    (if kind \<notin> {''user'', ''user_group'', ''service'', ''service_group''} then Inl ErrInvalidInput
     else bindE (exec_sql ev (''assertExists '' @ kind) 0 (Some (row_exists d kind i)))
            (\<lambda>ok. if ok then Inr () else Inl ErrNotFound))"

definition create_policy_tx ::
  "env \<Rightarrow> create_policy_input \<Rightarrow> db \<Rightarrow> store_error + policy_rule \<times> db" where
  "create_policy_tx ev inp d =
    bindE (assertExists ev (cp_subject_type inp) (cp_subject_id inp) d) (\<lambda>_.
    bindE (assertExists ev (cp_object_type inp) (cp_object_id inp) d) (\<lambda>_.
    bindE (exec_sql ev ''lookup policy'' 0 (Some (row_by rule_key
      (cp_subject_type inp, cp_subject_id inp, cp_object_type inp, cp_object_id inp)
      (t_rules d)))) (\<lambda>found.
    case found of
      Some r \<Rightarrow>
        bindE (exec_sql ev ''update policy'' 0
          (sql_update_rule (r_id r) (cp_action inp) (nowTimestamp ev) d)) (\<lambda>d'.
        Inr (\<lparr>r_id = r_id r, r_subject_type = cp_subject_type inp,
               r_subject_id = cp_subject_id inp, r_object_type = cp_object_type inp,
               r_object_id = cp_object_id inp, r_action = cp_action inp,
               r_created = r_created r, r_updated = nowTimestamp ev\<rparr>, d'))
    | None \<Rightarrow>
        bindE (exec_sql ev ''insert policy'' 0
          (sql_insert_rule (cp_subject_type inp) (cp_subject_id inp) (cp_object_type inp)
            (cp_object_id inp) (cp_action inp) (nowTimestamp ev) d)) (\<lambda>(i, d').
        Inr (\<lparr>r_id = i, r_subject_type = cp_subject_type inp,
               r_subject_id = cp_subject_id inp, r_object_type = cp_object_type inp,
               r_object_id = cp_object_id inp, r_action = cp_action inp,
               r_created = nowTimestamp ev, r_updated = nowTimestamp ev\<rparr>, d')))))"

definition CreatePolicy ::
  "env \<Rightarrow> create_policy_input \<Rightarrow> db \<Rightarrow> (store_error + policy_rule) \<times> db \<times> string list" where
  "CreatePolicy ev inp d =
    (if \<not> validSubject (cp_subject_type inp) \<or> \<not> validObject (cp_object_type inp)
        \<or> \<not> validAction (cp_action inp) then (Inl ErrInvalidInput, d, [])
     else withTx ev ''policies'' (create_policy_tx ev inp) d)"

definition delete_policy_tx :: "env \<Rightarrow> int \<Rightarrow> db \<Rightarrow> store_error + unit \<times> db" where
  "delete_policy_tx ev i d =
    bindE (exec_sql ev ''delete policy'' 0 (Some (sql_delete_rules (\<lambda>r. r_id r = i) d))) (\<lambda>d'.
    if length (t_rules d') = length (t_rules d) then Inl ErrNotFound else Inr ((), d'))"

definition DeletePolicy :: "env \<Rightarrow> int \<Rightarrow> db \<Rightarrow> (store_error + unit) \<times> db \<times> string list" where
  "DeletePolicy ev i d = withTx ev ''policies'' (delete_policy_tx ev i) d"

definition ListPolicies :: "env \<Rightarrow> db \<Rightarrow> store_error + policy_rule list" where
  "ListPolicies ev d = exec_sql ev ''list policies'' 0 (Some (order_by r_id (t_rules d)))"

section \<open>They keep the invariant\<close>

interpretation create_user_group: tx_body db_wf "create_user_group_tx ev nm lan" for ev nm lan
  by unfold_locales (auto simp: create_user_group_tx_def result_simps
      intro: wf_insert_user_group [OF _ _ names_free(1)])

interpretation update_user_group: tx_body db_wf "update_user_group_tx ev i inp" for ev i inp
proof unfold_locales
  fix d d' x
  assume wf: "db_wf d" and run: "update_user_group_tx ev i inp d = Inr (x, d')"
  from run obtain cur0 cur1 where c0: "userGroupByID ev i d = Inr cur0"
    and c1: "(case uug_name inp of None \<Rightarrow> Inr cur0
      | Some nm \<Rightarrow> if nm \<noteq> ug_name cur0
          then bindE (checkNameAvailable ev NamespacePrincipal nm ''user_groups'' i d)
                 (\<lambda>_. Inr (cur0\<lparr>ug_name := nm\<rparr>))
          else Inr cur0) = Inr cur1"
    and upd: "\<exists>lan. sql_update_user_group i (ug_name cur1) lan (nowTimestamp ev) d = Some d'"
    unfolding update_user_group_tx_def Let_def
    by (elim bindE_InrE) (simp add: result_simps split: option.splits, blast+)
  have g: "cur0 \<in> set (t_user_groups d)"
    using c0 by (auto simp: userGroupByID_def result_simps dest: row_by_Some)
  have "u_name u \<noteq> ug_name cur1" if u: "u \<in> set (t_users d)" for u
  proof (cases "cur1 = cur0")
    case True
    then show ?thesis using wf_other_names(1) [OF wf u g] by simp
  next
    case False
    then show ?thesis
      using c1 principal_free(2) [of ev "ug_name cur1" "''user_groups''" i d _ u] u
      by (auto simp: result_simps split: option.splits if_splits)
  qed
  then show "db_wf d'" using upd wf_update_user_group [OF wf] by blast
qed

interpretation delete_user_group: tx_body db_wf "delete_user_group_tx ev i" for ev i
  by unfold_locales (auto simp: delete_user_group_tx_def result_simps rule_mentions_def
      intro!: wf_delete_user_group wf_delete_rules unreferenced_scrub)

interpretation add_user_to_group: tx_body db_wf "add_user_to_group_tx ev gid uid" for ev gid uid
  by unfold_locales (auto simp: add_user_to_group_tx_def result_simps intro: wf_add_ug_member)

interpretation remove_user_from_group: tx_body db_wf "remove_user_from_group_tx ev gid uid"
  for ev gid uid
  by unfold_locales (auto simp: remove_user_from_group_tx_def result_simps
      intro: wf_remove_ug_member)

interpretation create_service_group: tx_body db_wf "create_service_group_tx ev nm" for ev nm
  by unfold_locales (auto simp: create_service_group_tx_def result_simps
      intro: wf_insert_service_group [OF _ _ names_free(2)])

interpretation update_service_group: tx_body db_wf "update_service_group_tx ev i nmo" for ev i nmo
proof unfold_locales
  fix d d' x
  assume wf: "db_wf d" and run: "update_service_group_tx ev i nmo d = Inr (x, d')"
  from run obtain cur0 cur1 where c0: "serviceGroupByID ev i d = Inr cur0"
    and c1: "(case nmo of None \<Rightarrow> Inr cur0
      | Some nm \<Rightarrow> if nm \<noteq> sg_name cur0
          then bindE (checkNameAvailable ev NamespaceObject nm ''service_groups'' i d)
                 (\<lambda>_. Inr (cur0\<lparr>sg_name := nm\<rparr>))
          else Inr cur0) = Inr cur1"
    and upd: "sql_update_service_group i (sg_name cur1) (nowTimestamp ev) d = Some d'"
    unfolding update_service_group_tx_def Let_def
    by (elim bindE_InrE) (simp add: result_simps)
  have g: "cur0 \<in> set (t_service_groups d)"
    using c0 by (auto simp: serviceGroupByID_def result_simps dest: row_by_Some)
  have "s_name s \<noteq> sg_name cur1" if s: "s \<in> set (t_services d)" for s
  proof (cases "cur1 = cur0")
    case True
    then show ?thesis using wf_other_names(2) [OF wf s g] by simp
  next
    case False
    then show ?thesis
      using c1 object_free(2) [of ev "sg_name cur1" "''service_groups''" i d _ s] s
      by (auto simp: result_simps split: option.splits if_splits)
  qed
  then show "db_wf d'" using upd wf_update_service_group [OF wf] by blast
qed

interpretation delete_service_group: tx_body db_wf "delete_service_group_tx ev i" for ev i
  by unfold_locales (auto simp: delete_service_group_tx_def result_simps object_is_def
      dest: rule_subject_not_service
      intro!: wf_delete_service_group wf_delete_rules unreferenced_scrub)

interpretation add_service_to_group: tx_body db_wf "add_service_to_group_tx ev gid sid"
  for ev gid sid
  by unfold_locales (auto simp: add_service_to_group_tx_def result_simps intro: wf_add_sg_member)

interpretation remove_service_from_group: tx_body db_wf "remove_service_from_group_tx ev gid sid"
  for ev gid sid
  by unfold_locales (auto simp: remove_service_from_group_tx_def result_simps
      intro: wf_remove_sg_member)

lemma assertExists_Inr [result_simps]:
  "assertExists ev kind i d = Inr u \<longleftrightarrow>
    row_exists d kind i \<and> \<not> sql_fails ev (''assertExists '' @ kind) 0"
  by (auto simp: assertExists_def row_exists_def bindE_Inr_iff exec_sql_Inr)

interpretation create_policy: tx_body db_wf "create_policy_tx ev inp" for ev inp
proof unfold_locales
  fix d d' x
  assume wf: "db_wf d" and run: "create_policy_tx ev inp d = Inr (x, d')"
  let ?k = "(cp_subject_type inp, cp_subject_id inp, cp_object_type inp, cp_object_id inp)"
  from run have ex: "row_exists d (cp_subject_type inp) (cp_subject_id inp)"
    "row_exists d (cp_object_type inp) (cp_object_id inp)"
    by (auto simp: create_policy_tx_def result_simps)
  show "db_wf d'"
  proof (cases "row_by rule_key ?k (t_rules d)")
    case None
    with run obtain i where "sql_insert_rule (cp_subject_type inp) (cp_subject_id inp)
      (cp_object_type inp) (cp_object_id inp) (cp_action inp) (nowTimestamp ev) d = Some (i, d')"
      by (auto simp: create_policy_tx_def result_simps)
    then show ?thesis
      using None by (intro wf_insert_rule [OF wf _ ex]) (auto simp: row_by_None)
  next
    case (Some r)
    with run show ?thesis
      by (auto simp: create_policy_tx_def result_simps intro: wf_update_rule [OF wf])
  qed
qed

interpretation delete_policy: tx_body db_wf "delete_policy_tx ev i" for ev i
  by unfold_locales (auto simp: delete_policy_tx_def result_simps split: if_splits
      intro: wf_delete_rules)

lemma groups_keep:
  assumes "db_wf d"
  shows "CreateUserGroup ev nm lan d = (rg, d', ks) \<Longrightarrow> db_wf d'"
    and "UpdateUserGroup ev i gin d = (rg, d', ks) \<Longrightarrow> db_wf d'"
    and "DeleteUserGroup ev i d = (ru, d', ks) \<Longrightarrow> db_wf d'"
    and "AddUserToGroup ev gid uid d = (ru, d', ks) \<Longrightarrow> db_wf d'"
    and "RemoveUserFromGroup ev gid uid d = (ru, d', ks) \<Longrightarrow> db_wf d'"
  unfolding CreateUserGroup_def UpdateUserGroup_def DeleteUserGroup_def AddUserToGroup_def
    RemoveUserFromGroup_def
  using assms by (auto split: if_splits intro: create_user_group.keeps update_user_group.keeps
      delete_user_group.keeps add_user_to_group.keeps remove_user_from_group.keeps)

lemma service_groups_keep:
  assumes "db_wf d"
  shows "CreateServiceGroup ev nm d = (rg, d', ks) \<Longrightarrow> db_wf d'"
    and "UpdateServiceGroup ev i nmo d = (rg, d', ks) \<Longrightarrow> db_wf d'"
    and "DeleteServiceGroup ev i d = (ru, d', ks) \<Longrightarrow> db_wf d'"
    and "AddServiceToGroup ev gid sid d = (ru, d', ks) \<Longrightarrow> db_wf d'"
    and "RemoveServiceFromGroup ev gid sid d = (ru, d', ks) \<Longrightarrow> db_wf d'"
  unfolding CreateServiceGroup_def UpdateServiceGroup_def DeleteServiceGroup_def
    AddServiceToGroup_def RemoveServiceFromGroup_def
  using assms by (auto split: if_splits intro: create_service_group.keeps
      update_service_group.keeps delete_service_group.keeps add_service_to_group.keeps
      remove_service_from_group.keeps)

lemma policies_keep:
  assumes "db_wf d"
  shows "CreatePolicy ev inp d = (r, d', ks) \<Longrightarrow> db_wf d'"
    and "DeletePolicy ev i d = (ru, d', ks) \<Longrightarrow> db_wf d'"
  unfolding CreatePolicy_def DeletePolicy_def
  using assms by (auto split: if_splits intro: create_policy.keeps delete_policy.keeps)

end
