(* ===== verification/Store.thy ===== *)
theory Store
  imports StoreGroups
begin

text \<open>
  The store as a whole: its state-changing operations as one type, the databases a daemon can
  reach from an empty one, and what the operations promise.
\<close>

section \<open>All operations\<close>

datatype store_op =
    OpCreateUser create_user_input
  | OpUpdateUser int update_user_input
  | OpDeleteUser int
  | OpCreateService create_service_input
  | OpUpdateService int update_service_input
  | OpDeleteService int
  | OpCreateUserGroup string bool
  | OpUpdateUserGroup int update_user_group_input
  | OpDeleteUserGroup int
  | OpAddUserToGroup int int
  | OpRemoveUserFromGroup int int
  | OpCreateServiceGroup string
  | OpUpdateServiceGroup int "string option"
  | OpDeleteServiceGroup int
  | OpAddServiceToGroup int int
  | OpRemoveServiceFromGroup int int
  | OpCreatePolicy create_policy_input
  | OpDeletePolicy int
  | OpSetSetting string string

definition outcome ::
  "(store_error + 'a) \<times> db \<times> string list \<Rightarrow> store_error option \<times> db \<times> string list" where
  "outcome r = (case r of (res, d, ks) \<Rightarrow>
     ((case res of Inl e \<Rightarrow> Some e | Inr _ \<Rightarrow> None), d, ks))"

fun run_op :: "env \<Rightarrow> store_op \<Rightarrow> db \<Rightarrow> store_error option \<times> db \<times> string list" where
  "run_op ev (OpCreateUser inp) d = outcome (CreateUser ev inp d)"
| "run_op ev (OpUpdateUser i inp) d = outcome (UpdateUser ev i inp d)"
| "run_op ev (OpDeleteUser i) d = outcome (DeleteUser ev i d)"
| "run_op ev (OpCreateService inp) d = outcome (CreateService ev inp d)"
| "run_op ev (OpUpdateService i inp) d = outcome (UpdateService ev i inp d)"
| "run_op ev (OpDeleteService i) d = outcome (DeleteService ev i d)"
| "run_op ev (OpCreateUserGroup nm lan) d = outcome (CreateUserGroup ev nm lan d)"
| "run_op ev (OpUpdateUserGroup i inp) d = outcome (UpdateUserGroup ev i inp d)"
| "run_op ev (OpDeleteUserGroup i) d = outcome (DeleteUserGroup ev i d)"
| "run_op ev (OpAddUserToGroup g u) d = outcome (AddUserToGroup ev g u d)"
| "run_op ev (OpRemoveUserFromGroup g u) d = outcome (RemoveUserFromGroup ev g u d)"
| "run_op ev (OpCreateServiceGroup nm) d = outcome (CreateServiceGroup ev nm d)"
| "run_op ev (OpUpdateServiceGroup i nm) d = outcome (UpdateServiceGroup ev i nm d)"
| "run_op ev (OpDeleteServiceGroup i) d = outcome (DeleteServiceGroup ev i d)"
| "run_op ev (OpAddServiceToGroup g s) d = outcome (AddServiceToGroup ev g s d)"
| "run_op ev (OpRemoveServiceFromGroup g s) d = outcome (RemoveServiceFromGroup ev g s d)"
| "run_op ev (OpCreatePolicy inp) d = outcome (CreatePolicy ev inp d)"
| "run_op ev (OpDeletePolicy i) d = outcome (DeletePolicy ev i d)"
| "run_op ev (OpSetSetting k v) d = outcome (SetSetting ev k v d)"

definition op_kind :: "store_op \<Rightarrow> string" where
  "op_kind oper = (case oper of
     OpCreateUser _ \<Rightarrow> ''users'' | OpUpdateUser _ _ \<Rightarrow> ''users'' | OpDeleteUser _ \<Rightarrow> ''users''
   | OpCreateService _ \<Rightarrow> ''services'' | OpUpdateService _ _ \<Rightarrow> ''services''
   | OpDeleteService _ \<Rightarrow> ''services''
   | OpCreateUserGroup _ _ \<Rightarrow> ''user_groups'' | OpUpdateUserGroup _ _ \<Rightarrow> ''user_groups''
   | OpDeleteUserGroup _ \<Rightarrow> ''user_groups''
   | OpCreateServiceGroup _ \<Rightarrow> ''service_groups'' | OpUpdateServiceGroup _ _ \<Rightarrow> ''service_groups''
   | OpDeleteServiceGroup _ \<Rightarrow> ''service_groups''
   | OpCreatePolicy _ \<Rightarrow> ''policies'' | OpDeletePolicy _ \<Rightarrow> ''policies''
   | OpSetSetting _ _ \<Rightarrow> ''settings''
   | _ \<Rightarrow> ''membership'')"

text \<open>A daemon's databases: those that operations lead to, each in some environment.\<close>

inductive reachable :: "db \<Rightarrow> bool" where
  start: "reachable empty_db"
| step: "reachable d \<Longrightarrow> run_op ev oper d = (res, d', ks) \<Longrightarrow> reachable d'"

section \<open>Lemmas\<close>

lemma outcome_iff:
  "outcome r = (eo, d', ks) \<longleftrightarrow> (\<exists>res. r = (res, d', ks) \<and>
     eo = (case res of Inl e \<Rightarrow> Some e | Inr _ \<Rightarrow> None))"
  by (cases r) (auto simp: outcome_def)

lemmas op_defs = CreateUser_def UpdateUser_def DeleteUser_def CreateService_def UpdateService_def
  DeleteService_def CreateUserGroup_def UpdateUserGroup_def DeleteUserGroup_def AddUserToGroup_def
  RemoveUserFromGroup_def CreateServiceGroup_def UpdateServiceGroup_def DeleteServiceGroup_def
  AddServiceToGroup_def RemoveServiceFromGroup_def CreatePolicy_def DeletePolicy_def SetSetting_def

lemma outcome_withTx:
  "outcome (withTx ev k body d) = (eo, d', ks) \<Longrightarrow> k \<noteq> [] \<Longrightarrow>
    if eo = None then ks = [k] else d' = d \<and> ks = []"
  by (auto simp: withTx_def outcome_def split: if_splits sum.splits prod.splits)

lemma outcome_refused: "outcome (Inl e, d, []) = (eo, d', ks) \<Longrightarrow> eo \<noteq> None \<and> d' = d \<and> ks = []"
  by (auto simp: outcome_def)

lemma run_op_atomic:
  "run_op ev oper d = (eo, d', ks) \<Longrightarrow>
    if eo = None then ks = [op_kind oper] else d' = d \<and> ks = []"
  by (cases oper)
    (force simp: op_defs op_kind_def dest: outcome_withTx outcome_refused
      split: if_splits sum.splits)+

lemma run_op_keeps:
  assumes "db_wf d" "run_op ev oper d = (eo, d', ks)"
  shows "db_wf d'"
  using assms(2)
  by (cases oper) (auto simp: outcome_iff intro: users_keep [OF assms(1)]
      services_keep [OF assms(1)] groups_keep [OF assms(1)] service_groups_keep [OF assms(1)]
      policies_keep [OF assms(1)])

lemma reachable_wf: "reachable d \<Longrightarrow> db_wf d"
  by (induction rule: reachable.induct) (auto simp: db_wf_empty intro: run_op_keeps)

section \<open>Properties\<close>

text \<open>
  C23: every database that a daemon reaches from an empty one, by any operations in any order
  and with any statement failing, is well-formed: ids are unique and below their counters, user
  and user-group names are distinct from one another, so are service and service-group names,
  no address is held twice by users and services together, memberships, ports and policy rules
  refer to existing rows, every port is valid and every stored origin is a validated one.
\<close>

theorem store_invariant:
  assumes "reachable d"
  shows "db_wf d"
  using assms by (rule reachable_wf)

definition quiet_env :: env where
  "quiet_env = \<lparr>nowTimestamp = ''t'', sql_fails = (\<lambda>_ _. False)\<rparr>"

definition sample_user :: create_user_input where
  "sample_user = \<lparr>cu_name = ''alice'', cu_email = [], cu_public_key = ''pub'',
     cu_private_key = ''priv'', cu_preshared_key = ''psk'', cu_ip = ''10.0.0.2'',
     cu_endpoint = []\<rparr>"

theorem store_invariant_witness:
  "db_wf (fst (snd (run_op quiet_env (OpCreateUser sample_user) empty_db)))"
proof -
  obtain eo d' ks where r: "run_op quiet_env (OpCreateUser sample_user) empty_db = (eo, d', ks)"
    by (cases "run_op quiet_env (OpCreateUser sample_user) empty_db") auto
  then have "reachable d'" by (rule reachable.step [OF reachable.start])
  from store_invariant [OF this] r show ?thesis by simp
qed


end
