(* ===== verification/StoreContracts.thy ===== *)
theory StoreContracts
  imports Store
begin

text \<open>
  What single operations of the store promise: every outcome of creating a user, what a
  deletion takes with it, that creating a policy rule is an upsert, and when the ports of a
  service are accepted.
\<close>

section \<open>Lemmas\<close>

definition sql_never_fails :: "env \<Rightarrow> bool" where
  "sql_never_fails ev \<longleftrightarrow> (\<forall>lbl i. \<not> sql_fails ev lbl i)"

lemma never_fails_exec [simp]: "sql_never_fails ev \<Longrightarrow> exec_sql ev lbl i (Some x) = Inr x"
  by (simp add: sql_never_fails_def)

lemma never_fails_withTx:
  "sql_never_fails ev \<Longrightarrow> k \<noteq> [] \<Longrightarrow> withTx ev k body d = (case body d of Inl e \<Rightarrow> (Inl e, d, [])
     | Inr (x, d') \<Rightarrow> (Inr x, d', [k]))"
  by (simp add: withTx_run sql_never_fails_def)

lemma row_by_cases:
  "row_by key k t = (if k \<in> key ` set t then Some (the (row_by key k t)) else None)"
  by (cases "row_by key k t") (auto simp: row_by_None dest: row_by_Some)

lemma checkNameAvailable_fresh:
  assumes "sql_never_fails ev"
  shows "checkNameAvailable ev NamespacePrincipal nm [] 0 d =
      (if nm \<in> set (principal_names d) then Inl ErrNameTaken else Inr ())"
    and "checkNameAvailable ev NamespaceObject nm [] 0 d =
      (if nm \<in> set (object_names d) then Inl ErrNameTaken else Inr ())"
proof -
  show "checkNameAvailable ev NamespacePrincipal nm [] 0 d =
      (if nm \<in> set (principal_names d) then Inl ErrNameTaken else Inr ())"
    using assms row_by_None [of u_name nm "t_users d"] row_by_None [of ug_name nm "t_user_groups d"]
    by (cases "row_by u_name nm (t_users d)"; cases "row_by ug_name nm (t_user_groups d)")
      (auto simp: checkNameAvailable_def namespaceTables_def check_tables.simps
        select_id_by_name_def principal_names_def)
  show "checkNameAvailable ev NamespaceObject nm [] 0 d =
      (if nm \<in> set (object_names d) then Inl ErrNameTaken else Inr ())"
    using assms row_by_None [of s_name nm "t_services d"] row_by_None [of sg_name nm "t_service_groups d"]
    by (cases "row_by s_name nm (t_services d)"; cases "row_by sg_name nm (t_service_groups d)")
      (auto simp: checkNameAvailable_def namespaceTables_def check_tables.simps
        select_id_by_name_def object_names_def)
qed

lemma checkIPAvailable_fresh:
  assumes "sql_never_fails ev"
  shows "checkIPAvailable ev ip [] 0 d =
    (if ip \<in> set (addresses d) then Inl ErrIPInUse else Inr ())"
  using assms row_by_None [of u_ip ip "t_users d"] row_by_None [of s_ip ip "t_services d"]
  by (cases "row_by u_ip ip (t_users d)"; cases "row_by s_ip ip (t_services d)")
    (auto simp: checkIPAvailable_def check_tables.simps select_id_by_ip_def addresses_def)

lemma wf_sorted:
  assumes "db_wf d"
  shows "order_by u_id (t_users d) = t_users d" "order_by ug_id (t_user_groups d) = t_user_groups d"
    "order_by s_id (t_services d) = t_services d" "order_by r_id (t_rules d) = t_rules d"
  using assms by (auto simp: db_wf_def wf_ids_def ids_ok_def intro: order_by_sorted)

lemma wf_distinct_ids:
  assumes "db_wf d"
  shows "distinct (map u_id (t_users d))" "distinct (map ug_id (t_user_groups d))"
    "distinct (map s_id (t_services d))" "distinct (map r_id (t_rules d))"
    "distinct (map sg_id (t_service_groups d))"
  using assms by (auto simp: db_wf_def wf_ids_def dest: ids_ok_distinct)

text \<open>The row and the user that \<open>CreateUser\<close> makes of its input.\<close>

definition new_user_row :: "env \<Rightarrow> create_user_input \<Rightarrow> int \<Rightarrow> string option user" where
  "new_user_row ev inp i = \<lparr>u_id = i, u_name = cu_name inp, u_email = nullableString (cu_email inp),
     u_public_key = cu_public_key inp, u_private_key = cu_private_key inp,
     u_preshared_key = cu_preshared_key inp, u_ip = cu_ip inp,
     u_endpoint = nullableString (cu_endpoint inp), u_created = nowTimestamp ev,
     u_updated = nowTimestamp ev\<rparr>"

lemma create_user_ok:
  assumes ok: "sql_never_fails ev" and wf: "db_wf d" and q: "q_users d < max_int64"
    and free: "cu_name inp \<notin> set (principal_names d)" "cu_ip inp \<notin> set (addresses d)"
  shows "create_user_tx ev inp d = Inr (scanUser (new_user_row ev inp (q_users d + 1)),
     d\<lparr>q_users := q_users d + 1, t_users := t_users d @ [new_user_row ev inp (q_users d + 1)]\<rparr>)"
proof -
  have "no_row u_name (cu_name inp) (t_users d)" "no_row u_ip (cu_ip inp) (t_users d)"
    using free by (auto simp: no_row_iff principal_names_def addresses_def)
  then show ?thesis
    using assms by (simp add: create_user_tx_def checkNameAvailable_fresh checkIPAvailable_fresh
        sql_insert_user_def next_rowid_def new_user_row_def scanUser_def)
qed

text \<open>The row that an operation deletes, and the memberships and ports on a row.\<close>

definition deletes :: "store_op \<Rightarrow> (string \<times> int) option" where
  "deletes oper = (case oper of OpDeleteUser i \<Rightarrow> Some (''user'', i)
     | OpDeleteUserGroup i \<Rightarrow> Some (''user_group'', i)
     | OpDeleteService i \<Rightarrow> Some (''service'', i)
     | OpDeleteServiceGroup i \<Rightarrow> Some (''service_group'', i)
     | _ \<Rightarrow> None)"

definition attached :: "db \<Rightarrow> string \<Rightarrow> int \<Rightarrow> bool" where
  "attached d kind i \<longleftrightarrow> (kind = ''user'' \<and> i \<in> fst ` set (t_ug_members d))
    \<or> (kind = ''user_group'' \<and> i \<in> snd ` set (t_ug_members d))
    \<or> (kind = ''service'' \<and> (i \<in> fst ` set (t_sg_members d) \<or> i \<in> sp_service ` set (t_ports d)))
    \<or> (kind = ''service_group'' \<and> i \<in> snd ` set (t_sg_members d))"

lemma object_is_mentions:
  assumes "db_wf d" "kind = ''service'' \<or> kind = ''service_group''"
  shows "filter (\<lambda>r. \<not> object_is kind i r) (t_rules d) = filter (\<lambda>r. \<not> rule_mentions kind i r) (t_rules d)"
  using assms by (intro filter_cong) (auto simp: object_is_def rule_mentions_def
      dest: rule_subject_not_service)

lemma delete_body:
  "delete_user_tx ev i d = Inr (x, d') \<Longrightarrow>
    d' = sql_delete_user i (sql_delete_rules (rule_mentions ''user'' i) d)"
  "delete_user_group_tx ev i d = Inr (x, d') \<Longrightarrow>
    d' = sql_delete_user_group i (sql_delete_rules (rule_mentions ''user_group'' i) d)"
  "delete_service_tx ev i d = Inr (x, d') \<Longrightarrow>
    d' = sql_delete_service i (sql_delete_rules (object_is ''service'' i) d)"
  "delete_service_group_tx ev i d = Inr (x, d') \<Longrightarrow>
    d' = sql_delete_service_group i (sql_delete_rules (object_is ''service_group'' i) d)"
  by (auto simp: delete_user_tx_def delete_user_group_tx_def delete_service_tx_def
      delete_service_group_tx_def result_simps)

lemma outcome_None:
  "outcome (withTx ev k body d) = (None, d', ks) \<Longrightarrow> \<exists>x. body d = Inr (x, d')"
  by (auto simp: withTx_def outcome_def split: if_splits sum.splits prod.splits)

lemma distinct_filter_unique:
  "distinct (map f t) \<Longrightarrow> x \<in> set t \<Longrightarrow> filter (\<lambda>y. f y = f x) t = [x]"
proof (induction t)
  case (Cons y t)
  show ?case
  proof (cases "x = y")
    case True
    then show ?thesis using Cons.prems by (auto simp: filter_empty_conv image_iff)
  next
    case False
    then have "x \<in> set t" "f y \<noteq> f x" using Cons.prems by (auto simp: image_iff)
    then show ?thesis using Cons by simp
  qed
qed simp

section \<open>Properties\<close>

text \<open>
  The outcomes of \<open>CreateUser\<close> on a well-formed database, while statements do not fail
  and ids last. A missing field, a name in use by a user or a user group, and an address in use
  by a user or a service are refused in that order, with the database unchanged; the
  constraints of the schema never speak. Otherwise the new user has the next id, \<open>GetUser\<close>
  returns exactly the user that \<open>CreateUser\<close> returned, and \<open>ListUsers\<close> ends with it.
\<close>

theorem create_user_outcome:
  assumes "sql_never_fails ev" and "db_wf d" and "q_users d < max_int64"
  shows "if cu_name inp = [] \<or> cu_public_key inp = [] \<or> cu_private_key inp = []
        \<or> cu_preshared_key inp = [] \<or> cu_ip inp = []
      then CreateUser ev inp d = (Inl ErrInvalidInput, d, [])
    else if cu_name inp \<in> set (principal_names d) then CreateUser ev inp d = (Inl ErrNameTaken, d, [])
    else if cu_ip inp \<in> set (addresses d) then CreateUser ev inp d = (Inl ErrIPInUse, d, [])
    else (\<exists>u d' us. CreateUser ev inp d = (Inr u, d', [''users'']) \<and> u_id u = q_users d + 1
      \<and> u_name u = cu_name inp \<and> u_ip u = cu_ip inp \<and> GetUser ev (u_id u) d' = Inr u
      \<and> ListUsers ev d = Inr us \<and> ListUsers ev d' = Inr (us @ [u]))"
proof -
  let ?i = "q_users d + 1"
  let ?r = "new_user_row ev inp ?i"
  let ?d' = "d\<lparr>q_users := ?i, t_users := t_users d @ [?r]\<rparr>"
  let ?m = "cu_name inp = [] \<or> cu_public_key inp = [] \<or> cu_private_key inp = []
        \<or> cu_preshared_key inp = [] \<or> cu_ip inp = []"
  have refuse: "CreateUser ev inp d = (Inl ErrNameTaken, d, [])"
    if "\<not> ?m" "cu_name inp \<in> set (principal_names d)"
    using that assms(1) by (simp add: CreateUser_def never_fails_withTx create_user_tx_def
        checkNameAvailable_fresh)
  have refuse2: "CreateUser ev inp d = (Inl ErrIPInUse, d, [])"
    if "\<not> ?m" "cu_name inp \<notin> set (principal_names d)" "cu_ip inp \<in> set (addresses d)"
    using that assms(1) by (simp add: CreateUser_def never_fails_withTx create_user_tx_def
        checkNameAvailable_fresh checkIPAvailable_fresh)
  have ok: "CreateUser ev inp d = (Inr (scanUser ?r), ?d', [''users''])
      \<and> GetUser ev ?i ?d' = Inr (scanUser ?r)
      \<and> ListUsers ev d = Inr (map scanUser (t_users d))
      \<and> ListUsers ev ?d' = Inr (map scanUser (t_users d) @ [scanUser ?r])"
    if "\<not> ?m" "cu_name inp \<notin> set (principal_names d)" "cu_ip inp \<notin> set (addresses d)"
  proof -
    have c: "CreateUser ev inp d = (Inr (scanUser ?r), ?d', [''users''])"
      using that assms by (simp add: CreateUser_def never_fails_withTx create_user_ok)
    have wf': "db_wf ?d'" using users_keep(1) [OF assms(2) c] .
    have "row_by u_id ?i (t_users ?d') = Some ?r"
      using row_by_unique [OF wf_distinct_ids(1) [OF wf'], of ?r] by (simp add: new_user_row_def)
    then have "GetUser ev ?i ?d' = Inr (scanUser ?r)"
      using assms(1) by (simp add: GetUser_def query_user_def)
    moreover have "ListUsers ev d = Inr (map scanUser (t_users d))"
      "ListUsers ev ?d' = Inr (map scanUser (t_users d) @ [scanUser ?r])"
      using assms(1) wf_sorted(1) [OF assms(2)] wf_sorted(1) [OF wf'] by (simp_all add: ListUsers_def)
    ultimately show ?thesis using c by simp
  qed
  show ?thesis
    using refuse refuse2 ok
    by (auto simp: CreateUser_def new_user_row_def split: if_split)
qed

theorem create_user_outcome_witness:
  "\<exists>u d' us. CreateUser quiet_env sample_user empty_db = (Inr u, d', [''users'']) \<and> u_id u = 1
     \<and> GetUser quiet_env 1 d' = Inr u"
proof -
  have "sql_never_fails quiet_env" by (simp add: sql_never_fails_def quiet_env_def)
  moreover have "q_users empty_db < max_int64" by (simp add: empty_db_def max_int64_def)
  ultimately show ?thesis
    using create_user_outcome [OF _ db_wf_empty, of quiet_env sample_user]
    by (auto simp: sample_user_def empty_db_def principal_names_def addresses_def)
qed

lemma delete_effect:
  assumes "db_wf d" and "deletes oper = Some (kind, i)" and "run_op ev oper d = (None, d', ks)"
  shows "\<not> row_exists d' kind i \<and> \<not> attached d' kind i
    \<and> t_rules d' = filter (\<lambda>r. \<not> rule_mentions kind i r) (t_rules d)
    \<and> (\<forall>k j. (k, j) \<noteq> (kind, i) \<longrightarrow> row_exists d' k j = row_exists d k j)"
proof -
  have "(oper = OpDeleteUser i \<and> kind = ''user''
        \<and> d' = sql_delete_user i (sql_delete_rules (rule_mentions ''user'' i) d))
    \<or> (oper = OpDeleteUserGroup i \<and> kind = ''user_group''
        \<and> d' = sql_delete_user_group i (sql_delete_rules (rule_mentions ''user_group'' i) d))
    \<or> (oper = OpDeleteService i \<and> kind = ''service''
        \<and> d' = sql_delete_service i (sql_delete_rules (object_is ''service'' i) d))
    \<or> (oper = OpDeleteServiceGroup i \<and> kind = ''service_group''
        \<and> d' = sql_delete_service_group i (sql_delete_rules (object_is ''service_group'' i) d))"
    using assms(2,3) by (cases oper) (auto simp: deletes_def DeleteUser_def DeleteUserGroup_def
        DeleteService_def DeleteServiceGroup_def dest!: outcome_None delete_body)
  then show ?thesis
    using assms(1) by (elim disjE) (auto simp: sql_delete_user_def sql_delete_user_group_def
        sql_delete_service_def sql_delete_service_group_def sql_delete_rules_def row_exists_def
        attached_def object_is_mentions)
qed


lemma sample_user_sel [simp]:
  "cu_name sample_user = ''alice''" "cu_public_key sample_user = ''pub''"
  "cu_private_key sample_user = ''priv''" "cu_preshared_key sample_user = ''psk''"
  "cu_ip sample_user = ''10.0.0.2''"
  by (simp_all add: sample_user_def)

lemma empty_db_sel [simp]:
  "t_users empty_db = []" "t_rules empty_db = []" "q_users empty_db = 0" "q_rules empty_db = 0"
  "principal_names empty_db = []" "object_names empty_db = []" "addresses empty_db = []"
  by (simp_all add: empty_db_def principal_names_def object_names_def addresses_def)

definition sample_db :: db where
  "sample_db = fst (snd (run_op quiet_env (OpCreateUser sample_user) empty_db))"

lemma quiet_never [simp]: "sql_never_fails quiet_env"
  by (simp add: sql_never_fails_def quiet_env_def)

lemma sample_db_eq:
  "sample_db = empty_db\<lparr>q_users := 1, t_users := [new_user_row quiet_env sample_user 1]\<rparr>"
  using create_user_ok [OF quiet_never db_wf_empty, of sample_user]
  by (simp add: sample_db_def CreateUser_def never_fails_withTx outcome_def max_int64_def)

lemma sample_db_wf: "db_wf sample_db"
  unfolding sample_db_def
  by (rule reachable_wf) (metis prod.collapse reachable.start reachable.step)


text \<open>
  C25: \<open>CreatePolicy\<close> is an upsert. On a well-formed database it leaves exactly one rule on the
  given subject and object, with the requested action, which is the rule it returns; every
  other rule keeps its place and content. A rule that existed keeps its id and creation time, so
  it keeps its rank; a new rule gets an id above every other, so it outranks them all.
\<close>

theorem create_policy_upsert:
  assumes "db_wf d" and "CreatePolicy ev inp d = (Inr r, d', ks)"
  defines "k \<equiv> (cp_subject_type inp, cp_subject_id inp, cp_object_type inp, cp_object_id inp)"
  shows "filter (\<lambda>x. rule_key x = k) (t_rules d') = [r] \<and> r_action r = cp_action inp
    \<and> filter (\<lambda>x. rule_key x \<noteq> k) (t_rules d') = filter (\<lambda>x. rule_key x \<noteq> k) (t_rules d)
    \<and> (case row_by rule_key k (t_rules d) of
         Some old \<Rightarrow> r_id r = r_id old \<and> r_created r = r_created old
           \<and> map r_id (t_rules d') = map r_id (t_rules d)
       | None \<Rightarrow> (\<forall>x\<in>set (t_rules d). r_id x < r_id r))"
proof -
  have run: "create_policy_tx ev inp d = Inr (r, d')"
    using assms(2) by (auto simp: CreatePolicy_def dest: withTx_ok split: if_splits)
  have keys: "distinct (map rule_key (t_rules d))" and ids: "distinct (map r_id (t_rules d))"
    using assms(1) by (auto simp: db_wf_def wf_rules_def wf_ids_def dest: ids_ok_distinct)
  show ?thesis
  proof (cases "row_by rule_key k (t_rules d)")
    case None
    then have none: "filter (\<lambda>x. rule_key x = k) (t_rules d) = []"
      by (auto simp: row_by_None filter_empty_conv)
    from run None have "sql_insert_rule (cp_subject_type inp) (cp_subject_id inp)
        (cp_object_type inp) (cp_object_id inp) (cp_action inp) (nowTimestamp ev) d = Some (r_id r, d')"
      and r: "rule_key r = k" "r_action r = cp_action inp" "r_created r = nowTimestamp ev"
        "r_updated r = nowTimestamp ev"
      by (auto simp: create_policy_tx_def k_def rule_key_def result_simps)
    then have d': "d' = d\<lparr>q_rules := r_id r, t_rules := t_rules d @ [r]\<rparr>"
      and q: "next_rowid (q_rules d) = Some (r_id r)"
      by (auto simp: sql_insert_rule_def k_def rule_key_def split: if_splits option.splits)
    have "\<forall>x\<in>set (t_rules d). r_id x < r_id r"
      using assms(1) q by (auto simp: db_wf_def wf_ids_def ids_ok_def next_rowid_def list_all_iff
          split: if_splits)
    then show ?thesis using None none r by (simp add: d')
  next
    case (Some old)
    then have old: "old \<in> set (t_rules d)" "rule_key old = k" by (auto dest: row_by_Some)
    let ?f = "\<lambda>x. x\<lparr>r_action := cp_action inp, r_updated := nowTimestamp ev\<rparr>"
    from run Some have d': "d' = d\<lparr>t_rules := update_rows r_id (r_id old) ?f (t_rules d)\<rparr>"
      and r: "r = ?f old"
      using old(2) by (auto simp: create_policy_tx_def k_def rule_key_def result_simps
          sql_update_rule_def split: if_splits)
    have same: "x = old" if "x \<in> set (t_rules d)" "r_id x = r_id old \<or> rule_key x = k" for x
      using that old keys ids by (auto simp: distinct_map dest: inj_onD)
    have "filter (\<lambda>x. rule_key x = k) (update_rows r_id (r_id old) ?f t) =
        map ?f (filter (\<lambda>x. rule_key x = k) t)
      \<and> filter (\<lambda>x. rule_key x \<noteq> k) (update_rows r_id (r_id old) ?f t) = filter (\<lambda>x. rule_key x \<noteq> k) t"
      if "set t \<subseteq> set (t_rules d)" for t
      using that
    proof (induction t)
      case (Cons x t)
      then show ?case using same [of x] old(2) by (auto simp: update_rows_def rule_key_def)
    qed (simp add: update_rows_def)
    moreover have "filter (\<lambda>x. rule_key x = k) (t_rules d) = [old]"
      using distinct_filter_unique [OF keys old(1)] old(2) by simp
    ultimately show ?thesis
      using Some by (simp add: d' r update_rows_key)
  qed
qed

definition sample_policy :: create_policy_input where
  "sample_policy = \<lparr>cp_subject_type = ''user'', cp_subject_id = 1, cp_object_type = ''user'',
     cp_object_id = 1, cp_action = ''allow''\<rparr>"

theorem create_policy_upsert_witness:
  "\<exists>r d' ks. CreatePolicy quiet_env sample_policy sample_db = (Inr r, d', ks)
     \<and> filter (\<lambda>x. rule_key x = (''user'', 1, ''user'', 1)) (t_rules d') = [r]"
proof -
  have "row_exists sample_db ''user'' 1"
    by (simp add: row_exists_def sample_db_eq new_user_row_def)
  then obtain r d' ks where run: "CreatePolicy quiet_env sample_policy sample_db = (Inr r, d', ks)"
    by (simp add: CreatePolicy_def sample_policy_def validSubject_def validObject_def
        validAction_def never_fails_withTx create_policy_tx_def assertExists_def row_by_def
        sql_insert_rule_def next_rowid_def max_int64_def sample_db_eq)
  show ?thesis
    using create_policy_upsert [OF sample_db_wf run] run by (auto simp: sample_policy_def)
qed

section \<open>Ports\<close>

definition port_ok :: "service_port \<Rightarrow> bool" where
  "port_ok p \<longleftrightarrow> port_valid (sp_port p) (sp_protocol p)"

definition port_pair :: "service_port \<Rightarrow> int \<times> string" where
  "port_pair p = (sp_port p, sp_protocol p)"

definition pairs_of :: "db \<Rightarrow> int \<Rightarrow> (int \<times> string) list" where
  "pairs_of d sid = map port_pair (filter (\<lambda>p. sp_service p = sid) (t_ports d))"

lemma no_row_pairs:
  "no_row (\<lambda>r. (sp_service r, sp_port r, sp_protocol r)) (sid, p, proto) (t_ports d)
    \<longleftrightarrow> (p, proto) \<notin> set (pairs_of d sid)"
  by (auto simp: no_row_iff pairs_of_def port_pair_def)

lemma insert_ports_Inr:
  "insert_ports ev sid n ps d = Inr (out, d') \<Longrightarrow>
    list_all port_ok ps \<and> distinct (map port_pair ps) \<and> set (map port_pair ps) \<inter> set (pairs_of d sid) = {}
    \<and> map port_pair out = map port_pair ps \<and> t_ports d' = t_ports d @ out
    \<and> (\<forall>p\<in>set out. sp_service p = sid)"
proof (induction ps arbitrary: n d out)
  case (Cons p ps)
  from Cons.prems obtain i d1 out' where
    p: "port_ok p"
    and ins: "sql_insert_port sid (sp_port p) (sp_protocol p) d = Some (i, d1)"
    and rest: "insert_ports ev sid (n + 1) ps d1 = Inr (out', d')"
    and out: "out = \<lparr>sp_id = i, sp_service = sid, sp_port = sp_port p, sp_protocol = sp_protocol p\<rparr> # out'"
    by (auto simp: result_simps port_ok_def port_valid_def split: if_splits)
  from ins have new: "port_pair p \<notin> set (pairs_of d sid)"
    and d1: "t_ports d1 = t_ports d @ [\<lparr>sp_id = i, sp_service = sid, sp_port = sp_port p,
      sp_protocol = sp_protocol p\<rparr>]"
    by (auto simp: sql_insert_port_def no_row_pairs port_pair_def split: if_splits option.splits)
  have "pairs_of d1 sid = pairs_of d sid @ [port_pair p]"
    by (simp add: pairs_of_def d1 port_pair_def)
  with Cons.IH [OF rest] p new d1 out show ?case by (auto simp: port_pair_def)
qed simp

lemma insert_ports_Inl:
  "insert_ports ev sid n ps d = Inl e \<Longrightarrow> e = ErrInvalidInput \<or> e = ErrDriver ''insert service port''"
  by (induction ps arbitrary: n d) (auto simp: result_simps split: if_splits)

lemma insert_ports_succeeds:
  assumes "sql_never_fails ev"
  shows "\<lbrakk>has_id s_id (t_services d) sid; q_ports d + int (length ps) \<le> max_int64;
     list_all port_ok ps; distinct (map port_pair ps);
     set (map port_pair ps) \<inter> set (pairs_of d sid) = {}\<rbrakk>
    \<Longrightarrow> is_ok (insert_ports ev sid n ps d)"
proof (induction ps arbitrary: n d)
  case (Cons p ps)
  let ?row = "\<lparr>sp_id = q_ports d + 1, sp_service = sid, sp_port = sp_port p, sp_protocol = sp_protocol p\<rparr>"
  let ?d1 = "d\<lparr>q_ports := q_ports d + 1, t_ports := t_ports d @ [?row]\<rparr>"
  have ins: "sql_insert_port sid (sp_port p) (sp_protocol p) d = Some (q_ports d + 1, ?d1)"
    using Cons.prems by (auto simp: sql_insert_port_def no_row_pairs next_rowid_def port_ok_def
        port_valid_def port_pair_def)
  have "pairs_of ?d1 sid = pairs_of d sid @ [port_pair p]"
    by (simp add: pairs_of_def port_pair_def)
  then have "is_ok (insert_ports ev sid (n + 1) ps ?d1)"
    using Cons.prems by (intro Cons.IH) auto
  then show ?case
    using assms Cons.prems(3) ins
    by (cases "insert_ports ev sid (n + 1) ps ?d1") (auto simp: port_ok_def port_valid_def)
qed simp

text \<open>
  Which ports a service gets. With the service in place and statements that work,
  \<open>replaceServicePorts\<close> accepts a list exactly when each port is in 1..65535 on \<open>tcp\<close> or
  \<open>udp\<close> and no pair occurs twice; the service then has exactly those ports, loaded in order
  of port and protocol, and other services keep theirs. A refusal is \<open>ErrInvalidInput\<close> or, for
  a pair given twice, the bare error of the database: \<open>ErrPortConflict\<close> never comes out.
\<close>

theorem replace_ports_outcome:
  assumes "sql_never_fails ev" and "has_id s_id (t_services d) sid"
    and "q_ports d + int (length ps) \<le> max_int64"
  shows "case replaceServicePorts ev sid ps d of
      Inr (out, d') \<Rightarrow> list_all port_ok ps \<and> distinct (map port_pair ps)
        \<and> map port_pair out = map port_pair ps \<and> ports_of d' sid = sort_key port_pair out
        \<and> (\<forall>s. s \<noteq> sid \<longrightarrow> ports_of d' s = ports_of d s)
    | Inl e \<Rightarrow> \<not> (list_all port_ok ps \<and> distinct (map port_pair ps))
        \<and> (e = ErrInvalidInput \<or> e = ErrDriver ''insert service port'')"
proof -
  let ?d = "sql_clear_ports sid d"
  have run: "replaceServicePorts ev sid ps d = insert_ports ev sid 0 ps ?d"
    using assms(1) by (simp add: replaceServicePorts_def)
  have clear: "pairs_of ?d sid = []" "t_ports ?d = filter (\<lambda>p. sp_service p \<noteq> sid) (t_ports d)"
    by (simp_all add: pairs_of_def sql_clear_ports_def)
  have key: "(\<lambda>p. (sp_port p, sp_protocol p)) = port_pair" by (simp add: port_pair_def fun_eq_iff)
  show ?thesis
  proof (cases "replaceServicePorts ev sid ps d")
    case (Inl e)
    have "\<not> (list_all port_ok ps \<and> distinct (map port_pair ps))"
      using insert_ports_succeeds [OF assms(1), of ?d sid ps 0] assms(2,3) Inl run clear
      by (auto simp: sql_clear_ports_def)
    then show ?thesis using Inl insert_ports_Inl [of ev sid 0 ps ?d e] run by auto
  next
    case (Inr x)
    obtain out d' where x: "x = (out, d')" by (cases x)
    have i: "insert_ports ev sid 0 ps ?d = Inr (out, d')" using Inr run x by simp
    note facts = insert_ports_Inr [OF i]
    have "filter (\<lambda>p. sp_service p = sid) out = out" "\<And>s. s \<noteq> sid \<Longrightarrow> filter (\<lambda>p. sp_service p = s) out = []"
      using facts by (auto simp: filter_empty_conv)
    moreover have "filter (\<lambda>p. sp_service p = s) (filter (\<lambda>p. sp_service p \<noteq> sid) (t_ports d))
        = filter (\<lambda>p. sp_service p = s) (t_ports d)" if "s \<noteq> sid" for s
      using that by (auto intro: filter_cong)
    ultimately have "ports_of d' sid = sort_key port_pair out"
      "\<forall>s. s \<noteq> sid \<longrightarrow> ports_of d' s = ports_of d s"
      using facts clear by (auto simp: ports_of_def key)
    then show ?thesis using Inr x facts by simp
  qed
qed

definition sample_service_db :: db where
  "sample_service_db = empty_db\<lparr>q_services := 1, t_services := [\<lparr>s_id = 1, s_name = ''web'',
     s_hostname = ''web'', s_origin = \<lparr>o_kind = Host, o_value = [], o_network = []\<rparr>,
     s_ip = ''10.1.0.1'', s_description = None, s_created = ''t'', s_updated = ''t''\<rparr>]\<rparr>"

definition tcp_port :: "int \<Rightarrow> service_port" where
  "tcp_port p = \<lparr>sp_id = 0, sp_service = 0, sp_port = p, sp_protocol = ''tcp''\<rparr>"

theorem replace_ports_outcome_witness:
  "replaceServicePorts quiet_env 1 [tcp_port 80, tcp_port 80] sample_service_db
     = Inl (ErrDriver ''insert service port'')
   \<or> replaceServicePorts quiet_env 1 [tcp_port 80, tcp_port 80] sample_service_db
     = Inl ErrInvalidInput"
  using replace_ports_outcome [OF quiet_never, of sample_service_db 1 "[tcp_port 80, tcp_port 80]"]
  by (auto simp: sample_service_db_def empty_db_def max_int64_def split: sum.splits)

end
