(* ===== verification/Migrations.thy ===== *)
theory Migrations
  imports Store
begin

text \<open>
  Opening the database file: \<open>Open\<close> and \<open>runMigrations\<close> of \<open>daemon/store/store.go\<close>, over any list of migrations, and the
  two migrations of \<open>daemon/store/migrations\<close>. What SQLite makes of a migration's text is a function of the tables that
  fails or not; a statement fails too where the environment says so, and a transaction that fails leaves the file as it was.
\<close>

section \<open>Running migrations\<close>

text \<open>A file: the rows of \<open>schema_migrations\<close>, if the table exists, and the program's tables.\<close>

record 't db_file =
  df_applied :: "(string \<times> string) list option"
  df_tables :: 't

type_synonym 't migration = "string \<times> ('t \<Rightarrow> 't option)"

definition step_label :: "string \<Rightarrow> string \<Rightarrow> string" where
  "step_label what name = what @ '' migration '' @ name"

definition migrate_tx :: "env \<Rightarrow> 't migration \<Rightarrow> (string \<times> string) list \<Rightarrow> 't
    \<Rightarrow> store_error + (string \<times> string) list \<times> 't" where
  "migrate_tx ev m applied t =
    bindE (exec_sql ev (step_label ''begin'' (fst m)) 0 (Some ())) (\<lambda>_.
    bindE (exec_sql ev (step_label ''apply'' (fst m)) 0 (snd m t)) (\<lambda>t'.
    bindE (exec_sql ev (step_label ''record'' (fst m)) 0
      (if no_row fst (fst m) applied then Some (applied @ [(fst m, nowTimestamp ev)]) else None)) (\<lambda>applied'.
    bindE (exec_sql ev (step_label ''commit'' (fst m)) 0 (Some ())) (\<lambda>_. Inr (applied', t')))))"

definition migrate_one :: "env \<Rightarrow> 't migration \<Rightarrow> 't db_file \<Rightarrow> (store_error + unit) \<times> 't db_file" where
  "migrate_one ev m f = (case exec_sql ev (step_label ''check'' (fst m)) 0 (df_applied f) of
     Inl e \<Rightarrow> (Inl e, f)
   | Inr applied \<Rightarrow>
       if \<not> no_row fst (fst m) applied then (Inr (), f)
       else (case migrate_tx ev m applied (df_tables f) of Inl e \<Rightarrow> (Inl e, f)
         | Inr (applied', t') \<Rightarrow> (Inr (), \<lparr>df_applied = Some applied', df_tables = t'\<rparr>)))"

fun migrate_all :: "env \<Rightarrow> 't migration list \<Rightarrow> 't db_file \<Rightarrow> (store_error + unit) \<times> 't db_file" where
  "migrate_all ev [] f = (Inr (), f)"
| "migrate_all ev (m # ms) f = (case migrate_one ev m f of (Inl e, f') \<Rightarrow> (Inl e, f')
     | (Inr _, f') \<Rightarrow> migrate_all ev ms f')"

text \<open>Creating the table of migrations is a statement of its own and stays when a migration fails.\<close>

definition runMigrations :: "env \<Rightarrow> 't migration list \<Rightarrow> 't db_file \<Rightarrow> (store_error + unit) \<times> 't db_file" where
  "runMigrations ev ms f = (case exec_sql ev ''create schema_migrations'' 0 (Some ()) of Inl e \<Rightarrow> (Inl e, f)
     | Inr _ \<Rightarrow> migrate_all ev (sort_key fst ms)
         (f\<lparr>df_applied := Some (case df_applied f of None \<Rightarrow> [] | Some a \<Rightarrow> a)\<rparr>))"

definition Open :: "env \<Rightarrow> 't migration list \<Rightarrow> 't db_file \<Rightarrow> (store_error + unit) \<times> 't db_file" where
  "Open ev ms f = (case exec_sql ev ''open'' 0 (Some ()) of Inl e \<Rightarrow> (Inl e, f)
     | Inr _ \<Rightarrow> (case exec_sql ev ''ping'' 0 (Some ()) of Inl e \<Rightarrow> (Inl e, f)
         | Inr _ \<Rightarrow> runMigrations ev ms f))"

section \<open>What migrating amounts to\<close>

text \<open>The reference: the names applied and the tables after every pending migration that works, up to one that does not.\<close>

fun upgraded :: "'t migration list \<Rightarrow> string list \<times> 't \<Rightarrow> bool \<times> string list \<times> 't" where
  "upgraded [] v = (True, v)"
| "upgraded (m # ms) (ns, t) = (if fst m \<in> set ns then upgraded ms (ns, t)
     else (case snd m t of None \<Rightarrow> (False, ns, t) | Some t' \<Rightarrow> upgraded ms (ns @ [fst m], t')))"

definition view :: "'t db_file \<Rightarrow> string list \<times> 't" where
  "view f = (case df_applied f of None \<Rightarrow> [] | Some a \<Rightarrow> map fst a, df_tables f)"

definition undisturbed_sql :: "env \<Rightarrow> bool" where
  "undisturbed_sql ev \<longleftrightarrow> (\<forall>lbl i. \<not> sql_fails ev lbl i)"

lemma no_row_names: "no_row fst k a \<longleftrightarrow> k \<notin> set (map fst a)"
  by (auto simp: no_row_def list_all_iff)

lemma migrate_one_view:
  assumes "df_applied f \<noteq> None" and "migrate_one ev m f = (r, f')"
  shows "(f' = f \<and> (r = Inr () \<longrightarrow> fst m \<in> set (fst (view f))))
    \<or> (r = Inr () \<and> fst m \<notin> set (fst (view f)) \<and> df_applied f' \<noteq> None
        \<and> (\<exists>t'. snd m (df_tables f) = Some t' \<and> view f' = (fst (view f) @ [fst m], t')))"
  using assms
  by (auto simp: migrate_one_def migrate_tx_def view_def no_row_names exec_sql_def bindE_def
      split: option.splits sum.splits if_splits)

lemma migrate_one_undisturbed:
  assumes "df_applied f \<noteq> None" and "undisturbed_sql ev" and "migrate_one ev m f = (r, f')"
  shows "if fst m \<in> set (fst (view f)) then r = Inr () \<and> f' = f
     else case snd m (df_tables f) of None \<Rightarrow> \<not> is_ok r \<and> f' = f
       | Some t' \<Rightarrow> r = Inr () \<and> df_applied f' \<noteq> None \<and> view f' = (fst (view f) @ [fst m], t')"
  using assms
  by (auto simp: migrate_one_def migrate_tx_def view_def no_row_names exec_sql_def bindE_def undisturbed_sql_def
      split: option.splits if_splits)

lemma upgraded_step:
  "upgraded (m # ms) (view f) = (if fst m \<in> set (fst (view f)) then upgraded ms (view f)
     else case snd m (df_tables f) of None \<Rightarrow> (False, view f)
       | Some t' \<Rightarrow> upgraded ms (fst (view f) @ [fst m], t'))"
  unfolding view_def by (simp only: upgraded.simps fst_conv)

lemma migrate_all_upgraded:
  assumes "df_applied f \<noteq> None" and "undisturbed_sql ev"
  shows "(is_ok (fst (migrate_all ev ms f)), view (snd (migrate_all ev ms f))) = upgraded ms (view f)"
  using assms(1)
proof (induction ms arbitrary: f)
  case (Cons m ms)
  obtain r f' where m: "migrate_one ev m f = (r, f')" by (cases "migrate_one ev m f")
  show ?case
    using m migrate_one_undisturbed [OF Cons.prems assms(2) m] Cons.IH [of f] Cons.IH [of f'] Cons.prems
    unfolding upgraded_step by (auto split: if_splits option.splits sum.splits)
qed simp

text \<open>However far a run got, what is left to do is what was to be done, less what it did.\<close>

lemma upgraded_keeps_names: "set ns \<subseteq> set (fst (snd (upgraded ms (ns, t))))"
  by (induction ms arbitrary: ns t) (fastforce split: option.splits)+

lemma migrate_all_names:
  assumes "df_applied f \<noteq> None"
  shows "df_applied (snd (migrate_all ev ms f)) \<noteq> None
    \<and> set (fst (view f)) \<subseteq> set (fst (view (snd (migrate_all ev ms f))))"
  using assms
proof (induction ms arbitrary: f)
  case (Cons m ms)
  obtain r f' where m: "migrate_one ev m f = (r, f')" by (cases "migrate_one ev m f")
  have "df_applied f' \<noteq> None \<and> set (fst (view f)) \<subseteq> set (fst (view f'))"
    using migrate_one_view [OF Cons.prems m] Cons.prems by auto
  then show ?case using m Cons.IH [of f'] by (auto split: sum.splits)
qed simp

lemma upgraded_done: "fst m \<in> set (fst v) \<Longrightarrow> upgraded (m # ms) v = upgraded ms v"
  by (cases v) simp

lemma interrupted_upgraded:
  assumes "df_applied f \<noteq> None"
  shows "upgraded ms (view (snd (migrate_all ev ms f))) = upgraded ms (view f)"
  using assms
proof (induction ms arbitrary: f)
  case (Cons m ms)
  obtain r f' where m: "migrate_one ev m f = (r, f')" by (cases "migrate_one ev m f")
  show ?case
  proof (cases r)
    case (Inl e)
    then show ?thesis using m migrate_one_view [OF Cons.prems m] by simp
  next
    case (Inr u)
    then have f': "df_applied f' \<noteq> None" and n: "fst m \<in> set (fst (view f'))"
      and up: "upgraded (m # ms) (view f) = upgraded ms (view f')"
      using migrate_one_view [OF Cons.prems m] Cons.prems unfolding upgraded_step by auto
    have "fst m \<in> set (fst (view (snd (migrate_all ev ms f'))))" using migrate_all_names [OF f'] n by blast
    then show ?thesis using m Inr up Cons.IH [OF f'] by (simp add: upgraded_done)
  qed
qed simp

lemma view_created [simp]:
  "view (f\<lparr>df_applied := Some (case df_applied f of None \<Rightarrow> [] | Some a \<Rightarrow> a)\<rparr>) = view f"
  by (auto simp: view_def split: option.split)

lemma runMigrations_upgraded:
  "undisturbed_sql ev \<Longrightarrow> (is_ok (fst (runMigrations ev ms f)), view (snd (runMigrations ev ms f)))
    = upgraded (sort_key fst ms) (view f)"
  by (simp add: runMigrations_def exec_sql_def migrate_all_upgraded undisturbed_sql_def)

lemma runMigrations_interrupted:
  "upgraded (sort_key fst ms) (view (snd (runMigrations ev ms f))) = upgraded (sort_key fst ms) (view f)"
  by (simp add: runMigrations_def exec_sql_def interrupted_upgraded)

lemma Open_upgraded:
  "undisturbed_sql ev \<Longrightarrow> (is_ok (fst (Open ev ms f)), view (snd (Open ev ms f))) = upgraded (sort_key fst ms) (view f)"
  using runMigrations_upgraded [of ev ms f] by (simp add: Open_def exec_sql_def undisturbed_sql_def)

lemma Open_interrupted:
  "upgraded (sort_key fst ms) (view (snd (Open ev ms f))) = upgraded (sort_key fst ms) (view f)"
  by (simp add: Open_def exec_sql_def runMigrations_interrupted)

section \<open>The migrations of the program\<close>

text \<open>The services of the first schema, whose origin is one text, and the three states of the program's tables. The tables of the
  first schema other than \<open>services\<close> are those of \<open>db\<close>.\<close>

record v1_service =
  v1_id :: int
  v1_name :: string
  v1_hostname :: string
  v1_origin :: string
  v1_ip :: string
  v1_description :: "string option"
  v1_created :: string
  v1_updated :: string

datatype tables = NoTables | FirstTables db "v1_service list" | CurrentTables db

text \<open>SQLite's \<open>trim\<close>, which takes spaces only, and \<open>GLOB\<close> for the patterns of \<open>0002_origin_kind.sql\<close>.\<close>

definition sql_trim :: "string \<Rightarrow> string" where
  "sql_trim s = trim_right (\<lambda>c. c = CHR '' '') (trim_left (\<lambda>c. c = CHR '' '') s)"

datatype glob_item = Star | Digit | Exactly char

fun glob :: "glob_item list \<Rightarrow> string \<Rightarrow> bool" where
  "glob [] s \<longleftrightarrow> s = []"
| "glob (Star # p) [] \<longleftrightarrow> glob p []"
| "glob (Star # p) (c # s) \<longleftrightarrow> glob p (c # s) \<or> glob (Star # p) s"
| "glob (Digit # p) [] \<longleftrightarrow> False"
| "glob (Digit # p) (c # s) \<longleftrightarrow> is_digit c \<and> glob p s"
| "glob (Exactly x # p) [] \<longleftrightarrow> False"
| "glob (Exactly x # p) (c # s) \<longleftrightarrow> c = x \<and> glob p s"

definition more_numbers :: "nat \<Rightarrow> glob_item list" where
  "more_numbers n = concat (replicate n [Exactly (CHR ''.''), Digit, Star])"

definition looks_like_ip :: "string \<Rightarrow> bool" where
  "looks_like_ip t \<longleftrightarrow> glob ([Digit, Star] @ more_numbers 3) t \<or> CHR '':'' \<in> set t"

definition origin_of_text :: "string \<Rightarrow> spec" where
  "origin_of_text txt = (let t = sql_trim txt in
     if t = [] \<or> t = ''host'' then \<lparr>o_kind = ''host'', o_value = [], o_network = []\<rparr>
     else \<lparr>o_kind = (if looks_like_ip t then ''ip'' else if CHR ''.'' \<in> set t then ''hostname'' else ''container''),
       o_value = t, o_network = []\<rparr>)"

definition with_origin_kind :: "v1_service \<Rightarrow> string option service_row" where
  "with_origin_kind s = \<lparr>s_id = v1_id s, s_name = v1_name s, s_hostname = v1_hostname s,
     s_origin = origin_of_text (v1_origin s), s_ip = v1_ip s, s_description = v1_description s,
     s_created = v1_created s, s_updated = v1_updated s\<rparr>"

definition sql_initial :: "tables \<Rightarrow> tables option" where
  "sql_initial t = (case t of NoTables \<Rightarrow> Some (FirstTables empty_db []) | _ \<Rightarrow> None)"

definition sql_origin_kind :: "tables \<Rightarrow> tables option" where
  "sql_origin_kind t = (case t of
     FirstTables d svs \<Rightarrow> Some (CurrentTables (d\<lparr>t_services := map with_origin_kind svs\<rparr>)) | _ \<Rightarrow> None)"

definition embedded :: "tables migration list" where
  "embedded = [(''0001_initial.sql'', sql_initial), (''0002_origin_kind.sql'', sql_origin_kind)]"

section \<open>Origins and addresses\<close>

lemma more_numbers_Suc: "more_numbers (Suc n) = Exactly (CHR ''.'') # Digit # Star # more_numbers n"
  by (simp add: more_numbers_def)

lemma parse_v4_glob:
  assumes "parse_v4_fields s fs v dl \<noteq> None" and "length fs \<le> 3" and "dl = 0 \<longrightarrow> s \<noteq> []"
  shows "glob ((if dl = 0 then [Digit, Star] else [Star]) @ more_numbers (3 - length fs)) s"
  using assms
proof (induction s fs v dl rule: parse_v4_fields.induct)
  case (1 fs v dl)
  then show ?case by (simp add: more_numbers_def split: if_splits)
next
  case (2 c cs fs v dl)
  show ?case
  proof (cases "is_digit c")
    case True
    then have "parse_v4_fields cs fs (v * 10 + digit_val c) (dl + 1) \<noteq> None"
      using 2(3) by (auto simp: Let_def split: if_splits)
    then show ?thesis using 2 True by (auto simp: Let_def split: if_splits)
  next
    case False
    then have dot: "c = CHR ''.''" "dl \<noteq> 0" "cs \<noteq> []" "length fs \<noteq> 3" "parse_v4_fields cs (fs @ [v]) 0 0 \<noteq> None"
      using 2(3) by (auto split: if_splits)
    then have "glob ([Digit, Star] @ more_numbers (3 - length (fs @ [v]))) cs"
      using 2(2) [OF False dot(1)] 2(4) by simp
    moreover have "3 - length fs = Suc (3 - length (fs @ [v]))" using dot(4) 2(4) by simp
    ultimately show ?thesis using dot by (simp add: more_numbers_Suc)
  qed
qed

lemma address_looks_like_ip: "parse_addr t = Some a \<Longrightarrow> looks_like_ip t"
proof -
  assume p: "parse_addr t = Some a"
  show ?thesis
  proof (cases "CHR '':'' \<in> set t")
    case False
    then have "parse_v4_fields t [] 0 0 \<noteq> None" "t \<noteq> []"
      using p by (auto simp: parse_addr_def parse_v4_def find_Some_iff split: option.splits if_splits)
        (metis nth_mem)
    then show ?thesis using parse_v4_glob [of t "[]" 0 0] by (simp add: looks_like_ip_def)
  qed (simp add: looks_like_ip_def)
qed

section \<open>Properties\<close>

text \<open>
  C2: an upgrade that was interrupted is completed by the next start. However often opening the file failed before, at whichever
  statements, and over any list of migrations: opening it undisturbed then ends as it would have on the file of the beginning,
  with the same tables and the same migrations recorded, and succeeds if that would have; the result is that of the
  reference, which runs every pending migration once in the order of the names.
\<close>

theorem migrations_resume:
  assumes "undisturbed_sql ev"
  shows "(let r = Open ev ms (foldl (\<lambda>f ev'. snd (Open ev' ms f)) f attempts); r0 = Open ev ms f in
     view (snd r) = view (snd r0) \<and> is_ok (fst r) = is_ok (fst r0)
       \<and> (is_ok (fst r0), view (snd r0)) = upgraded (sort_key fst ms) (view f))"
proof -
  have "upgraded (sort_key fst ms) (view (foldl (\<lambda>f ev'. snd (Open ev' ms f)) f attempts))
      = upgraded (sort_key fst ms) (view f)"
  proof (induction attempts arbitrary: f)
    case (Cons ev' attempts)
    show ?case by (simp add: Cons.IH Open_interrupted)
  qed simp
  then show ?thesis using Open_upgraded [OF assms, of ms f]
      Open_upgraded [OF assms, of ms "foldl (\<lambda>f ev'. snd (Open ev' ms f)) f attempts"]
    by (metis (no_types, lifting) Pair_inject)
qed

text \<open>A daemon killed between the two migrations, then started twice.\<close>

definition killed_env :: env where
  "killed_env = \<lparr>nowTimestamp = ''t'', sql_fails = (\<lambda>lbl i. lbl = ''commit migration 0002_origin_kind.sql'')\<rparr>"

definition new_file :: "tables db_file" where
  "new_file = \<lparr>df_applied = None, df_tables = NoTables\<rparr>"

theorem migrations_resume_witness:
  "view (snd (Open quiet_env embedded (snd (Open killed_env embedded new_file))))
    = ([''0001_initial.sql'', ''0002_origin_kind.sql''], CurrentTables empty_db)"
proof -
  have q: "undisturbed_sql quiet_env" by (simp add: undisturbed_sql_def quiet_env_def)
  have s: "sort_key fst embedded = embedded" by (simp add: embedded_def)
  have "upgraded (sort_key fst embedded) (view new_file)
      = (True, [''0001_initial.sql'', ''0002_origin_kind.sql''], CurrentTables empty_db)"
    unfolding s by (simp add: embedded_def view_def new_file_def sql_initial_def sql_origin_kind_def empty_db_def)
  then show ?thesis using migrations_resume [OF q, of embedded new_file "[killed_env]"] by (simp add: Let_def)
qed



text \<open>The states a file can be in: new, of the first schema, of the current one, with the migrations recorded that lead there; and
  what the program's tables are once up to date.\<close>

fun stage_ok :: "string list \<times> tables \<Rightarrow> bool" where
  "stage_ok (ns, NoTables) \<longleftrightarrow> ns = []"
| "stage_ok (ns, FirstTables d svs) \<longleftrightarrow> ns = [''0001_initial.sql'']"
| "stage_ok (ns, CurrentTables d) \<longleftrightarrow> ns = [''0001_initial.sql'', ''0002_origin_kind.sql'']"

fun up_to_date :: "tables \<Rightarrow> db" where
  "up_to_date NoTables = empty_db"
| "up_to_date (FirstTables d svs) = d\<lparr>t_services := map with_origin_kind svs\<rparr>"
| "up_to_date (CurrentTables d) = d"

lemma embedded_sorted: "sort_key fst embedded = embedded"
  by (simp add: embedded_def)

lemma migrate_embedded:
  assumes "m \<in> set embedded" and "df_applied f \<noteq> None" and "stage_ok (view f)" and "migrate_one ev m f = (r, f')"
  shows "stage_ok (view f')"
proof -
  obtain ns t where v: "view f = (ns, t)" "df_tables f = t" by (simp add: view_def)
  have ok: "stage_ok (ns, t)" using assms(3) v by simp
  have "m = (''0001_initial.sql'', sql_initial) \<or> m = (''0002_origin_kind.sql'', sql_origin_kind)"
    using assms(1) by (auto simp: embedded_def)
  then show ?thesis using migrate_one_view [OF assms(2,4)] assms(3) ok
    by (cases t) (auto simp: v sql_initial_def sql_origin_kind_def)
qed

lemma migrate_all_embedded:
  assumes "set ms \<subseteq> set embedded" and "df_applied f \<noteq> None" and "stage_ok (view f)"
  shows "stage_ok (view (snd (migrate_all ev ms f)))
    \<and> (is_ok (fst (migrate_all ev ms f)) \<longrightarrow> (\<forall>m\<in>set ms. fst m \<in> set (fst (view (snd (migrate_all ev ms f))))))"
  using assms
proof (induction ms arbitrary: f)
  case (Cons m ms)
  obtain r f' where m: "migrate_one ev m f = (r, f')" by (cases "migrate_one ev m f")
  have s: "stage_ok (view f')" using migrate_embedded [OF _ Cons.prems(2,3) m] Cons.prems(1) by simp
  have a: "df_applied f' \<noteq> None \<and> (is_ok r \<longrightarrow> fst m \<in> set (fst (view f')))"
    using migrate_one_view [OF Cons.prems(2) m] Cons.prems(2) by (cases r) auto
  show ?case using m s a Cons.IH [of f'] Cons.prems(1) migrate_all_names [of f' ev ms]
    by (cases r) auto
qed simp

lemma stage_upgraded:
  "stage_ok (ns, t) \<Longrightarrow> upgraded embedded (ns, t)
    = (True, [''0001_initial.sql'', ''0002_origin_kind.sql''], CurrentTables (up_to_date t))"
  by (cases t) (simp_all add: embedded_def sql_initial_def sql_origin_kind_def empty_db_def)

definition host_origin :: spec where
  "host_origin = \<lparr>o_kind = ''host'', o_value = [], o_network = []\<rparr>"

lemma spec_ok_host: "spec_ok host_origin"
  by (simp add: host_origin_def spec_ok_def Valid_def trim_space_def trim_left_def trim_right_def)

lemma db_wf_migrated:
  "db_wf (up_to_date (FirstTables d svs)) \<longleftrightarrow>
     db_wf (d\<lparr>t_services := map (\<lambda>s. (with_origin_kind s)\<lparr>s_origin := host_origin\<rparr>) svs\<rparr>)
     \<and> (\<forall>s\<in>set svs. spec_ok (origin_of_text (v1_origin s)))"
proof -
  have o: "s_origin (with_origin_kind s) = origin_of_text (v1_origin s)" for s by (simp add: with_origin_kind_def)
  show ?thesis
    by (auto simp: wf_unfold o spec_ok_host principal_names_def object_names_def addresses_def rule_ok_def row_exists_def
        has_id_def comp_def list_ex_iff)
qed

text \<open>
  C3: opening the database brings any file the program may meet up to date and loses nothing. Take a new file, one of the
  first schema or one of the current. Opened, undisturbed or with any statement failing, it is again such a file with the same
  rows once brought up to date; when \<open>Open\<close> succeeds the tables are the current ones with those rows, and undisturbed it does
  succeed. The tables are well-formed for a new file, stay so for a current one, and for an old one are so exactly if they are
  but for the origins and the migrated origins are acceptable.
\<close>

theorem open_brings_up_to_date:
  assumes "stage_ok (view f)" and "Open ev embedded f = (r, f')"
  shows "stage_ok (view f') \<and> up_to_date (df_tables f') = up_to_date (df_tables f)
    \<and> (is_ok r \<longrightarrow> df_tables f' = CurrentTables (up_to_date (df_tables f)))
    \<and> (undisturbed_sql ev \<longrightarrow> is_ok r)
    \<and> (df_tables f = NoTables \<longrightarrow> db_wf (up_to_date (df_tables f)))
    \<and> (\<forall>d svs. df_tables f = FirstTables d svs \<longrightarrow> (db_wf (up_to_date (df_tables f)) \<longleftrightarrow>
         db_wf (d\<lparr>t_services := map (\<lambda>s. (with_origin_kind s)\<lparr>s_origin := host_origin\<rparr>) svs\<rparr>)
         \<and> (\<forall>s\<in>set svs. spec_ok (origin_of_text (v1_origin s)))))"
proof -
  let ?f = "f\<lparr>df_applied := Some (case df_applied f of None \<Rightarrow> [] | Some a \<Rightarrow> a)\<rparr>"
  have views: "view g = (fst (view g), df_tables g)" for g :: "tables db_file" by (simp add: view_def)
  have f': "f' = f \<and> \<not> is_ok r \<or> (r, f') = migrate_all ev embedded ?f"
    using assms(2) by (auto simp: Open_def runMigrations_def exec_sql_def embedded_sorted split: if_splits)
  have all: "stage_ok (view (snd (migrate_all ev embedded ?f)))
      \<and> (is_ok (fst (migrate_all ev embedded ?f))
        \<longrightarrow> (\<forall>m\<in>set embedded. fst m \<in> set (fst (view (snd (migrate_all ev embedded ?f))))))"
    using assms(1) by (intro migrate_all_embedded) simp_all
  have ok: "stage_ok (view f')" using f' all assms(1) by (metis snd_conv)
  have "upgraded embedded (view f') = upgraded embedded (view f)"
    using Open_interrupted [of embedded ev f] assms(2) by (simp add: embedded_sorted)
  then have same: "up_to_date (df_tables f') = up_to_date (df_tables f)"
    using stage_upgraded [of "fst (view f)" "df_tables f"] stage_upgraded [of "fst (view f')" "df_tables f'"]
      assms(1) ok views [of f] views [of f'] by simp
  have "df_tables f' = CurrentTables (up_to_date (df_tables f))" if "is_ok r"
  proof -
    have "''0002_origin_kind.sql'' \<in> set (fst (view f'))"
      using f' all that by (auto simp: embedded_def dest: sym)
    moreover obtain ns t where "view f' = (ns, t)" "df_tables f' = t" by (simp add: view_def)
    ultimately show ?thesis using ok same by (cases t) auto
  qed
  moreover have "is_ok r" if "undisturbed_sql ev"
    using Open_upgraded [OF that, of embedded f] stage_upgraded [of "fst (view f)" "df_tables f"] assms views [of f]
    by (simp add: embedded_sorted)
  moreover have "df_tables f = NoTables \<longrightarrow> db_wf (up_to_date (df_tables f))" by (simp add: db_wf_empty)
  ultimately show ?thesis using ok same db_wf_migrated by metis
qed

text \<open>A file of the first schema with one service.\<close>

definition w_old_service :: v1_service where
  "w_old_service = \<lparr>v1_id = 1, v1_name = ''nas'', v1_hostname = ''nas.lan'', v1_origin = ''192.168.1.5'', v1_ip = ''10.6.1.1'',
     v1_description = None, v1_created = ''t'', v1_updated = ''t''\<rparr>"

definition w_old_file :: "tables db_file" where
  "w_old_file = \<lparr>df_applied = Some [(''0001_initial.sql'', ''t'')], df_tables = FirstTables empty_db [w_old_service]\<rparr>"

theorem open_brings_up_to_date_witness:
  "df_tables (snd (Open quiet_env embedded w_old_file)) = CurrentTables (empty_db\<lparr>t_services := [with_origin_kind w_old_service]\<rparr>)"
proof -
  obtain r f' where r: "Open quiet_env embedded w_old_file = (r, f')" by (cases "Open quiet_env embedded w_old_file")
  have "stage_ok (view w_old_file)" by (simp add: w_old_file_def view_def)
  moreover have "undisturbed_sql quiet_env" by (simp add: undisturbed_sql_def quiet_env_def)
  ultimately show ?thesis using open_brings_up_to_date [OF _ r] r by (simp add: w_old_file_def)
qed

end
