(* ===== verification/PolicyIndex.thy ===== *)
theory PolicyIndex
  imports Store
begin

text \<open>
  \<open>daemon/policy/index.go\<close> and \<open>resolver.go\<close>: the in-memory index built from the store and
  the two access decisions on it. The abstract specification reads the tables directly; the
  properties say that the decisions on the built index are exactly the specified ones.
\<close>

section \<open>Model\<close>

record user_snapshot =
  us_id :: int
  us_uname :: string
  us_addr :: string
  us_public_key :: string
  us_preshared_key :: string

record port_spec =
  ps_port :: int
  ps_protocol :: string

record service_snapshot =
  ss_id :: int
  ss_name :: string
  ss_hostname :: string
  ss_origin :: spec
  ss_ip :: string
  ss_ports :: "port_spec list"

record user_group_snapshot =
  gs_id :: int
  gs_name :: string
  gs_lan_mode :: bool
  gs_members :: "int list"

record rule_snapshot =
  rs_id :: int
  rs_subject_type :: string
  rs_subject_id :: int
  rs_object_type :: string
  rs_object_id :: int
  rs_action :: string

record index =
  PeerByIP :: "(string \<times> user_snapshot) list"
  UserByID :: "(int \<times> user_snapshot) list"
  ServiceByVIP :: "(string \<times> service_snapshot) list"
  ServiceByID :: "(int \<times> service_snapshot) list"
  GroupsByUser :: "(int \<times> int list) list"
  GroupsByService :: "(int \<times> int list) list"
  UserGroups :: "(int \<times> user_group_snapshot) list"
  Rules :: "rule_snapshot list"

definition user_snap :: "string user \<Rightarrow> user_snapshot" where
  "user_snap u = \<lparr>us_id = u_id u, us_uname = u_name u, us_addr = u_ip u,
     us_public_key = u_public_key u, us_preshared_key = u_preshared_key u\<rparr>"

definition port_snap :: "service_port \<Rightarrow> port_spec" where
  "port_snap p = \<lparr>ps_port = sp_port p, ps_protocol = sp_protocol p\<rparr>"

definition service_snap :: "service \<Rightarrow> service_snapshot" where
  "service_snap s = \<lparr>ss_id = s_id s, ss_name = s_name s, ss_hostname = s_hostname s,
     ss_origin = s_origin s, ss_ip = s_ip s, ss_ports = map port_snap (s_ports s)\<rparr>"

definition rule_snap :: "policy_rule \<Rightarrow> rule_snapshot" where
  "rule_snap r = \<lparr>rs_id = r_id r, rs_subject_type = r_subject_type r,
     rs_subject_id = r_subject_id r, rs_object_type = r_object_type r,
     rs_object_id = r_object_id r, rs_action = r_action r\<rparr>"

text \<open>One user group: its members in both maps.\<close>

definition add_group ::
  "env \<Rightarrow> db \<Rightarrow> user_group \<Rightarrow> (int \<times> int list) list \<times> (int \<times> user_group_snapshot) list
    \<Rightarrow> store_error + (int \<times> int list) list \<times> (int \<times> user_group_snapshot) list" where
  "add_group ev d g st = (case st of (by_user, groups) \<Rightarrow>
     bindE (UserGroupMembers ev (ug_id g) d) (\<lambda>members.
     Inr (foldl (\<lambda>m u. AList.update (u_id u) (lookup_list m (u_id u) @ [ug_id g]) m) by_user members,
          AList.update (ug_id g) \<lparr>gs_id = ug_id g, gs_name = ug_name g,
            gs_lan_mode = ug_lan_mode g, gs_members = map u_id members\<rparr> groups)))"

definition add_service_groups ::
  "env \<Rightarrow> db \<Rightarrow> service \<Rightarrow> (int \<times> int list) list \<Rightarrow> store_error + (int \<times> int list) list" where
  "add_service_groups ev d s m =
    bindE (ServiceGroupIDsForService ev (s_id s) d) (\<lambda>gids. Inr (AList.update (s_id s) gids m))"

definition Build :: "env \<Rightarrow> db \<Rightarrow> store_error + index" where
  "Build ev d =
    bindE (ListUsers ev d) (\<lambda>users.
    bindE (ListUserGroups ev d) (\<lambda>userGroups.
    bindE (ListServices ev d) (\<lambda>services.
    bindE (ListPolicies ev d) (\<lambda>rules.
    bindE (foldE (add_group ev d) userGroups ([], [])) (\<lambda>(by_user, groups).
    bindE (foldE (add_service_groups ev d) services []) (\<lambda>by_service.
    Inr \<lparr>PeerByIP = foldl (\<lambda>m u. AList.update (u_ip u) (user_snap u) m) [] users,
         UserByID = foldl (\<lambda>m u. AList.update (u_id u) (user_snap u) m) [] users,
         ServiceByVIP = foldl (\<lambda>m s. AList.update (s_ip s) (service_snap s) m) [] services,
         ServiceByID = foldl (\<lambda>m s. AList.update (s_id s) (service_snap s) m) [] services,
         GroupsByUser = by_user, GroupsByService = by_service, UserGroups = groups,
         Rules = map rule_snap rules\<rparr>))))))"

datatype decision = Deny | Allow

definition decision_string :: "decision \<Rightarrow> string" where
  "decision_string x = (if x = Allow then ''allow'' else ''deny'')"

definition portAllowed :: "port_spec list \<Rightarrow> int \<Rightarrow> string \<Rightarrow> bool" where
  "portAllowed ports port proto \<longleftrightarrow>
    ports = [] \<or> list_ex (\<lambda>p. ps_port p = port \<and> ps_protocol p = proto) ports"

type_synonym ref = "string \<times> int"

definition subjectSet :: "index \<Rightarrow> int \<Rightarrow> ref list" where
  "subjectSet idx uid = (''user'', uid) # map (\<lambda>g. (''user_group'', g)) (lookup_list (GroupsByUser idx) uid)"

definition serviceObjectSet :: "index \<Rightarrow> int \<Rightarrow> ref list" where
  "serviceObjectSet idx sid =
     (''service'', sid) # map (\<lambda>g. (''service_group'', g)) (lookup_list (GroupsByService idx) sid)"

definition userObjectSet :: "index \<Rightarrow> int \<Rightarrow> ref list" where
  "userObjectSet idx uid = (''user'', uid) # map (\<lambda>g. (''user_group'', g)) (lookup_list (GroupsByUser idx) uid)"

definition matchesAny :: "string \<Rightarrow> int \<Rightarrow> ref list \<Rightarrow> bool" where
  "matchesAny t i refs \<longleftrightarrow> list_ex (\<lambda>r. fst r = t \<and> snd r = i) refs"

text \<open>The loop of \<open>evaluateExplicit\<close>: the best id so far (\<open>-1\<close>: none) and its action.\<close>

definition best_rule :: "ref list \<Rightarrow> ref list \<Rightarrow> rule_snapshot list \<Rightarrow> int \<times> string" where
  "best_rule subjects objects rules = foldl (\<lambda>(best, act) r.
     if \<not> matchesAny (rs_subject_type r) (rs_subject_id r) subjects then (best, act)
     else if \<not> matchesAny (rs_object_type r) (rs_object_id r) objects then (best, act)
     else if rs_id r > best then (rs_id r, rs_action r) else (best, act)) (-1, []) rules"

definition evaluateExplicit :: "index \<Rightarrow> ref list \<Rightarrow> ref list \<Rightarrow> decision \<times> bool" where
  "evaluateExplicit idx subjects objects =
    (case best_rule subjects objects (Rules idx) of (best, act) \<Rightarrow>
      if best < 0 then (Deny, False)
      else if act = ''allow'' then (Allow, True) else (Deny, True))"

definition evaluate :: "index \<Rightarrow> ref list \<Rightarrow> ref list \<Rightarrow> decision" where
  "evaluate idx subjects objects = fst (evaluateExplicit idx subjects objects)"

definition shareLANGroup :: "index \<Rightarrow> int \<Rightarrow> int \<Rightarrow> bool" where
  "shareLANGroup idx src dst \<longleftrightarrow> list_ex (\<lambda>gid. case map_of (UserGroups idx) gid of
       None \<Rightarrow> False
     | Some g \<Rightarrow> gs_lan_mode g \<and> dst \<in> set (gs_members g)) (lookup_list (GroupsByUser idx) src)"

definition CheckService ::
  "index \<Rightarrow> string \<Rightarrow> string \<Rightarrow> int \<Rightarrow> string
    \<Rightarrow> decision \<times> user_snapshot option \<times> service_snapshot option" where
  "CheckService idx srcIP dstVIP port proto =
    (case map_of (PeerByIP idx) srcIP of None \<Rightarrow> (Deny, None, None)
     | Some user \<Rightarrow>
        (case map_of (ServiceByVIP idx) dstVIP of None \<Rightarrow> (Deny, Some user, None)
         | Some svc \<Rightarrow>
            if \<not> portAllowed (ss_ports svc) port proto then (Deny, Some user, Some svc)
            else (evaluate idx (subjectSet idx (us_id user)) (serviceObjectSet idx (ss_id svc)),
                  Some user, Some svc)))"

definition CheckPeer ::
  "index \<Rightarrow> string \<Rightarrow> string \<Rightarrow> decision \<times> user_snapshot option \<times> user_snapshot option" where
  "CheckPeer idx srcIP dstIP =
    (case map_of (PeerByIP idx) srcIP of None \<Rightarrow> (Deny, None, None)
     | Some src \<Rightarrow>
        (case map_of (PeerByIP idx) dstIP of None \<Rightarrow> (Deny, Some src, None)
         | Some dst \<Rightarrow>
            (case evaluateExplicit idx (subjectSet idx (us_id src)) (userObjectSet idx (us_id dst)) of
               (d, found) \<Rightarrow>
                 if found then (d, Some src, Some dst)
                 else if shareLANGroup idx (us_id src) (us_id dst) then (Allow, Some src, Some dst)
                 else (Deny, Some src, Some dst))))"

section \<open>Specification\<close>

text \<open>What a user, a service, is known as in the rules.\<close>

definition user_refs :: "db \<Rightarrow> int \<Rightarrow> ref set" where
  "user_refs d uid = {(''user'', uid)} \<union> {(''user_group'', g) |g. (uid, g) \<in> set (t_ug_members d)}"

definition service_refs :: "db \<Rightarrow> int \<Rightarrow> ref set" where
  "service_refs d sid = {(''service'', sid)} \<union> {(''service_group'', g) |g. (sid, g) \<in> set (t_sg_members d)}"

definition applies :: "ref set \<Rightarrow> ref set \<Rightarrow> policy_rule \<Rightarrow> bool" where
  "applies S Ob r \<longleftrightarrow> (r_subject_type r, r_subject_id r) \<in> S \<and> (r_object_type r, r_object_id r) \<in> Ob"

text \<open>The rule that decides is the one of highest id among those that apply.\<close>

definition decides :: "db \<Rightarrow> ref set \<Rightarrow> ref set \<Rightarrow> policy_rule \<Rightarrow> bool" where
  "decides d S Ob r \<longleftrightarrow> r \<in> set (t_rules d) \<and> applies S Ob r
     \<and> (\<forall>r'\<in>set (t_rules d). applies S Ob r' \<longrightarrow> r_id r' \<le> r_id r)"

definition rules_allow :: "db \<Rightarrow> ref set \<Rightarrow> ref set \<Rightarrow> bool" where
  "rules_allow d S Ob \<longleftrightarrow> (\<exists>r. decides d S Ob r \<and> r_action r = ''allow'')"

definition rules_silent :: "db \<Rightarrow> ref set \<Rightarrow> ref set \<Rightarrow> bool" where
  "rules_silent d S Ob \<longleftrightarrow> (\<forall>r\<in>set (t_rules d). \<not> applies S Ob r)"

definition port_open :: "db \<Rightarrow> int \<Rightarrow> int \<Rightarrow> string \<Rightarrow> bool" where
  "port_open d sid port proto \<longleftrightarrow> (\<forall>p\<in>set (t_ports d). sp_service p \<noteq> sid)
     \<or> (\<exists>p\<in>set (t_ports d). sp_service p = sid \<and> sp_port p = port \<and> sp_protocol p = proto)"

definition service_access :: "db \<Rightarrow> string \<Rightarrow> string \<Rightarrow> int \<Rightarrow> string \<Rightarrow> bool" where
  "service_access d srcIP vip port proto \<longleftrightarrow>
    (\<exists>u\<in>set (t_users d). \<exists>s\<in>set (t_services d). u_ip u = srcIP \<and> s_ip s = vip
       \<and> port_open d (s_id s) port proto
       \<and> rules_allow d (user_refs d (u_id u)) (service_refs d (s_id s)))"

definition share_lan :: "db \<Rightarrow> int \<Rightarrow> int \<Rightarrow> bool" where
  "share_lan d a b \<longleftrightarrow> (\<exists>g\<in>set (t_user_groups d). ug_lan_mode g
     \<and> (a, ug_id g) \<in> set (t_ug_members d) \<and> (b, ug_id g) \<in> set (t_ug_members d))"

definition peer_access :: "db \<Rightarrow> string \<Rightarrow> string \<Rightarrow> bool" where
  "peer_access d srcIP dstIP \<longleftrightarrow>
    (\<exists>u\<in>set (t_users d). \<exists>v\<in>set (t_users d). u_ip u = srcIP \<and> u_ip v = dstIP
       \<and> (rules_allow d (user_refs d (u_id u)) (user_refs d (u_id v))
          \<or> (rules_silent d (user_refs d (u_id u)) (user_refs d (u_id v))
             \<and> share_lan d (u_id u) (u_id v))))"

section \<open>The built index\<close>

definition service_view :: "db \<Rightarrow> string option service_row \<Rightarrow> service" where
  "service_view d r = (scanService r)\<lparr>s_ports := ports_of d (s_id r)\<rparr>"

lemma service_view_sel [simp]:
  "s_id (service_view d r) = s_id r" "s_ip (service_view d r) = s_ip r"
  "s_ports (service_view d r) = ports_of d (s_id r)"
  "s_name (service_view d r) = s_name r" "s_hostname (service_view d r) = s_hostname r"
  "s_origin (service_view d r) = s_origin r"
  by (simp_all add: service_view_def)

lemma queryServices_Inr:
  "queryServices ev tail d = Inr ss \<Longrightarrow> ss = map (service_view d) (tail d)"
proof -
  assume "queryServices ev tail d = Inr ss"
  then have "list_all2 (\<lambda>s y. bindE (loadServicePorts ev (s_id s) d) (\<lambda>ps. Inr (s\<lparr>s_ports := ps\<rparr>)) = Inr y)
    (map scanService (tail d)) ss"
    by (auto simp: queryServices_def result_simps mapE_Inr_all2)
  then have "list_all2 (\<lambda>r y. y = service_view d r) (tail d) ss"
    unfolding list_all2_map1 by (rule list_all2_mono)
      (auto simp: loadServicePorts_def result_simps service_view_def)
  then show ?thesis by (simp add: list_all2_conv_all_nth list_eq_iff_nth_eq)
qed

lemma find_map_row: "(\<And>r. key (f r) = key' r) \<Longrightarrow>
    List.find (\<lambda>x. key x = k) (map f t) = map_option f (row_by key' k t)"
  unfolding row_by_def by (induction t) auto

lemma map_of_built:
  assumes "\<And>r. key (f r) = key' r" "distinct (map key' t)"
  shows "map_of (foldl (\<lambda>m x. AList.update (key x) (v x) m) [] (map f t)) k =
    map_option (\<lambda>r. v (f r)) (row_by key' k t)"
proof -
  have "distinct (map key (map f t))" using assms by (simp add: comp_def)
  from map_of_foldl_update [OF this, of v "[]" k] find_map_row [of key f key', OF assms(1), of k t]
  show ?thesis by (cases "row_by key' k t") simp_all
qed

text \<open>What the index maps hold, in terms of the tables.\<close>

definition index_of :: "db \<Rightarrow> index \<Rightarrow> bool" where
  "index_of d idx \<longleftrightarrow>
     (\<forall>ip. map_of (PeerByIP idx) ip = map_option (\<lambda>r. user_snap (scanUser r)) (row_by u_ip ip (t_users d)))
   \<and> (\<forall>i. map_of (UserByID idx) i = map_option (\<lambda>r. user_snap (scanUser r)) (row_by u_id i (t_users d)))
   \<and> (\<forall>ip. map_of (ServiceByVIP idx) ip =
        map_option (\<lambda>r. service_snap (service_view d r)) (row_by s_ip ip (t_services d)))
   \<and> (\<forall>i. map_of (ServiceByID idx) i =
        map_option (\<lambda>r. service_snap (service_view d r)) (row_by s_id i (t_services d)))
   \<and> (\<forall>u. set (lookup_list (GroupsByUser idx) u) = {g. (u, g) \<in> set (t_ug_members d)})
   \<and> (\<forall>s. has_id s_id (t_services d) s \<longrightarrow>
        set (lookup_list (GroupsByService idx) s) = {g. (s, g) \<in> set (t_sg_members d)})
   \<and> (\<forall>i. case row_by ug_id i (t_user_groups d) of None \<Rightarrow> map_of (UserGroups idx) i = None
        | Some g \<Rightarrow> \<exists>snap. map_of (UserGroups idx) i = Some snap \<and> gs_lan_mode snap = ug_lan_mode g
            \<and> set (gs_members snap) = {u. (u, i) \<in> set (t_ug_members d)})
   \<and> Rules idx = map rule_snap (t_rules d)"

lemma foldl_add_group_member:
  "set (lookup_list (foldl (\<lambda>m u. AList.update (u_id u) (lookup_list m (u_id u) @ [g]) m) m us) i)
    = set (lookup_list m i) \<union> (if i \<in> u_id ` set us then {g} else {})"
  by (induction us arbitrary: m) (auto simp: lookup_list_update)

lemma group_members:
  assumes "db_wf d" "UserGroupMembers ev g d = Inr ms"
  shows "u_id ` set ms = {u. (u, g) \<in> set (t_ug_members d)}"
proof -
  have "ms = map scanUser (order_by u_id (filter (\<lambda>u. (u_id u, g) \<in> set (t_ug_members d)) (t_users d)))"
    using assms(2) by (simp add: UserGroupMembers_def result_simps)
  then have "u_id ` set ms = {i \<in> u_id ` set (t_users d). (i, g) \<in> set (t_ug_members d)}"
    by (auto simp: image_iff)
  moreover have "u \<in> u_id ` set (t_users d)" if "(u, g) \<in> set (t_ug_members d)" for u
    using assms(1) that by (auto simp: db_wf_def wf_members_def has_id_iff)
  ultimately show ?thesis by auto
qed

lemma built_groups:
  assumes wf: "db_wf d" and run: "foldE (add_group ev d) gs ([], []) = Inr (by_user, groups)"
    and dist: "distinct (map ug_id gs)"
  shows "set (lookup_list by_user u) = {g \<in> ug_id ` set gs. (u, g) \<in> set (t_ug_members d)}"
    and "case row_by ug_id i gs of None \<Rightarrow> map_of groups i = None
        | Some g \<Rightarrow> \<exists>snap. map_of groups i = Some snap \<and> gs_lan_mode snap = ug_lan_mode g
            \<and> set (gs_members snap) = {u. (u, i) \<in> set (t_ug_members d)}"
proof -
  let ?P = "\<lambda>(gs :: user_group list) (m, grps).
     (\<forall>u. set (lookup_list m u) = {g \<in> ug_id ` set gs. (u, g) \<in> set (t_ug_members d)})
   \<and> (\<forall>i\<in>ug_id ` set gs. \<exists>snap g. g \<in> set gs \<and> ug_id g = i \<and> map_of grps i = Some snap
          \<and> gs_lan_mode snap = ug_lan_mode g \<and> set (gs_members snap) = {u. (u, i) \<in> set (t_ug_members d)})
   \<and> (\<forall>i. i \<notin> ug_id ` set gs \<longrightarrow> map_of grps i = None)"
  have P: "?P gs (by_user, groups)"
  proof (rule foldE_invariant [OF run])
    fix ys :: "user_group list" and g t t'
    assume P: "?P ys t" and st: "add_group ev d g t = Inr t'"
    obtain m grps where t: "t = (m, grps)" by (cases t)
    from st obtain ms where ms: "UserGroupMembers ev (ug_id g) d = Inr ms"
      and t': "t' = (foldl (\<lambda>m u. AList.update (u_id u) (lookup_list m (u_id u) @ [ug_id g]) m) m ms,
          AList.update (ug_id g) \<lparr>gs_id = ug_id g, gs_name = ug_name g,
            gs_lan_mode = ug_lan_mode g, gs_members = map u_id ms\<rparr> grps)"
      by (auto simp: add_group_def t result_simps)
    have mem: "u_id ` set ms = {u. (u, ug_id g) \<in> set (t_ug_members d)}"
      by (rule group_members [OF wf ms])
    have old: "\<exists>snap g'. g' \<in> set (ys @ [g]) \<and> ug_id g' = i \<and> map_of grps i = Some snap
          \<and> gs_lan_mode snap = ug_lan_mode g' \<and> set (gs_members snap) = {u. (u, i) \<in> set (t_ug_members d)}"
      if "i \<in> ug_id ` set ys" for i
    proof -
      have "\<exists>snap g'. g' \<in> set ys \<and> ug_id g' = i \<and> map_of grps i = Some snap
          \<and> gs_lan_mode snap = ug_lan_mode g' \<and> set (gs_members snap) = {u. (u, i) \<in> set (t_ug_members d)}"
        using P that unfolding t by blast
      then show ?thesis by auto
    qed
    have b: "\<exists>snap g'. g' \<in> set (ys @ [g]) \<and> ug_id g' = i \<and> map_of (snd t') i = Some snap
          \<and> gs_lan_mode snap = ug_lan_mode g' \<and> set (gs_members snap) = {u. (u, i) \<in> set (t_ug_members d)}"
      if "i \<in> ug_id ` set (ys @ [g])" for i
      using that old [of i] by (cases "i = ug_id g") (auto simp: t' mem update_conv')
    have a: "set (lookup_list (fst t') u) = {g' \<in> ug_id ` set (ys @ [g]). (u, g') \<in> set (t_ug_members d)}" for u
      using P unfolding t t' by (auto simp: foldl_add_group_member mem)
    have c: "map_of (snd t') i = None" if "i \<notin> ug_id ` set (ys @ [g])" for i
      using P that unfolding t t' by (simp add: update_conv')
    show "?P (ys @ [g]) t'"
      unfolding case_prod_beta using a b c by blast
  qed simp
  then show "set (lookup_list by_user u) = {g \<in> ug_id ` set gs. (u, g) \<in> set (t_ug_members d)}"
    by simp
  show "case row_by ug_id i gs of None \<Rightarrow> map_of groups i = None
        | Some g \<Rightarrow> \<exists>snap. map_of groups i = Some snap \<and> gs_lan_mode snap = ug_lan_mode g
            \<and> set (gs_members snap) = {u. (u, i) \<in> set (t_ug_members d)}"
  proof (cases "row_by ug_id i gs")
    case None
    then have "i \<notin> ug_id ` set gs" by (simp add: row_by_None)
    then have "map_of groups i = None" using P unfolding case_prod_beta by simp
    then show ?thesis using None by simp
  next
    case (Some g)
    then have g: "i \<in> ug_id ` set gs" by (auto dest: row_by_Some)
    then obtain snap g' where s: "g' \<in> set gs" "ug_id g' = i" "map_of groups i = Some snap"
      "gs_lan_mode snap = ug_lan_mode g'" "set (gs_members snap) = {u. (u, i) \<in> set (t_ug_members d)}"
      using P unfolding case_prod_beta fst_conv snd_conv by blast
    moreover have "g' = g" using row_by_unique [OF dist s(1)] s(2) Some by simp
    ultimately show ?thesis using Some by simp
  qed
qed

lemma built_service_groups:
  assumes "foldE (add_service_groups ev d) ss [] = Inr m"
  shows "s \<in> s_id ` set ss \<Longrightarrow> set (lookup_list m s) = {g. (s, g) \<in> set (t_sg_members d)}"
proof -
  have "\<forall>s\<in>s_id ` set ss. set (lookup_list m s) = {g. (s, g) \<in> set (t_sg_members d)}"
  proof (rule foldE_invariant [OF assms])
    fix ys :: "service list" and y t t'
    assume P: "\<forall>s\<in>s_id ` set ys. set (lookup_list t s) = {g. (s, g) \<in> set (t_sg_members d)}"
      and "add_service_groups ev d y t = Inr t'"
    then have t': "t' = AList.update (s_id y) (map snd (filter (\<lambda>m. fst m = s_id y) (t_sg_members d))) t"
      by (auto simp: add_service_groups_def ServiceGroupIDsForService_def result_simps)
    show "\<forall>s\<in>s_id ` set (ys @ [y]). set (lookup_list t' s) = {g. (s, g) \<in> set (t_sg_members d)}"
      using P unfolding t' by (auto simp: lookup_list_update image_iff)
  qed simp
  then show "s \<in> s_id ` set ss \<Longrightarrow> set (lookup_list m s) = {g. (s, g) \<in> set (t_sg_members d)}" by blast
qed

end
