(* ===== verification/PolicyCheck.thy ===== *)
theory PolicyCheck
  imports PolicyIndex
begin

text \<open>
  The access decisions: the index that \<open>Build\<close> makes of a well-formed database represents it,
  and on such an index \<open>CheckService\<close> and \<open>CheckPeer\<close> decide as the specification says. The
  code that consults a policy (the connection handlers, the packet relay, the flow table) relies
  on the locale \<open>policy_checker\<close>, which the checks on an index are shown to implement.
\<close>

section \<open>The index represents the database\<close>

lemma Build_index_of:
  assumes wf: "db_wf d" and run: "Build ev d = Inr idx"
  shows "index_of d idx"
proof -
  from run obtain users ugs ss rules by_user groups by_service where
    u: "ListUsers ev d = Inr users" and g: "ListUserGroups ev d = Inr ugs"
    and s: "ListServices ev d = Inr ss" and r: "ListPolicies ev d = Inr rules"
    and f1: "foldE (add_group ev d) ugs ([], []) = Inr (by_user, groups)"
    and f2: "foldE (add_service_groups ev d) ss [] = Inr by_service"
    and idx: "idx = \<lparr>PeerByIP = foldl (\<lambda>m u. AList.update (u_ip u) (user_snap u) m) [] users,
         UserByID = foldl (\<lambda>m u. AList.update (u_id u) (user_snap u) m) [] users,
         ServiceByVIP = foldl (\<lambda>m s. AList.update (s_ip s) (service_snap s) m) [] ss,
         ServiceByID = foldl (\<lambda>m s. AList.update (s_id s) (service_snap s) m) [] ss,
         GroupsByUser = by_user, GroupsByService = by_service, UserGroups = groups,
         Rules = map rule_snap rules\<rparr>"
    by (auto simp: Build_def result_simps)
  have sorted: "order_by u_id (t_users d) = t_users d"
    "order_by ug_id (t_user_groups d) = t_user_groups d"
    "order_by s_id (t_services d) = t_services d" "order_by r_id (t_rules d) = t_rules d"
    using wf by (auto simp: db_wf_def wf_ids_def ids_ok_def intro: order_by_sorted)
  have users: "users = map scanUser (t_users d)" and ugs: "ugs = t_user_groups d"
    and rules: "rules = t_rules d"
    using u g r sorted by (auto simp: ListUsers_def ListUserGroups_def ListPolicies_def result_simps)
  have ss: "ss = map (service_view d) (t_services d)"
    using queryServices_Inr [OF s [unfolded ListServices_def]] sorted by simp
  have dist: "distinct (map u_ip (t_users d))" "distinct (map u_id (t_users d))"
    "distinct (map s_ip (t_services d))" "distinct (map s_id (t_services d))"
    "distinct (map ug_id (t_user_groups d))"
    using wf by (auto simp: db_wf_def wf_names_def addresses_def wf_ids_def dest: ids_ok_distinct)
  note b = built_groups [OF wf f1, unfolded ugs, OF dist(5)]
  have mem: "set (lookup_list by_user u) = {g. (u, g) \<in> set (t_ug_members d)}" for u
    using b(1) [of u] wf by (auto simp: db_wf_def wf_members_def has_id_iff)
  have svc: "set (lookup_list by_service s) = {g. (s, g) \<in> set (t_sg_members d)}"
    if "has_id s_id (t_services d) s" for s
    using built_service_groups [OF f2, of s] that by (simp add: ss has_id_iff image_comp)
  show ?thesis
    unfolding index_of_def idx users ss rules
    using mem svc b(2) dist by (simp add: map_of_built cong: option.case_cong)
qed

text \<open>The maps by id have one entry per key, so Go's order of iteration shows only in the order of
  the calls they lead to.\<close>

lemma Build_users_distinct: "Build ev d = Inr idx \<Longrightarrow> distinct (map fst (UserByID idx))"
  by (auto simp: Build_def bindE_Inr_iff intro!: distinct_built split: prod.splits)

lemma Build_services_distinct: "Build ev d = Inr idx \<Longrightarrow> distinct (map fst (ServiceByID idx))"
  by (auto simp: Build_def bindE_Inr_iff intro!: distinct_built split: prod.splits)

section \<open>The rules\<close>

lemma best_rule_max:
  fixes subjects objects
  assumes "list_all (\<lambda>r. 0 < rs_id r) rules"
  defines "m \<equiv> \<lambda>r. matchesAny (rs_subject_type r) (rs_subject_id r) subjects
      \<and> matchesAny (rs_object_type r) (rs_object_id r) objects"
  shows "case best_rule subjects objects rules of (best, act) \<Rightarrow>
    if \<exists>r\<in>set rules. m r
    then (\<exists>r\<in>set rules. m r \<and> best = rs_id r \<and> act = rs_action r)
      \<and> (\<forall>r\<in>set rules. m r \<longrightarrow> rs_id r \<le> best) \<and> 0 < best
    else (best, act) = (-1, [])"
  using assms(1)
proof (induction rules rule: rev_induct)
  case (snoc r rules)
  have "best_rule subjects objects (rules @ [r]) = (case best_rule subjects objects rules of (best, act) \<Rightarrow>
     if m r \<and> rs_id r > best then (rs_id r, rs_action r) else (best, act))"
    by (auto simp: best_rule_def m_def split: prod.split)
  then show ?case using snoc by (auto split: prod.splits if_splits)
qed (simp add: best_rule_def)

lemma matchesAny_iff: "matchesAny t i refs \<longleftrightarrow> (t, i) \<in> set refs"
  by (force simp: matchesAny_def list_ex_iff)

lemma rule_snap_sel [simp]:
  "rs_id (rule_snap r) = r_id r" "rs_action (rule_snap r) = r_action r"
  "rs_subject_type (rule_snap r) = r_subject_type r" "rs_subject_id (rule_snap r) = r_subject_id r"
  "rs_object_type (rule_snap r) = r_object_type r" "rs_object_id (rule_snap r) = r_object_id r"
  by (simp_all add: rule_snap_def)

lemma evaluateExplicit_spec:
  assumes wf: "db_wf d" and rules: "Rules idx = map rule_snap (t_rules d)"
    and S: "set subjects = S" and Ob: "set objects = Ob"
  shows "evaluateExplicit idx subjects objects =
    (if rules_silent d S Ob then (Deny, False)
     else if rules_allow d S Ob then (Allow, True) else (Deny, True))"
proof -
  let ?m = "\<lambda>r. matchesAny (rs_subject_type r) (rs_subject_id r) subjects
      \<and> matchesAny (rs_object_type r) (rs_object_id r) objects"
  have pos: "list_all (\<lambda>r. 0 < rs_id r) (Rules idx)"
    using wf by (simp add: rules list_all_iff db_wf_def wf_ids_def ids_ok_def)
  have m: "?m (rule_snap r) \<longleftrightarrow> applies S Ob r" for r
    using S Ob by (simp add: matchesAny_iff applies_def)
  have inj: "r = r'" if "r \<in> set (t_rules d)" "r' \<in> set (t_rules d)" "r_id r = r_id r'" for r r'
    using wf that by (auto simp: db_wf_def wf_ids_def distinct_map dest!: ids_ok_distinct dest: inj_onD)
  obtain best act where ba: "best_rule subjects objects (Rules idx) = (best, act)"
    by (cases "best_rule subjects objects (Rules idx)")
  show ?thesis
  proof (cases "rules_silent d S Ob")
    case True
    then have "best = -1"
      using best_rule_max [OF pos, of subjects objects] ba m by (auto simp: rules rules_silent_def)
    then show ?thesis using True ba by (simp add: evaluateExplicit_def)
  next
    case False
    then have "\<exists>r\<in>set (Rules idx). ?m r" using m by (auto simp: rules rules_silent_def)
    then have "(\<exists>r\<in>set (Rules idx). ?m r \<and> best = rs_id r \<and> act = rs_action r)
      \<and> (\<forall>r\<in>set (Rules idx). ?m r \<longrightarrow> rs_id r \<le> best) \<and> 0 < best"
      using best_rule_max [OF pos, of subjects objects] ba by simp
    then obtain r where r: "r \<in> set (t_rules d)" "applies S Ob r" "best = r_id r" "act = r_action r"
      and max: "\<forall>r'\<in>set (t_rules d). applies S Ob r' \<longrightarrow> r_id r' \<le> best" and b: "0 < best"
      using m by (auto simp: rules)
    then have dec: "decides d S Ob r" by (simp add: decides_def)
    have "r' = r" if "decides d S Ob r'" for r'
    proof -
      have "r' \<in> set (t_rules d)" "r_id r' \<le> r_id r" "r_id r \<le> r_id r'"
        using that dec by (auto simp: decides_def)
      then show ?thesis using inj r(1) by simp
    qed
    then have "rules_allow d S Ob \<longleftrightarrow> r_action r = ''allow''"
      unfolding rules_allow_def using dec by blast
    then have "rules_allow d S Ob \<longleftrightarrow> act = ''allow''" using r(4) by simp
    then show ?thesis using False ba b by (simp add: evaluateExplicit_def)
  qed
qed

lemma silent_not_allow: "rules_silent d S Ob \<Longrightarrow> \<not> rules_allow d S Ob"
  by (auto simp: rules_silent_def rules_allow_def decides_def)

lemma subject_refs:
  assumes "index_of d idx"
  shows "set (subjectSet idx uid) = user_refs d uid" "set (userObjectSet idx uid) = user_refs d uid"
    and "has_id s_id (t_services d) sid \<Longrightarrow> set (serviceObjectSet idx sid) = service_refs d sid"
  using assms by (auto simp: index_of_def subjectSet_def userObjectSet_def serviceObjectSet_def
      user_refs_def service_refs_def)

lemma portAllowed_open:
  "portAllowed (ss_ports (service_snap (service_view d r))) port proto = port_open d (s_id r) port proto"
proof -
  have s: "set (ports_of d sid) = {p \<in> set (t_ports d). sp_service p = sid}" for sid
    by (auto simp: ports_of_def)
  then have "ports_of d sid = [] \<longleftrightarrow> (\<forall>p\<in>set (t_ports d). sp_service p \<noteq> sid)" for sid
    unfolding set_empty [symmetric] s by blast
  then show ?thesis
    by (simp add: portAllowed_def port_open_def service_snap_def port_snap_def list_ex_iff s
        Bex_def conj_assoc)
qed

lemma shareLANGroup_spec:
  assumes "db_wf d" "index_of d idx"
  shows "shareLANGroup idx a b = share_lan d a b"
proof -
  have g: "set (lookup_list (GroupsByUser idx) a) = {g. (a, g) \<in> set (t_ug_members d)}"
    and u: "\<And>i. case row_by ug_id i (t_user_groups d) of None \<Rightarrow> map_of (UserGroups idx) i = None
        | Some g \<Rightarrow> \<exists>snap. map_of (UserGroups idx) i = Some snap \<and> gs_lan_mode snap = ug_lan_mode g
            \<and> set (gs_members snap) = {u. (u, i) \<in> set (t_ug_members d)}"
    using assms(2) by (auto simp: index_of_def)
  have dist: "distinct (map ug_id (t_user_groups d))"
    using assms(1) by (auto simp: db_wf_def wf_ids_def dest: ids_ok_distinct)
  have one: "(case map_of (UserGroups idx) i of None \<Rightarrow> False
       | Some g \<Rightarrow> gs_lan_mode g \<and> b \<in> set (gs_members g)) \<longleftrightarrow>
      (\<exists>g\<in>set (t_user_groups d). ug_id g = i \<and> ug_lan_mode g \<and> (b, i) \<in> set (t_ug_members d))" for i
  proof (cases "row_by ug_id i (t_user_groups d)")
    case None
    then have "map_of (UserGroups idx) i = None" using u [of i] by simp
    then show ?thesis using None by (auto simp: row_by_None)
  next
    case (Some g)
    then have g: "g \<in> set (t_user_groups d)" "ug_id g = i" by (auto dest: row_by_Some)
    have "g' = g" if "g' \<in> set (t_user_groups d)" "ug_id g' = i" for g'
      using row_by_unique [OF dist that(1)] that(2) Some by simp
    with g have r: "(\<exists>g\<in>set (t_user_groups d). ug_id g = i \<and> ug_lan_mode g \<and> (b, i) \<in> set (t_ug_members d))
      \<longleftrightarrow> ug_lan_mode g \<and> (b, i) \<in> set (t_ug_members d)" by blast
    from u [of i] Some obtain snap where "map_of (UserGroups idx) i = Some snap"
      "gs_lan_mode snap = ug_lan_mode g" "set (gs_members snap) = {u. (u, i) \<in> set (t_ug_members d)}"
      by auto
    then show ?thesis unfolding r by simp
  qed
  have "shareLANGroup idx a b \<longleftrightarrow> (\<exists>i. (a, i) \<in> set (t_ug_members d)
      \<and> (\<exists>g\<in>set (t_user_groups d). ug_id g = i \<and> ug_lan_mode g \<and> (b, i) \<in> set (t_ug_members d)))"
    by (simp only: shareLANGroup_def list_ex_iff g one Bex_def mem_Collect_eq)
  also have "\<dots> \<longleftrightarrow> share_lan d a b" unfolding share_lan_def by blast
  finally show ?thesis .
qed

lemma row_iff:
  "distinct (map key t) \<Longrightarrow> row_by key k t = Some r \<longleftrightarrow> r \<in> set t \<and> key r = k"
  using row_by_unique [of key t r] by (auto dest: row_by_Some)

lemma wf_keys:
  assumes "db_wf d"
  shows "distinct (map u_ip (t_users d))" "distinct (map u_id (t_users d))"
    "distinct (map s_ip (t_services d))" "distinct (map s_id (t_services d))"
  using assms by (auto simp: db_wf_def wf_names_def addresses_def wf_ids_def dest: ids_ok_distinct)

lemma user_snap_sel [simp]:
  "us_id (user_snap u) = u_id u" "us_addr (user_snap u) = u_ip u" "us_uname (user_snap u) = u_name u"
  by (simp_all add: user_snap_def)

lemma service_snap_sel [simp]:
  "ss_id (service_snap s) = s_id s" "ss_ip (service_snap s) = s_ip s"
  "ss_name (service_snap s) = s_name s" "ss_origin (service_snap s) = s_origin s"
  by (simp_all add: service_snap_def)

lemma CheckService_access:
  assumes wf: "db_wf d" and idx: "index_of d idx"
  shows "fst (CheckService idx srcIP vip port proto) = Allow \<longleftrightarrow> service_access d srcIP vip port proto"
proof -
  have peer: "map_of (PeerByIP idx) srcIP = map_option (\<lambda>r. user_snap (scanUser r)) (row_by u_ip srcIP (t_users d))"
    and svc: "map_of (ServiceByVIP idx) vip =
        map_option (\<lambda>r. service_snap (service_view d r)) (row_by s_ip vip (t_services d))"
    and rules: "Rules idx = map rule_snap (t_rules d)"
    using idx by (auto simp: index_of_def)
  show ?thesis
  proof (cases "row_by u_ip srcIP (t_users d)")
    case None
    then have "srcIP \<notin> u_ip ` set (t_users d)" by (simp add: row_by_None)
    then show ?thesis using None by (auto simp: CheckService_def peer service_access_def)
  next
    case (Some u)
    note u = Some
    have uu: "v = u" if "v \<in> set (t_users d)" "u_ip v = srcIP" for v
      using row_iff [OF wf_keys(1) [OF wf], of srcIP v] that u by simp
    show ?thesis
    proof (cases "row_by s_ip vip (t_services d)")
      case None
      then have "vip \<notin> s_ip ` set (t_services d)" by (simp add: row_by_None)
      then show ?thesis using u None by (auto simp: CheckService_def peer svc service_access_def)
    next
      case (Some s)
      have ss: "t = s" if "t \<in> set (t_services d)" "s_ip t = vip" for t
        using row_iff [OF wf_keys(3) [OF wf], of vip t] that Some by simp
      have mem: "u \<in> set (t_users d)" "u_ip u = srcIP" "s \<in> set (t_services d)" "s_ip s = vip"
        using u Some by (auto dest: row_by_Some)
      have "evaluate idx (subjectSet idx (u_id u)) (serviceObjectSet idx (s_id s)) = Allow
        \<longleftrightarrow> rules_allow d (user_refs d (u_id u)) (service_refs d (s_id s))"
        using evaluateExplicit_spec [OF wf rules subject_refs(1) [OF idx] subject_refs(3) [OF idx]]
          mem silent_not_allow by (auto simp: evaluate_def has_id_iff)
      moreover have "service_access d srcIP vip port proto \<longleftrightarrow> port_open d (s_id s) port proto
        \<and> rules_allow d (user_refs d (u_id u)) (service_refs d (s_id s))"
        unfolding service_access_def using uu ss mem by blast
      ultimately show ?thesis
        using u Some by (simp add: CheckService_def peer svc portAllowed_open)
    qed
  qed
qed

lemma CheckPeer_access:
  assumes wf: "db_wf d" and idx: "index_of d idx"
  shows "fst (CheckPeer idx srcIP dstIP) = Allow \<longleftrightarrow> peer_access d srcIP dstIP"
proof -
  have peer: "map_of (PeerByIP idx) ip = map_option (\<lambda>r. user_snap (scanUser r)) (row_by u_ip ip (t_users d))" for ip
    using idx by (auto simp: index_of_def)
  have rules: "Rules idx = map rule_snap (t_rules d)" using idx by (auto simp: index_of_def)
  have uniq: "v = u" if "row_by u_ip ip (t_users d) = Some u" "v \<in> set (t_users d)" "u_ip v = ip" for u v ip
    using row_iff [OF wf_keys(1) [OF wf], of ip v] that by simp
  show ?thesis
  proof (cases "row_by u_ip srcIP (t_users d)")
    case None
    then have "srcIP \<notin> u_ip ` set (t_users d)" by (simp add: row_by_None)
    then show ?thesis using None by (auto simp: CheckPeer_def peer peer_access_def)
  next
    case (Some u)
    note u = Some
    show ?thesis
    proof (cases "row_by u_ip dstIP (t_users d)")
      case None
      then have "dstIP \<notin> u_ip ` set (t_users d)" by (simp add: row_by_None)
      then show ?thesis using u None by (auto simp: CheckPeer_def peer peer_access_def)
    next
      case (Some v)
      have mem: "u \<in> set (t_users d)" "u_ip u = srcIP" "v \<in> set (t_users d)" "u_ip v = dstIP"
        using u Some by (auto dest: row_by_Some)
      have "peer_access d srcIP dstIP \<longleftrightarrow>
        rules_allow d (user_refs d (u_id u)) (user_refs d (u_id v))
          \<or> (rules_silent d (user_refs d (u_id u)) (user_refs d (u_id v)) \<and> share_lan d (u_id u) (u_id v))"
        unfolding peer_access_def using uniq [OF u] uniq [OF Some] mem by blast
      moreover note evaluateExplicit_spec [OF wf rules subject_refs(1) [OF idx] subject_refs(2) [OF idx],
          of "u_id u" "u_id v"] shareLANGroup_spec [OF wf idx, of "u_id u" "u_id v"]
        silent_not_allow [of d "user_refs d (u_id u)" "user_refs d (u_id v)"]
      ultimately show ?thesis
        using u Some by (simp add: CheckPeer_def peer split: if_splits)
    qed
  qed
qed

section \<open>The interface of the checks\<close>

text \<open>
  The handlers dereference the snapshots of an allowed connection, so an allowed check must
  return both.
\<close>

locale policy_checker =
  fixes check_service :: "string \<Rightarrow> string \<Rightarrow> int \<Rightarrow> string
      \<Rightarrow> decision \<times> user_snapshot option \<times> service_snapshot option"
    and check_peer :: "string \<Rightarrow> string \<Rightarrow> decision \<times> user_snapshot option \<times> user_snapshot option"
  assumes service_known: "check_service a b p proto = (Allow, u, s) \<Longrightarrow> u \<noteq> None \<and> s \<noteq> None"
    and peer_known: "check_peer a b = (Allow, u, v) \<Longrightarrow> u \<noteq> None \<and> v \<noteq> None"
begin

lemma service_allowed:
  assumes "fst (check_service a b p proto) = Allow"
  obtains u s where "check_service a b p proto = (Allow, Some u, Some s)"
  using assms service_known [of a b p proto] by (cases "check_service a b p proto") auto

lemma peer_allowed:
  assumes "fst (check_peer a b) = Allow"
  obtains u v where "check_peer a b = (Allow, Some u, Some v)"
  using assms peer_known [of a b] by (cases "check_peer a b") auto

end

lemma CheckService_known:
  "fst (CheckService idx a b p proto) = Allow \<Longrightarrow>
    fst (snd (CheckService idx a b p proto)) \<noteq> None \<and> snd (snd (CheckService idx a b p proto)) \<noteq> None"
  by (cases "map_of (PeerByIP idx) a"; cases "map_of (ServiceByVIP idx) b")
    (simp_all add: CheckService_def)

lemma CheckPeer_known:
  "fst (CheckPeer idx a b) = Allow \<Longrightarrow>
    fst (snd (CheckPeer idx a b)) \<noteq> None \<and> snd (snd (CheckPeer idx a b)) \<noteq> None"
  by (cases "map_of (PeerByIP idx) a"; cases "map_of (PeerByIP idx) b")
    (simp_all add: CheckPeer_def split: prod.split)

interpretation index_checker: policy_checker "CheckService idx" "CheckPeer idx" for idx
  by unfold_locales (metis CheckService_known fst_conv snd_conv, metis CheckPeer_known fst_conv snd_conv)

section \<open>Properties\<close>

text \<open>
  C21: service access. On the index that \<open>Build\<close> makes of a well-formed database,
  \<open>CheckService\<close> allows a connection exactly when some user has the source address, some
  service the destination address, the port is open (the service lists it with its protocol, or
  lists no port at all), and among the policy rules whose subject is the user or one of the
  user's groups and whose object is the service or one of its groups, there is one and the one
  of highest id says allow.
\<close>

theorem check_service_correct:
  assumes "db_wf d" and "Build ev d = Inr idx"
  shows "fst (CheckService idx srcIP vip port proto) = Allow \<longleftrightarrow> service_access d srcIP vip port proto"
  by (rule CheckService_access [OF assms(1) Build_index_of [OF assms]])

text \<open>
  C24: peer access. On the index that \<open>Build\<close> makes of a well-formed database,
  \<open>CheckPeer\<close> allows traffic exactly when both addresses belong to users and either the
  rule of highest id on them says allow, or no rule applies and the two share a user group in
  LAN mode. An explicit deny beats a shared LAN group.
\<close>

theorem check_peer_correct:
  assumes "db_wf d" and "Build ev d = Inr idx"
  shows "fst (CheckPeer idx srcIP dstIP) = Allow \<longleftrightarrow> peer_access d srcIP dstIP"
  by (rule CheckPeer_access [OF assms(1) Build_index_of [OF assms]])

text \<open>
  By default nothing is allowed: on an index with no policy rules, no service is reachable,
  and a peer only through a LAN group that both users are in.
\<close>

theorem default_deny:
  assumes "Rules idx = []"
  shows "fst (CheckService idx srcIP vip port proto) = Deny
    \<and> (fst (CheckPeer idx srcIP dstIP) = Allow \<longrightarrow>
        (\<exists>u v g gs. map_of (PeerByIP idx) srcIP = Some u \<and> map_of (PeerByIP idx) dstIP = Some v
          \<and> g \<in> set (lookup_list (GroupsByUser idx) (us_id u)) \<and> map_of (UserGroups idx) g = Some gs
          \<and> gs_lan_mode gs \<and> us_id v \<in> set (gs_members gs)))"
proof
  have e: "evaluateExplicit idx S Ob = (Deny, False)" for S Ob
    by (simp add: evaluateExplicit_def best_rule_def assms)
  show "fst (CheckService idx srcIP vip port proto) = Deny"
    by (auto simp: CheckService_def evaluate_def e split: option.split)
  show "fst (CheckPeer idx srcIP dstIP) = Allow \<longrightarrow>
        (\<exists>u v g gs. map_of (PeerByIP idx) srcIP = Some u \<and> map_of (PeerByIP idx) dstIP = Some v
          \<and> g \<in> set (lookup_list (GroupsByUser idx) (us_id u)) \<and> map_of (UserGroups idx) g = Some gs
          \<and> gs_lan_mode gs \<and> us_id v \<in> set (gs_members gs))"
    by (auto simp: CheckPeer_def e shareLANGroup_def list_ex_iff split: option.splits if_splits)
qed

section \<open>Witnesses\<close>

definition w_user :: "string option user" where
  "w_user = \<lparr>u_id = 1, u_name = ''al'', u_email = None, u_public_key = ''k'', u_private_key = ''k'',
     u_preshared_key = ''k'', u_ip = ''1'', u_endpoint = None, u_created = ''t'', u_updated = ''t''\<rparr>"

definition w_service :: "string option service_row" where
  "w_service = \<lparr>s_id = 1, s_name = ''web'', s_hostname = ''web'',
     s_origin = \<lparr>o_kind = Host, o_value = [], o_network = []\<rparr>, s_ip = ''2'',
     s_description = None, s_created = ''t'', s_updated = ''t''\<rparr>"

definition w_rule :: policy_rule where
  "w_rule = \<lparr>r_id = 1, r_subject_type = ''user'', r_subject_id = 1, r_object_type = ''service'',
     r_object_id = 1, r_action = ''allow'', r_created = ''t'', r_updated = ''t''\<rparr>"

definition w_db :: db where
  "w_db = empty_db\<lparr>t_users := [w_user], q_users := 1, t_services := [w_service], q_services := 1,
     t_rules := [w_rule], q_rules := 1\<rparr>"

lemma w_db_wf: "db_wf w_db"
  by (simp add: wf_unfold w_db_def w_user_def w_service_def w_rule_def empty_db_def ids_ok_def
      max_int64_def principal_names_def object_names_def addresses_def spec_ok_def Valid_def
      rule_ok_def validSubject_def validObject_def validAction_def row_exists_def)

lemma w_build: "\<exists>idx. Build quiet_env w_db = Inr idx"
  by (simp add: Build_def ListUsers_def ListUserGroups_def ListServices_def ListPolicies_def
      queryServices_def loadServicePorts_def add_service_groups_def ServiceGroupIDsForService_def
      w_db_def empty_db_def order_by_def quiet_env_def exec_sql_def)

theorem check_service_correct_witness:
  "\<exists>idx. Build quiet_env w_db = Inr idx \<and> fst (CheckService idx ''1'' ''2'' 80 ''tcp'') = Allow"
proof -
  obtain idx where b: "Build quiet_env w_db = Inr idx" using w_build by blast
  have "service_access w_db ''1'' ''2'' 80 ''tcp''"
    by (simp add: service_access_def w_db_def w_user_def w_service_def empty_db_def port_open_def
        rules_allow_def decides_def applies_def w_rule_def user_refs_def service_refs_def)
  then show ?thesis using check_service_correct [OF w_db_wf b] b by auto
qed

theorem check_peer_correct_witness:
  "\<exists>idx. Build quiet_env w_db = Inr idx \<and> fst (CheckPeer idx ''1'' ''1'') \<noteq> Allow"
proof -
  obtain idx where b: "Build quiet_env w_db = Inr idx" using w_build by blast
  have "\<not> peer_access w_db ''1'' ''1''"
    by (simp add: peer_access_def w_db_def w_user_def empty_db_def rules_allow_def decides_def
        applies_def w_rule_def user_refs_def share_lan_def)
  then show ?thesis using check_peer_correct [OF w_db_wf b] b by auto
qed

definition empty_index :: index where
  "empty_index = \<lparr>PeerByIP = [], UserByID = [], ServiceByVIP = [], ServiceByID = [],
     GroupsByUser = [], GroupsByService = [], UserGroups = [], Rules = []\<rparr>"

theorem default_deny_witness: "fst (CheckService empty_index ''1'' ''2'' 80 ''tcp'') = Deny"
  using default_deny [of empty_index "''1''" "''2''" 80 "''tcp''"] by (simp add: empty_index_def)

end
