(* ===== verification/Ipalloc.thy ===== *)
theory Ipalloc
  imports Netip
begin

text \<open>
  \<open>daemon/ipalloc/allocator.go\<close>: the address allocator. \<open>taken\<close> and the reserved set are
  Go sets of strings, modelled by the list of their members. The search loop is a
  \<^theory_text>\<open>partial_function\<close>: its result is \<open>None\<close> when the loop never returns.
\<close>

datatype alloc_error = ErrParseCIDR | ErrNotIPv4 | ErrParseReserved | ErrSubnetExhausted

section \<open>Model\<close>

fun reserved_set :: "string list \<Rightarrow> alloc_error + string list" where
  "reserved_set [] = Inr []"
| "reserved_set (r # rs) =
     (if r = [] then reserved_set rs
      else case parse_addr r of None \<Rightarrow> Inl ErrParseReserved
        | Some a \<Rightarrow> bindE (reserved_set rs) (\<lambda>ks. Inr (addr_string a # ks)))"

text \<open>\<open>As4\<close> and \<open>AddrFrom4\<close>, and the loop of \<open>lastAddr\<close> that sets the host bits one by one.\<close>

definition as4 :: "32 word \<Rightarrow> 8 word list" where
  "as4 a = map (\<lambda>k. ucast (drop_bit (24 - 8 * k) a)) [0, 1, 2, 3]"

definition from4 :: "8 word list \<Rightarrow> 32 word" where
  "from4 bs = push_bit 24 (ucast (bs ! 0)) OR push_bit 16 (ucast (bs ! 1))
     OR push_bit 8 (ucast (bs ! 2)) OR ucast (bs ! 3)"

definition set_host_bit :: "nat \<Rightarrow> 8 word list \<Rightarrow> 8 word list" where
  "set_host_bit i bs = (let idx = 3 - i div 8 in bs[idx := bs ! idx OR push_bit (i mod 8) 1])"

definition last_addr :: "pfx \<Rightarrow> addr" where
  "last_addr p = (case masked_addr p of
     V4 m \<Rightarrow> V4 (from4 (fold set_host_bit [0..<32 - pfx_bits p] (as4 m)))
   | x \<Rightarrow> x)"

partial_function (option) alloc_loop ::
  "addr \<Rightarrow> addr \<Rightarrow> string list \<Rightarrow> string list \<Rightarrow> (alloc_error + string) option" where
  "alloc_loop candidate broadcast taken reserved =
    (if candidate < broadcast then
       (let key = addr_string candidate in
         if key \<in> set taken then alloc_loop (addr_next candidate) broadcast taken reserved
         else if key \<in> set reserved then alloc_loop (addr_next candidate) broadcast taken reserved
         else Some (Inr key))
     else Some (Inl ErrSubnetExhausted))"

definition allocate ::
  "string \<Rightarrow> string list \<Rightarrow> string list \<Rightarrow> (alloc_error + string) option" where
  "allocate cidr taken reserved =
    (case parse_prefix cidr of None \<Rightarrow> Some (Inl ErrParseCIDR)
     | Some p \<Rightarrow>
        if \<not> is_v4 (pfx_ip p) then Some (Inl ErrNotIPv4)
        else (case reserved_set reserved of Inl e \<Rightarrow> Some (Inl e)
          | Inr rset \<Rightarrow> alloc_loop (addr_next (masked_addr p)) (last_addr p) taken rset))"

definition is_in_prefix :: "string \<Rightarrow> string \<Rightarrow> alloc_error + bool" where
  "is_in_prefix cidr ip =
    (case parse_prefix cidr of None \<Rightarrow> Inl ErrParseCIDR
     | Some p \<Rightarrow> (case parse_addr ip of None \<Rightarrow> Inl ErrParseReserved
        | Some a \<Rightarrow> Inr (pfx_contains p a)))"

definition is_Invalid :: "addr \<Rightarrow> bool" where
  "is_Invalid a = (case a of Invalid _ \<Rightarrow> True | _ \<Rightarrow> False)"

section \<open>The last address of a prefix\<close>

lemma length_as4 [simp]: "length (as4 a) = 4"
  by (simp add: as4_def)

lemma length_set_host_bit [simp]: "length (set_host_bit i bs) = length bs"
  by (simp add: set_host_bit_def Let_def)

lemma length_fold_set_host_bit [simp]: "length (fold set_host_bit is bs) = length bs"
  by (induction "is" arbitrary: bs) auto

lemma bit_byte_ge: "8 \<le> m \<Longrightarrow> \<not> bit (b :: 8 word) m"
  using bit_imp_le_length [of b m] by auto

lemma bit_from4:
  assumes "n < 32"
  shows "bit (from4 bs) n = bit (bs ! (3 - n div 8)) (n mod 8)"
proof -
  have b: "bit (from4 bs) n \<longleftrightarrow> (24 \<le> n \<and> bit (bs ! 0) (n - 24)) \<or> (16 \<le> n \<and> bit (bs ! 1) (n - 16))
      \<or> (8 \<le> n \<and> bit (bs ! 2) (n - 8)) \<or> bit (bs ! 3) n"
  proof -
    have "n - m < 32" for m using assms by simp
    then show ?thesis
      using assms by (simp add: from4_def bit_or_iff bit_push_bit_iff bit_ucast_iff)
  qed
  have split: "n = 8 * (n div 8) + n mod 8" "n mod 8 < 8" by simp_all
  have "n div 8 < 4" using assms by simp
  then consider "n div 8 = 0" | "n div 8 = 1" | "n div 8 = 2" | "n div 8 = 3" by linarith
  then show ?thesis
  proof cases
    case 1
    then have "n < 8" by simp
    with 1 show ?thesis unfolding b by simp
  next
    case 2
    then have "n - 8 = n mod 8" "8 \<le> n" "\<not> 16 \<le> n" using split by simp_all
    with 2 show ?thesis unfolding b by (simp add: bit_byte_ge)
  next
    case 3
    then have "n - 16 = n mod 8" "16 \<le> n" "\<not> 24 \<le> n" using split by simp_all
    with 3 show ?thesis unfolding b by (simp add: bit_byte_ge)
  next
    case 4
    then have "n - 24 = n mod 8" "24 \<le> n" using split by simp_all
    with 4 show ?thesis unfolding b by (simp add: bit_byte_ge)
  qed
qed

lemma bit_as4: "k < 4 \<Longrightarrow> m < 8 \<Longrightarrow> bit (as4 a ! k) m = bit a (24 - 8 * k + m)"
proof -
  assume "k < 4" "m < 8"
  then have "as4 a ! k = ucast (drop_bit (24 - 8 * k) a)"
    by (auto simp: as4_def less_Suc_eq numeral_eq_Suc)
  with \<open>m < 8\<close> show ?thesis by (simp add: bit_simps add.commute)
qed

lemma bit_set_host_bit:
  assumes "length bs = 4" "k < 4" "m < 8" "i < 32"
  shows "bit (set_host_bit i bs ! k) m \<longleftrightarrow> bit (bs ! k) m \<or> i = 8 * (3 - k) + m"
proof -
  have "i mod 8 < 8" by simp
  then have push: "bit (push_bit (i mod 8) (1 :: 8 word)) m \<longleftrightarrow> m = i mod 8"
    using assms(3) by (auto simp: bit_simps)
  have idx: "i = 8 * (3 - k) + m \<longleftrightarrow> k = 3 - i div 8 \<and> m = i mod 8"
  proof
    assume i: "i = 8 * (3 - k) + m"
    then have "i div 8 = 3 - k" "i mod 8 = m" using assms(3) by simp_all
    then show "k = 3 - i div 8 \<and> m = i mod 8" using assms(2) by simp
  next
    assume r: "k = 3 - i div 8 \<and> m = i mod 8"
    have "i div 8 < 4" using assms(4) by simp
    then have "3 - k = i div 8" using r by simp
    then show "i = 8 * (3 - k) + m" using r by simp
  qed
  show ?thesis
  proof (cases "k = 3 - i div 8")
    case True
    then have "set_host_bit i bs ! k = bs ! k OR push_bit (i mod 8) 1"
      using assms(1,2) by (simp add: set_host_bit_def Let_def)
    then show ?thesis using True push idx by (auto simp: bit_or_iff)
  next
    case False
    then have "set_host_bit i bs ! k = bs ! k"
      by (simp add: set_host_bit_def Let_def)
    then show ?thesis using False idx by auto
  qed
qed

lemma bit_fold_host_bits:
  assumes "length bs = 4" "k < 4" "m < 8" "h \<le> 32"
  shows "bit (fold set_host_bit [0..<h] bs ! k) m \<longleftrightarrow> bit (bs ! k) m \<or> 8 * (3 - k) + m < h"
  using assms(4)
proof (induction h)
  case (Suc h)
  then show ?case
    using assms by (auto simp: bit_set_host_bit)
qed simp

definition net_word :: "32 word \<Rightarrow> nat \<Rightarrow> 32 word" where
  "net_word a bits = push_bit (32 - bits) (drop_bit (32 - bits) a)"

definition bcast_word :: "32 word \<Rightarrow> nat \<Rightarrow> 32 word" where
  "bcast_word a bits = net_word a bits OR mask (32 - bits)"

lemma last_addr_eq:
  assumes "pfx_ip p = V4 a"
  shows "last_addr p = V4 (bcast_word a (pfx_bits p))"
proof -
  let ?m = "net_word a (pfx_bits p)" and ?h = "32 - pfx_bits p"
  have "from4 (fold set_host_bit [0..<?h] (as4 ?m)) = ?m OR mask ?h"
  proof (rule bit_word_eqI)
    fix n assume "n < LENGTH(32)"
    then have n: "n < 32" by simp
    then have k: "3 - n div 8 < 4" "n mod 8 < 8" by auto
    have q: "n div 8 \<le> 3" using n by simp
    then have "8 * (3 - (3 - n div 8)) = 8 * (n div 8)" "24 - 8 * (3 - n div 8) = 8 * (n div 8)"
      by simp_all
    then have e: "8 * (3 - (3 - n div 8)) + n mod 8 = n" "24 - 8 * (3 - n div 8) + n mod 8 = n"
      by (metis mult_div_mod_eq)+
    show "bit (from4 (fold set_host_bit [0..<?h] (as4 ?m))) n = bit (?m OR mask ?h) n"
      using n k by (simp add: bit_from4 bit_fold_host_bits bit_as4 e bit_or_iff bit_mask_iff)
  qed
  then show ?thesis
    using assms by (simp add: last_addr_def masked_addr_def net_word_def bcast_word_def)
qed

lemma unat_net_word: "unat (net_word a bits) = unat a div 2 ^ (32 - bits) * 2 ^ (32 - bits)"
proof -
  let ?h = "32 - bits"
  have a32: "unat a < 2 ^ 32" by (rule unat32_lt)
  then have "unat a div 2 ^ ?h * 2 ^ ?h < 2 ^ 32"
    by (meson div_times_less_eq_dividend le_less_trans)
  moreover have "unat (net_word a bits) = take_bit 32 (push_bit ?h (drop_bit ?h (unat a)))"
  proof -
    have "take_bit 32 (unat a) = unat a"
      using a32 by (simp add: take_bit_eq_mod)
    then show ?thesis
      unfolding net_word_def unsigned_push_bit_eq unsigned_drop_bit_eq
      by (simp add: take_bit_push_bit)
  qed
  ultimately show ?thesis
    by (simp add: take_bit_eq_mod push_bit_eq_mult drop_bit_eq_div)
qed

lemma unat_bcast_word: "unat (bcast_word a bits) = unat (net_word a bits) + (2 ^ (32 - bits) - 1)"
proof -
  let ?h = "32 - bits"
  have "unat (mask ?h :: 32 word) = mask ?h"
    by (rule bit_eqI) (auto simp: bit_simps)
  then have "unat (bcast_word a bits) = unat (net_word a bits) OR mask ?h"
    by (simp add: bcast_word_def unsigned_or_eq)
  also have "\<dots> = unat (net_word a bits) + mask ?h"
    by (rule disjunctive_add_eq_or [symmetric])
      (auto simp: bit_eq_iff bit_simps net_word_def)
  finally show ?thesis by (simp add: mask_eq_exp_minus_1)
qed

section \<open>The search loop\<close>

text \<open>The host addresses of a prefix, lowest first, as texts: the reference for the search.\<close>

definition host_texts :: "32 word \<Rightarrow> nat \<Rightarrow> string list" where
  "host_texts a bits = map (\<lambda>n. v4_string (word_of_nat n))
     [Suc (unat (net_word a bits))..<unat (bcast_word a bits)]"

definition first_free :: "string list \<Rightarrow> string list \<Rightarrow> string list \<Rightarrow> alloc_error + string" where
  "first_free hosts taken reserved =
    (case List.find (\<lambda>k. k \<notin> set taken \<and> k \<notin> set reserved) hosts of
       None \<Rightarrow> Inl ErrSubnetExhausted | Some k \<Rightarrow> Inr k)"

lemma first_free_Cons:
  "first_free (k # ks) taken reserved =
    (if k \<in> set taken \<or> k \<in> set reserved then first_free ks taken reserved else Inr k)"
  by (simp add: first_free_def)

lemma V4_next_below:
  "c < b \<Longrightarrow> addr_next (V4 c) = V4 (c + 1) \<and> unat (c + 1) = Suc (unat c)"
proof -
  assume "c < (b :: 32 word)"
  then have "unat c < unat b" "unat b < 2 ^ 32"
    using unat32_lt [of b] by (simp_all add: word_less_nat_alt)
  then have "unat (c + 1) = Suc (unat c)" by (simp add: unat_word_ariths)
  moreover from this have "c + 1 \<noteq> 0" by (metis nat.simps(3) unsigned_0)
  ultimately show ?thesis by simp
qed

lemma alloc_loop_first_free:
  "alloc_loop (V4 c) (V4 b) taken reserved =
    Some (first_free (map (\<lambda>n. v4_string (word_of_nat n)) [unat c..<unat b]) taken reserved)"
proof (induction "unat b - unat c" arbitrary: c)
  case 0
  then show ?case
    by (subst alloc_loop.simps) (simp add: word_less_nat_alt first_free_def)
next
  case (Suc d)
  then have lt: "c < b" by (simp add: word_less_nat_alt)
  note nx = V4_next_below [OF lt]
  have "alloc_loop (V4 (c + 1)) (V4 b) taken reserved = Some (first_free
      (map (\<lambda>n. v4_string (word_of_nat n)) [unat (c + 1)..<unat b]) taken reserved)"
    using Suc.hyps(2) nx by (intro Suc.hyps(1)) simp
  moreover have "[unat c..<unat b] = unat c # [unat (c + 1)..<unat b]"
    using lt nx by (simp add: word_less_nat_alt upt_conv_Cons)
  ultimately show ?case
    using lt nx by (subst alloc_loop.simps) (simp add: Let_def first_free_Cons)
qed

lemma net_word_top:
  assumes "bits \<le> 32" "net_word a bits = - 1"
  shows "bits = 32 \<and> a = - 1"
proof -
  have "bits = 32"
  proof (rule ccontr)
    assume "bits \<noteq> 32"
    then have "\<not> bit (net_word a bits) 0"
      using assms(1) by (simp add: net_word_def bit_push_bit_iff)
    then show False using assms(2) by simp
  qed
  then show ?thesis using assms(2) by (simp add: net_word_def)
qed

lemma net_succ:
  assumes "bits \<le> 32" "\<not> (bits = 32 \<and> a = - 1)"
  shows "addr_next (V4 (net_word a bits)) = V4 (net_word a bits + 1) \<and>
    unat (net_word a bits + 1) = Suc (unat (net_word a bits))"
proof -
  have "net_word a bits \<noteq> - 1" using net_word_top [OF assms(1)] assms(2) by blast
  then have "net_word a bits + 1 \<noteq> 0" by (metis eq_neg_iff_add_eq_0)
  then show ?thesis
    using unatSuc [of "net_word a bits"] by (simp add: add.commute)
qed

lemma parse_prefix_bits:
  "parse_prefix s = Some p \<Longrightarrow> pfx_bits p \<le> (if is_v6 (pfx_ip p) then 128 else 32)"
  by (auto simp: parse_prefix_def Let_def split: option.splits prod.splits if_splits)

lemma allocate_eq:
  assumes "parse_prefix cidr = Some p" and "pfx_ip p = V4 a"
    and "\<not> (pfx_bits p = 32 \<and> a = - 1)" and "reserved_set reserved = Inr rs"
  shows "allocate cidr taken reserved = Some (first_free (host_texts a (pfx_bits p)) taken rs)"
proof -
  have b: "pfx_bits p \<le> 32" using parse_prefix_bits [OF assms(1)] assms(2) by (simp add: is_v6_def)
  have "masked_addr p = V4 (net_word a (pfx_bits p))"
    using assms(2) by (simp add: masked_addr_def net_word_def)
  then show ?thesis
    using assms net_succ [OF b assms(3)] last_addr_eq [OF assms(2)]
    by (simp add: allocate_def is_v4_def alloc_loop_first_free host_texts_def)
qed

lemma first_free_Inr:
  "first_free hosts taken reserved = Inr k \<Longrightarrow>
    k \<in> set hosts \<and> k \<notin> set taken \<and> k \<notin> set reserved"
  by (auto simp: first_free_def split: option.splits dest: find_SomeD)

lemma first_free_Inl:
  "first_free hosts taken reserved = Inl e \<longleftrightarrow>
    e = ErrSubnetExhausted \<and> set hosts \<subseteq> set taken \<union> set reserved"
  by (auto simp: first_free_def find_None_all split: option.splits dest: find_SomeD)

lemma drop_bit_xor_same:
  "drop_bit n (a :: 32 word) = drop_bit n b \<Longrightarrow> drop_bit n (a XOR b) = 0"
  by (simp add: drop_bit_xor)

lemma host_texts_in_net:
  assumes "k \<in> set (host_texts a bits)"
  shows "\<exists>c. k = v4_string c \<and> drop_bit (32 - bits) (a XOR c) = 0"
proof -
  let ?h = "32 - bits"
  from assms obtain n where "n \<in> {Suc (unat (net_word a bits))..<unat (bcast_word a bits)}"
    and k: "k = v4_string (word_of_nat n)"
    unfolding host_texts_def set_map set_upt by blast
  then have n: "unat (net_word a bits) < n" "n < unat (bcast_word a bits)" by simp_all
  let ?c = "word_of_nat n :: 32 word"
  have "n < 2 ^ 32" using n(2) unat32_lt [of "bcast_word a bits"] by simp
  then have un: "unat ?c = n" by (simp add: unat_of_nat take_bit_nat_eq_self)
  have pos: "(0::nat) < 2 ^ ?h" by simp
  have "unat a div 2 ^ ?h * 2 ^ ?h \<le> n" "n < Suc (unat a div 2 ^ ?h) * 2 ^ ?h"
    using n pos unfolding unat_bcast_word unat_net_word by simp_all
  then have "n div 2 ^ ?h = unat a div 2 ^ ?h" by (intro div_nat_eqI) (simp_all add: mult.commute)
  then have "drop_bit ?h (unat ?c) = drop_bit ?h (unat a)"
    using un by (simp add: drop_bit_eq_div)
  then have "unat (drop_bit ?h ?c) = unat (drop_bit ?h a)"
    using un \<open>n < 2 ^ 32\<close> unat32_lt [of a]
    by (simp only: unsigned_drop_bit_eq take_bit_nat_eq_self) (simp add: take_bit_nat_eq_self)
  then have "drop_bit ?h ?c = drop_bit ?h a" by (rule unsigned_word_eqI)
  then show ?thesis using k drop_bit_xor_same [of ?h a ?c] by metis
qed

lemma host_text_is_in_prefix:
  assumes "parse_prefix cidr = Some p" "pfx_ip p = V4 a" "k \<in> set (host_texts a (pfx_bits p))"
  shows "is_in_prefix cidr k = Inr True"
  using host_texts_in_net [OF assms(3)] assms(1,2)
  by (auto simp: is_in_prefix_def pfx_contains_def)

section \<open>Properties\<close>

text \<open>
  C28: \<open>Allocate\<close> returns the lowest free host address of an IPv4 prefix: the bit-by-bit
  \<open>lastAddr\<close> and the address-by-address search compute the first address strictly
  between the network and the broadcast address whose text is neither taken nor reserved,
  and \<open>ErrSubnetExhausted\<close> when there is none; the search always returns. The one prefix
  excluded is 255.255.255.255/32, whose network address has no successor.
\<close>

theorem allocate_lowest_free:
  assumes "parse_prefix cidr = Some p" and "pfx_ip p = V4 a"
    and "\<not> (pfx_bits p = 32 \<and> a = - 1)" and "reserved_set reserved = Inr rs"
  shows "allocate cidr taken reserved = Some (first_free (host_texts a (pfx_bits p)) taken rs)"
  using assms by (rule allocate_eq)

lemma prefix_10_6_0_0_29:
  "parse_prefix ''10.6.0.0/29'' = Some \<lparr>pfx_ip = V4 0x0A060000, pfx_bits = 29\<rparr>"
  by (simp add: addr_eval)

lemma reserved_10_6_0_1: "reserved_set [''10.6.0.1''] = Inr [''10.6.0.1'']"
  by (simp add: addr_eval addr_text_eval)

lemma hosts_10_6_0_0_29:
  "host_texts 0x0A060000 29 =
    [''10.6.0.1'', ''10.6.0.2'', ''10.6.0.3'', ''10.6.0.4'', ''10.6.0.5'', ''10.6.0.6'']"
  by (simp add: host_texts_def net_word_def bcast_word_def mask_eq_exp_minus_1 upt_rec
      addr_text_eval)

theorem allocate_lowest_free_witness:
  "allocate ''10.6.0.0/29'' [''10.6.0.2''] [''10.6.0.1''] = Some (Inr ''10.6.0.3'')"
  using allocate_lowest_free [OF prefix_10_6_0_0_29 _ _ reserved_10_6_0_1]
  by (simp add: hosts_10_6_0_0_29 first_free_def)

text \<open>
  An address that \<open>Allocate\<close> returns is fresh and usable: it is neither taken nor
  reserved, it is the canonical text of an IPv4 address, and \<open>IsInPrefix\<close> accepts it for
  the same prefix.
\<close>

theorem allocate_sound:
  assumes "parse_prefix cidr = Some p" and "pfx_ip p = V4 a"
    and "\<not> (pfx_bits p = 32 \<and> a = - 1)" and "reserved_set reserved = Inr rs"
    and "allocate cidr taken reserved = Some (Inr k)"
  shows "k \<notin> set taken \<and> k \<notin> set rs \<and> is_in_prefix cidr k = Inr True
    \<and> (\<exists>c. k = addr_string (V4 c) \<and> parse_addr k = Some (V4 c))"
proof -
  have f: "first_free (host_texts a (pfx_bits p)) taken rs = Inr k"
    using allocate_eq [OF assms(1-4), of taken] assms(5) by simp
  note k = first_free_Inr [OF f]
  obtain c where "k = v4_string c" using host_texts_in_net k by blast
  then show ?thesis
    using k host_text_is_in_prefix [OF assms(1,2)] by simp
qed

theorem allocate_sound_witness:
  "''10.6.0.3'' \<notin> set [''10.6.0.2''] \<and> is_in_prefix ''10.6.0.0/29'' ''10.6.0.3'' = Inr True"
proof -
  have "allocate ''10.6.0.0/29'' [''10.6.0.2''] [''10.6.0.1''] = Some (Inr ''10.6.0.3'')"
    using allocate_eq [OF prefix_10_6_0_0_29 _ _ reserved_10_6_0_1]
    by (simp add: hosts_10_6_0_0_29 first_free_def)
  then show ?thesis
    using allocate_sound [OF prefix_10_6_0_0_29 _ _ reserved_10_6_0_1] by simp
qed

text \<open>
  \<open>Allocate\<close> reports \<open>ErrSubnetExhausted\<close> exactly when every host address of the
  prefix is taken or reserved.
\<close>

theorem allocate_exhausted_iff:
  assumes "parse_prefix cidr = Some p" and "pfx_ip p = V4 a"
    and "\<not> (pfx_bits p = 32 \<and> a = - 1)" and "reserved_set reserved = Inr rs"
  shows "allocate cidr taken reserved = Some (Inl ErrSubnetExhausted) \<longleftrightarrow>
    set (host_texts a (pfx_bits p)) \<subseteq> set taken \<union> set rs"
  using allocate_eq [OF assms, of taken] by (simp add: first_free_Inl)

theorem allocate_exhausted_iff_witness:
  "allocate ''10.6.0.0/29'' [''10.6.0.2'', ''10.6.0.3'', ''10.6.0.4'', ''10.6.0.5'', ''10.6.0.6'']
     [''10.6.0.1''] = Some (Inl ErrSubnetExhausted)"
  using allocate_exhausted_iff [OF prefix_10_6_0_0_29 _ _ reserved_10_6_0_1]
  by (simp add: hosts_10_6_0_0_29)

lemma alloc_loop_invalid_stuck:
  assumes "alloc_loop c b t r = Some y"
  shows "is_Invalid c \<longrightarrow> is_v4 b \<longrightarrow> ''invalid IP'' \<notin> set t"
  using assms
proof (induction c b t r y rule: alloc_loop.raw_induct)
  case (1 loop c b t r y)
  show ?case
  proof (intro impI notI)
    assume c: "is_Invalid c" and b: "is_v4 b" and t: "''invalid IP'' \<in> set t"
    from c b obtain x bw where x: "c = Invalid x" "b = V4 bw"
      by (auto simp: is_Invalid_def is_v4_def split: addr.splits)
    with 1(2) t have "loop (Invalid (x + 1)) b t r = Some y" by (simp add: Let_def)
    moreover have "alloc_loop (Invalid (x + 1)) b t r = Some y"
      using 1(3) x t by (subst (asm) alloc_loop.simps) (simp add: Let_def)
    ultimately show False using 1(1) b t by (auto simp: is_Invalid_def)
  qed
qed (rule assms)

text \<open>
  At the excluded prefix the search misbehaves: \<open>Allocate\<close> hands out the text
  \<open>invalid IP\<close>, and once that text is taken it never returns.
\<close>

theorem allocate_last_address_broken:
  "allocate ''255.255.255.255/32'' [] [] = Some (Inr ''invalid IP'')
    \<and> allocate ''255.255.255.255/32'' [''invalid IP''] [] = None"
proof -
  have p: "parse_prefix ''255.255.255.255/32'' = Some \<lparr>pfx_ip = V4 0xFFFFFFFF, pfx_bits = 32\<rparr>"
    by (simp add: addr_eval)
  have l: "last_addr \<lparr>pfx_ip = V4 0xFFFFFFFF, pfx_bits = 32\<rparr> = V4 0xFFFFFFFF"
    by (simp add: last_addr_eq bcast_word_def net_word_def)
  have m: "addr_next (masked_addr \<lparr>pfx_ip = V4 0xFFFFFFFF, pfx_bits = 32\<rparr>) = Invalid 0"
    by (simp add: masked_addr_def)
  have "allocate ''255.255.255.255/32'' [] [] = Some (Inr ''invalid IP'')"
    by (simp add: allocate_def p l m is_v4_def alloc_loop.simps [of "Invalid 0"])
  moreover have "alloc_loop (Invalid 0) (V4 0xFFFFFFFF) [''invalid IP''] [] = None"
  proof (cases "alloc_loop (Invalid 0) (V4 0xFFFFFFFF) [''invalid IP''] []")
    case (Some y)
    then show ?thesis
      using alloc_loop_invalid_stuck [OF Some] by (simp add: is_Invalid_def is_v4_def)
  qed
  then have "allocate ''255.255.255.255/32'' [''invalid IP''] [] = None"
    by (simp add: allocate_def p l m is_v4_def)
  ultimately show ?thesis by simp
qed

end
