(* ===== verification/Relay.thy ===== *)
theory Relay
  imports PolicyCheck Ipalloc
begin

text \<open>
  \<open>daemon/wg/relay.go\<close> and the packet path of \<open>daemon/wg/netstack.go\<close>: what happens to a packet
  that a WireGuard peer sent. A packet is a list of bytes.
\<close>

section \<open>Model\<close>

type_synonym packet = "8 word list"

definition from_slice :: "8 word list \<Rightarrow> addr option" where
  "from_slice bs = (if length bs = 4 then Some (V4 (from4 bs)) else None)"

definition parseIPv4 :: "packet \<Rightarrow> (addr \<times> addr) option" where
  "parseIPv4 p = (if length p < 20 then None
     else case (from_slice (take 4 (drop 12 p)), from_slice (take 4 (drop 16 p))) of
       (Some src, Some dst) \<Rightarrow> Some (unmap src, unmap dst)
     | _ \<Rightarrow> None)"

record relay =
  rl_daemon :: addr
  rl_client :: pfx

definition NewRelay :: "string \<Rightarrow> string \<Rightarrow> relay option" where
  "NewRelay clientSubnet daemonIP = (case parse_prefix clientSubnet of None \<Rightarrow> None
     | Some p \<Rightarrow> map_option (\<lambda>a. \<lparr>rl_daemon = a, rl_client = p\<rparr>) (parse_addr daemonIP))"

text \<open>\<open>Handle\<close> returns whether it took the packet, and the packets it passed on to \<open>Inject\<close>.\<close>

definition version_nibble :: "packet \<Rightarrow> nat" where
  "version_nibble p = unat (drop_bit 4 (p ! 0))"

definition Handle :: "relay \<Rightarrow> index \<Rightarrow> packet \<Rightarrow> bool \<times> packet list" where
  "Handle rl idx p =
    (if length p < 20 then (False, [])
     else if version_nibble p \<noteq> 4 then (False, [])
     else case parseIPv4 p of None \<Rightarrow> (False, [])
     | Some (src, dst) \<Rightarrow>
        if dst = rl_daemon rl then (False, [])
        else if \<not> pfx_contains (rl_client rl) dst then (False, [])
        else if src = dst then (True, [])
        else if map_of (PeerByIP idx) (addr_string dst) = None then (True, [])
        else if fst (CheckPeer idx (addr_string src) (addr_string dst)) \<noteq> Allow then (True, [])
        else (True, [p]))"

text \<open>\<open>netDevice.Write\<close>: each non-empty packet goes to the relay hook, and to the local stack when
  the hook does not take it, by its version. Slicing beyond a buffer panics (\<open>None\<close>).\<close>

datatype write_event = Relayed packet | ToStack4 packet | ToStack6 packet | NoProtocol packet

definition write_packet :: "(packet \<Rightarrow> bool \<times> packet list) option \<Rightarrow> packet \<Rightarrow> write_event list" where
  "write_packet hook p = (let (taken, out) = (case hook of None \<Rightarrow> (False, []) | Some h \<Rightarrow> h p) in
     if taken then map Relayed out
     else map Relayed out @ [if version_nibble p = 4 then ToStack4 p
       else if version_nibble p = 6 then ToStack6 p else NoProtocol p])"

fun nd_Write :: "(packet \<Rightarrow> bool \<times> packet list) option \<Rightarrow> nat \<Rightarrow> packet list \<Rightarrow> write_event list option" where
  "nd_Write hook offset [] = Some []"
| "nd_Write hook offset (b # bs) =
    (if offset > length b then None
     else let p = drop offset b in
       if p = [] then nd_Write hook offset bs
       else map_option (\<lambda>evs. write_packet hook p @ evs) (nd_Write hook offset bs))"

section \<open>Lemmas\<close>

lemma parseIPv4_Some: "20 \<le> length p \<Longrightarrow>
    parseIPv4 p = Some (V4 (from4 (take 4 (drop 12 p))), V4 (from4 (take 4 (drop 16 p))))"
  by (simp add: parseIPv4_def from_slice_def unmap_def is_4in6_def)

definition packet_src :: "packet \<Rightarrow> addr" where
  "packet_src p = V4 (from4 (take 4 (drop 12 p)))"

definition packet_dst :: "packet \<Rightarrow> addr" where
  "packet_dst p = V4 (from4 (take 4 (drop 16 p)))"

definition client_bound :: "relay \<Rightarrow> packet \<Rightarrow> bool" where
  "client_bound rl p \<longleftrightarrow> 20 \<le> length p \<and> version_nibble p = 4
     \<and> packet_dst p \<noteq> rl_daemon rl \<and> pfx_contains (rl_client rl) (packet_dst p)"

lemma CheckPeer_peer: "fst (CheckPeer idx a b) = Allow \<Longrightarrow> map_of (PeerByIP idx) b \<noteq> None"
  by (auto simp: CheckPeer_def split: option.splits)

lemma Handle_cases:
  "Handle rl idx p = (client_bound rl p,
     if client_bound rl p \<and> packet_src p \<noteq> packet_dst p
        \<and> fst (CheckPeer idx (addr_string (packet_src p)) (addr_string (packet_dst p))) = Allow
     then [p] else [])"
  using CheckPeer_peer [of idx "addr_string (packet_src p)" "addr_string (packet_dst p)"]
  by (auto simp: Handle_def parseIPv4_Some client_bound_def packet_src_def packet_dst_def not_less)

section \<open>Properties\<close>

text \<open>
  C37: traffic between clients passes exactly where policy allows it. With the index built from a
  well-formed database, the relay takes a packet exactly when it is IPv4, at least 20 bytes long
  and bound for the client subnet but not for the daemon; of these it passes on, unchanged and
  once, exactly those whose source and destination are different addresses of users that may
  reach each other; every other one it drops. A packet in the client subnet never gets to the
  local stack, whatever its source.
\<close>

theorem relay_policy:
  assumes "db_wf d" and "Build ev d = Inr idx"
  shows "Handle rl idx p = (client_bound rl p,
      if client_bound rl p \<and> packet_src p \<noteq> packet_dst p
         \<and> peer_access d (addr_string (packet_src p)) (addr_string (packet_dst p))
      then [p] else [])
    \<and> (client_bound rl p \<longrightarrow> set (write_packet (Some (Handle rl idx)) p) \<subseteq> {Relayed p})"
  using CheckPeer_access [OF assms(1) Build_index_of [OF assms]]
  by (auto simp: Handle_cases write_packet_def)

definition w_packet :: packet where
  "w_packet = [0x45, 0, 0, 20, 0, 0, 0, 0, 64, 17, 0, 0, 10, 6, 0, 2, 10, 6, 0, 3]"

theorem relay_policy_witness:
  "\<exists>idx rl. Build quiet_env w_db = Inr idx \<and> NewRelay ''10.6.0.0/24'' ''10.6.0.1'' = Some rl
    \<and> Handle rl idx w_packet = (True, [])"
proof -
  obtain idx where b: "Build quiet_env w_db = Inr idx" using w_build by blast
  let ?rl = "\<lparr>rl_daemon = V4 0x0A060001, rl_client = \<lparr>pfx_ip = V4 0x0A060000, pfx_bits = 24\<rparr>\<rparr>"
  have r: "NewRelay ''10.6.0.0/24'' ''10.6.0.1'' = Some ?rl"
    by (simp add: NewRelay_def addr_eval)
  have p: "packet_src w_packet = V4 0x0A060002" "packet_dst w_packet = V4 0x0A060003"
    by (simp_all add: packet_src_def packet_dst_def w_packet_def from4_def)
  have n: "\<not> peer_access w_db (addr_string (V4 0x0A060002)) (addr_string (V4 0x0A060003))"
    by (simp add: peer_access_def w_db_def w_user_def empty_db_def rules_allow_def decides_def
        applies_def w_rule_def user_refs_def share_lan_def)
  have c: "client_bound ?rl w_packet"
    by (simp add: client_bound_def p pfx_contains_def) (simp add: w_packet_def version_nibble_def)
  show ?thesis using relay_policy [OF w_db_wf b, of ?rl w_packet] b r c n by (simp add: p)
qed

end
