(* ===== verification/Netstack.thy ===== *)
theory Netstack
  imports Relay "HOL-Library.Multiset"
begin

text \<open>
  The queue between the user-space network stack and the WireGuard device in
  \<open>daemon/wg/netstack.go\<close>: \<open>enqueue\<close> (called by \<open>WriteNotify\<close> and \<open>Inject\<close>) hands a packet to
  \<open>Read\<close> over an unbuffered channel, and \<open>Close\<close> releases whoever waits. Each select and each
  locked section is one step; the stack behind it is not modelled.
\<close>

section \<open>Model\<close>

text \<open>\<open>q_waiting\<close>: packets whose sender is blocked in the second select of \<open>enqueue\<close>.\<close>

record nd_state =
  q_closed :: bool
  q_done :: bool
  q_waiting :: "packet multiset"
  q_delivered :: "packet multiset"
  q_dropped :: "packet multiset"

definition newNetDevice :: nd_state where
  "newNetDevice = \<lparr>q_closed = False, q_done = False, q_waiting = {#}, q_delivered = {#}, q_dropped = {#}\<rparr>"

datatype nd_event = Enqueue packet | Deliver packet | Release packet | CloseBegin | CloseAgain | CloseDone
  | ReadClosed

text \<open>What the code does at each event, \<open>None\<close> where it cannot happen.\<close>

definition enqueue_start :: "packet \<Rightarrow> nd_state \<Rightarrow> nd_state" where
  "enqueue_start p s = (if q_done s then s\<lparr>q_dropped := add_mset p (q_dropped s)\<rparr>
     else s\<lparr>q_waiting := add_mset p (q_waiting s)\<rparr>)"

definition read_packet :: "packet \<Rightarrow> nd_state \<Rightarrow> nd_state option" where
  "read_packet p s = (if p \<in># q_waiting s
     then Some (s\<lparr>q_waiting := q_waiting s - {#p#}, q_delivered := add_mset p (q_delivered s)\<rparr>) else None)"

definition enqueue_release :: "packet \<Rightarrow> nd_state \<Rightarrow> nd_state option" where
  "enqueue_release p s = (if q_done s \<and> p \<in># q_waiting s
     then Some (s\<lparr>q_waiting := q_waiting s - {#p#}, q_dropped := add_mset p (q_dropped s)\<rparr>) else None)"

text \<open>\<open>Close\<close>: the locked test of \<open>closed\<close>, and, once the stack is down, \<open>close(done)\<close>.\<close>

definition close_begin :: "nd_state \<Rightarrow> nd_state" where
  "close_begin s = s\<lparr>q_closed := True\<rparr>"

definition close_done :: "nd_state \<Rightarrow> nd_state" where
  "close_done s = s\<lparr>q_done := True\<rparr>"

inductive nd_step :: "nd_state \<Rightarrow> nd_event \<Rightarrow> nd_state \<Rightarrow> bool" where
  enqueue: "nd_step s (Enqueue p) (enqueue_start p s)"
| deliver: "read_packet p s = Some s' \<Longrightarrow> nd_step s (Deliver p) s'"
| release: "enqueue_release p s = Some s' \<Longrightarrow> nd_step s (Release p) s'"
| close: "\<not> q_closed s \<Longrightarrow> nd_step s CloseBegin (close_begin s)"
| close_again: "q_closed s \<Longrightarrow> nd_step s CloseAgain s"
| closed: "\<lbrakk>q_closed s; \<not> q_done s\<rbrakk> \<Longrightarrow> nd_step s CloseDone (close_done s)"
| read_closed: "q_done s \<Longrightarrow> nd_step s ReadClosed s"

inductive_cases nd_stepE: "nd_step s e s'"

inductive nd_run :: "nd_state \<Rightarrow> nd_event list \<Rightarrow> nd_state \<Rightarrow> bool" for s where
  start: "nd_run s [] s"
| extend: "\<lbrakk>nd_run s evs s'; nd_step s' e s''\<rbrakk> \<Longrightarrow> nd_run s (evs @ [e]) s''"

code_pred nd_run .

section \<open>Lemmas\<close>

named_theorems nd_defs
lemmas [nd_defs] = enqueue_start_def read_packet_def enqueue_release_def close_begin_def close_done_def

fun enqueued :: "nd_event list \<Rightarrow> packet multiset" where
  "enqueued [] = {#}"
| "enqueued (Enqueue p # es) = add_mset p (enqueued es)"
| "enqueued (_ # es) = enqueued es"

lemma enqueued_append: "enqueued (xs @ ys) = enqueued xs + enqueued ys"
  by (induction xs rule: enqueued.induct) auto

fun releases :: "nd_event list \<Rightarrow> nat" where
  "releases [] = 0"
| "releases (Deliver p # es) = Suc (releases es)"
| "releases (Release p # es) = Suc (releases es)"
| "releases (_ # es) = releases es"

lemma releases_append: "releases (xs @ ys) = releases xs + releases ys"
  by (induction xs rule: releases.induct) auto

lemma run_conserves:
  "nd_run s evs s' \<Longrightarrow> q_waiting s' + q_delivered s' + q_dropped s' =
     q_waiting s + q_delivered s + q_dropped s + enqueued evs"
proof (induction rule: nd_run.induct)
  case (extend evs s' e s'')
  from extend.hyps(2) have "q_waiting s'' + q_delivered s'' + q_dropped s'' =
      q_waiting s' + q_delivered s' + q_dropped s' + enqueued [e]"
    by (cases rule: nd_step.cases) (auto simp: nd_defs split: if_splits)
  then show ?case using extend.IH by (simp add: enqueued_append add.assoc)
qed simp

lemma run_closed:
  "nd_run newNetDevice evs s \<Longrightarrow>
    (q_done s \<longrightarrow> q_closed s) \<and> (\<not> q_done s \<longrightarrow> CloseDone \<notin> set evs \<and> q_dropped s = {#})
    \<and> count_list evs CloseDone \<le> 1 \<and> (q_done s \<longleftrightarrow> CloseDone \<in> set evs)"
proof (induction evs s rule: nd_run.induct)
  case start
  then show ?case by (simp add: newNetDevice_def)
next
  case (extend evs s' e s'')
  from extend.hyps(2) extend.IH show ?case
    by (cases rule: nd_step.cases) (auto simp: nd_defs count_list_0_iff split: if_splits)
qed

lemma step_done: "\<lbrakk>nd_step s e s'; q_done s\<rbrakk> \<Longrightarrow>
    q_done s' \<and> size (q_waiting s') + releases [e] = size (q_waiting s)"
  by (cases rule: nd_step.cases, assumption) (auto simp: nd_defs size_Suc_Diff1 split: if_splits)

lemma run_done:
  "\<lbrakk>nd_run s evs s'; q_done s\<rbrakk> \<Longrightarrow> q_done s' \<and> size (q_waiting s') + releases evs = size (q_waiting s)"
proof (induction rule: nd_run.induct)
  case (extend evs s' e s'')
  with step_done [OF extend.hyps(2)] show ?case by (simp add: releases_append)
qed simp

lemma run_trans: "nd_run s' evs' s'' \<Longrightarrow> nd_run s evs s' \<Longrightarrow> nd_run s (evs @ evs') s''"
proof (induction rule: nd_run.induct)
  case (extend evs' s' e s'')
  then show ?case using nd_run.extend [of s "evs @ evs'" s' e s''] by simp
qed simp

section \<open>Properties\<close>



end
