(* ===== verification/Encoding.thy ===== *)
theory Encoding
  imports Prelude "HOL-Library.Word"
begin

text \<open>
  Key texts. The parts of Go's \<open>encoding/hex\<close> and \<open>encoding/base64\<close> that the WireGuard code
  uses (a byte is a \<open>nat\<close> below 256), and with them \<open>daemon/crypto\<close> and the key helpers of
  \<open>daemon/wg/server.go\<close>. \<open>rand.Read\<close> is a parameter (the bytes it delivered, or its
  failure), and so is the curve's scalar multiplication.
\<close>

section \<open>Hexadecimal\<close>

definition nibble_char :: "nat \<Rightarrow> char" where
  "nibble_char d = (if d < 10 then char_of (48 + d) else char_of (87 + d))"

definition nibble_val :: "char \<Rightarrow> nat option" where
  "nibble_val c = (let b = byte_of c in
     if 48 \<le> b \<and> b \<le> 57 then Some (b - 48)
     else if 97 \<le> b \<and> b \<le> 102 then Some (b - 87)
     else if 65 \<le> b \<and> b \<le> 70 then Some (b - 55) else None)"

fun hex_encode :: "nat list \<Rightarrow> string" where
  "hex_encode [] = []"
| "hex_encode (b # bs) = nibble_char (b div 16) # nibble_char (b mod 16) # hex_encode bs"

fun hex_decode :: "string \<Rightarrow> nat list option" where
  "hex_decode [] = Some []"
| "hex_decode [c] = None"
| "hex_decode (c # d # cs) =
     (case (nibble_val c, nibble_val d) of
        (Some h, Some l) \<Rightarrow> map_option (\<lambda>bs. (16 * h + l) # bs) (hex_decode cs)
      | _ \<Rightarrow> None)"

lemma nibble_round [simp]: "d < 16 \<Longrightarrow> nibble_val (nibble_char d) = Some d"
  by (simp add: nibble_val_def nibble_char_def of_char_of Let_def)

lemma hex_decode_encode:
  "list_all (\<lambda>b. b < 256) bs \<Longrightarrow> hex_decode (hex_encode bs) = Some bs"
  by (induction bs) auto

section \<open>Base 64\<close>

definition b64_char :: "nat \<Rightarrow> char" where
  "b64_char v = (if v < 26 then char_of (65 + v) else if v < 52 then char_of (71 + v)
     else if v < 62 then char_of (v - 4) else if v = 62 then CHR ''+'' else CHR ''/'')"

definition b64_val :: "char \<Rightarrow> nat option" where
  "b64_val c = (let b = byte_of c in
     if 65 \<le> b \<and> b \<le> 90 then Some (b - 65)
     else if 97 \<le> b \<and> b \<le> 122 then Some (b - 71)
     else if 48 \<le> b \<and> b \<le> 57 then Some (b + 4)
     else if c = CHR ''+'' then Some 62 else if c = CHR ''/'' then Some 63 else None)"

fun b64_encode :: "nat list \<Rightarrow> string" where
  "b64_encode [] = []"
| "b64_encode [a] = [b64_char (a div 4), b64_char (a mod 4 * 16), CHR ''='', CHR ''='']"
| "b64_encode [a, b] =
     [b64_char (a div 4), b64_char (a mod 4 * 16 + b div 16), b64_char (b mod 16 * 4), CHR ''='']"
| "b64_encode (a # b # c # bs) =
     b64_char (a div 4) # b64_char (a mod 4 * 16 + b div 16)
     # b64_char (b mod 16 * 4 + c div 64) # b64_char (c mod 64) # b64_encode bs"

text \<open>
  Decoding after Go dropped line breaks: quanta of four characters, padding only at the end.
  As in \<open>StdEncoding\<close> (not \<open>Strict\<close>) the unused low bits before the padding are ignored.
\<close>

fun b64_quanta :: "string \<Rightarrow> nat list option" where
  "b64_quanta [] = Some []"
| "b64_quanta (c1 # c2 # c3 # c4 # cs) =
     (case (b64_val c1, b64_val c2) of
        (Some v1, Some v2) \<Rightarrow>
          (if c3 = CHR ''='' then
             (if c4 = CHR ''='' \<and> cs = [] then Some [v1 * 4 + v2 div 16] else None)
           else (case b64_val c3 of None \<Rightarrow> None
             | Some v3 \<Rightarrow>
                (if c4 = CHR ''='' then
                   (if cs = [] then Some [v1 * 4 + v2 div 16, v2 mod 16 * 16 + v3 div 4] else None)
                 else (case b64_val c4 of None \<Rightarrow> None
                   | Some v4 \<Rightarrow> map_option
                       (\<lambda>bs. (v1 * 4 + v2 div 16) # (v2 mod 16 * 16 + v3 div 4)
                         # (v3 mod 4 * 64 + v4) # bs) (b64_quanta cs)))))
      | _ \<Rightarrow> None)"
| "b64_quanta _ = None"

definition b64_decode :: "string \<Rightarrow> nat list option" where
  "b64_decode s = b64_quanta (filter (\<lambda>c. byte_of c \<notin> {10, 13}) s)"

lemma byte_of_b64_char:
  "v < 64 \<Longrightarrow> byte_of (b64_char v) = (if v < 26 then 65 + v else if v < 52 then 71 + v
     else if v < 62 then v - 4 else if v = 62 then 43 else 47)"
  by (simp add: b64_char_def of_char_of)

lemma b64_round [simp]: "v < 64 \<Longrightarrow> b64_val (b64_char v) = Some v"
proof -
  assume v: "v < 64"
  have "b64_char 62 = CHR ''+''" "b64_char 63 = CHR ''/''" by (simp_all add: b64_char_def)
  then show ?thesis
    using v byte_of_b64_char [OF v]
    by (cases "v = 62"; cases "v = 63") (auto simp: b64_val_def Let_def)
qed

lemma b64_char_plain [simp]:
  assumes "v < 64"
  shows "b64_char v \<noteq> CHR ''=''" "byte_of (b64_char v) \<notin> {10, 13}"
proof -
  have "byte_of (b64_char v) \<noteq> 61" "byte_of (b64_char v) \<notin> {10, 13}"
    using byte_of_b64_char [OF assms] assms by auto
  then show "b64_char v \<noteq> CHR ''=''" "byte_of (b64_char v) \<notin> {10, 13}" by auto
qed

text \<open>The sextets of three bytes, and how the bytes come back.\<close>

lemma sextets [simp]:
  assumes "a < 256" "b < 256" "c < (256 :: nat)"
  shows "a div 4 < 64" "a mod 4 * 16 < 64" "a mod 4 * 16 + b div 16 < 64"
    "b mod 16 * 4 < 64" "b mod 16 * 4 + c div 64 < 64" "c mod 64 < 64"
proof -
  have "b div 16 < 16" "c div 64 < 4" "a mod 4 < 4" "b mod 16 < 16" using assms by auto
  then show "a div 4 < 64" "a mod 4 * 16 < 64" "a mod 4 * 16 + b div 16 < 64"
    "b mod 16 * 4 < 64" "b mod 16 * 4 + c div 64 < 64" "c mod 64 < 64"
    using assms by simp_all
qed

lemma sextets_back:
  assumes "a < 256" "b < 256" "c < (256 :: nat)"
  shows "(a mod 4 * 16 + b div 16) div 16 = a mod 4" "(a mod 4 * 16 + b div 16) mod 16 = b div 16"
    "(b mod 16 * 4 + c div 64) div 4 = b mod 16" "(b mod 16 * 4 + c div 64) mod 4 = c div 64"
    "b div 16 mod 16 = b div 16"
proof -
  have "b div 16 < 16" "c div 64 < 4" using assms by auto
  then show "b div 16 mod 16 = b div 16" by simp
  show "(a mod 4 * 16 + b div 16) div 16 = a mod 4"
    "(a mod 4 * 16 + b div 16) mod 16 = b div 16"
    "(b mod 16 * 4 + c div 64) div 4 = b mod 16" "(b mod 16 * 4 + c div 64) mod 4 = c div 64"
    using \<open>b div 16 < 16\<close> \<open>c div 64 < 4\<close> by simp_all
qed

lemma b64_encode_plain:
  "list_all (\<lambda>b. b < 256) bs \<Longrightarrow> \<forall>c\<in>set (b64_encode bs). byte_of c \<notin> {10, 13}"
proof (induction bs rule: b64_encode.induct)
  case (2 a)
  then show ?case using b64_char_plain(2) sextets [of a 0 0] by simp
next
  case (3 a b)
  then show ?case using b64_char_plain(2) sextets [of a b 0] by simp
next
  case (4 a b d bs)
  then show ?case using b64_char_plain(2) sextets [of a b d] by simp
qed simp

lemma b64_no_breaks:
  "list_all (\<lambda>b. b < 256) bs \<Longrightarrow> filter (\<lambda>c. byte_of c \<notin> {10, 13}) (b64_encode bs) = b64_encode bs"
  using b64_encode_plain [of bs] by (intro filter_True) blast

lemma b64_quanta_encode:
  "list_all (\<lambda>b. b < 256) bs \<Longrightarrow> b64_quanta (b64_encode bs) = Some bs"
proof (induction bs rule: b64_encode.induct)
  case (2 a)
  then show ?case using sextets [of a 0 0] by simp
next
  case (3 a b)
  then show ?case using sextets [of a b 0] sextets_back [of a b 0] by simp
next
  case (4 a b c bs)
  then show ?case using sextets [of a b c] sextets_back [of a b c] by simp
qed simp

lemma b64_decode_encode:
  "list_all (\<lambda>b. b < 256) bs \<Longrightarrow> b64_decode (b64_encode bs) = Some bs"
  by (simp only: b64_decode_def b64_no_breaks b64_quanta_encode)

end
