(* ===== verification/Keys.thy ===== *)
theory Keys
  imports Encoding
begin

unbundle bit_operations_syntax

text \<open>
  \<open>daemon/crypto/keys.go\<close>, \<open>daemon/crypto/psk.go\<close> and the key functions of
  \<open>daemon/wg/server.go\<close>. \<open>rand\<close> is what \<open>rand.Read\<close> delivered (\<open>None\<close> when it failed);
  \<open>x25519\<close> is \<open>curve25519.X25519\<close> on the base point.
\<close>

section \<open>Model\<close>

datatype key_error = ErrEntropy | ErrDerive | ErrBadBase64 | ErrKeyLength | ErrBadPrivateKey

record keypair =
  kp_private :: string
  kp_public :: string

text \<open>\<open>priv[0] &= 248; priv[31] &= 127; priv[31] |= 64\<close>.\<close>

definition clamp_key :: "nat list \<Rightarrow> nat list" where
  "clamp_key k = (let k1 = k[0 := k ! 0 AND 248]; k2 = k1[31 := k1 ! 31 AND 127]
     in k2[31 := k2 ! 31 OR 64])"

definition GenerateKeypair ::
  "nat list option \<Rightarrow> (nat list \<Rightarrow> nat list option) \<Rightarrow> key_error + keypair" where
  "GenerateKeypair rand x25519 = (case rand of None \<Rightarrow> Inl ErrEntropy
     | Some bytes \<Rightarrow> let priv = clamp_key bytes in
         (case x25519 priv of None \<Rightarrow> Inl ErrDerive
          | Some pub \<Rightarrow> Inr \<lparr>kp_private = b64_encode priv, kp_public = b64_encode pub\<rparr>))"

definition GeneratePresharedKey :: "nat list option \<Rightarrow> key_error + string" where
  "GeneratePresharedKey rand = (case rand of None \<Rightarrow> Inl ErrEntropy
     | Some psk \<Rightarrow> Inr (b64_encode psk))"

definition base64ToHex :: "string \<Rightarrow> key_error + string" where
  "base64ToHex b = (case b64_decode b of None \<Rightarrow> Inl ErrBadBase64
     | Some raw \<Rightarrow> if length raw \<noteq> 32 then Inl ErrKeyLength else Inr (hex_encode raw))"

definition generatePrivateKey :: "nat list option \<Rightarrow> key_error + string" where
  "generatePrivateKey rand = (case rand of None \<Rightarrow> Inl ErrEntropy
     | Some key \<Rightarrow> Inr (b64_encode (clamp_key key)))"

definition derivePublicKey ::
  "(nat list \<Rightarrow> nat list option) \<Rightarrow> string \<Rightarrow> key_error + nat list" where
  "derivePublicKey x25519 privHex = (case hex_decode privHex of None \<Rightarrow> Inl ErrBadPrivateKey
     | Some priv \<Rightarrow> if length priv \<noteq> 32 then Inl ErrBadPrivateKey
         else (case x25519 priv of None \<Rightarrow> Inl ErrDerive | Some pub \<Rightarrow> Inr pub))"

definition wgGenerateKeypair ::
  "nat list option \<Rightarrow> (nat list \<Rightarrow> nat list option) \<Rightarrow> key_error + string \<times> string" where
  "wgGenerateKeypair rand x25519 =
    bindE (generatePrivateKey rand) (\<lambda>priv.
    bindE (base64ToHex priv) (\<lambda>privHex.
    bindE (derivePublicKey x25519 privHex) (\<lambda>pubBytes. Inr (priv, b64_encode pubBytes))))"

section \<open>Lemmas\<close>

definition key_bytes :: "nat list \<Rightarrow> bool" where
  "key_bytes k \<longleftrightarrow> length k = 32 \<and> list_all (\<lambda>b. b < 256) k"

lemma byte_take_bit: "(b :: nat) < 256 \<longleftrightarrow> take_bit 8 b = b"
  using take_bit_nat_eq_self_iff [of 8 b] by simp

lemma byte_and_or [simp]:
  "(a :: nat) < 256 \<Longrightarrow> b < 256 \<Longrightarrow> a AND b < 256"
  "(a :: nat) < 256 \<Longrightarrow> b < 256 \<Longrightarrow> a OR b < 256"
  by (simp_all only: byte_take_bit take_bit_and take_bit_or)

lemma clamp_key_nth:
  assumes "length k = 32" "i < 32"
  shows "clamp_key k ! i = (if i = 0 then k ! 0 AND 248
     else if i = 31 then (k ! 31 AND 127) OR 64 else k ! i)"
  using assms by (simp add: clamp_key_def Let_def nth_list_update)

lemma clamp_key_length [simp]: "length (clamp_key k) = length k"
  by (simp add: clamp_key_def Let_def)

lemma key_bytes_clamp:
  assumes "key_bytes k"
  shows "key_bytes (clamp_key k)"
proof -
  have k: "length k = 32" "\<And>i. i < 32 \<Longrightarrow> k ! i < 256"
    using assms by (auto simp: key_bytes_def list_all_length)
  have "clamp_key k ! i < 256" if i: "i < 32" for i
  proof -
    have "k ! 0 AND 248 < 256" "(k ! 31 AND 127) OR 64 < 256"
      by (intro byte_and_or k; simp)+
    then show ?thesis using k(2) [OF i] by (simp only: clamp_key_nth [OF k(1) i] split: if_split) blast
  qed
  then show ?thesis using k(1) by (simp add: key_bytes_def list_all_length)
qed

lemma base64ToHex_key: "key_bytes k \<Longrightarrow> base64ToHex (b64_encode k) = Inr (hex_encode k)"
  by (simp add: base64ToHex_def b64_decode_encode key_bytes_def)

lemma derivePublicKey_key:
  "key_bytes k \<Longrightarrow> derivePublicKey x25519 (hex_encode k) =
    (case x25519 k of None \<Rightarrow> Inl ErrDerive | Some pub \<Rightarrow> Inr pub)"
  by (simp add: derivePublicKey_def hex_decode_encode key_bytes_def)

section \<open>Properties\<close>

text \<open>
  A key survives its texts: for 32 key bytes, \<open>base64ToHex\<close> turns the standard base 64
  text into the hexadecimal text that \<open>IpcSet\<close> wants and that decodes to the same bytes,
  and both decoders return the bytes.
\<close>

theorem key_text_roundtrip:
  assumes "length k = 32" and "list_all (\<lambda>b. b < 256) k"
  shows "base64ToHex (b64_encode k) = Inr (hex_encode k)
    \<and> hex_decode (hex_encode k) = Some k \<and> b64_decode (b64_encode k) = Some k"
  using assms base64ToHex_key [of k]
  by (simp add: key_bytes_def hex_decode_encode b64_decode_encode)

theorem key_text_roundtrip_witness:
  "base64ToHex (b64_encode (replicate 32 7)) = Inr (hex_encode (replicate 32 7))"
  using key_text_roundtrip [of "replicate 32 7"] by (simp add: list_all_iff)

text \<open>
  Both key generators clamp as RFC 7748 asks (low three bits and the top bit clear, bit
  254 set) and agree: from the same entropy, the daemon's \<open>wg.GenerateKeypair\<close> and
  \<open>crypto.GenerateKeypair\<close> give the same private and public texts, and the public one is
  what \<open>derivePublicKey\<close> computes from the private one.
\<close>

theorem generators_agree:
  assumes "length bytes = 32" and "list_all (\<lambda>b. b < 256) bytes"
    and "x25519 (clamp_key bytes) = Some pub"
  shows "GenerateKeypair (Some bytes) x25519
        = Inr \<lparr>kp_private = b64_encode (clamp_key bytes), kp_public = b64_encode pub\<rparr>
    \<and> wgGenerateKeypair (Some bytes) x25519 = Inr (b64_encode (clamp_key bytes), b64_encode pub)
    \<and> (\<forall>i<3. \<not> bit (clamp_key bytes ! 0) i)
    \<and> \<not> bit (clamp_key bytes ! 31) 7 \<and> bit (clamp_key bytes ! 31) 6"
proof (intro conjI)
  have kb: "key_bytes (clamp_key bytes)"
    using assms by (intro key_bytes_clamp) (simp add: key_bytes_def)
  show "GenerateKeypair (Some bytes) x25519
        = Inr \<lparr>kp_private = b64_encode (clamp_key bytes), kp_public = b64_encode pub\<rparr>"
    using assms by (simp add: GenerateKeypair_def Let_def)
  show "wgGenerateKeypair (Some bytes) x25519 = Inr (b64_encode (clamp_key bytes), b64_encode pub)"
    using assms kb
    by (simp add: wgGenerateKeypair_def generatePrivateKey_def base64ToHex_key derivePublicKey_key)
  have b: "\<not> bit (248 :: nat) i" if "i < 3" for i
  proof -
    from that have "i = 0 \<or> i = 1 \<or> i = 2" by linarith
    then show ?thesis by (elim disjE) (simp_all add: bit_0 bit_iff_odd)
  qed
  show "\<forall>i<3. \<not> bit (clamp_key bytes ! 0) i"
    using assms(1) b by (simp add: clamp_key_nth bit_and_iff)
  show "\<not> bit (clamp_key bytes ! 31) 7" "bit (clamp_key bytes ! 31) 6"
    using assms(1) by (simp_all add: clamp_key_nth bit_and_iff bit_or_iff bit_0)
qed

theorem generators_agree_witness:
  "wgGenerateKeypair (Some (replicate 32 255)) (\<lambda>k. Some k)
     = Inr (b64_encode (clamp_key (replicate 32 255)), b64_encode (clamp_key (replicate 32 255)))"
  using generators_agree [of "replicate 32 255" "\<lambda>k. Some k" "clamp_key (replicate 32 255)"]
  by (simp add: list_all_iff)

end
