(* ===== verification/Peers.thy ===== *)
theory Peers
  imports PolicyCheck Keys
begin

text \<open>
  \<open>daemon/wg/server.go\<close>: the peers of the WireGuard device. The device itself (package
  wireguard-go) is a parameter: whether it accepts a configuration text (\<open>IpcSet\<close>), comes up, and
  the text of its state (\<open>IpcGet\<close>). Go iterates maps in no fixed order; the model takes the order
  of the lists, and the properties speak of sets. A time is in seconds, \<open>None\<close> the zero time.
\<close>

section \<open>Opening the device\<close>

abbreviation lf :: char where "lf \<equiv> CHR 0x0A"

datatype wg_error = ErrNetstack | ErrKey key_error | ErrIpcSet | ErrDeviceUp | ErrIpcGet

record wg_server =
  sv_public :: string
  sv_private :: string
  sv_port :: int
  sv_peers :: "string list"

definition key_result :: "key_error + 'a \<Rightarrow> wg_error + 'a" where
  "key_result = map_sum ErrKey id"

definition device_config :: "string \<Rightarrow> int \<Rightarrow> string" where
  "device_config privHex port = ''private_key='' @ privHex @ [lf] @ ''listen_port='' @ int_str port @ [lf]"

definition wgOpen ::
  "bool \<Rightarrow> nat list option \<Rightarrow> (nat list \<Rightarrow> nat list option) \<Rightarrow> (string \<Rightarrow> bool) \<Rightarrow> bool \<Rightarrow> string \<Rightarrow> int
    \<Rightarrow> wg_error + wg_server" where
  "wgOpen netstack rand x25519 ipcSet up privateKey port =
    (if \<not> netstack then Inl ErrNetstack
     else bindE (if privateKey = [] then key_result (generatePrivateKey rand) else Inr privateKey) (\<lambda>priv.
       bindE (key_result (base64ToHex priv)) (\<lambda>privHex.
       if \<not> ipcSet (device_config privHex port) then Inl ErrIpcSet
       else if \<not> up then Inl ErrDeviceUp
       else bindE (key_result (derivePublicKey x25519 privHex)) (\<lambda>pub.
         Inr \<lparr>sv_public = b64_encode pub, sv_private = priv, sv_port = port, sv_peers = []\<rparr>))))"

definition PeerCount :: "wg_server \<Rightarrow> nat" where
  "PeerCount s = length (sv_peers s)"

section \<open>Applying an index\<close>

definition want_user :: "(string \<times> user_snapshot) list \<Rightarrow> user_snapshot \<Rightarrow> (string \<times> user_snapshot) list" where
  "want_user m u = (if us_public_key u = [] then m
     else case base64ToHex (us_public_key u) of Inl _ \<Rightarrow> m | Inr hexKey \<Rightarrow> AList.update hexKey u m)"

definition wanted :: "index \<Rightarrow> (string \<times> user_snapshot) list" where
  "wanted idx = foldl want_user [] (map snd (UserByID idx))"

definition remove_text :: "string \<Rightarrow> string" where
  "remove_text hexKey = ''public_key='' @ hexKey @ [lf] @ ''remove=true'' @ [lf]"

text \<open>The text of a new peer, and whether it is recorded: a preshared key that does not decode
  leaves the first line in the text and the peer unrecorded.\<close>

definition add_text :: "string \<times> user_snapshot \<Rightarrow> string \<times> bool" where
  "add_text w = (case w of (hexKey, u) \<Rightarrow>
     let key = ''public_key='' @ hexKey @ [lf]; allowed = ''allowed_ip='' @ us_addr u @ ''/32'' @ [lf] in
     if us_preshared_key u = [] then (key @ allowed, True)
     else case base64ToHex (us_preshared_key u) of Inl _ \<Rightarrow> (key, False)
       | Inr psk \<Rightarrow> (key @ ''preshared_key='' @ psk @ [lf] @ allowed, True))"

definition fresh_peers :: "index \<Rightarrow> string list \<Rightarrow> (string \<times> user_snapshot) list" where
  "fresh_peers idx peers = filter (\<lambda>w. fst w \<notin> set peers) (wanted idx)"

definition peers_text :: "index \<Rightarrow> string list \<Rightarrow> string" where
  "peers_text idx peers =
     concat (map remove_text (filter (\<lambda>k. map_of (wanted idx) k = None) peers))
     @ concat (map (fst \<circ> add_text) (fresh_peers idx peers))"

definition next_peers :: "index \<Rightarrow> string list \<Rightarrow> string list" where
  "next_peers idx peers = filter (\<lambda>k. map_of (wanted idx) k \<noteq> None) peers
     @ map fst (filter (snd \<circ> add_text) (fresh_peers idx peers))"

text \<open>The result, the server, and the text sent to the device, \<open>[]\<close> for none. The peers are
  recorded before the device is asked.\<close>

definition ApplyPeers :: "(string \<Rightarrow> bool) \<Rightarrow> index option \<Rightarrow> wg_server \<Rightarrow> (wg_error + unit) \<times> wg_server \<times> string" where
  "ApplyPeers ipcSet idxo s = (case idxo of None \<Rightarrow> (Inr (), s, [])
     | Some idx \<Rightarrow> (let t = peers_text idx (sv_peers s); s' = s\<lparr>sv_peers := next_peers idx (sv_peers s)\<rparr> in
         if t = [] then (Inr (), s', [])
         else if ipcSet t then (Inr (), s', t) else (Inl ErrIpcSet, s', t)))"

section \<open>Reading the state of the device\<close>

record wg_peer =
  pr_public :: string
  pr_psk :: string
  pr_allowed :: "string list"
  pr_endpoint :: string
  pr_handshake :: "int option"
  pr_keepalive :: int
  pr_rx :: nat
  pr_tx :: nat

definition new_peer :: "nat list \<Rightarrow> wg_peer" where
  "new_peer raw = \<lparr>pr_public = b64_encode raw, pr_psk = [], pr_allowed = [], pr_endpoint = [],
     pr_handshake = None, pr_keepalive = 0, pr_rx = 0, pr_tx = 0\<rparr>"

definition peer_field :: "string \<Rightarrow> string \<Rightarrow> wg_peer \<Rightarrow> wg_peer" where
  "peer_field key txt p =
    (if key = ''preshared_key'' then (case hex_decode txt of None \<Rightarrow> p
       | Some raw \<Rightarrow> if list_all (\<lambda>b. b = 0) raw then p else p\<lparr>pr_psk := b64_encode raw\<rparr>)
     else if key = ''allowed_ip'' then p\<lparr>pr_allowed := pr_allowed p @ [txt]\<rparr>
     else if key = ''endpoint'' then p\<lparr>pr_endpoint := txt\<rparr>
     else if key = ''last_handshake_time_sec'' then (case parse_int64 txt of None \<Rightarrow> p
       | Some v \<Rightarrow> if v > 0 then p\<lparr>pr_handshake := Some v\<rparr> else p)
     else if key = ''rx_bytes'' then (case parse_uint64 txt of None \<Rightarrow> p | Some v \<Rightarrow> p\<lparr>pr_rx := v\<rparr>)
     else if key = ''tx_bytes'' then (case parse_uint64 txt of None \<Rightarrow> p | Some v \<Rightarrow> p\<lparr>pr_tx := v\<rparr>)
     else if key = ''persistent_keepalive_interval'' then
       (case parse_int64 txt of None \<Rightarrow> p | Some v \<Rightarrow> p\<lparr>pr_keepalive := v\<rparr>)
     else p)"

definition flush_peer :: "wg_peer list \<times> wg_peer option \<Rightarrow> wg_peer list" where
  "flush_peer st = (case st of (ps, None) \<Rightarrow> ps | (ps, Some p) \<Rightarrow> ps @ [p])"

definition peer_line :: "wg_peer list \<times> wg_peer option \<Rightarrow> string \<Rightarrow> wg_peer list \<times> wg_peer option" where
  "peer_line st raw = (let line = trim_right (\<lambda>c. c = CHR 0x0D) raw in
     case cut (CHR ''='') line of None \<Rightarrow> st
     | Some (key, txt) \<Rightarrow>
        if key = ''public_key'' then (flush_peer st, map_option new_peer (hex_decode txt))
        else (fst st, map_option (peer_field key txt) (snd st)))"

definition parsePeerStatus :: "string \<Rightarrow> wg_peer list" where
  "parsePeerStatus dump = flush_peer (foldl peer_line ([], None) (split_on lf dump))"

definition PeerStatus :: "string option \<Rightarrow> wg_error + wg_peer list" where
  "PeerStatus dump = (case dump of None \<Rightarrow> Inl ErrIpcGet | Some t \<Rightarrow> Inr (parsePeerStatus t))"

section \<open>The text that the device writes\<close>

text \<open>A peer as the device knows it, and the lines in which the UAPI protocol of WireGuard
  describes it (\<open>wireguard.com/xplatform\<close>): the input that \<open>parsePeerStatus\<close> is written for.\<close>

record dev_peer =
  dp_key :: "nat list"
  dp_psk :: "nat list"
  dp_endpoint :: "string option"
  dp_handshake :: nat
  dp_tx :: nat
  dp_rx :: nat
  dp_keepalive :: nat
  dp_allowed :: "string list"

definition field :: "string \<Rightarrow> string \<Rightarrow> string" where
  "field key v = key @ ''='' @ v"

definition dev_lines :: "dev_peer \<Rightarrow> string list" where
  "dev_lines p = [field ''public_key'' (hex_encode (dp_key p)), field ''preshared_key'' (hex_encode (dp_psk p)),
      field ''protocol_version'' ''1'']
    @ (case dp_endpoint p of None \<Rightarrow> [] | Some e \<Rightarrow> [field ''endpoint'' e])
    @ [field ''last_handshake_time_sec'' (nat_str (dp_handshake p)), field ''last_handshake_time_nsec'' ''0'',
       field ''tx_bytes'' (nat_str (dp_tx p)), field ''rx_bytes'' (nat_str (dp_rx p)),
       field ''persistent_keepalive_interval'' (nat_str (dp_keepalive p))]
    @ map (field ''allowed_ip'') (dp_allowed p)"

definition uapi_dump :: "string \<Rightarrow> nat \<Rightarrow> dev_peer list \<Rightarrow> string" where
  "uapi_dump privHex port ps = join [lf] ([field ''private_key'' privHex, field ''listen_port'' (nat_str port)]
     @ concat (map dev_lines ps) @ [[]])"

text \<open>Which peers the protocol can carry, and what the status of one should be.\<close>

definition one_line :: "string \<Rightarrow> bool" where
  "one_line s \<longleftrightarrow> CHR 0x0A \<notin> set s \<and> CHR 0x0D \<notin> set s"

definition dev_ok :: "dev_peer \<Rightarrow> bool" where
  "dev_ok p \<longleftrightarrow> list_all (\<lambda>b. b < 256) (dp_key p) \<and> list_all (\<lambda>b. b < 256) (dp_psk p)
    \<and> (\<forall>e. dp_endpoint p = Some e \<longrightarrow> one_line e) \<and> (\<forall>a\<in>set (dp_allowed p). one_line a)
    \<and> int (dp_handshake p) \<le> max_int64 \<and> dp_tx p < 2 ^ 64 \<and> dp_rx p < 2 ^ 64 \<and> dp_keepalive p < 65536"

definition status_of :: "dev_peer \<Rightarrow> wg_peer" where
  "status_of p = \<lparr>pr_public = b64_encode (dp_key p),
     pr_psk = (if list_all (\<lambda>b. b = 0) (dp_psk p) then [] else b64_encode (dp_psk p)),
     pr_allowed = dp_allowed p, pr_endpoint = (case dp_endpoint p of None \<Rightarrow> [] | Some e \<Rightarrow> e),
     pr_handshake = (if dp_handshake p = 0 then None else Some (int (dp_handshake p))),
     pr_keepalive = int (dp_keepalive p), pr_rx = dp_rx p, pr_tx = dp_tx p\<rparr>"

section \<open>Lemmas\<close>

lemma trim_right_cr: "CHR 0x0D \<notin> set s \<Longrightarrow> trim_right (\<lambda>c. c = CHR 0x0D) s = s"
proof -
  assume "CHR 0x0D \<notin> set s"
  then have "dropWhile (\<lambda>c. c = CHR 0x0D) (rev s) = rev s"
    by (cases "rev s") (auto simp: dropWhile_eq_self_iff)
  then show ?thesis by (simp add: trim_right_def)
qed

lemma peer_line_field:
  assumes "CHR ''='' \<notin> set key" "CHR 0x0D \<notin> set key" "CHR 0x0D \<notin> set v"
  shows "peer_line st (field key v) = (if key = ''public_key''
     then (flush_peer st, map_option new_peer (hex_decode v))
     else (fst st, map_option (peer_field key v) (snd st)))"
proof -
  have "trim_right (\<lambda>c. c = CHR 0x0D) (field key v) = key @ CHR ''='' # v"
    using assms trim_right_cr [of "field key v"] by (simp add: field_def)
  then show ?thesis
    using cut_append [OF assms(1), of v] by (simp add: peer_line_def Let_def)
qed

lemma hex_encode_chars: "list_all (\<lambda>b. b < 256) bs \<Longrightarrow> c \<in> set (hex_encode bs) \<Longrightarrow> nibble_val c \<noteq> None"
  by (induction bs) auto

lemma hex_one_line: "list_all (\<lambda>b. b < 256) bs \<Longrightarrow> one_line (hex_encode bs)"
  using hex_encode_chars [of bs "CHR 0x0A"] hex_encode_chars [of bs "CHR 0x0D"]
  by (auto simp: one_line_def nibble_val_def Let_def)

lemma nat_one_line: "one_line (nat_str n)"
  by (simp add: one_line_def nat_str_not_in is_digit_def)

definition uapi_key :: "string \<Rightarrow> bool" where
  "uapi_key k \<longleftrightarrow> k \<in> {''public_key'', ''preshared_key'', ''protocol_version'', ''endpoint'', ''last_handshake_time_sec'',
     ''last_handshake_time_nsec'', ''tx_bytes'', ''rx_bytes'', ''persistent_keepalive_interval'', ''allowed_ip'',
     ''private_key'', ''listen_port''}"

lemma uapi_keys:
  "uapi_key ''preshared_key''" "uapi_key ''protocol_version''" "uapi_key ''endpoint''"
  "uapi_key ''last_handshake_time_sec''" "uapi_key ''last_handshake_time_nsec''" "uapi_key ''tx_bytes''"
  "uapi_key ''rx_bytes''" "uapi_key ''persistent_keepalive_interval''" "uapi_key ''allowed_ip''"
  "uapi_key ''private_key''" "uapi_key ''listen_port''" "uapi_key ''public_key''"
  by (simp_all add: uapi_key_def)

lemma uapi_key_plain: "uapi_key k \<Longrightarrow> CHR ''='' \<notin> set k \<and> one_line k"
  unfolding uapi_key_def by (auto simp: one_line_def)

lemma field_one_line: "\<lbrakk>uapi_key k; one_line v\<rbrakk> \<Longrightarrow> one_line (field k v)"
  using uapi_key_plain by (auto simp: field_def one_line_def)

lemma other_field:
  "\<lbrakk>uapi_key k; k \<noteq> ''public_key''; one_line v\<rbrakk> \<Longrightarrow>
    peer_line (ps, Some p) (field k v) = (ps, Some (peer_field k v p))"
  using uapi_key_plain [of k] by (simp add: peer_line_field one_line_def)

lemma peer_fields:
  "hex_decode v = Some raw \<Longrightarrow> peer_field ''preshared_key'' v p =
     (if list_all (\<lambda>b. b = 0) raw then p else p\<lparr>pr_psk := b64_encode raw\<rparr>)"
  "peer_field ''protocol_version'' v p = p"
  "peer_field ''endpoint'' v p = p\<lparr>pr_endpoint := v\<rparr>"
  "int n \<le> max_int64 \<Longrightarrow> peer_field ''last_handshake_time_sec'' (nat_str n) p =
     (if n = 0 then p else p\<lparr>pr_handshake := Some (int n)\<rparr>)"
  "peer_field ''last_handshake_time_nsec'' v p = p"
  "n < 2 ^ 64 \<Longrightarrow> peer_field ''rx_bytes'' (nat_str n) p = p\<lparr>pr_rx := n\<rparr>"
  "n < 2 ^ 64 \<Longrightarrow> peer_field ''tx_bytes'' (nat_str n) p = p\<lparr>pr_tx := n\<rparr>"
  "int n \<le> max_int64 \<Longrightarrow> peer_field ''persistent_keepalive_interval'' (nat_str n) p = p\<lparr>pr_keepalive := int n\<rparr>"
  "peer_field ''allowed_ip'' v p = p\<lparr>pr_allowed := pr_allowed p @ [v]\<rparr>"
  by (simp_all add: peer_field_def parse_int64_nat_str parse_uint64_nat_str)

lemma allowed_lines:
  "\<forall>a\<in>set as. one_line a \<Longrightarrow> foldl peer_line (ps, Some p) (map (field ''allowed_ip'') as)
     = (ps, Some (p\<lparr>pr_allowed := pr_allowed p @ as\<rparr>))"
  by (induction as arbitrary: p) (simp_all add: other_field uapi_keys peer_fields)

lemma dev_lines_read:
  assumes "dev_ok p"
  shows "foldl peer_line st (dev_lines p) = (flush_peer st, Some (status_of p))"
proof -
  have ok: "list_all (\<lambda>b. b < 256) (dp_key p)" "list_all (\<lambda>b. b < 256) (dp_psk p)"
    "\<And>e. dp_endpoint p = Some e \<Longrightarrow> one_line e" "\<forall>a\<in>set (dp_allowed p). one_line a"
    "int (dp_handshake p) \<le> max_int64" "dp_tx p < 2 ^ 64" "dp_rx p < 2 ^ 64" "int (dp_keepalive p) \<le> max_int64"
    using assms by (auto simp: dev_ok_def max_int64_def)
  have key: "peer_line st (field ''public_key'' (hex_encode (dp_key p)))
      = (flush_peer st, Some (new_peer (dp_key p)))"
    using uapi_key_plain [of "''public_key''"] hex_one_line [OF ok(1)]
    by (simp add: peer_line_field uapi_key_def one_line_def hex_decode_encode ok)
  note keys = uapi_keys
  have d: "one_line ''1''" "one_line ''0''" by (simp_all add: one_line_def)
  note reads = other_field allowed_lines [OF ok(4)] peer_fields peer_fields(6) [OF ok(7)] peer_fields(7) [OF ok(6)]
    ok d keys hex_one_line [OF ok(2)]
    nat_one_line hex_decode_encode [OF ok(2)]
  show ?thesis
    by (cases "dp_endpoint p")
      (simp_all add: dev_lines_def key reads status_of_def new_peer_def)
qed

lemma dev_peers_read:
  "\<forall>p\<in>set ps. dev_ok p \<Longrightarrow>
    flush_peer (foldl peer_line st (concat (map dev_lines ps))) = flush_peer st @ map status_of ps"
proof (induction ps arbitrary: st)
  case (Cons p ps)
  then show ?case by (simp add: dev_lines_read) (simp add: flush_peer_def)
qed simp

lemma dev_lines_one_line: "\<lbrakk>dev_ok p; l \<in> set (dev_lines p)\<rbrakk> \<Longrightarrow> one_line l"
  by (auto simp: dev_lines_def dev_ok_def uapi_key_def nat_one_line hex_one_line one_line_def [of "''1''"]
      one_line_def [of "''0''"] split: option.splits intro!: field_one_line)

text \<open>The wanted peers: one for each key that decodes.\<close>

definition user_set :: "index \<Rightarrow> user_snapshot set" where
  "user_set idx = snd ` set (UserByID idx)"

definition hex_keys :: "index \<Rightarrow> string set" where
  "hex_keys idx = {h. \<exists>u\<in>user_set idx. base64ToHex (us_public_key u) = Inr h}"

definition psks_ok :: "index \<Rightarrow> bool" where
  "psks_ok idx \<longleftrightarrow> (\<forall>u\<in>user_set idx. us_preshared_key u = [] \<or> is_ok (base64ToHex (us_preshared_key u)))"

lemma base64ToHex_Nil: "base64ToHex [] = Inl ErrKeyLength"
  by (simp add: base64ToHex_def b64_decode_def)

lemma update_member: "(h, u) \<in> set (AList.update k v al) \<Longrightarrow> (h, u) \<in> set al \<or> (h = k \<and> u = v)"
  by (induction al) (auto split: if_splits)

lemma want_user_keys:
  "fst ` set (want_user m v) = fst ` set m \<union> {h. base64ToHex (us_public_key v) = Inr h}"
  "(h, u) \<in> set (want_user m v) \<Longrightarrow> (h, u) \<in> set m \<or> (u = v \<and> base64ToHex (us_public_key u) = Inr h)"
  "distinct (map fst m) \<Longrightarrow> distinct (map fst (want_user m v))"
  using base64ToHex_Nil
  by (auto simp: want_user_def dom_update dom_map_of_conv_image_fst [symmetric] distinct_update
      split: sum.splits if_splits dest: update_member)

lemma foldl_want_user:
  "fst ` set (foldl want_user m us) = fst ` set m \<union> {h. \<exists>u\<in>set us. base64ToHex (us_public_key u) = Inr h}"
  "(h, u) \<in> set (foldl want_user m us) \<Longrightarrow>
     (h, u) \<in> set m \<or> (u \<in> set us \<and> base64ToHex (us_public_key u) = Inr h)"
  "distinct (map fst m) \<Longrightarrow> distinct (map fst (foldl want_user m us))"
proof (induction us arbitrary: m)
  case (Cons v us)
  { case 1
    have "fst ` set (foldl want_user m (v # us))
        = fst ` set (want_user m v) \<union> {h. \<exists>u\<in>set us. base64ToHex (us_public_key u) = Inr h}"
      using Cons.IH(1) [of "want_user m v"] by simp
    then show ?case unfolding want_user_keys(1) by auto }
  { case 2 then show ?case using Cons.IH(2) [of "want_user m v"] want_user_keys(2) by auto }
  { case 3 then show ?case using Cons.IH(3) [of "want_user m v"] want_user_keys(3) by simp }
qed auto

lemma wanted_facts:
  "fst ` set (wanted idx) = hex_keys idx"
  "(h, u) \<in> set (wanted idx) \<Longrightarrow> u \<in> user_set idx \<and> base64ToHex (us_public_key u) = Inr h"
  "distinct (map fst (wanted idx))"
  using foldl_want_user [where m = "[]" and us = "map snd (UserByID idx)"]
  by (auto simp: wanted_def hex_keys_def user_set_def)

lemma wanted_None: "map_of (wanted idx) h = None \<longleftrightarrow> h \<notin> hex_keys idx"
  using wanted_facts(1) [of idx] by (simp add: map_of_eq_None_iff)

lemma add_text_ok: "psks_ok idx \<Longrightarrow> w \<in> set (wanted idx) \<Longrightarrow> snd (add_text w)"
  using wanted_facts(2) [of "fst w" "snd w" idx]
  by (auto simp: psks_ok_def add_text_def Let_def is_ok_def split: prod.splits sum.splits)

lemma fresh_facts:
  "fst ` set (fresh_peers idx peers) = hex_keys idx - set peers"
  "w \<in> set (fresh_peers idx peers) \<Longrightarrow> w \<in> set (wanted idx)"
  "distinct (map fst (fresh_peers idx peers))"
  unfolding wanted_facts(1) [symmetric] fresh_peers_def
  using wanted_facts(3) [of idx] by (auto simp: distinct_map_filter)

lemma next_peers_set: "psks_ok idx \<Longrightarrow> set (next_peers idx peers) = hex_keys idx"
proof -
  assume ok: "psks_ok idx"
  then have "filter (snd \<circ> add_text) (fresh_peers idx peers) = fresh_peers idx peers"
    using add_text_ok fresh_facts(2) by (intro filter_True) auto
  then have "set (next_peers idx peers) = {k \<in> set peers. k \<in> hex_keys idx} \<union> fst ` set (fresh_peers idx peers)"
    by (auto simp: next_peers_def wanted_None)
  then show ?thesis using fresh_facts(1) [of idx peers] by auto
qed

lemma settled:
  assumes "set peers = hex_keys idx"
  shows "peers_text idx peers = []" and "next_peers idx peers = peers"
proof -
  have "fresh_peers idx peers = []" using fresh_facts(1) [of idx peers] assms by simp
  moreover have "filter (\<lambda>k. map_of (wanted idx) k = None) peers = []"
    using assms by (auto simp: filter_empty_conv wanted_None)
  moreover have "filter (\<lambda>k. map_of (wanted idx) k \<noteq> None) peers = peers"
    using assms by (auto simp: filter_id_conv wanted_None)
  ultimately show "peers_text idx peers = []" "next_peers idx peers = peers"
    by (simp_all add: peers_text_def next_peers_def)
qed

lemma ApplyPeers_settled:
  "set (sv_peers s) = hex_keys idx \<Longrightarrow> ApplyPeers ipcSet (Some idx) s = (Inr (), s, [])"
  by (simp add: ApplyPeers_def settled)

text \<open>The users of a built index are those of the table.\<close>

lemma user_set_built:
  assumes "db_wf d" "Build ev d = Inr idx"
  shows "user_set idx = (\<lambda>r. user_snap (scanUser r)) ` set (t_users d)"
proof -
  have m: "map_of (UserByID idx) i = map_option (\<lambda>r. user_snap (scanUser r)) (row_by u_id i (t_users d))" for i
    using Build_index_of [OF assms] by (simp add: index_of_def)
  have "user_set idx = ran (map_of (UserByID idx))"
    unfolding user_set_def using Build_users_distinct [OF assms(2)] by (simp add: ran_distinct)
  also have "\<dots> = (\<lambda>r. user_snap (scanUser r)) ` set (t_users d)"
    unfolding ran_def m using row_iff [OF wf_keys(2) [OF assms(1)]] by (auto simp: image_iff)
  finally show ?thesis .
qed

section \<open>Properties\<close>

text \<open>
  Reading the state of the device back. For every device state whose keys are bytes, whose
  counters fit their types and whose texts are single lines, \<open>parsePeerStatus\<close> of the text in
  which the UAPI protocol reports it returns exactly its peers, in order: keys in base 64, no
  preshared key where it is all zero, the allowed addresses, the endpoint if any, the time of the
  last handshake if there was one, the counters and the keepalive.
\<close>

theorem peer_status_roundtrip:
  assumes "\<forall>p\<in>set ps. dev_ok p" and "list_all (\<lambda>b. b < 256) priv"
  shows "parsePeerStatus (uapi_dump (hex_encode priv) port ps) = map status_of ps"
proof -
  let ?head = "[field ''private_key'' (hex_encode priv), field ''listen_port'' (nat_str port)]"
  let ?ls = "?head @ concat (map dev_lines ps) @ [[]]"
  have k: "uapi_key ''private_key''" "uapi_key ''listen_port''" by (simp_all add: uapi_key_def)
  have "one_line l" if "l \<in> set ?ls" for l
    using that assms dev_lines_one_line field_one_line [OF k(1) hex_one_line [OF assms(2)]]
      field_one_line [OF k(2) nat_one_line] by (auto simp: one_line_def)
  then have "split_on lf (join [lf] ?ls) = ?ls"
    by (intro split_on_join) (auto simp: one_line_def)
  moreover have "foldl peer_line ([], None) ?head = ([], None)"
    using k uapi_key_plain hex_one_line [OF assms(2)] nat_one_line [of port]
    by (simp add: peer_line_field one_line_def)
  moreover have "peer_line st [] = st" for st
    by (simp add: peer_line_def trim_right_def cut_def)
  ultimately have "parsePeerStatus (uapi_dump (hex_encode priv) port ps)
      = flush_peer (foldl peer_line ([], None) (concat (map dev_lines ps)))"
    unfolding parsePeerStatus_def uapi_dump_def by (simp only: foldl_append) simp
  also have "\<dots> = map status_of ps"
    using dev_peers_read [OF assms(1), of "([], None)"] by (simp add: flush_peer_def)
  finally show ?thesis .
qed

definition w_dev :: dev_peer where
  "w_dev = \<lparr>dp_key = replicate 32 7, dp_psk = replicate 32 0, dp_endpoint = Some ''198.51.100.7:40000'',
     dp_handshake = 1700000000, dp_tx = 12, dp_rx = 34, dp_keepalive = 25, dp_allowed = [''10.6.0.2/32'']\<rparr>"

theorem peer_status_roundtrip_witness:
  "map pr_allowed (parsePeerStatus (uapi_dump (hex_encode [1, 2]) 51820 [w_dev])) = [[''10.6.0.2/32'']]"
proof -
  have "dev_ok w_dev" by (simp add: dev_ok_def w_dev_def one_line_def list_all_iff max_int64_def)
  then have "\<forall>p\<in>set [w_dev]. dev_ok p" by simp
  from peer_status_roundtrip [OF this, of "[1, 2]" 51820] show ?thesis
    by (simp add: status_of_def) (simp add: w_dev_def)
qed

text \<open>
  C39: the device follows the database. Applying the index built from a well-formed database whose
  preshared keys decode, when the device takes the text, leaves recorded exactly the keys of the
  users; the text sent removes exactly the recorded peers that are no user's any more and adds,
  once each, exactly the missing keys of users, with the user's address; and applying the
  same index again sends nothing.
\<close>

theorem apply_peers_sync:
  assumes "db_wf d" and "Build ev d = Inr idx" and "psks_ok idx"
    and "ApplyPeers ipcSet (Some idx) s = (Inr (), s', sent)"
  shows "set (sv_peers s') = {h. \<exists>r\<in>set (t_users d). base64ToHex (u_public_key r) = Inr h}
    \<and> (\<exists>gone new. sent = concat (map remove_text gone) @ concat (map (fst \<circ> add_text) new)
         \<and> set gone = set (sv_peers s) - set (sv_peers s')
         \<and> fst ` set new = set (sv_peers s') - set (sv_peers s) \<and> distinct (map fst new)
         \<and> (\<forall>(h, u)\<in>set new. \<exists>r\<in>set (t_users d). base64ToHex (u_public_key r) = Inr h \<and> us_addr u = u_ip r))
    \<and> ApplyPeers ipcSet' (Some idx) s' = (Inr (), s', [])"
proof -
  have s': "sv_peers s' = next_peers idx (sv_peers s)" "sent = peers_text idx (sv_peers s)"
    using assms(4) by (auto simp: ApplyPeers_def Let_def split: if_splits)
  then have set': "set (sv_peers s') = hex_keys idx" by (simp add: next_peers_set [OF assms(3)])
  have users: "user_set idx = (\<lambda>r. user_snap (scanUser r)) ` set (t_users d)"
    by (rule user_set_built [OF assms(1,2)])
  then have keys: "hex_keys idx = {h. \<exists>r\<in>set (t_users d). base64ToHex (u_public_key r) = Inr h}"
    by (auto simp: hex_keys_def user_snap_def scanUser_def)
  let ?gone = "filter (\<lambda>k. map_of (wanted idx) k = None) (sv_peers s)"
  let ?new = "fresh_peers idx (sv_peers s)"
  have gone: "set ?gone = set (sv_peers s) - set (sv_peers s')" by (auto simp: set' wanted_None)
  have new: "\<exists>r\<in>set (t_users d). base64ToHex (u_public_key r) = Inr h \<and> us_addr u = u_ip r"
    if "(h, u) \<in> set ?new" for h u
    using wanted_facts(2) [OF fresh_facts(2) [OF that]] unfolding users
    by (auto simp: user_snap_def scanUser_def)
  have "sent = concat (map remove_text ?gone) @ concat (map (fst \<circ> add_text) ?new)"
    using s'(2) by (simp add: peers_text_def)
  then show ?thesis
    using gone fresh_facts(1,3) [of idx "sv_peers s"] new set' keys ApplyPeers_settled [OF set'] by blast
qed

definition w_key :: "nat list" where
  "w_key = replicate 32 7"

lemma w_key_bytes: "key_bytes w_key"
  by (simp add: w_key_def key_bytes_def list_all_iff)

definition w_peer_db :: db where
  "w_peer_db = empty_db\<lparr>t_users := [w_user\<lparr>u_public_key := b64_encode w_key, u_preshared_key := []\<rparr>],
     q_users := 1\<rparr>"

lemma w_peer_db_wf: "db_wf w_peer_db"
  by (simp add: wf_unfold w_peer_db_def w_user_def empty_db_def ids_ok_def
      max_int64_def principal_names_def object_names_def addresses_def)

lemma w_peer_build: "\<exists>idx. Build quiet_env w_peer_db = Inr idx \<and> psks_ok idx"
proof -
  have "\<exists>idx. Build quiet_env w_peer_db = Inr idx"
    by (simp add: Build_def ListUsers_def ListUserGroups_def ListServices_def ListPolicies_def
        queryServices_def w_peer_db_def empty_db_def order_by_def quiet_env_def exec_sql_def)
  then obtain idx where b: "Build quiet_env w_peer_db = Inr idx" by blast
  have "psks_ok idx"
    unfolding psks_ok_def user_set_built [OF w_peer_db_wf b]
    by (simp add: w_peer_db_def w_user_def scanUser_def user_snap_def empty_db_def)
  with b show ?thesis by blast
qed

definition w_server :: wg_server where
  "w_server = \<lparr>sv_public = [], sv_private = [], sv_port = 51820, sv_peers = [''stale'']\<rparr>"

theorem apply_peers_sync_witness:
  "\<exists>idx s' sent. Build quiet_env w_peer_db = Inr idx
    \<and> ApplyPeers (\<lambda>_. True) (Some idx) w_server = (Inr (), s', sent)
    \<and> set (sv_peers s') = {hex_encode w_key}"
proof -
  obtain idx where b: "Build quiet_env w_peer_db = Inr idx" "psks_ok idx" using w_peer_build by blast
  obtain s' sent where a: "ApplyPeers (\<lambda>_. True) (Some idx) w_server = (Inr (), s', sent)"
    by (cases "peers_text idx (sv_peers w_server) = []") (simp_all add: ApplyPeers_def)
  have "(\<exists>r\<in>set (t_users w_peer_db). base64ToHex (u_public_key r) = Inr h) \<longleftrightarrow> h = hex_encode w_key" for h
    using base64ToHex_key [OF w_key_bytes] by (simp add: w_peer_db_def eq_commute [of h])
  then show ?thesis using apply_peers_sync [OF w_peer_db_wf b a] a b by simp
qed

text \<open>
  A refused configuration is forgotten. The peers are recorded before the device is asked, so
  when \<open>IpcSet\<close> fails, \<open>ApplyPeers\<close> reports it once; applying the same index again, with a device
  that would now take it, sends nothing and reports success.
\<close>

theorem apply_peers_failure_forgotten:
  assumes "psks_ok idx" and "ApplyPeers ipcSet (Some idx) s = (Inl e, s', sent)"
  shows "e = ErrIpcSet \<and> sent \<noteq> [] \<and> (\<forall>ipcSet'. ApplyPeers ipcSet' (Some idx) s' = (Inr (), s', []))"
proof -
  have s': "sv_peers s' = next_peers idx (sv_peers s)" "e = ErrIpcSet" "sent \<noteq> []"
    using assms(2) by (auto simp: ApplyPeers_def Let_def split: if_splits)
  then have "set (sv_peers s') = hex_keys idx" by (simp add: next_peers_set [OF assms(1)])
  with s'(2,3) ApplyPeers_settled show ?thesis by blast
qed

theorem apply_peers_failure_forgotten_witness:
  "\<exists>idx s' sent. ApplyPeers (\<lambda>_. False) (Some idx) w_server = (Inl ErrIpcSet, s', sent)
    \<and> ApplyPeers (\<lambda>_. True) (Some idx) s' = (Inr (), s', [])"
proof -
  obtain idx where b: "Build quiet_env w_peer_db = Inr idx" "psks_ok idx" using w_peer_build by blast
  have "''stale'' \<notin> hex_keys idx"
  proof
    assume "''stale'' \<in> hex_keys idx"
    then obtain r where "r \<in> set (t_users w_peer_db)" "base64ToHex (u_public_key r) = Inr ''stale''"
      unfolding hex_keys_def user_set_built [OF w_peer_db_wf b(1)]
      by (auto simp: user_snap_def scanUser_def)
    moreover have "base64ToHex (b64_encode w_key) = Inr (hex_encode w_key)"
      by (rule base64ToHex_key [OF w_key_bytes])
    ultimately have "hex_encode w_key = ''stale''" by (simp add: w_peer_db_def)
    then show False using hex_encode_chars [of w_key "CHR ''t''"] w_key_bytes
      by (simp add: key_bytes_def nibble_val_def)
  qed
  then have "peers_text idx (sv_peers w_server) \<noteq> []"
    by (simp add: peers_text_def w_server_def wanted_None remove_text_def)
  then obtain s' sent where a: "ApplyPeers (\<lambda>_. False) (Some idx) w_server = (Inl ErrIpcSet, s', sent)"
    by (simp add: ApplyPeers_def)
  from apply_peers_failure_forgotten [OF b(2) a] a show ?thesis by blast
qed

end
