(* ===== verification/Listeners.thy ===== *)
theory Listeners
  imports PolicyCheck
begin

text \<open>
  \<open>daemon/runtime/listeners.go\<close>: which virtual addresses the network stack answers for, and who
  may connect to them. The stack is a parameter: \<open>add\<close> says whether it takes an address
  (\<open>AddVIP\<close>); removing never fails (\<open>netDevice.RemoveAddress\<close> drops the error).
\<close>

section \<open>Model\<close>

text \<open>\<open>current\<close>: the address announced for each service id.\<close>

type_synonym vips = "(int \<times> addr) list"

datatype stack_call = AddVIP addr | RemoveVIP addr

text \<open>\<open>netDevice.AddAddress\<close>: an address that is neither IPv4 nor IPv6 never reaches the stack.\<close>

definition AddAddress :: "(addr \<Rightarrow> bool) \<Rightarrow> addr \<Rightarrow> bool" where
  "AddAddress add a = (if is_v4 a \<or> is_v6 a then add a else False)"

definition reconcile_drop :: "index \<Rightarrow> vips \<Rightarrow> vips \<times> stack_call list" where
  "reconcile_drop idx current =
    (filter (\<lambda>(k, v). map_of (ServiceByID idx) k \<noteq> None) current,
     map (RemoveVIP \<circ> snd) (filter (\<lambda>(k, v). map_of (ServiceByID idx) k = None) current))"

definition reconcile_add ::
  "(addr \<Rightarrow> bool) \<Rightarrow> vips \<times> stack_call list \<Rightarrow> int \<times> service_snapshot \<Rightarrow> vips \<times> stack_call list" where
  "reconcile_add add st w = (case (st, w) of ((current, calls), (k, svc)) \<Rightarrow>
     if map_of current k \<noteq> None then (current, calls)
     else case parse_addr (ss_ip svc) of None \<Rightarrow> (current, calls)
       | Some vip \<Rightarrow> if AddAddress add vip then (AList.update k vip current, calls @ [AddVIP vip])
           else (current, calls))"

definition reconcile :: "(addr \<Rightarrow> bool) \<Rightarrow> index \<Rightarrow> vips \<Rightarrow> vips \<times> stack_call list" where
  "reconcile add idx current = foldl (reconcile_add add) (reconcile_drop idx current) (ServiceByID idx)"

definition closeAll :: "vips \<Rightarrow> vips \<times> stack_call list" where
  "closeAll current = ([], map (RemoveVIP \<circ> snd) current)"

definition CheckTCP :: "index \<Rightarrow> string \<Rightarrow> string \<Rightarrow> int \<Rightarrow> bool" where
  "CheckTCP idx src dst port \<longleftrightarrow> fst (CheckService idx src dst port ''tcp'') = Allow"

definition CheckUDP :: "index \<Rightarrow> string \<Rightarrow> string \<Rightarrow> int \<Rightarrow> bool" where
  "CheckUDP idx src dst port \<longleftrightarrow> fst (CheckService idx src dst port ''udp'') = Allow"

text \<open>\<open>Dispatcher.onTCP\<close> and \<open>onUDP\<close> of \<open>daemon/wg/wildcard.go\<close>: a new connection is refused before
  any endpoint exists unless the checker allows it; \<open>endpoint\<close> says whether the stack then makes
  one. \<open>Accepted\<close> hands it to the proxy with its virtual address and port.\<close>

datatype accept_result = Refused | NoEndpoint | Accepted addr int

definition onTCP :: "(string \<Rightarrow> string \<Rightarrow> int \<Rightarrow> bool) \<Rightarrow> bool \<Rightarrow> addr \<Rightarrow> addr \<Rightarrow> int \<Rightarrow> accept_result" where
  "onTCP check endpoint src dst port =
    (if \<not> check (addr_string src) (addr_string dst) port then Refused
     else if \<not> endpoint then NoEndpoint else Accepted dst port)"

definition onUDP :: "(string \<Rightarrow> string \<Rightarrow> int \<Rightarrow> bool) \<Rightarrow> bool \<Rightarrow> addr \<Rightarrow> addr \<Rightarrow> int \<Rightarrow> accept_result" where
  "onUDP check endpoint src dst port =
    (if \<not> check (addr_string src) (addr_string dst) port then Refused
     else if \<not> endpoint then NoEndpoint else Accepted dst port)"

text \<open>\<open>tcpipAddrToNetip\<close> on the bytes of an address: an IPv4-mapped one is unmapped.\<close>

definition bytes_to_128 :: "8 word list \<Rightarrow> 128 word" where
  "bytes_to_128 bs = word_of_nat (foldl (\<lambda>a b. a * 256 + unat b) 0 bs)"

definition bytes_to_32 :: "8 word list \<Rightarrow> 32 word" where
  "bytes_to_32 bs = word_of_nat (foldl (\<lambda>a b. a * 256 + unat b) 0 bs)"

definition tcpipAddrToNetip :: "8 word list \<Rightarrow> addr" where
  "tcpipAddrToNetip bs = (if length bs = 4 then V4 (bytes_to_32 bs)
     else if length bs = 16 then unmap (V6 (bytes_to_128 bs) []) else Invalid 0)"

section \<open>Lemmas\<close>

lemma reconcile_drop_lookup:
  "map_of (fst (reconcile_drop idx current)) k =
    (if map_of (ServiceByID idx) k = None then None else map_of current k)"
  by (induction current) (auto simp: reconcile_drop_def)

lemma reconcile_add_lookup:
  "map_of (fst (reconcile_add add st (k, svc))) i =
    (if i = k \<and> map_of (fst st) k = None
     then (case parse_addr (ss_ip svc) of Some vip \<Rightarrow> if AddAddress add vip then Some vip else None | None \<Rightarrow> None)
     else map_of (fst st) i)"
  by (cases st) (auto simp: reconcile_add_def update_conv' split: option.splits)

lemma foldl_reconcile_add:
  "distinct (map fst ws) \<Longrightarrow> map_of (fst (foldl (reconcile_add add) st ws)) i =
    (case map_of (fst st) i of Some v \<Rightarrow> Some v
     | None \<Rightarrow> (case map_of ws i of None \<Rightarrow> None
        | Some svc \<Rightarrow> (case parse_addr (ss_ip svc) of
             Some vip \<Rightarrow> if AddAddress add vip then Some vip else None | None \<Rightarrow> None)))"
proof (induction ws arbitrary: st)
  case (Cons w ws)
  obtain k svc where w: "w = (k, svc)" by (cases w)
  have "map_of ws k = None" using Cons.prems w by (simp add: map_of_eq_None_iff)
  moreover have "distinct (map fst ws)" using Cons.prems by simp
  ultimately show ?case
    using Cons.IH [of "reconcile_add add st w"] unfolding w
    by (cases "i = k"; cases "map_of (fst st) i") (auto simp: reconcile_add_lookup split: option.splits)
qed (auto split: option.split)

lemma reconcile_lookup:
  assumes "distinct (map fst (ServiceByID idx))"
  shows "map_of (fst (reconcile add idx current)) i = (case map_of (ServiceByID idx) i of None \<Rightarrow> None
     | Some svc \<Rightarrow> (case map_of current i of Some v \<Rightarrow> Some v
        | None \<Rightarrow> (case parse_addr (ss_ip svc) of
             Some vip \<Rightarrow> if AddAddress add vip then Some vip else None | None \<Rightarrow> None)))"
  unfolding reconcile_def foldl_reconcile_add [OF assms] reconcile_drop_lookup
  by (auto split: option.splits)

text \<open>The address that a row of the table asks for.\<close>

definition announced :: "(addr \<Rightarrow> bool) \<Rightarrow> db \<Rightarrow> int \<Rightarrow> addr option" where
  "announced add d i = (case row_by s_id i (t_services d) of None \<Rightarrow> None
     | Some r \<Rightarrow> (case parse_addr (s_ip r) of None \<Rightarrow> None
        | Some vip \<Rightarrow> if AddAddress add vip then Some vip else None))"

lemma built_services:
  assumes "db_wf d" "Build ev d = Inr idx"
  shows "map_of (ServiceByID idx) i = map_option (\<lambda>r. service_snap (service_view d r)) (row_by s_id i (t_services d))"
  using Build_index_of [OF assms] by (simp add: index_of_def)

lemma reconcile_settled:
  assumes "\<And>i. map_of current i \<noteq> None \<Longrightarrow> map_of (ServiceByID idx) i \<noteq> None"
    and "\<And>i svc vip. (i, svc) \<in> set (ServiceByID idx) \<Longrightarrow> map_of current i = None \<Longrightarrow>
      parse_addr (ss_ip svc) = Some vip \<Longrightarrow> \<not> AddAddress add vip"
  shows "reconcile add idx current = (current, [])"
proof -
  have keep: "map_of (ServiceByID idx) k \<noteq> None" if "(k, v) \<in> set current" for k v
    using assms(1) that by (metis not_None_eq weak_map_of_SomeI)
  have drop: "reconcile_drop idx current = (current, [])"
    using keep by (auto simp: reconcile_drop_def filter_id_conv filter_empty_conv)
  have "foldl (reconcile_add add) (current, []) ws = (current, [])" if "set ws \<subseteq> set (ServiceByID idx)" for ws
    using that
  proof (induction ws)
    case (Cons w ws)
    obtain k svc where w: "w = (k, svc)" by (cases w)
    have "reconcile_add add (current, []) w = (current, [])"
      using assms(2) [of k svc] Cons.prems unfolding w
      by (auto simp: reconcile_add_def split: option.split)
    then show ?case using Cons by simp
  qed simp
  then show ?thesis by (simp add: reconcile_def drop)
qed

lemma reconcile_again:
  assumes "distinct (map fst (ServiceByID idx))"
  shows "reconcile add idx (fst (reconcile add idx current)) = (fst (reconcile add idx current), [])"
proof (rule reconcile_settled)
  show "map_of (ServiceByID idx) i \<noteq> None" if "map_of (fst (reconcile add idx current)) i \<noteq> None" for i
    using that unfolding reconcile_lookup [OF assms] by (cases "map_of (ServiceByID idx) i") auto
  show "\<not> AddAddress add vip" if "(i, svc) \<in> set (ServiceByID idx)"
    "map_of (fst (reconcile add idx current)) i = None" "parse_addr (ss_ip svc) = Some vip" for i svc vip
    using that assms unfolding reconcile_lookup [OF assms]
    by (auto split: option.splits if_splits)
qed

text \<open>C40: after \<open>reconcile\<close> on the index of a well-formed database, exactly the services of the
  table are announced: a service that is gone loses its address; one that had an address keeps that
  very address, whatever the table now says; a new one gets the address of its row if that parses
  and the stack takes it. So starting from nothing the announced addresses are those of the table,
  and a second run asks nothing of the stack.\<close>

theorem reconcile_outcome:
  assumes "db_wf d" "Build ev d = Inr idx"
  shows "map_of (fst (reconcile add idx current)) i =
      (if row_by s_id i (t_services d) = None then None
       else case map_of current i of Some v \<Rightarrow> Some v | None \<Rightarrow> announced add d i)
    \<and> map_of (fst (reconcile add idx [])) i = announced add d i
    \<and> reconcile add idx (fst (reconcile add idx current)) = (fst (reconcile add idx current), [])"
proof -
  note dist = Build_services_distinct [OF assms(2)]
  have lookup: "map_of (fst (reconcile add idx c)) i =
      (if row_by s_id i (t_services d) = None then None
       else case map_of c i of Some v \<Rightarrow> Some v | None \<Rightarrow> announced add d i)" for c
    unfolding reconcile_lookup [OF dist] built_services [OF assms] announced_def
    by (auto split: option.splits)
  have "map_of (fst (reconcile add idx [])) i = announced add d i"
    unfolding lookup by (simp add: announced_def)
  then show ?thesis using lookup reconcile_again [OF dist] by blast
qed

section \<open>Witness\<close>

definition w_vip_db :: db where
  "w_vip_db = w_db\<lparr>t_services := [w_service\<lparr>s_ip := ''10.0.0.9''\<rparr>]\<rparr>"

lemma w_vip_db_wf: "db_wf w_vip_db"
  by (simp add: wf_unfold w_vip_db_def w_db_def w_user_def w_service_def w_rule_def empty_db_def ids_ok_def
      max_int64_def principal_names_def object_names_def addresses_def spec_ok_def Valid_def
      rule_ok_def validSubject_def validObject_def validAction_def row_exists_def)

lemma w_vip_build: "\<exists>idx. Build quiet_env w_vip_db = Inr idx"
  by (simp add: Build_def ListUsers_def ListUserGroups_def ListServices_def ListPolicies_def
      queryServices_def loadServicePorts_def add_service_groups_def ServiceGroupIDsForService_def
      w_vip_db_def w_db_def empty_db_def order_by_def quiet_env_def exec_sql_def)

theorem reconcile_outcome_witness:
  "\<exists>idx. Build quiet_env w_vip_db = Inr idx
    \<and> map_of (fst (reconcile (\<lambda>_. True) idx [])) 1 = Some (V4 167772169)
    \<and> map_of (fst (reconcile (\<lambda>_. True) idx [(1, V4 7)])) 1 = Some (V4 7)
    \<and> map_of (fst (reconcile (\<lambda>_. True) idx [(2, V4 7)])) 2 = None"
proof -
  obtain idx where b: "Build quiet_env w_vip_db = Inr idx" using w_vip_build by blast
  have "announced (\<lambda>_. True) w_vip_db 1 = Some (V4 167772169)"
    by (simp add: announced_def row_by_def w_vip_db_def w_service_def w_db_def AddAddress_def is_v4_def addr_eval)
  moreover have "row_by s_id 1 (t_services w_vip_db) \<noteq> None" "row_by s_id 2 (t_services w_vip_db) = None"
    by (simp_all add: row_by_def w_vip_db_def w_service_def)
  ultimately show ?thesis
    using b reconcile_outcome [OF w_vip_db_wf b, of "\<lambda>_. True" _ 1]
      reconcile_outcome [OF w_vip_db_wf b, of "\<lambda>_. True" "[(2, V4 7)]" 2] by simp
qed

end
