(* ===== verification/Device.thy ===== *)
theory Device
  imports Peers Listeners
begin

text \<open>
  Setting up the user-space network device, \<open>newNetDevice\<close> and \<open>fullAddr\<close> of \<open>daemon/wg/netstack.go\<close>, and the listening
  functions of \<open>daemon/wg/server.go\<close>. The gVisor stack is a parameter: which of its calls succeed.
\<close>

section \<open>Model\<close>

datatype protocol = IPv4 | IPv6

record gvisor =
  gv_sack :: bool
  gv_nic :: bool
  gv_address :: "addr \<Rightarrow> bool"

datatype setup_call = EnableSack | AddNotify | CreateNIC | AddProtocolAddress protocol addr | AddRoute protocol | EventUp

datatype device_error = ErrSack | ErrNIC | ErrNeither addr | ErrAddress addr

definition protocol_of :: "addr \<Rightarrow> protocol option" where
  "protocol_of a = (if is_v4 a then Some IPv4 else if is_v6 a then Some IPv6 else None)"

text \<open>\<open>AddAddress\<close>, with the call it makes of the stack.\<close>

definition add_address :: "gvisor \<Rightarrow> addr \<Rightarrow> device_error option \<times> setup_call list" where
  "add_address g a = (case protocol_of a of None \<Rightarrow> (Some (ErrNeither a), [])
     | Some p \<Rightarrow> (if gv_address g a then None else Some (ErrAddress a), [AddProtocolAddress p a]))"

fun add_addresses :: "gvisor \<Rightarrow> addr list \<Rightarrow> device_error option \<times> setup_call list" where
  "add_addresses g [] = (None, [])"
| "add_addresses g (a # as) = (case add_address g a of
     (Some e, cs) \<Rightarrow> (Some e, cs)
   | (None, cs) \<Rightarrow> (case add_addresses g as of (r, cs') \<Rightarrow> (r, cs @ cs')))"

text \<open>The result is the MTU of the device, 1420 when none is asked for.\<close>

definition new_net_device :: "gvisor \<Rightarrow> addr list \<Rightarrow> int \<Rightarrow> (device_error + int) \<times> setup_call list" where
  "new_net_device g addrs mtu =
    (if \<not> gv_sack g then (Inl ErrSack, [EnableSack])
     else if \<not> gv_nic g then (Inl ErrNIC, [EnableSack, AddNotify, CreateNIC])
     else case add_addresses g addrs of
       (Some e, cs) \<Rightarrow> (Inl e, [EnableSack, AddNotify, CreateNIC] @ cs)
     | (None, cs) \<Rightarrow> (Inr (if mtu = 0 then 1420 else mtu),
         [EnableSack, AddNotify, CreateNIC] @ cs @ [AddRoute IPv4, AddRoute IPv6, EventUp]))"

text \<open>\<open>fullAddr\<close>: network interface, address and port, and the protocol; what is not IPv4 counts as IPv6.\<close>

definition fullAddr :: "addr \<Rightarrow> 16 word \<Rightarrow> (nat \<times> addr \<times> 16 word) \<times> protocol" where
  "fullAddr a port = ((1, a, port), if is_v4 a then IPv4 else IPv6)"

text \<open>\<open>ListenTCP\<close> and \<open>ListenUDP\<close> convert the port with \<open>uint16\<close>.\<close>

definition listen_at :: "addr \<Rightarrow> int \<Rightarrow> (nat \<times> addr \<times> 16 word) \<times> protocol" where
  "listen_at vip port = fullAddr vip (word_of_int port)"

section \<open>Lemmas\<close>

lemma add_address_ok: "fst (add_address g a) = None \<longleftrightarrow> AddAddress (gv_address g) a"
  by (simp add: add_address_def AddAddress_def protocol_of_def)

lemma add_addresses_ok: "fst (add_addresses g as) = None \<longleftrightarrow> (\<forall>a\<in>set as. AddAddress (gv_address g) a)"
  by (induction "as") (auto simp: add_address_ok [symmetric] split: prod.split option.split)

text \<open>The device comes up exactly when every call that it makes succeeds and each address is IPv4 or IPv6; then the stack answers
  for exactly these addresses.\<close>

lemma add_addresses_calls:
  "fst (add_addresses g as) = None \<Longrightarrow> map (\<lambda>a. AddProtocolAddress (the (protocol_of a)) a) as = snd (add_addresses g as)"
  by (induction "as") (auto simp: add_address_def split: prod.splits option.splits if_splits)

lemma new_net_device_outcome:
  "(case fst (new_net_device g addrs mtu) of
      Inr m \<Rightarrow> gv_sack g \<and> gv_nic g \<and> (\<forall>a\<in>set addrs. AddAddress (gv_address g) a) \<and> m = (if mtu = 0 then 1420 else mtu)
        \<and> snd (new_net_device g addrs mtu) = [EnableSack, AddNotify, CreateNIC]
            @ map (\<lambda>a. AddProtocolAddress (the (protocol_of a)) a) addrs @ [AddRoute IPv4, AddRoute IPv6, EventUp]
    | Inl e \<Rightarrow> EventUp \<notin> set (snd (new_net_device g addrs mtu))
        \<and> \<not> (gv_sack g \<and> gv_nic g \<and> (\<forall>a\<in>set addrs. AddAddress (gv_address g) a)))"
proof -
  have up: "EventUp \<notin> set (snd (add_addresses g as))" for "as"
    by (induction "as") (auto simp: add_address_def split: prod.splits option.splits)
  show ?thesis
    using add_addresses_ok [of g addrs] add_addresses_calls [of g addrs] up [of addrs]
    by (cases "add_addresses g addrs") (auto simp: new_net_device_def split: option.split)
qed

text \<open>The daemon opens the device with its own address alone, which is the test that \<open>wgOpen\<close> is given.\<close>

lemma device_with_one_address:
  "(\<exists>m. fst (new_net_device g [ip] mtu) = Inr m) \<longleftrightarrow> (gv_sack g \<and> gv_nic g) \<and> AddAddress (gv_address g) ip"
  using new_net_device_outcome [of g "[ip]" mtu] by (cases "fst (new_net_device g [ip] mtu)") auto

end
