(* ===== verification/Splice.thy ===== *)
theory Splice
  imports Prelude "HOL-Library.Word" "HOL-Library.Sublist"
begin

text \<open>
  \<open>splice\<close> and \<open>closeWriter\<close> of \<open>daemon/proxy/tcp.go\<close>: two goroutines copy bytes between the accepted connection and the one
  to the backend, each until its source ends, and then close the writing half of its destination. The steps of the goroutines,
  of the peers and of whoever closes the flow (\<open>FlowTable.Reap\<close>) interleave in any order.
\<close>

section \<open>Model\<close>

type_synonym bytes = "8 word list"

datatype side = Conn | Backend

fun other :: "side \<Rightarrow> side" where
  "other Conn = Backend"
| "other Backend = Conn"

text \<open>One connection: what its peer has sent (\<open>e_sent\<close>), how much of it was read, whether the peer has ended its stream or
  the connection is broken, what was written to the peer, and what was closed on this side. \<open>e_half\<close> says whether the
  connection has the method \<open>CloseWrite\<close>.\<close>

record endpoint =
  e_sent :: bytes
  e_read :: nat
  e_eof :: bool
  e_broken :: bool
  e_out :: bytes
  e_wr_closed :: bool
  e_closed :: bool
  e_half :: bool

definition unread :: "endpoint \<Rightarrow> bytes" where
  "unread e = drop (e_read e) (e_sent e)"

text \<open>A goroutine: in \<open>io.Copy\<close> with the bytes that it has read and not written, after it, or done.\<close>

datatype phase = Copying bytes | Ending | Finished

record splice =
  sp_end :: "side \<Rightarrow> endpoint"
  sp_phase :: "side \<Rightarrow> phase"

definition put_end :: "side \<Rightarrow> endpoint \<Rightarrow> splice \<Rightarrow> splice" where
  "put_end s e st = st\<lparr>sp_end := (sp_end st)(s := e)\<rparr>"

definition put_phase :: "side \<Rightarrow> phase \<Rightarrow> splice \<Rightarrow> splice" where
  "put_phase s p st = st\<lparr>sp_phase := (sp_phase st)(s := p)\<rparr>"

definition splice_start :: "(side \<Rightarrow> bool) \<Rightarrow> splice" where
  "splice_start half = \<lparr>sp_end = \<lambda>s. \<lparr>e_sent = [], e_read = 0, e_eof = False, e_broken = False, e_out = [], e_wr_closed = False,
     e_closed = False, e_half = half s\<rparr>, sp_phase = \<lambda>s. Copying []\<rparr>"

text \<open>\<open>io.Copy\<close> from \<open>s\<close>: a read of up to \<open>n\<close> bytes, a write of \<open>k\<close> of them, and its ends: the source's end or a failed read,
  and a failed write.\<close>

definition copy_read :: "side \<Rightarrow> nat \<Rightarrow> splice \<Rightarrow> splice option" where
  "copy_read s n st = (let e = sp_end st s in
     if sp_phase st s = Copying [] \<and> \<not> e_closed e \<and> 0 < n \<and> n \<le> length (unread e)
     then Some (put_end s (e\<lparr>e_read := e_read e + n\<rparr>) (put_phase s (Copying (take n (unread e))) st)) else None)"

definition copy_write :: "side \<Rightarrow> nat \<Rightarrow> splice \<Rightarrow> splice option" where
  "copy_write s k st = (let e = sp_end st (other s) in
     (case sp_phase st s of
        Copying held \<Rightarrow> if 0 < k \<and> k \<le> length held \<and> \<not> e_closed e
          then Some (put_end (other s) (e\<lparr>e_out := e_out e @ take k held\<rparr>) (put_phase s (Copying (drop k held)) st)) else None
      | _ \<Rightarrow> None))"

definition copy_end :: "side \<Rightarrow> splice \<Rightarrow> splice option" where
  "copy_end s st = (let e = sp_end st s; d = sp_end st (other s) in
     (case sp_phase st s of
        Copying held \<Rightarrow>
          if (if held = [] then e_closed e \<or> e_broken e \<or> (e_eof e \<and> unread e = []) else e_closed d \<or> e_broken d)
          then Some (put_phase s Ending st) else None
      | _ \<Rightarrow> None))"

definition closeWriter :: "endpoint \<Rightarrow> endpoint" where
  "closeWriter e = (if e_half e then e\<lparr>e_wr_closed := True\<rparr> else e\<lparr>e_closed := True\<rparr>)"

definition copy_done :: "side \<Rightarrow> splice \<Rightarrow> splice option" where
  "copy_done s st = (if sp_phase st s = Ending
     then Some (put_end (other s) (closeWriter (sp_end st (other s))) (put_phase s Finished st)) else None)"

text \<open>\<open>wg.Wait()\<close> returns.\<close>

definition returned :: "splice \<Rightarrow> bool" where
  "returned st \<longleftrightarrow> (\<forall>s\<in>{Conn, Backend}. sp_phase st s = Finished)"

datatype sp_event = CopierRead side nat | CopierWrite side nat | CopierEnd side | CopierDone side
  | PeerSends side bytes | PeerEnds side | Breaks side | Shut side

fun sp_next :: "sp_event \<Rightarrow> splice \<Rightarrow> splice option" where
  "sp_next (CopierRead s n) st = copy_read s n st"
| "sp_next (CopierWrite s k) st = copy_write s k st"
| "sp_next (CopierEnd s) st = copy_end s st"
| "sp_next (CopierDone s) st = copy_done s st"
| "sp_next (PeerSends s bs) st = (let e = sp_end st s in
     if e_eof e \<or> e_broken e then None else Some (put_end s (e\<lparr>e_sent := e_sent e @ bs\<rparr>) st))"
| "sp_next (PeerEnds s) st = Some (put_end s ((sp_end st s)\<lparr>e_eof := True\<rparr>) st)"
| "sp_next (Breaks s) st = Some (put_end s ((sp_end st s)\<lparr>e_broken := True\<rparr>) st)"
| "sp_next (Shut s) st = Some (put_end s ((sp_end st s)\<lparr>e_closed := True\<rparr>) st)"

fun copiers :: "sp_event \<Rightarrow> bool" where
  "copiers (PeerSends s bs) = False"
| "copiers (PeerEnds s) = False"
| "copiers (Breaks s) = False"
| "copiers (Shut s) = False"
| "copiers _ = True"

inductive sp_run :: "splice \<Rightarrow> sp_event list \<Rightarrow> splice \<Rightarrow> bool" for st0 where
  sp_start: "sp_run st0 [] st0"
| sp_extend: "\<lbrakk>sp_run st0 evs st; sp_next ev st = Some st'\<rbrakk> \<Longrightarrow> sp_run st0 (evs @ [ev]) st'"

section \<open>What is passed on\<close>

lemma other_simps [simp]: "other (other s) = s" "other s \<noteq> s" "s \<noteq> other s" "other s = other t \<longleftrightarrow> s = t"
  by (cases s; cases t; simp)+

lemma other_cases: "t = s \<or> t = other s"
  by (cases s; cases t) auto

lemma put_simps [simp]:
  "sp_end (put_end s e st) t = (if t = s then e else sp_end st t)" "sp_phase (put_end s e st) = sp_phase st"
  "sp_phase (put_phase s p st) t = (if t = s then p else sp_phase st t)" "sp_end (put_phase s p st) = sp_end st"
  by (simp_all add: put_end_def put_phase_def)

lemma closeWriter_simps [simp]:
  "e_sent (closeWriter e) = e_sent e" "e_read (closeWriter e) = e_read e" "e_eof (closeWriter e) = e_eof e"
  "e_broken (closeWriter e) = e_broken e" "e_out (closeWriter e) = e_out e" "unread (closeWriter e) = unread e"
  "e_closed (closeWriter e) \<longleftrightarrow> e_closed e \<or> \<not> e_half e"
  by (simp_all add: closeWriter_def unread_def)

text \<open>The invariant of one direction: what the destination got and the goroutine holds is what was read; a goroutine that has
  ended undisturbed has passed on everything.\<close>

definition passes :: "endpoint \<Rightarrow> endpoint \<Rightarrow> phase \<Rightarrow> bool" where
  "passes e d p \<longleftrightarrow> e_read e \<le> length (e_sent e) \<and> (case p of
     Copying held \<Rightarrow> e_out d @ held = take (e_read e) (e_sent e)
   | _ \<Rightarrow> prefix (e_out d) (e_sent e)
       \<and> (\<not> e_closed e \<and> \<not> e_closed d \<and> \<not> e_broken e \<and> \<not> e_broken d \<longrightarrow> e_eof e \<and> e_out d = e_sent e))"

definition sp_inv :: "splice \<Rightarrow> bool" where
  "sp_inv st \<longleftrightarrow> (\<forall>s. passes (sp_end st s) (sp_end st (other s)) (sp_phase st s))"

lemma passes_prefix: "passes e d p \<Longrightarrow> prefix (e_out d) (e_sent e)"
  by (auto simp: passes_def prefix_def split: phase.splits) (metis append.assoc append_take_drop_id)+

lemma sp_inv_start: "sp_inv (splice_start half)"
  by (simp add: sp_inv_def passes_def splice_start_def)

text \<open>What each event does to the two directions that an endpoint takes part in.\<close>

lemma passes_cong:
  "passes e d p \<Longrightarrow> e_sent e' = e_sent e \<Longrightarrow> e_read e' = e_read e \<Longrightarrow> e_out d' = e_out d
    \<Longrightarrow> (e_eof e \<longrightarrow> e_eof e') \<Longrightarrow> (e_closed e \<longrightarrow> e_closed e') \<Longrightarrow> (e_closed d \<longrightarrow> e_closed d')
    \<Longrightarrow> (e_broken e \<longrightarrow> e_broken e') \<Longrightarrow> (e_broken d \<longrightarrow> e_broken d') \<Longrightarrow> passes e' d' p"
  by (auto simp: passes_def split: phase.splits)

lemma passes_read:
  assumes "passes e d (Copying [])" and "n \<le> length (unread e)"
  shows "passes (e\<lparr>e_read := e_read e + n\<rparr>) d (Copying (take n (unread e)))"
  using assms by (auto simp: passes_def unread_def take_add)

lemma passes_write:
  "passes e d (Copying held) \<Longrightarrow> passes e (d\<lparr>e_out := e_out d @ take k held\<rparr>) (Copying (drop k held))"
  by (simp add: passes_def)

lemma passes_end:
  assumes "passes e d (Copying held)"
    and "if held = [] then e_closed e \<or> e_broken e \<or> (e_eof e \<and> unread e = []) else e_closed d \<or> e_broken d"
  shows "passes e d Ending"
  using assms passes_prefix [OF assms(1)] by (auto simp: passes_def unread_def split: if_splits)

lemma passes_done: "passes e d Ending \<Longrightarrow> passes e (closeWriter d) Finished"
  by (simp add: passes_def)

lemma passes_sent:
  assumes "passes e d p" and "\<not> e_eof e" "\<not> e_broken e"
  shows "passes (e\<lparr>e_sent := e_sent e @ bs\<rparr>) d p"
  using assms by (auto simp: passes_def split: phase.splits)

lemma sp_inv_step:
  assumes inv: "sp_inv st" and step: "sp_next ev st = Some st'"
  shows "sp_inv st'"
proof -
  have p: "passes (sp_end st s) (sp_end st (other s)) (sp_phase st s)" for s using inv by (simp add: sp_inv_def)
  have at_dest: "passes (sp_end st (other s)) d' (sp_phase st (other s))"
    if "e_out d' = e_out (sp_end st s)" "e_closed (sp_end st s) \<longrightarrow> e_closed d'" "e_broken (sp_end st s) \<longrightarrow> e_broken d'" for s d'
    using that passes_cong [OF p [of "other s"], of "sp_end st (other s)" d'] by simp
  have at_src: "passes e' (sp_end st (other s)) (sp_phase st s)"
    if "e_sent e' = e_sent (sp_end st s)" "e_read e' = e_read (sp_end st s)" "e_eof (sp_end st s) \<longrightarrow> e_eof e'"
      "e_closed (sp_end st s) \<longrightarrow> e_closed e'" "e_broken (sp_end st s) \<longrightarrow> e_broken e'" for s e'
    using that passes_cong [OF p [of s], of e' "sp_end st (other s)"] by simp
  have "passes (sp_end st' t) (sp_end st' (other t)) (sp_phase st' t)" for t
  proof (cases ev)
    case (CopierRead s n)
    then show ?thesis using step p [of s] p [of "other s"] other_cases [of t s]
      by (auto simp: copy_read_def Let_def intro!: passes_read at_dest split: if_splits)
  next
    case (CopierWrite s k)
    then show ?thesis using step p [of s] p [of "other s"] other_cases [of t s]
      by (auto simp: copy_write_def Let_def intro!: passes_write at_src [of _ "other s", simplified] split: if_splits phase.splits)
  next
    case (CopierEnd s)
    then show ?thesis using step p [of s] p [of "other s"] other_cases [of t s] passes_end [of "sp_end st s" "sp_end st (other s)"]
      by (auto simp: copy_end_def Let_def split: if_splits phase.splits)
  next
    case (CopierDone s)
    then show ?thesis using step p [of s] other_cases [of t s]
      by (auto simp: copy_done_def intro!: passes_done at_src [of _ "other s", simplified] split: if_splits)
  next
    case (PeerSends s bs)
    then show ?thesis using step p [of s] p [of "other s"] other_cases [of t s]
      by (auto simp: Let_def intro!: passes_sent at_dest split: if_splits)
  next
    case (PeerEnds s)
    then show ?thesis using step p [of t] other_cases [of t s] by (auto intro!: at_src at_dest)
  next
    case (Breaks s)
    then show ?thesis using step p [of t] other_cases [of t s] by (auto intro!: at_src at_dest)
  next
    case (Shut s)
    then show ?thesis using step p [of t] other_cases [of t s] by (auto intro!: at_src at_dest)
  qed
  then show ?thesis by (simp add: sp_inv_def)
qed

lemma sp_run_inv: "sp_run st0 evs st \<Longrightarrow> sp_inv st0 \<Longrightarrow> sp_inv st"
  by (induction rule: sp_run.induct) (auto intro: sp_inv_step)

section \<open>How long it lasts\<close>

text \<open>No more can come from the peer of an ended side; the steps that a goroutine has left then.\<close>

definition ended :: "endpoint \<Rightarrow> bool" where
  "ended e \<longleftrightarrow> e_eof e \<or> e_broken e \<or> e_closed e"

definition work :: "side \<Rightarrow> splice \<Rightarrow> nat" where
  "work s st = (case sp_phase st s of
     Copying held \<Rightarrow> 2 + (if e_closed (sp_end st (other s)) then 0 else length held)
       + 2 * (if e_closed (sp_end st s) then 0 else length (unread (sp_end st s)))
   | Ending \<Rightarrow> 1 | Finished \<Rightarrow> 0)"

definition total_work :: "splice \<Rightarrow> nat" where
  "total_work st = work Conn st + work Backend st"

lemma total_work_side: "total_work st = work s st + work (other s) st"
  by (cases s) (simp_all add: total_work_def)

lemma unread_simps [simp]:
  "unread (e\<lparr>e_read := e_read e + n\<rparr>) = drop n (unread e)" "unread (e\<lparr>e_out := bs\<rparr>) = unread e"
  "unread (e\<lparr>e_eof := b\<rparr>) = unread e" "unread (e\<lparr>e_broken := b\<rparr>) = unread e" "unread (e\<lparr>e_closed := b\<rparr>) = unread e"
  by (simp_all add: unread_def add.commute)

lemma copy_SomeE:
  assumes "copy_read s n st = Some st'"
  obtains "sp_phase st s = Copying []" "\<not> e_closed (sp_end st s)" "0 < n" "n \<le> length (unread (sp_end st s))"
    "st' = put_end s ((sp_end st s)\<lparr>e_read := e_read (sp_end st s) + n\<rparr>) (put_phase s (Copying (take n (unread (sp_end st s)))) st)"
  using assms by (simp add: copy_read_def Let_def split: if_splits)

lemma write_SomeE:
  assumes "copy_write s k st = Some st'"
  obtains held where "sp_phase st s = Copying held" "\<not> e_closed (sp_end st (other s))" "0 < k" "k \<le> length held"
    "st' = put_end (other s) ((sp_end st (other s))\<lparr>e_out := e_out (sp_end st (other s)) @ take k held\<rparr>)
      (put_phase s (Copying (drop k held)) st)"
  using assms by (simp add: copy_write_def Let_def split: if_splits phase.splits)

lemma end_SomeE:
  assumes "copy_end s st = Some st'"
  obtains held where "sp_phase st s = Copying held" "st' = put_phase s Ending st"
  using assms by (simp add: copy_end_def Let_def split: if_splits phase.splits)

lemma done_SomeE:
  assumes "copy_done s st = Some st'"
  obtains "sp_phase st s = Ending" "st' = put_end (other s) (closeWriter (sp_end st (other s))) (put_phase s Finished st)"
  using assms by (simp add: copy_done_def split: if_splits)

text \<open>Another goroutine's work does not grow when closed ends stay closed and nothing new is to be read.\<close>

lemma work_mono:
  assumes "sp_phase st' t = sp_phase st t" and "\<And>s. e_closed (sp_end st s) \<Longrightarrow> e_closed (sp_end st' s)"
    and "\<not> e_closed (sp_end st' t) \<Longrightarrow> length (unread (sp_end st' t)) \<le> length (unread (sp_end st t))"
  shows "work t st' \<le> work t st"
  using assms(1,3) assms(2) [of t] assms(2) [of "other t"] by (auto simp: work_def split: phase.split)

lemma copier_work:
  "copy_read s n st = Some st' \<Longrightarrow> work s st' < work s st \<and> work (other s) st' \<le> work (other s) st"
  "copy_write s n st = Some st' \<Longrightarrow> work s st' < work s st \<and> work (other s) st' \<le> work (other s) st"
  "copy_end s st = Some st' \<Longrightarrow> work s st' < work s st \<and> work (other s) st' \<le> work (other s) st"
  "copy_done s st = Some st' \<Longrightarrow> work s st' < work s st \<and> work (other s) st' \<le> work (other s) st"
proof -
  show "copy_read s n st = Some st' \<Longrightarrow> work s st' < work s st \<and> work (other s) st' \<le> work (other s) st"
    by (elim copy_SomeE, intro conjI work_mono) (auto simp: work_def [of s])
  show "copy_write s n st = Some st' \<Longrightarrow> work s st' < work s st \<and> work (other s) st' \<le> work (other s) st"
    by (elim write_SomeE, intro conjI work_mono) (auto simp: work_def [of s])
  show "copy_end s st = Some st' \<Longrightarrow> work s st' < work s st \<and> work (other s) st' \<le> work (other s) st"
    by (elim end_SomeE, intro conjI work_mono) (auto simp: work_def [of s])
  show "copy_done s st = Some st' \<Longrightarrow> work s st' < work s st \<and> work (other s) st' \<le> work (other s) st"
    by (elim done_SomeE, intro conjI work_mono) (auto simp: work_def [of s])
qed

lemma env_work:
  assumes "\<not> copiers ev" and "sp_next ev st = Some st'" and "\<And>s. ended (sp_end st s)"
  shows "work s st' \<le> work s st"
proof (rule work_mono)
  show "sp_phase st' s = sp_phase st s" using assms(1,2) by (cases ev) (auto simp: Let_def split: if_splits)
  show "e_closed (sp_end st t) \<Longrightarrow> e_closed (sp_end st' t)" for t
    using assms(1,2) by (cases ev) (auto simp: Let_def split: if_splits)
  show "\<not> e_closed (sp_end st' s) \<Longrightarrow> length (unread (sp_end st' s)) \<le> length (unread (sp_end st s))"
    using assms(1,2) assms(3) [of s] by (cases ev) (auto simp: ended_def Let_def split: if_splits)
qed

lemma work_step:
  assumes "sp_next ev st = Some st'" and "\<And>s. ended (sp_end st s)"
  shows "total_work st' + (if copiers ev then 1 else 0) \<le> total_work st"
proof (cases "copiers ev")
  case True
  then obtain s where "work s st' < work s st \<and> work (other s) st' \<le> work (other s) st"
    using assms(1) copier_work by (cases ev) fastforce+
  then show ?thesis using True by (simp add: total_work_side [of _ s])
next
  case False
  then show ?thesis using env_work [OF False assms] by (simp add: total_work_def add_mono)
qed

lemma ended_step:
  assumes "sp_next ev st = Some st'" and "\<And>s. ended (sp_end st s)"
  shows "ended (sp_end st' t)"
  using assms(1) assms(2) [of t]
  by (cases ev) (auto simp: ended_def copy_read_def copy_write_def copy_end_def copy_done_def Let_def
      split: phase.splits if_splits)

lemma work_run:
  "sp_run st evs st' \<Longrightarrow> (\<And>s. ended (sp_end st s)) \<Longrightarrow>
    total_work st' + length (filter copiers evs) \<le> total_work st \<and> (\<forall>s. ended (sp_end st' s))"
proof (induction rule: sp_run.induct)
  case (sp_extend evs st1 ev st2)
  then have "total_work st1 + length (filter copiers evs) \<le> total_work st" "\<And>s. ended (sp_end st1 s)" by auto
  with work_step [OF sp_extend.hyps(2)] ended_step [OF sp_extend.hyps(2)] show ?case by fastforce
qed simp

lemma copier_can_go_on:
  assumes "ended (sp_end st s)" and "sp_phase st s \<noteq> Finished"
  shows "\<exists>ev. copiers ev \<and> sp_next ev st \<noteq> None"
proof (cases "sp_phase st s")
  case (Copying held)
  then have "copy_end s st \<noteq> None \<or> copy_read s (length (unread (sp_end st s))) st \<noteq> None
      \<or> copy_write s (length held) st \<noteq> None"
    using assms(1) by (cases "held = []") (auto simp: copy_end_def copy_read_def copy_write_def ended_def Let_def)
  then consider "copy_end s st \<noteq> None" | "copy_read s (length (unread (sp_end st s))) st \<noteq> None"
    | "copy_write s (length held) st \<noteq> None" by blast
  then show ?thesis by cases (metis copiers.simps sp_next.simps(1-3))+
next
  case Ending
  then have "sp_next (CopierDone s) st \<noteq> None" by (simp add: copy_done_def)
  then show ?thesis by (metis copiers.simps(8))
qed (use assms in simp)

section \<open>Who closes what\<close>

lemma closed_by:
  "sp_run (splice_start half) evs st \<Longrightarrow> e_half (sp_end st s) = half s
    \<and> (e_closed (sp_end st s) \<longrightarrow> Shut s \<in> set evs \<or> \<not> half s) \<and> (e_broken (sp_end st s) \<longrightarrow> Breaks s \<in> set evs)"
proof (induction rule: sp_run.induct)
  case (sp_extend evs st ev st')
  from sp_extend.hyps(2) sp_extend.IH show ?case
    by (cases ev) (auto simp: copy_read_def copy_write_def copy_end_def copy_done_def closeWriter_def Let_def
      split: phase.splits if_splits)
qed (simp add: splice_start_def)

text \<open>Running a list of events, for examples.\<close>

definition sp_exec :: "sp_event list \<Rightarrow> splice \<Rightarrow> splice option" where
  "sp_exec evs st = foldl (\<lambda>r ev. case r of None \<Rightarrow> None | Some st \<Rightarrow> sp_next ev st) (Some st) evs"

lemma sp_exec_run: "sp_exec evs st = Some st' \<Longrightarrow> sp_run st evs st'"
proof (induction evs arbitrary: st' rule: rev_induct)
  case (snoc ev evs)
  then show ?case by (auto simp: sp_exec_def intro: sp_extend split: option.splits)
qed (simp add: sp_exec_def sp_start)

section \<open>Properties\<close>

text \<open>
  C14: a proxied TCP connection carries bytes faithfully. However the copying goroutines, the peers and whoever closes the flow
  take turns, each peer has received a prefix of what the other sent, in order and unchanged. If nobody closed the flow, no
  connection broke and both can close their writing half, then a direction whose goroutine has ended has passed on everything,
  and its source had ended: one direction's end cuts nothing off the other.
\<close>

theorem splice_faithful:
  assumes "sp_run (splice_start half) evs st"
  shows "prefix (e_out (sp_end st (other s))) (e_sent (sp_end st s))
    \<and> ((\<forall>t. half t \<and> Shut t \<notin> set evs \<and> Breaks t \<notin> set evs) \<and> sp_phase st s \<in> {Ending, Finished}
      \<longrightarrow> e_eof (sp_end st s) \<and> e_out (sp_end st (other s)) = e_sent (sp_end st s))"
proof -
  have p: "passes (sp_end st s) (sp_end st (other s)) (sp_phase st s)"
    using sp_run_inv [OF assms sp_inv_start] by (simp add: sp_inv_def)
  moreover have "e_eof (sp_end st s) \<and> e_out (sp_end st (other s)) = e_sent (sp_end st s)"
    if "\<forall>t. half t \<and> Shut t \<notin> set evs \<and> Breaks t \<notin> set evs" "sp_phase st s \<in> {Ending, Finished}"
    using that p closed_by [OF assms, of s] closed_by [OF assms, of "other s"] by (auto simp: passes_def)
  ultimately show ?thesis using passes_prefix by blast
qed

definition w_splice :: "sp_event list" where
  "w_splice = [PeerSends Conn [1, 2], CopierRead Conn 2, PeerEnds Conn, CopierWrite Conn 1, CopierWrite Conn 1, CopierEnd Conn,
     CopierDone Conn, PeerSends Backend [3], CopierRead Backend 1, CopierWrite Backend 1]"

lemma w_splice_run: "\<exists>st. sp_exec w_splice (splice_start (\<lambda>_. True)) = Some st \<and> sp_phase st Conn = Finished
    \<and> e_sent (sp_end st Conn) = [1, 2]"
  by (simp add: sp_exec_def w_splice_def copy_read_def copy_write_def copy_end_def copy_done_def splice_start_def put_end_def
      put_phase_def unread_def closeWriter_def)

theorem splice_faithful_witness:
  "\<exists>st. sp_exec w_splice (splice_start (\<lambda>_. True)) = Some st \<and> e_out (sp_end st Backend) = [1, 2]"
proof -
  obtain st where st: "sp_exec w_splice (splice_start (\<lambda>_. True)) = Some st" "sp_phase st Conn = Finished"
    "e_sent (sp_end st Conn) = [1, 2]"
    using w_splice_run by blast
  then have "e_out (sp_end st (other Conn)) = e_sent (sp_end st Conn)"
    using splice_faithful [OF sp_exec_run [OF st(1)], of Conn] by (auto simp: w_splice_def)
  then show ?thesis using st by simp
qed

text \<open>
  C15: \<open>splice\<close> returns. Once each connection has ended, because its peer closed it, it broke, or it was closed here, the
  goroutines take at most \<open>total_work\<close> more steps, whatever else happens, and as long as \<open>splice\<close> has not returned one of them
  can take a step. When the flow is closed, as \<open>Reap\<close> does to a flow whose access was revoked, that is at most four steps,
  however much is still to be copied.
\<close>

theorem splice_returns:
  assumes "sp_run st evs st'" and "\<And>s. ended (sp_end st s)"
  shows "length (filter copiers evs) \<le> total_work st
    \<and> ((\<forall>s. e_closed (sp_end st s)) \<longrightarrow> total_work st \<le> 4)
    \<and> (returned st' \<or> (\<exists>ev. copiers ev \<and> sp_next ev st' \<noteq> None))"
proof -
  note r = work_run [OF assms]
  have "(\<forall>s. e_closed (sp_end st s)) \<longrightarrow> total_work st \<le> 4"
    by (auto simp: total_work_def work_def split: phase.split)
  moreover have "returned st' \<or> (\<exists>ev. copiers ev \<and> sp_next ev st' \<noteq> None)"
    using copier_can_go_on r unfolding returned_def by blast
  ultimately show ?thesis using r by simp
qed

theorem splice_returns_witness:
  "\<exists>st st'. sp_exec (w_splice @ [Shut Conn, Shut Backend]) (splice_start (\<lambda>_. True)) = Some st
    \<and> sp_run st [CopierEnd Backend, CopierDone Backend] st' \<and> returned st' \<and> 2 \<le> total_work st \<and> total_work st \<le> 4"
proof -
  note d = sp_exec_def w_splice_def copy_read_def copy_write_def copy_end_def copy_done_def splice_start_def put_end_def
    put_phase_def unread_def closeWriter_def returned_def
  have c: "\<exists>st. sp_exec (w_splice @ [Shut Conn, Shut Backend]) (splice_start (\<lambda>_. True)) = Some st
      \<and> (\<forall>s\<in>{Conn, Backend}. e_closed (sp_end st s)) \<and> (\<exists>st'. sp_exec [CopierEnd Backend, CopierDone Backend] st = Some st' \<and> returned st')"
    by (simp add: d)
  then obtain st st' where st: "sp_exec (w_splice @ [Shut Conn, Shut Backend]) (splice_start (\<lambda>_. True)) = Some st"
    "\<forall>s\<in>{Conn, Backend}. e_closed (sp_end st s)" "sp_exec [CopierEnd Backend, CopierDone Backend] st = Some st'" "returned st'"
    by blast
  have cl: "e_closed (sp_end st s)" for s using st(2) by (cases s) auto
  then have "ended (sp_end st s)" for s by (simp add: ended_def)
  note r = splice_returns [OF sp_exec_run [OF st(3)] this]
  show ?thesis using st sp_exec_run [OF st(3)] r cl by auto
qed

end
