(* ===== verification/FlowTable.thy ===== *)
theory FlowTable
  imports PolicyCheck "HOL-Library.Word"
begin

text \<open>
  \<open>daemon/policy/flowtable.go\<close>: the table of live connections, with 64-bit flow ids, and its
  \<open>Reap\<close>, which drops the flows that the current policy no longer allows. Every method holds
  the table's mutex, so each is one step. A flow's \<open>Close\<close> closure is a handle (\<open>None\<close> for
  nil) and \<open>Reap\<close> returns the handles it calls.
\<close>

section \<open>Model\<close>

record flow =
  f_user :: int
  f_object_type :: string
  f_object :: int
  f_port :: int
  f_protocol :: string
  f_src_addr :: string
  f_backend :: string
  f_close :: "nat option"

record flow_table =
  ft_next :: "64 word"
  ft_flows :: "(64 word \<times> flow) list"

definition NewFlowTable :: flow_table where
  "NewFlowTable = \<lparr>ft_next = 0, ft_flows = []\<rparr>"

definition ft_Len :: "flow_table \<Rightarrow> nat" where
  "ft_Len t = length (ft_flows t)"

record flow_snapshot =
  fs_id :: "64 word"
  fs_user :: int
  fs_object_type :: string
  fs_object :: int
  fs_port :: int
  fs_protocol :: string
  fs_src_addr :: string
  fs_backend :: string

definition ft_Snapshot :: "flow_table \<Rightarrow> flow_snapshot list" where
  "ft_Snapshot t = map (\<lambda>(i, f). \<lparr>fs_id = i, fs_user = f_user f,
     fs_object_type = f_object_type f, fs_object = f_object f, fs_port = f_port f,
     fs_protocol = f_protocol f, fs_src_addr = f_src_addr f, fs_backend = f_backend f\<rparr>)
     (ft_flows t)"

definition ft_Add :: "flow \<Rightarrow> flow_table \<Rightarrow> 64 word \<times> flow_table" where
  "ft_Add f t = (let i = ft_next t + 1 in
     (i, t\<lparr>ft_next := i, ft_flows := AList.update i f (ft_flows t)\<rparr>))"

definition ft_Remove :: "64 word \<Rightarrow> flow_table \<Rightarrow> flow_table" where
  "ft_Remove i t = t\<lparr>ft_flows := AList.delete i (ft_flows t)\<rparr>"

definition flow_allowed :: "index \<Rightarrow> flow \<Rightarrow> bool" where
  "flow_allowed idx f = (case map_of (UserByID idx) (f_user f) of None \<Rightarrow> False
     | Some user \<Rightarrow>
        if f_object_type f = ''service'' then
          (case map_of (ServiceByID idx) (f_object f) of None \<Rightarrow> False
           | Some svc \<Rightarrow>
              fst (CheckService idx (us_addr user) (ss_ip svc) (f_port f) (f_protocol f)) = Allow)
        else if f_object_type f = ''user'' then
          (case map_of (UserByID idx) (f_object f) of None \<Rightarrow> False
           | Some dst \<Rightarrow> fst (CheckPeer idx (us_addr user) (us_addr dst)) = Allow)
        else False)"

definition ft_Reap :: "index \<Rightarrow> flow_table \<Rightarrow> flow_table \<times> nat list" where
  "ft_Reap idx t =
    (let dead = filter (\<lambda>(i, f). \<not> flow_allowed idx f) (ft_flows t) in
     (t\<lparr>ft_flows := foldl (\<lambda>fs i. AList.delete i fs) (ft_flows t) (map fst dead)\<rparr>,
      concat (map (\<lambda>(i, f). case f_close f of None \<Rightarrow> [] | Some c \<Rightarrow> [c]) dead)))"

section \<open>Lemmas\<close>

text \<open>Ids are distinct and at most the counter.\<close>

definition ft_wf :: "flow_table \<Rightarrow> bool" where
  "ft_wf t \<longleftrightarrow> distinct (map fst (ft_flows t)) \<and> (\<forall>i\<in>fst ` set (ft_flows t). 0 < i \<and> i \<le> ft_next t)"

lemma set_delete_fst: "fst ` set (AList.delete k al) = fst ` set al - {k}"
  by (induction al) auto

lemma foldl_delete:
  "foldl (\<lambda>fs i. AList.delete i fs) fs is = filter (\<lambda>(i, f). i \<notin> set is) fs"
proof (induction "is" arbitrary: fs)
  case (Cons i "is")
  have "AList.delete i fs = filter (\<lambda>(j, f). i \<noteq> j) fs"
    by (simp add: AList.delete_eq)
  then show ?case using Cons by (simp add: case_prod_beta conj_commute eq_commute)
qed simp

lemma Reap_flows:
  assumes "ft_wf t"
  shows "ft_flows (fst (ft_Reap idx t)) = filter (\<lambda>(i, f). flow_allowed idx f) (ft_flows t)"
proof -
  have "i \<notin> fst ` set (filter (\<lambda>(i, f). \<not> flow_allowed idx f) (ft_flows t)) \<longleftrightarrow> flow_allowed idx f"
    if "(i, f) \<in> set (ft_flows t)" for i f
  proof -
    have u: "f' = f" if "(i, f') \<in> set (ft_flows t)" for f'
      using assms that \<open>(i, f) \<in> set (ft_flows t)\<close>
      by (auto simp: ft_wf_def dest: eq_key_imp_eq_value)
    have "i \<in> fst ` set (filter (\<lambda>(i, f). \<not> flow_allowed idx f) (ft_flows t)) \<longleftrightarrow>
        (\<exists>f'. (i, f') \<in> set (ft_flows t) \<and> \<not> flow_allowed idx f')"
      by (auto simp: image_iff)
    also have "\<dots> \<longleftrightarrow> \<not> flow_allowed idx f" using u that by blast
    finally show ?thesis by simp
  qed
  then have "filter (\<lambda>(i, f). i \<notin> fst ` set (filter (\<lambda>(i, f). \<not> flow_allowed idx f) (ft_flows t))) (ft_flows t)
      = filter (\<lambda>(i, f). flow_allowed idx f) (ft_flows t)"
    by (intro filter_cong) auto
  then show ?thesis by (simp add: ft_Reap_def Let_def foldl_delete)
qed

lemma word64_next:
  fixes n :: "64 word"
  assumes "n \<noteq> -1"
  shows "n < n + 1"
proof -
  have "1 + n \<noteq> 0" using assms by (simp add: add_eq_0_iff)
  then have "unat (1 + n) = Suc (unat n)" by (rule unatSuc)
  then show ?thesis by (simp add: word_less_nat_alt add.commute)
qed

lemma ft_wf_new: "ft_wf NewFlowTable"
  by (simp add: ft_wf_def NewFlowTable_def)

lemma ft_wf_Add:
  assumes "ft_wf t" "ft_next t \<noteq> -1"
  shows "ft_wf (snd (ft_Add f t))" "fst (ft_Add f t) \<notin> fst ` set (ft_flows t)"
proof -
  have lt: "ft_next t < ft_next t + 1" by (rule word64_next [OF assms(2)])
  then show fresh: "fst (ft_Add f t) \<notin> fst ` set (ft_flows t)"
    using assms(1) by (auto simp: ft_Add_def Let_def ft_wf_def)
  have "\<And>i. i \<le> ft_next t \<Longrightarrow> i \<le> ft_next t + 1" using lt by (meson less_imp_le order_trans)
  moreover have "0 < ft_next t + 1"
    using lt by (metis le_less_trans word_zero_le)
  ultimately show "ft_wf (snd (ft_Add f t))"
    using assms(1) by (auto simp: ft_Add_def Let_def ft_wf_def distinct_update AList.dom_update)
qed

lemma ft_wf_Remove: "ft_wf t \<Longrightarrow> ft_wf (ft_Remove i t)"
  by (auto simp: ft_Remove_def ft_wf_def AList.distinct_delete set_delete_fst)

lemma ft_wf_Reap: "ft_wf t \<Longrightarrow> ft_wf (fst (ft_Reap idx t))"
proof -
  assume wf: "ft_wf t"
  have "ft_next (fst (ft_Reap idx t)) = ft_next t" by (simp add: ft_Reap_def Let_def)
  then show ?thesis
    using wf Reap_flows [OF wf, of idx] by (auto simp: ft_wf_def distinct_map_filter)
qed

text \<open>What a table of flows promises its clients, and what follows for them.\<close>

locale flow_store =
  fixes inv :: "'t \<Rightarrow> bool" and full :: "'t \<Rightarrow> bool"
    and flow_of :: "'t \<Rightarrow> 'i \<Rightarrow> flow option"
    and add :: "flow \<Rightarrow> 't \<Rightarrow> 'i \<times> 't" and remove :: "'i \<Rightarrow> 't \<Rightarrow> 't"
  assumes inv_add: "\<lbrakk>inv t; \<not> full t; add f t = (i, t')\<rbrakk> \<Longrightarrow> inv t'"
    and inv_remove: "inv t \<Longrightarrow> inv (remove i t)"
    and add_fresh: "\<lbrakk>inv t; \<not> full t; add f t = (i, t')\<rbrakk> \<Longrightarrow> flow_of t i = None"
    and of_add: "\<lbrakk>inv t; \<not> full t; add f t = (i, t')\<rbrakk> \<Longrightarrow> flow_of t' = (flow_of t)(i := Some f)"
    and of_remove: "inv t \<Longrightarrow> flow_of (remove i t) = (flow_of t)(i := None)"
begin

text \<open>A handler that adds a flow and removes it leaves the other flows alone.\<close>

lemma add_remove:
  "\<lbrakk>inv t; \<not> full t; add f t = (i, t')\<rbrakk> \<Longrightarrow> flow_of (remove i t') = flow_of t \<and> inv (remove i t')"
  using add_fresh [of t f i t'] of_add [of t f i t'] of_remove [of t' i] inv_add [of t f i t']
    inv_remove [of t' i]
  by (auto simp: fun_eq_iff)

lemma add_keeps_others:
  "\<lbrakk>inv t; \<not> full t; add f t = (i, t'); flow_of t j = Some g\<rbrakk> \<Longrightarrow> flow_of t' j = Some g \<and> j \<noteq> i"
  using add_fresh [of t f i t'] of_add [of t f i t'] by auto

end

interpretation ft: flow_store ft_wf "\<lambda>t. ft_next t = -1" "\<lambda>t. map_of (ft_flows t)" ft_Add ft_Remove
proof unfold_locales
  fix t f i t'
  assume wf: "ft_wf t" and n: "ft_next t \<noteq> -1" and add: "ft_Add f t = (i, t')"
  show "ft_wf t'" using ft_wf_Add(1) [OF wf n, of f] add by simp
  show "map_of (ft_flows t) i = None"
    using ft_wf_Add(2) [OF wf n, of f] add by (simp add: map_of_eq_None_iff)
  show "map_of (ft_flows t') = (map_of (ft_flows t))(i := Some f)"
    using add by (auto simp: ft_Add_def Let_def update_conv')
next
  fix t i
  assume "ft_wf t"
  then show "ft_wf (ft_Remove i t)" by (rule ft_wf_Remove)
  show "map_of (ft_flows (ft_Remove i t)) = (map_of (ft_flows t))(i := None)"
    by (simp add: ft_Remove_def delete_conv')
qed

section \<open>Reaping\<close>

text \<open>What a flow may be, in terms of the database.\<close>

definition flow_access :: "db \<Rightarrow> flow \<Rightarrow> bool" where
  "flow_access d f \<longleftrightarrow> (\<exists>u\<in>set (t_users d). u_id u = f_user f \<and>
     ((f_object_type f = ''service'' \<and> (\<exists>s\<in>set (t_services d). s_id s = f_object f
         \<and> service_access d (u_ip u) (s_ip s) (f_port f) (f_protocol f)))
      \<or> (f_object_type f = ''user'' \<and> (\<exists>v\<in>set (t_users d). u_id v = f_object f
         \<and> peer_access d (u_ip u) (u_ip v)))))"

lemma ex_row:
  assumes "distinct (map key t)"
  shows "(\<exists>r\<in>set t. key r = k \<and> P r) \<longleftrightarrow> (case row_by key k t of None \<Rightarrow> False | Some r \<Rightarrow> P r)"
proof (cases "row_by key k t")
  case None
  then have "k \<notin> key ` set t" by (simp add: row_by_None)
  then show ?thesis using None by auto
next
  case (Some r)
  have "r \<in> set t" "key r = k" using Some by (auto dest: row_by_Some)
  moreover have "r' = r" if "r' \<in> set t" "key r' = k" for r'
    using row_by_unique [OF assms that(1)] that(2) Some by simp
  ultimately have "(\<exists>r\<in>set t. key r = k \<and> P r) \<longleftrightarrow> P r" by blast
  then show ?thesis using Some by simp
qed

lemma flow_allowed_access:
  assumes wf: "db_wf d" and idx: "index_of d idx"
  shows "flow_allowed idx f \<longleftrightarrow> flow_access d f"
proof -
  have user: "map_of (UserByID idx) i = map_option (\<lambda>r. user_snap (scanUser r)) (row_by u_id i (t_users d))" for i
    using idx by (auto simp: index_of_def)
  have svc: "map_of (ServiceByID idx) i =
        map_option (\<lambda>r. service_snap (service_view d r)) (row_by s_id i (t_services d))" for i
    using idx by (auto simp: index_of_def)
  show ?thesis
    unfolding flow_access_def ex_row [OF wf_keys(2) [OF wf]] ex_row [OF wf_keys(4) [OF wf]] flow_allowed_def user svc
    using CheckService_access [OF wf idx] CheckPeer_access [OF wf idx]
    by (cases "f_object_type f = ''service''"; cases "f_object_type f = ''user''")
      (simp_all split: option.split)
qed

section \<open>Properties\<close>

text \<open>
  C22: revocation. After \<open>Reap\<close> with the index built from a well-formed database, the flows of
  the table are exactly those that it had and that the database allows (by
  \<open>service_access\<close> and \<open>peer_access\<close> on the current addresses of the flow's user and
  object), under their old ids; and the connections it closes are exactly those of the flows it
  dropped, each once.
\<close>

theorem reap_correct:
  assumes "db_wf d" and "Build ev d = Inr idx" and "ft_wf t" and "ft_Reap idx t = (t', closed)"
  shows "ft_flows t' = filter (\<lambda>(i, f). flow_access d f) (ft_flows t) \<and> ft_wf t'
    \<and> closed = concat (map (\<lambda>(i, f). case f_close f of None \<Rightarrow> [] | Some c \<Rightarrow> [c])
        (filter (\<lambda>(i, f). \<not> flow_access d f) (ft_flows t)))"
proof -
  have "flow_allowed idx = flow_access d"
    using flow_allowed_access [OF assms(1) Build_index_of [OF assms(1,2)]] by (simp add: fun_eq_iff)
  then show ?thesis
    using Reap_flows [OF assms(3), of idx] ft_wf_Reap [OF assms(3), of idx] assms(4)
    by (auto simp: ft_Reap_def Let_def)
qed

definition w_flow :: flow where
  "w_flow = \<lparr>f_user = 1, f_object_type = ''service'', f_object = 1, f_port = 80,
     f_protocol = ''tcp'', f_src_addr = ''1'', f_backend = ''b'', f_close = Some 7\<rparr>"

definition w_flow2 :: flow where
  "w_flow2 = \<lparr>f_user = 9, f_object_type = ''service'', f_object = 1, f_port = 80,
     f_protocol = ''tcp'', f_src_addr = ''1'', f_backend = ''b'', f_close = Some 8\<rparr>"

definition w_table :: flow_table where
  "w_table = \<lparr>ft_next = 2, ft_flows = [(1, w_flow), (2, w_flow2)]\<rparr>"

lemma w_table_wf: "ft_wf w_table"
  by (simp add: w_table_def ft_wf_def)

lemma w_flow_access: "flow_access w_db w_flow" "\<not> flow_access w_db w_flow2"
  by (simp_all add: flow_access_def w_flow_def w_flow2_def service_access_def w_db_def w_user_def
      w_service_def empty_db_def port_open_def rules_allow_def decides_def applies_def w_rule_def
      user_refs_def service_refs_def)

theorem reap_correct_witness:
  "\<exists>idx. Build quiet_env w_db = Inr idx \<and> snd (ft_Reap idx w_table) = [8]
     \<and> ft_flows (fst (ft_Reap idx w_table)) = [(1, w_flow)]"
proof -
  obtain idx where b: "Build quiet_env w_db = Inr idx" using w_build by blast
  obtain t' closed where r: "ft_Reap idx w_table = (t', closed)" by (cases "ft_Reap idx w_table")
  show ?thesis
    using reap_correct [OF w_db_wf b w_table_wf r] b r w_flow_access
    by (auto simp: w_table_def w_flow2_def)
qed

text \<open>
  Flow ids are fresh while fewer than 2^64 - 1 flows have been added: \<open>Add\<close> gives an id
  that no live flow has and stores the flow under it, other flows stay as they are, and
  removing that id again restores the table's contents exactly, so a handler's deferred
  \<open>Remove\<close> never hits another connection.
\<close>

theorem flow_ids_fresh:
  assumes "ft_wf t" and "ft_next t \<noteq> -1" and "ft_Add f t = (i, t')"
  shows "ft_wf t' \<and> map_of (ft_flows t) i = None \<and> map_of (ft_flows t') i = Some f
    \<and> (\<forall>j g. map_of (ft_flows t) j = Some g \<longrightarrow> map_of (ft_flows t') j = Some g)
    \<and> map_of (ft_flows (ft_Remove i t')) = map_of (ft_flows t)"
  using ft.inv_add [OF assms] ft.add_fresh [OF assms] ft.of_add [OF assms]
    ft.add_keeps_others [OF assms] ft.add_remove [OF assms]
  by auto

theorem flow_ids_fresh_witness:
  "map_of (ft_flows (ft_Remove 3 (snd (ft_Add w_flow w_table)))) = map_of (ft_flows w_table)"
  using flow_ids_fresh [OF w_table_wf, of w_flow 3 "snd (ft_Add w_flow w_table)"]
  by (simp add: w_table_def ft_Add_def Let_def)

end
