(* ===== verification/Wire.thy ===== *)
theory Wire
  imports Main
begin

text \<open>
  \<open>shared/wire/wire.go\<close>: the JSON objects of the daemon's API, as records. An optional field
  of a request (a Go pointer) is an option; a missing plain field decodes to its zero value.
  Times are counted in seconds, the zero time being \<open>None\<close>.
\<close>

record wire_user =
  wu_id :: int
  wu_name :: string
  wu_email :: string
  wu_public_key :: string
  wu_preshared_key :: string
  wu_ip :: string
  wu_endpoint :: string
  wu_migrated :: bool
  wu_created :: string
  wu_updated :: string

record create_user_req =
  cur_name :: string
  cur_email :: string
  cur_ip :: string
  cur_endpoint :: string

record update_user_req =
  uur_name :: "string option"
  uur_email :: "string option"
  uur_endpoint :: "string option"

record wire_port =
  wp_port :: int
  wp_protocol :: string

record wire_service =
  ws_id :: int
  ws_name :: string
  ws_hostname :: string
  ws_origin_kind :: string
  ws_origin_value :: string
  ws_origin_network :: string
  ws_ip :: string
  ws_description :: string
  ws_ports :: "wire_port list"
  ws_created :: string
  ws_updated :: string

record create_service_req =
  csr_name :: string
  csr_origin_kind :: string
  csr_origin_value :: string
  csr_origin_network :: string
  csr_ports :: string
  csr_hostname :: string
  csr_ip :: string
  csr_description :: string

record update_service_req =
  usr_name :: "string option"
  usr_hostname :: "string option"
  usr_origin_kind :: "string option"
  usr_origin_value :: "string option"
  usr_origin_network :: "string option"
  usr_ip :: "string option"
  usr_description :: "string option"
  usr_ports :: "string option"

record container_summary =
  cs_cid :: string
  cs_cname :: string
  cs_networks :: "string list"
  cs_shared :: bool

record origin_check =
  oc_reachable :: bool
  oc_dial_host :: string
  oc_network :: string
  oc_detail :: string
  oc_error :: string

record wire_user_group =
  wg_id :: int
  wg_name :: string
  wg_lan_mode :: bool
  wg_created :: string
  wg_updated :: string

record create_user_group_req =
  cugr_name :: string
  cugr_lan_mode :: bool

record update_user_group_req =
  uugr_name :: "string option"
  uugr_lan_mode :: "bool option"

record user_group_member_req =
  ugm_user_id :: int
  ugm_user_name :: string

record wire_service_group =
  wsg_id :: int
  wsg_name :: string
  wsg_created :: string
  wsg_updated :: string

record service_group_member_req =
  sgm_service_id :: int
  sgm_service_name :: string

record wire_policy =
  wpo_id :: int
  wpo_subject_type :: string
  wpo_subject_id :: int
  wpo_subject_name :: string
  wpo_object_type :: string
  wpo_object_id :: int
  wpo_object_name :: string
  wpo_action :: string
  wpo_created :: string
  wpo_updated :: string

record create_policy_req =
  cpr_subject_type :: string
  cpr_subject_id :: int
  cpr_subject_name :: string
  cpr_object_type :: string
  cpr_object_id :: int
  cpr_object_name :: string
  cpr_action :: string

text \<open>\<open>Principal\<close> and \<open>Object\<close> have the same fields.\<close>

record wire_ref =
  wr_type :: string
  wr_id :: int
  wr_name :: string

record status_snapshot =
  st_running :: bool
  st_peers :: nat
  st_active_flows :: nat
  st_started_at :: int
  st_uptime_sec :: int
  st_wireguard_udp :: string
  st_socket_path :: string

record wire_peer =
  wpe_name :: string
  wpe_user_id :: int
  wpe_ip :: string
  wpe_public_key :: string
  wpe_preshared_key :: string
  wpe_allowed_ips :: "string list"
  wpe_endpoint :: string
  wpe_last_handshake :: "int option"
  wpe_last_handshake_ago :: int
  wpe_keepalive :: int
  wpe_rx_bytes :: nat
  wpe_tx_bytes :: nat

record wire_connection =
  wc_id :: nat
  wc_src_user_id :: int
  wc_src_name :: string
  wc_src_ip :: string
  wc_object_type :: string
  wc_object_id :: int
  wc_object_name :: string
  wc_object_ip :: string
  wc_port :: int
  wc_protocol :: string
  wc_src_addr :: string
  wc_backend_addr :: string

end
