(* ===== verification/Docker.thy ===== *)
theory Docker
  imports Prelude Wire "HOL-Library.Product_Lexorder" "HOL-Library.Multiset"
begin

text \<open>
  \<open>daemon/docker/client.go\<close>: the endpoints of a container and which networks the daemon itself
  is on. The runtime's API is a parameter (\<open>docker_api\<close>), a Go map of networks an association
  list in whatever order the runtime iterates it. A nil client is \<open>None\<close>.
\<close>

section \<open>Model\<close>

datatype docker_error = ErrNotConfigured | ErrContainerNotFound | ErrNoUsableAddress | ErrDockerAPI string

text \<open>A network entry holds the address of its endpoint, \<open>None\<close> for a nil endpoint; the whole
  map is \<open>None\<close> when the settings are nil.\<close>

type_synonym networks = "(string \<times> string option) list"

record docker_container =
  dc_id :: string
  dc_names :: "string list"
  dc_networks :: "networks option"

record docker_api =
  da_list :: "bool \<Rightarrow> docker_error + docker_container list"
  da_inspect :: "string \<Rightarrow> networks option"
  da_hostname :: "string option"
  da_file :: "string \<Rightarrow> string option"

record endpoint =
  ep_network :: string
  ep_ip :: string
  ep_shared :: bool

text \<open>The client's state: the networks of the daemon, \<open>None\<close> until they are asked for.\<close>

record docker_client =
  dk_self :: "string list option"

definition normalizeDockerHost :: "string \<Rightarrow> string" where
  "normalizeDockerHost h = (if has_prefix h ''/'' then ''unix://'' @ h else h)"

text \<open>\<open>connect\<close>: the error of the client library for a host it does not take.\<close>

definition newClient :: "(string \<Rightarrow> docker_error option) \<Rightarrow> string \<Rightarrow> docker_error + docker_client" where
  "newClient connect host = (if host = [] then Inl ErrNotConfigured
     else case connect (normalizeDockerHost host) of Some e \<Rightarrow> Inl e | None \<Rightarrow> Inr \<lparr>dk_self = None\<rparr>)"

definition endpointsOf :: "networks option \<Rightarrow> string list \<Rightarrow> endpoint list" where
  "endpointsOf ns self = (case ns of None \<Rightarrow> []
     | Some nets \<Rightarrow> sort_key (\<lambda>e. (\<not> ep_shared e, ep_network e))
         (map (\<lambda>(net, ip). \<lparr>ep_network = net, ep_ip = the ip, ep_shared = net \<in> set self\<rparr>)
           (filter (\<lambda>(net, ip). ip \<noteq> None \<and> ip \<noteq> Some []) nets)))"

definition matchesName :: "string list \<Rightarrow> string \<Rightarrow> bool" where
  "matchesName names target \<longleftrightarrow> (\<exists>n\<in>set names. trim_prefix n ''/'' = target)"

definition is_hex_lower :: "char \<Rightarrow> bool" where
  "is_hex_lower c \<longleftrightarrow> \<not> ((byte_of c < 48 \<or> byte_of c > 57) \<and> (byte_of c < 97 \<or> byte_of c > 102))"

definition isShortContainerID :: "string \<Rightarrow> bool" where
  "isShortContainerID s \<longleftrightarrow> length s = 12 \<and> list_all is_hex_lower s"

text \<open>The leftmost 64 lower case hexadecimal digits in a row.\<close>

fun find_id64 :: "string \<Rightarrow> string" where
  "find_id64 s = (if length s < 64 then []
     else if list_all is_hex_lower (take 64 s) then take 64 s
     else find_id64 (tl s))"

declare find_id64.simps [simp del]

fun first_id :: "(string \<Rightarrow> string option) \<Rightarrow> string list \<Rightarrow> string" where
  "first_id file [] = []"
| "first_id file (p # ps) = (case file p of None \<Rightarrow> first_id file ps
     | Some body \<Rightarrow> if find_id64 body \<noteq> [] then find_id64 body else first_id file ps)"

definition selfContainerID :: "docker_api \<Rightarrow> string" where
  "selfContainerID api = (case da_hostname api of
     Some h \<Rightarrow> if isShortContainerID h then h
       else first_id (da_file api) [''/proc/self/cgroup'', ''/proc/self/mountinfo'']
   | None \<Rightarrow> first_id (da_file api) [''/proc/self/cgroup'', ''/proc/self/mountinfo''])"

text \<open>\<open>selfNetworks\<close>: asked once, an error gives no networks for good.\<close>

definition selfNetworks :: "docker_api \<Rightarrow> docker_client \<Rightarrow> string list \<times> docker_client" where
  "selfNetworks api c = (case dk_self c of Some nets \<Rightarrow> (nets, c)
     | None \<Rightarrow> (let ident = selfContainerID api;
         nets = (if ident = [] then [] else case da_inspect api ident of None \<Rightarrow> []
           | Some ns \<Rightarrow> map fst (filter (\<lambda>(net, ep). ep \<noteq> None) ns))
       in (nets, c\<lparr>dk_self := Some nets\<rparr>)))"

definition SelfNetworks :: "docker_api \<Rightarrow> docker_client option \<Rightarrow> string list \<times> docker_client option" where
  "SelfNetworks api co = (case co of None \<Rightarrow> ([], None)
     | Some c \<Rightarrow> (case selfNetworks api c of (nets, c') \<Rightarrow> (sort nets, Some c')))"

definition pick_endpoints :: "endpoint list \<Rightarrow> string \<Rightarrow> docker_error + endpoint list" where
  "pick_endpoints eps prefer =
    (if prefer \<noteq> [] then
       (case List.find (\<lambda>e. ep_network e = prefer) eps of Some e \<Rightarrow> Inr [e] | None \<Rightarrow> Inl ErrNoUsableAddress)
     else if eps = [] then Inl ErrNoUsableAddress else Inr eps)"

definition ContainerEndpoints ::
  "docker_api \<Rightarrow> docker_client option \<Rightarrow> string \<Rightarrow> string \<Rightarrow> (docker_error + endpoint list) \<times> docker_client option"
where
  "ContainerEndpoints api co nm prefer = (case co of None \<Rightarrow> (Inl ErrNotConfigured, None)
     | Some c \<Rightarrow> (case da_list api True of Inl e \<Rightarrow> (Inl e, Some c)
       | Inr containers \<Rightarrow>
          (case List.find (\<lambda>k. matchesName (dc_names k) (trim_prefix nm ''/'')) containers of
             None \<Rightarrow> (Inl ErrContainerNotFound, Some c)
           | Some k \<Rightarrow> (case selfNetworks api c of (self, c') \<Rightarrow>
               (pick_endpoints (endpointsOf (dc_networks k) self) prefer, Some c')))))"

definition summary :: "string list \<Rightarrow> docker_container \<Rightarrow> container_summary" where
  "summary self k = (let eps = endpointsOf (dc_networks k) self in
     \<lparr>cs_cid = dc_id k, cs_cname = (case dc_names k of [] \<Rightarrow> [] | n # _ \<Rightarrow> trim_prefix n ''/''),
      cs_networks = map ep_network eps, cs_shared = (\<exists>e\<in>set eps. ep_shared e)\<rparr>)"

definition ListContainers ::
  "docker_api \<Rightarrow> docker_client option \<Rightarrow> (docker_error + container_summary list) \<times> docker_client option" where
  "ListContainers api co = (case co of None \<Rightarrow> (Inl ErrNotConfigured, None)
     | Some c \<Rightarrow> (case da_list api False of Inl e \<Rightarrow> (Inl e, Some c)
       | Inr containers \<Rightarrow> (case selfNetworks api c of (self, c') \<Rightarrow>
           (Inr (sort_key cs_cname (map (summary self) containers)), Some c'))))"

section \<open>Lemmas\<close>

lemma sort_key_perm:
  assumes "mset xs = mset ys" and "inj_on f (set xs)"
  shows "sort_key f xs = sort_key f ys"
proof (rule sort_key_inj_key_eq)
  show "mset xs = mset (sort_key f ys)" using assms(1) by simp
  show "inj_on f (set xs)" by (rule assms(2))
  show "sorted (map f (sort_key f ys))" by simp
qed

lemma selfNetworks_once:
  "selfNetworks api c = (nets, c') \<Longrightarrow> selfNetworks api' c' = (nets, c')"
  by (cases "dk_self c") (auto simp: selfNetworks_def Let_def)

lemma endpointsOf_set:
  "set (endpointsOf (Some nets) self) =
    {\<lparr>ep_network = n, ep_ip = a, ep_shared = (n \<in> set self)\<rparr> | n a. (n, Some a) \<in> set nets \<and> a \<noteq> []}"
  by (auto simp: endpointsOf_def image_def) force

lemma endpointsOf_None [simp]: "endpointsOf None self = []"
  by (simp add: endpointsOf_def)

lemma endpointsOf_ip: "e \<in> set (endpointsOf ns self) \<Longrightarrow> ep_ip e \<noteq> []"
  by (cases ns) (auto simp: endpointsOf_set)

lemma endpointsOf_sorted:
  "sorted_wrt (\<lambda>a b. (ep_shared b \<longrightarrow> ep_shared a)
     \<and> (ep_shared a = ep_shared b \<longrightarrow> ep_network a \<le> ep_network b)) (endpointsOf ns self)"
proof (cases ns)
  case (Some nets)
  let ?k = "\<lambda>e. (\<not> ep_shared e, ep_network e)"
  have "sorted (map ?k (endpointsOf ns self))" by (simp add: endpointsOf_def Some)
  then have "sorted_wrt (\<lambda>a b. ?k a \<le> ?k b) (endpointsOf ns self)"
    by (simp add: sorted_wrt_map)
  then show ?thesis
    by (rule sorted_wrt_mono_rel [rotated]) (auto simp: less_eq_prod_def)
qed simp

lemma endpointsOf_perm:
  assumes "mset nets = mset nets'" and "distinct (map fst nets)" and "set self = set self'"
  shows "endpointsOf (Some nets) self = endpointsOf (Some nets') self'"
proof -
  let ?mk = "\<lambda>s (net, ip). \<lparr>ep_network = net, ep_ip = the ip, ep_shared = net \<in> set s\<rparr>"
  let ?ok = "\<lambda>(net, ip). ip \<noteq> None \<and> ip \<noteq> Some ([] :: string)"
  let ?xs = "map (?mk self) (filter ?ok nets)"
  have "inj_on (\<lambda>e. (\<not> ep_shared e, ep_network e)) (set ?xs)"
  proof (rule inj_onI)
    fix e f assume "e \<in> set ?xs" "f \<in> set ?xs" "(\<not> ep_shared e, ep_network e) = (\<not> ep_shared f, ep_network f)"
    then show "e = f" using assms(2) by (auto dest: eq_key_imp_eq_value)
  qed
  moreover have "mset ?xs = mset (map (?mk self') (filter ?ok nets'))"
    using assms(1,3) by simp
  ultimately show ?thesis
    unfolding endpointsOf_def option.case by (intro sort_key_perm) simp_all
qed

lemma pick_endpoints_Inr:
  "pick_endpoints eps prefer = Inr out \<longleftrightarrow> out \<noteq> [] \<and>
     (if prefer \<noteq> [] then \<exists>e. out = [e] \<and> List.find (\<lambda>e. ep_network e = prefer) eps = Some e else out = eps)"
  by (auto simp: pick_endpoints_def split: option.splits)

section \<open>Properties\<close>

text \<open>
  The endpoints of a container do not depend on the order in which Go iterates its map of
  networks: they are exactly the networks with an address, those shared with the daemon first
  and each part by network name.
\<close>

theorem endpoints_order_free:
  assumes "distinct (map fst nets)" and "mset nets = mset nets'"
  shows "endpointsOf (Some nets) self = endpointsOf (Some nets') self
    \<and> set (endpointsOf (Some nets) self) =
        {\<lparr>ep_network = n, ep_ip = a, ep_shared = (n \<in> set self)\<rparr> | n a. (n, Some a) \<in> set nets \<and> a \<noteq> []}
    \<and> sorted_wrt (\<lambda>a b. (ep_shared b \<longrightarrow> ep_shared a)
        \<and> (ep_shared a = ep_shared b \<longrightarrow> ep_network a \<le> ep_network b)) (endpointsOf (Some nets) self)"
  using endpointsOf_perm [OF assms(2,1) refl] endpointsOf_set endpointsOf_sorted by blast

theorem endpoints_order_free_witness:
  "endpointsOf (Some [(''a'', Some ''10.0.0.9''), (''b'', Some ''10.1.0.9'')]) [''b'']
    = endpointsOf (Some [(''b'', Some ''10.1.0.9''), (''a'', Some ''10.0.0.9'')]) [''b'']"
  using endpoints_order_free [of "[(''a'', Some ''10.0.0.9''), (''b'', Some ''10.1.0.9'')]"
      "[(''b'', Some ''10.1.0.9''), (''a'', Some ''10.0.0.9'')]" "[''b'']"] by simp

text \<open>
  What \<open>ContainerEndpoints\<close> promises. Without a client, or when the runtime does not list
  its containers, it fails with that error; no container of the name is \<open>ErrContainerNotFound\<close>;
  otherwise the first container of the name answers: with the endpoint on the preferred
  network alone, or with all its endpoints when none is preferred, never with an empty list
  and never with an endpoint without address, and \<open>ErrNoUsableAddress\<close> when there is none.
\<close>

theorem container_endpoints_contract:
  "(case fst (ContainerEndpoints api co nm prefer) of
      Inl e \<Rightarrow> (co = None \<and> e = ErrNotConfigured)
        \<or> (co \<noteq> None \<and> da_list api True = Inl e)
        \<or> (\<exists>ks. co \<noteq> None \<and> da_list api True = Inr ks \<and> e = ErrContainerNotFound
             \<and> (\<forall>k\<in>set ks. \<not> matchesName (dc_names k) (trim_prefix nm ''/'')))
        \<or> (\<exists>c ks k. co = Some c \<and> da_list api True = Inr ks \<and> e = ErrNoUsableAddress
             \<and> List.find (\<lambda>k. matchesName (dc_names k) (trim_prefix nm ''/'')) ks = Some k
             \<and> (\<forall>ep\<in>set (endpointsOf (dc_networks k) (fst (selfNetworks api c))).
                  prefer \<noteq> [] \<and> ep_network ep \<noteq> prefer))
    | Inr eps \<Rightarrow> eps \<noteq> [] \<and> (\<forall>ep\<in>set eps. ep_ip ep \<noteq> [])
        \<and> (\<exists>c ks k. co = Some c \<and> da_list api True = Inr ks
             \<and> List.find (\<lambda>k. matchesName (dc_names k) (trim_prefix nm ''/'')) ks = Some k
             \<and> (let all = endpointsOf (dc_networks k) (fst (selfNetworks api c)) in
                 if prefer = [] then eps = all
                 else \<exists>ep\<in>set all. eps = [ep] \<and> ep_network ep = prefer)))"
proof (cases co)
  case (Some c)
  show ?thesis
  proof (cases "da_list api True")
    case (Inr ks)
    show ?thesis
    proof (cases "List.find (\<lambda>k. matchesName (dc_names k) (trim_prefix nm ''/'')) ks")
      case None
      then show ?thesis using Some Inr
        using None [unfolded find_None_all] by (simp add: ContainerEndpoints_def)
    next
      case (Some k)
      obtain self c' where s: "selfNetworks api c = (self, c')" by (cases "selfNetworks api c")
      let ?all = "endpointsOf (dc_networks k) self"
      have r: "fst (ContainerEndpoints api co nm prefer) = pick_endpoints ?all prefer"
        using Some Inr \<open>co = Some c\<close> by (simp add: ContainerEndpoints_def s)
      show ?thesis
      proof (cases "pick_endpoints ?all prefer")
        case (Inl e)
        then have "e = ErrNoUsableAddress \<and> (\<forall>ep\<in>set ?all. prefer \<noteq> [] \<and> ep_network ep \<noteq> prefer)"
          by (auto simp: pick_endpoints_def find_None_all split: if_splits option.splits)
        then show ?thesis using r Inl Some Inr \<open>co = Some c\<close> s by simp
      next
        case (Inr eps)
        then have "eps \<noteq> []" and sub: "set eps \<subseteq> set ?all"
          and e: "if prefer = [] then eps = ?all else \<exists>ep\<in>set ?all. eps = [ep] \<and> ep_network ep = prefer"
          by (auto simp: pick_endpoints_Inr dest!: find_SomeD split: if_splits)
        moreover have "\<forall>ep\<in>set eps. ep_ip ep \<noteq> []" using sub endpointsOf_ip by blast
        ultimately show ?thesis
          using r Inr Some \<open>da_list api True = Inr ks\<close> \<open>co = Some c\<close> s by (simp add: Let_def)
      qed
    qed
  qed (simp add: ContainerEndpoints_def Some)
qed (simp add: ContainerEndpoints_def)

definition w_container :: docker_container where
  "w_container = \<lparr>dc_id = ''i'', dc_names = [''/web''],
     dc_networks = Some [(''b'', Some ''10.1.0.9''), (''a'', Some ''10.0.0.9'')]\<rparr>"

definition w_api :: docker_api where
  "w_api = \<lparr>da_list = (\<lambda>_. Inr [w_container]), da_inspect = (\<lambda>_. None), da_hostname = None,
     da_file = (\<lambda>_. None)\<rparr>"

theorem container_endpoints_contract_witness:
  "\<exists>eps. fst (ContainerEndpoints w_api (Some \<lparr>dk_self = None\<rparr>) ''web'' []) = Inr eps \<and> eps \<noteq> []"
proof -
  let ?r = "fst (ContainerEndpoints w_api (Some \<lparr>dk_self = None\<rparr>) ''web'' [])"
  have m: "matchesName (dc_names w_container) (trim_prefix ''web'' ''/'')"
    by (simp add: w_container_def matchesName_def trim_prefix_def has_prefix_def)
  have l: "da_list w_api True = Inr [w_container]" by (simp add: w_api_def)
  have n: "endpointsOf (dc_networks w_container) self \<noteq> []" for self
    by (simp add: endpointsOf_def w_container_def)
  have f: "List.find (\<lambda>k. matchesName (dc_names k) (trim_prefix ''web'' ''/'')) [w_container] = Some w_container"
    using m by simp
  show ?thesis
    using container_endpoints_contract [of "Some \<lparr>dk_self = None\<rparr>" w_api "''web''" "[]"] m n
    unfolding l by (cases ?r) (simp_all add: f)
qed

end
