(* ===== verification/HostPort.thy ===== *)
theory HostPort
  imports Netip
begin

text \<open>
  \<open>net.JoinHostPort\<close> and \<open>net.SplitHostPort\<close> of Go's standard library, and \<open>splitHostPort\<close> of
  \<open>daemon/proxy/tcp.go\<close> on top of it.
\<close>

section \<open>Model\<close>

definition join_host_port :: "string \<Rightarrow> string \<Rightarrow> string" where
  "join_host_port host port =
    (if CHR '':'' \<in> set host then ''['' @ host @ '']:'' @ port else host @ '':'' @ port)"

definition brackets :: "string \<Rightarrow> bool" where
  "brackets s \<longleftrightarrow> CHR ''['' \<in> set s \<or> CHR '']'' \<in> set s"

text \<open>The port follows the last colon. A host in brackets may hold colons, another may not;
  brackets anywhere else are an error.\<close>

definition split_host_port :: "string \<Rightarrow> (string \<times> string) option" where
  "split_host_port s = (case cut (CHR '':'') (rev s) of None \<Rightarrow> None
     | Some (rport, rhead) \<Rightarrow>
        (let head = rev rhead; port = rev rport in
          if s \<noteq> [] \<and> hd s = CHR ''['' then
            (if head \<noteq> [] \<and> last head = CHR '']'' \<and> \<not> brackets (butlast (tl head)) \<and> \<not> brackets port
             then Some (butlast (tl head), port) else None)
          else if CHR '':'' \<in> set head \<or> brackets s then None
          else Some (head, port)))"

text \<open>\<open>splitHostPort\<close> on the text of an address, \<open>None\<close> for a nil one.\<close>

definition splitHostPort :: "string option \<Rightarrow> (string \<times> int) option" where
  "splitHostPort a = (case a of None \<Rightarrow> None
     | Some s \<Rightarrow> (case split_host_port s of None \<Rightarrow> None
        | Some (host, portStr) \<Rightarrow> map_option (\<lambda>p. (host, p)) (parse_int64 portStr)))"

section \<open>Lemmas\<close>

lemma cut_last: "CHR '':'' \<notin> set p \<Longrightarrow> cut (CHR '':'') (rev (h @ CHR '':'' # p)) = Some (rev p, rev h)"
  using cut_append [of "CHR '':''" "rev p" "rev h"] by simp

lemma split_join_host_port:
  assumes "\<not> brackets h" and "\<not> brackets p" and "CHR '':'' \<notin> set p"
  shows "split_host_port (join_host_port h p) = Some (h, p)"
proof (cases "CHR '':'' \<in> set h")
  case True
  let ?b = "''['' @ h @ '']''"
  have c: "cut (CHR '':'') (rev (?b @ CHR '':'' # p)) = Some (rev p, rev ?b)"
    by (rule cut_last [OF assms(3)])
  have "split_host_port (?b @ CHR '':'' # p) = Some (h, p)"
    unfolding split_host_port_def c using assms(1,2) by (simp add: butlast_append)
  then show ?thesis using True by (simp add: join_host_port_def)
next
  case False
  have "split_host_port (h @ CHR '':'' # p) = Some (h, p)"
    unfolding split_host_port_def cut_last [OF assms(3)]
    using assms(1,2) False by (cases h) (auto simp: brackets_def Let_def)
  then show ?thesis using False by (simp add: join_host_port_def)
qed

lemma nat_str_no_sep: "\<not> brackets (nat_str n)" "CHR '':'' \<notin> set (nat_str n)"
  by (simp_all add: brackets_def nat_str_not_in is_digit_def)

lemma splitHostPort_nat:
  assumes "\<not> brackets h" and "int n \<le> max_int64"
  shows "splitHostPort (Some (join_host_port h (nat_str n))) = Some (h, int n)"
  using assms by (simp add: splitHostPort_def split_join_host_port nat_str_no_sep parse_int64_nat_str)

lemma v4_string_no_sep: "\<not> brackets (v4_string a)" "CHR '':'' \<notin> set (v4_string a)"
  using v4_string_chars [of "CHR ''[''" a] v4_string_chars [of "CHR '']''" a]
    v4_string_chars [of "CHR '':''" a] by (auto simp: brackets_def is_digit_def)

end
