(* ===== verification/Resolver.thy ===== *)
theory Resolver
  imports Origin Docker HostPort "HOL-Library.AList"
begin

text \<open>
  \<open>daemon/proxy/resolver.go\<close>: from the origin of a service to the host to dial, with a cache
  whose entries expire. Name lookups, probes, the container runtime and the clock enter through
  \<open>resolve_env\<close>: the clock is read twice, by \<open>cached\<close> and by \<open>store\<close>. Times are nanoseconds.
\<close>

section \<open>Model\<close>

abbreviation seconds :: "int \<Rightarrow> int" where "seconds n \<equiv> n * 1000000000"

record target =
  tg_host :: string
  tg_network :: string
  tg_detail :: string

datatype resolve_error = InvalidOrigin origin_error | RefusedBackend origin_error | NameNotResolved
  | NoRuntime | RuntimeFailed docker_error | NoUsableEndpoint

definition is_unreachable :: "resolve_error \<Rightarrow> bool" where
  "is_unreachable e = (case e of RefusedBackend _ \<Rightarrow> False | _ \<Rightarrow> True)"

record cache_entry =
  ce_target :: target
  ce_expires :: int

record resolver =
  rs_name_ttl :: int
  rs_addr_ttl :: int
  rs_hostname_ttl :: int
  rs_docker :: "docker_client option"
  rs_cache :: "(string \<times> cache_entry) list"

record resolve_env =
  re_lookup :: "string \<Rightarrow> string + string list"
  re_probe :: "string \<Rightarrow> bool"
  re_docker :: docker_api
  re_now :: int
  re_stored :: int

definition NewResolver :: "docker_client option \<Rightarrow> resolver" where
  "NewResolver d = \<lparr>rs_name_ttl = seconds 30, rs_addr_ttl = seconds 10, rs_hostname_ttl = seconds 60,
     rs_docker = d, rs_cache = []\<rparr>"

text \<open>The cache: \<open>cached\<close>, \<open>store\<close> and \<open>Invalidate\<close> on the map itself.\<close>

definition cache_get :: "(string \<times> cache_entry) list \<Rightarrow> string \<Rightarrow> int \<Rightarrow> target option" where
  "cache_get c k now = (case map_of c k of None \<Rightarrow> None
     | Some e \<Rightarrow> if \<not> now < ce_expires e then None else Some (ce_target e))"

definition cache_put :: "string \<Rightarrow> target \<Rightarrow> int \<Rightarrow> (string \<times> cache_entry) list \<Rightarrow> (string \<times> cache_entry) list" where
  "cache_put k t expires c = AList.update k \<lparr>ce_target = t, ce_expires = expires\<rparr> c"

definition cache_del :: "string \<Rightarrow> (string \<times> cache_entry) list \<Rightarrow> (string \<times> cache_entry) list" where
  "cache_del k c = AList.delete k c"

definition cached :: "resolve_env \<Rightarrow> resolver \<Rightarrow> spec \<Rightarrow> target option" where
  "cached env r s = cache_get (rs_cache r) (cache_key s) (re_now env)"

definition store_target :: "resolve_env \<Rightarrow> spec \<Rightarrow> target \<Rightarrow> int \<Rightarrow> resolver \<Rightarrow> resolver" where
  "store_target env s t ttl r = r\<lparr>rs_cache := cache_put (cache_key s) t (re_stored env + ttl) (rs_cache r)\<rparr>"

definition Invalidate :: "spec \<Rightarrow> resolver \<Rightarrow> resolver" where
  "Invalidate s r = r\<lparr>rs_cache := cache_del (cache_key s) (rs_cache r)\<rparr>"

definition SetDocker :: "docker_client option \<Rightarrow> resolver \<Rightarrow> resolver" where
  "SetDocker d r = r\<lparr>rs_docker := d, rs_cache := []\<rparr>"

fun first_refused :: "string list \<Rightarrow> origin_error option" where
  "first_refused [] = None"
| "first_refused (a # as) = (case safe_backend_ip a of Some e \<Rightarrow> Some e | None \<Rightarrow> first_refused as)"

definition resolveHostname :: "resolve_env \<Rightarrow> resolver \<Rightarrow> spec \<Rightarrow> (resolve_error + target) \<times> resolver" where
  "resolveHostname env r s = (case cached env r s of Some t \<Rightarrow> (Inr t, r)
     | None \<Rightarrow> (case re_lookup env (o_value s) of Inl _ \<Rightarrow> (Inl NameNotResolved, r)
        | Inr addrs \<Rightarrow>
            if addrs = [] then (Inl NameNotResolved, r)
            else (case first_refused addrs of Some e \<Rightarrow> (Inl (RefusedBackend e), r)
              | None \<Rightarrow> (let t = \<lparr>tg_host = o_value s, tg_network = [], tg_detail = ''dns name''\<rparr> in
                  (Inr t, store_target env s t (rs_hostname_ttl r) r)))))"

text \<open>The endpoints in turn: the first safe one that answers the probe, else the first safe one.\<close>

fun select_loop ::
  "(string \<Rightarrow> bool) \<Rightarrow> int \<Rightarrow> string \<Rightarrow> endpoint option \<Rightarrow> endpoint list \<Rightarrow> endpoint + endpoint option" where
  "select_loop probe port proto firstSafe [] = Inr firstSafe"
| "select_loop probe port proto firstSafe (ep # eps) =
    (if safe_backend_ip (ep_ip ep) \<noteq> None then select_loop probe port proto firstSafe eps
     else let firstSafe' = (case firstSafe of None \<Rightarrow> Some ep | Some f \<Rightarrow> Some f) in
       if proto \<noteq> ''tcp'' \<or> port \<le> 0 then select_loop probe port proto firstSafe' eps
       else if probe (join_host_port (ep_ip ep) (int_str port)) then Inl ep
       else select_loop probe port proto firstSafe' eps)"

definition endpoint_target :: "endpoint \<Rightarrow> string \<Rightarrow> target" where
  "endpoint_target ep detail = \<lparr>tg_host = ep_ip ep, tg_network = ep_network ep, tg_detail = detail\<rparr>"

definition selectEndpoint :: "(string \<Rightarrow> bool) \<Rightarrow> endpoint list \<Rightarrow> int \<Rightarrow> string \<Rightarrow> resolve_error + target" where
  "selectEndpoint probe eps port proto = (case select_loop probe port proto None eps of
     Inl ep \<Rightarrow> Inr (endpoint_target ep ''runtime socket, probe confirmed'')
   | Inr None \<Rightarrow> Inl NoUsableEndpoint
   | Inr (Some ep) \<Rightarrow> Inr (endpoint_target ep
       (if proto = ''tcp'' \<and> port > 0 then ''runtime socket, no candidate answered probe''
        else ''runtime socket, deterministic pick'')))"

definition by_name :: "resolve_env \<Rightarrow> spec \<Rightarrow> bool" where
  "by_name env s \<longleftrightarrow> o_network s = [] \<and> (case re_lookup env (o_value s) of Inl _ \<Rightarrow> False | Inr as \<Rightarrow> as \<noteq> [])"

definition resolveContainer ::
  "resolve_env \<Rightarrow> resolver \<Rightarrow> spec \<Rightarrow> int \<Rightarrow> string \<Rightarrow> (resolve_error + target) \<times> resolver" where
  "resolveContainer env r s port proto = (case cached env r s of Some t \<Rightarrow> (Inr t, r)
     | None \<Rightarrow>
        if by_name env s then
          (let t = \<lparr>tg_host = o_value s, tg_network = [], tg_detail = ''runtime dns (shared network)''\<rparr> in
            (Inr t, store_target env s t (rs_name_ttl r) r))
        else if rs_docker r = None then (Inl NoRuntime, r)
        else (case ContainerEndpoints (re_docker env) (rs_docker r) (o_value s) (o_network s) of
           (Inl e, d) \<Rightarrow> (Inl (RuntimeFailed e), r\<lparr>rs_docker := d\<rparr>)
         | (Inr eps, d) \<Rightarrow> (case selectEndpoint (re_probe env) eps port proto of
              Inl e \<Rightarrow> (Inl e, r\<lparr>rs_docker := d\<rparr>)
            | Inr t \<Rightarrow> (Inr t, store_target env s t (rs_addr_ttl r) (r\<lparr>rs_docker := d\<rparr>)))))"

definition Resolve ::
  "resolve_env \<Rightarrow> resolver \<Rightarrow> spec \<Rightarrow> int \<Rightarrow> string \<Rightarrow> (resolve_error + target) \<times> resolver" where
  "Resolve env r s0 port proto = (case validate s0 of Inl e \<Rightarrow> (Inl (InvalidOrigin e), r)
     | Inr s \<Rightarrow>
        if o_kind s = Host then
          (Inr \<lparr>tg_host = ''127.0.0.1'', tg_network = [], tg_detail = ''gateway loopback''\<rparr>, r)
        else if o_kind s = IP then
          (case safe_backend_ip (o_value s) of Some e \<Rightarrow> (Inl (RefusedBackend e), r)
           | None \<Rightarrow> (Inr \<lparr>tg_host = o_value s, tg_network = [], tg_detail = ''literal address''\<rparr>, r))
        else if o_kind s = Hostname then resolveHostname env r s
        else resolveContainer env r s port proto)"

section \<open>The cache as an interface\<close>

text \<open>What the resolver relies on in a cache with expiry, and what follows for every sequence of
  operations: a value served at time \<open>t\<close> is the last one put under its key, and it was put with
  an expiry after \<open>t\<close>.\<close>

datatype ('k, 'v) cache_op = Put 'k 'v int | Del 'k | Clear

fun touches :: "'k \<Rightarrow> ('k, 'v) cache_op \<Rightarrow> bool" where
  "touches k (Put k' v e) \<longleftrightarrow> k' = k"
| "touches k (Del k') \<longleftrightarrow> k' = k"
| "touches k Clear \<longleftrightarrow> True"

locale ttl_cache =
  fixes get :: "'c \<Rightarrow> 'k \<Rightarrow> int \<Rightarrow> 'v option"
    and put :: "'k \<Rightarrow> 'v \<Rightarrow> int \<Rightarrow> 'c \<Rightarrow> 'c"
    and del :: "'k \<Rightarrow> 'c \<Rightarrow> 'c"
    and empty :: 'c
  assumes get_empty: "get empty k t = None"
    and get_put: "get (put k v e c) k' t = (if k' = k then (if t < e then Some v else None) else get c k' t)"
    and get_del: "get (del k c) k' t = (if k' = k then None else get c k' t)"
    and get_earlier: "\<lbrakk>get c k t = Some v; t' \<le> t\<rbrakk> \<Longrightarrow> get c k t' = Some v"
begin

primrec apply_op :: "('k, 'v) cache_op \<Rightarrow> 'c \<Rightarrow> 'c" where
  "apply_op (Put k v e) c = put k v e c"
| "apply_op (Del k) c = del k c"
| "apply_op Clear c = empty"

lemma untouched: "\<not> touches k op \<Longrightarrow> get (apply_op op c) k t = get c k t"
  by (cases op) (auto simp: get_put get_del)

lemma touched_served:
  "\<lbrakk>touches k op; get (apply_op op c) k t = Some v\<rbrakk> \<Longrightarrow> \<exists>e. op = Put k v e \<and> t < e"
  by (cases op) (auto simp: get_put get_del get_empty split: if_splits)

lemma served_last_put:
  assumes "get (fold apply_op ops empty) k t = Some v"
  shows "\<exists>before e after. ops = before @ Put k v e # after \<and> t < e \<and> (\<forall>op\<in>set after. \<not> touches k op)"
  using assms
proof (induction ops rule: rev_induct)
  case Nil
  then show ?case by (simp add: get_empty)
next
  case (snoc op ops)
  show ?case
  proof (cases "touches k op")
    case True
    then obtain e where "op = Put k v e" "t < e" using snoc.prems touched_served by fastforce
    then show ?thesis by (metis append_Nil2 empty_iff empty_set)
  next
    case False
    then have "get (fold apply_op ops empty) k t = Some v" using snoc.prems by (simp add: untouched)
    then obtain before e after where "ops = before @ Put k v e # after" "t < e"
        "\<forall>x\<in>set after. \<not> touches k x" using snoc.IH by blast
    then have "ops @ [op] = before @ Put k v e # (after @ [op])" "\<forall>x\<in>set (after @ [op]). \<not> touches k x"
      using False by auto
    then show ?thesis using \<open>t < e\<close> by blast
  qed
qed

lemma window: "t < e \<Longrightarrow> get (put k v e c) k t = Some v"
  by (simp add: get_put)

end

interpretation rc: ttl_cache cache_get cache_put cache_del "[]"
  by unfold_locales
    (auto simp: cache_get_def cache_put_def cache_del_def update_conv' delete_conv' split: option.splits if_splits)

section \<open>Lemmas\<close>

lemma first_refused_None: "first_refused as = None \<longleftrightarrow> (\<forall>a\<in>set as. safe_backend_ip a = None)"
  by (induction as) (auto split: option.splits)

text \<open>On specs without NUL bytes the key tells them from every other valid one.\<close>

definition no_nul :: "spec \<Rightarrow> bool" where
  "no_nul s \<longleftrightarrow> CHR 0x00 \<notin> set (o_kind s @ o_value s @ o_network s)"

lemma cache_key_unique:
  assumes "no_nul s" "cache_key s = cache_key t"
  shows "s = t"
proof -
  let ?n = "\<lambda>xs. length (filter (\<lambda>c. c = CHR 0x00) xs)"
  have "?n (cache_key s) = 2" using assms(1)
    by (auto simp: cache_key_def no_nul_def filter_empty_conv)
  then have "?n (o_kind t) + ?n (o_value t) + ?n (o_network t) = 0"
    unfolding assms(2) by (simp add: cache_key_def)
  then have "CHR 0x00 \<notin> set (o_kind t @ o_value t @ o_network t)"
    by (auto simp: filter_empty_conv)
  then show ?thesis using assms cache_key_inject unfolding no_nul_def by blast
qed

lemma select_loop_spec:
  "select_loop probe port proto f eps =
    (case (if proto = ''tcp'' \<and> port > 0
           then List.find (\<lambda>e. safe_backend_ip (ep_ip e) = None
                  \<and> probe (join_host_port (ep_ip e) (int_str port))) eps else None) of
       Some e \<Rightarrow> Inl e
     | None \<Rightarrow> Inr (case f of Some x \<Rightarrow> Some x
          | None \<Rightarrow> List.find (\<lambda>e. safe_backend_ip (ep_ip e) = None) eps))"
  by (induction eps arbitrary: f) (auto simp: Let_def split: option.splits)

text \<open>What a target may dial, by the kind of the origin.\<close>

definition target_ok :: "spec \<Rightarrow> target \<Rightarrow> bool" where
  "target_ok s t \<longleftrightarrow>
     (o_kind s = Hostname \<and> tg_host t = o_value s)
     \<or> (o_kind s = Container \<and>
         ((o_network s = [] \<and> tg_host t = o_value s) \<or> safe_backend_ip (tg_host t) = None))"

definition cache_ok :: "resolver \<Rightarrow> bool" where
  "cache_ok r \<longleftrightarrow> (\<forall>k e. map_of (rs_cache r) k = Some e \<longrightarrow>
     (\<exists>s. spec_ok s \<and> k = cache_key s \<and> target_ok s (ce_target e)))"

lemma cache_ok_new [simp]: "cache_ok (NewResolver d)" "cache_ok (SetDocker d r)"
  by (simp_all add: cache_ok_def NewResolver_def SetDocker_def)

lemma cache_ok_store:
  "\<lbrakk>cache_ok r; spec_ok s; target_ok s t\<rbrakk> \<Longrightarrow> cache_ok (store_target env s t ttl r)"
  by (auto simp: cache_ok_def store_target_def cache_put_def update_conv')

lemma cache_ok_invalidate: "cache_ok r \<Longrightarrow> cache_ok (Invalidate s r)"
  by (auto simp: cache_ok_def Invalidate_def cache_del_def delete_conv' restrict_map_def split: if_splits)

lemma cache_ok_docker [simp]: "cache_ok (r\<lparr>rs_docker := d\<rparr>) = cache_ok r"
  by (simp add: cache_ok_def)

lemma cached_ok:
  assumes "cache_ok r" "no_nul s" "cached env r s = Some t"
  shows "target_ok s t"
proof -
  obtain e where e: "map_of (rs_cache r) (cache_key s) = Some e" "ce_target e = t"
    using assms(3) by (auto simp: cached_def cache_get_def split: option.splits if_splits)
  then obtain s' where "cache_key s = cache_key s'" "target_ok s' t"
    using assms(1) unfolding cache_ok_def by blast
  then show ?thesis using cache_key_unique [OF assms(2)] by simp
qed

lemma selectEndpoint_safe:
  "selectEndpoint probe eps port proto = Inr t \<Longrightarrow> safe_backend_ip (tg_host t) = None"
  unfolding selectEndpoint_def select_loop_spec
  by (auto simp: endpoint_target_def split: option.splits if_splits dest!: find_SomeD)

lemma resolveHostname_safe:
  assumes "cache_ok r" "spec_ok s" "no_nul s" "o_kind s = Hostname" "resolveHostname env r s = (res, r')"
  shows "cache_ok r'" and "res = Inr t \<Longrightarrow> tg_host t = o_value s"
    and "\<lbrakk>res = Inr t; cached env r s = None\<rbrakk> \<Longrightarrow>
      \<exists>as. re_lookup env (o_value s) = Inr as \<and> as \<noteq> [] \<and> (\<forall>a\<in>set as. safe_backend_ip a = None)"
proof -
  let ?t = "\<lparr>tg_host = o_value s, tg_network = [], tg_detail = ''dns name''\<rparr>"
  have "target_ok s ?t" using assms(4) by (simp add: target_ok_def)
  then have st: "cache_ok (store_target env s ?t (rs_hostname_ttl r) r)"
    using assms(1,2) by (rule cache_ok_store [rotated 2])
  have hit: "tg_host t = o_value s" if "cached env r s = Some t" for t
    using cached_ok [OF assms(1,3) that] assms(4) by (auto simp: target_ok_def)
  show "cache_ok r'" "res = Inr t \<Longrightarrow> tg_host t = o_value s"
    "\<lbrakk>res = Inr t; cached env r s = None\<rbrakk> \<Longrightarrow>
      \<exists>as. re_lookup env (o_value s) = Inr as \<and> as \<noteq> [] \<and> (\<forall>a\<in>set as. safe_backend_ip a = None)"
    using assms(1,5) st hit
    by (auto simp: resolveHostname_def Let_def first_refused_None split: option.splits sum.splits if_splits)
qed

lemma resolveContainer_safe:
  assumes "cache_ok r" "spec_ok s" "no_nul s" "o_kind s = Container" "resolveContainer env r s port proto = (res, r')"
  shows "cache_ok r'" and "res = Inr t \<Longrightarrow> target_ok s t"
proof -
  let ?t = "\<lparr>tg_host = o_value s, tg_network = [], tg_detail = ''runtime dns (shared network)''\<rparr>"
  have st: "cache_ok (store_target env s ?t (rs_name_ttl r) r)" and t: "target_ok s ?t"
    if "by_name env s"
    using that assms(1,2,4) by (auto simp: by_name_def target_ok_def intro!: cache_ok_store)
  have sel: "cache_ok (store_target env s u (rs_addr_ttl r) (r\<lparr>rs_docker := d\<rparr>))" and u: "target_ok s u"
    if "selectEndpoint (re_probe env) eps port proto = Inr u" for eps u d
    using selectEndpoint_safe [OF that] assms(1,2,4) by (auto simp: target_ok_def intro!: cache_ok_store)
  show "cache_ok r'" "res = Inr t \<Longrightarrow> target_ok s t"
    using assms(1,5) st t sel u cached_ok [OF assms(1,3), of env]
    by (auto simp: resolveContainer_def Let_def split: option.splits sum.splits prod.splits if_splits)
qed

section \<open>Properties\<close>

text \<open>
  C36: what the proxy may be told to dial. As long as the cache is sound, which every operation
  keeps, a resolved origin is dialled on the gateway's loopback for kind \<open>host\<close> only; on the very
  address for kind \<open>ip\<close>, which is not loopback, link-local, multicast or unspecified; on the very
  name for kind \<open>hostname\<close>, and when it was looked up all its addresses were safe; and for a
  container on a safe address of the runtime, or on its very name when no network is pinned.
\<close>

theorem resolve_safe:
  assumes "cache_ok r" and "validate s0 = Inr s" and "no_nul s"
    and "Resolve env r s0 port proto = (res, r')"
  shows "cache_ok r' \<and> (\<forall>t. res = Inr t \<longrightarrow>
      (o_kind s = Host \<and> tg_host t = ''127.0.0.1'')
    \<or> (o_kind s = IP \<and> tg_host t = o_value s \<and> safe_backend_ip (tg_host t) = None)
    \<or> (o_kind s = Hostname \<and> tg_host t = o_value s \<and> (cached env r s = None \<longrightarrow>
         (\<exists>as. re_lookup env (o_value s) = Inr as \<and> as \<noteq> [] \<and> (\<forall>a\<in>set as. safe_backend_ip a = None))))
    \<or> (o_kind s = Container \<and>
         (o_network s = [] \<and> tg_host t = o_value s \<or> safe_backend_ip (tg_host t) = None)))"
proof -
  have ok: "spec_ok s" by (rule validate_ok [OF assms(2)])
  consider "o_kind s = Host" | "o_kind s = IP" | "o_kind s = Hostname" | "o_kind s = Container"
    using validate_kind [OF assms(2)] by auto
  then show ?thesis
  proof cases
    case 3
    then have "resolveHostname env r s = (res, r')" using assms(2,4) by (simp add: Resolve_def)
    from resolveHostname_safe [OF assms(1) ok assms(3) 3 this] 3 show ?thesis by blast
  next
    case 4
    then have "resolveContainer env r s port proto = (res, r')" using assms(2,4) by (simp add: Resolve_def)
    from resolveContainer_safe [OF assms(1) ok assms(3) 4 this] 4 show ?thesis
      by (auto simp: target_ok_def)
  qed (use assms in \<open>auto simp: Resolve_def split: option.splits\<close>)
qed

definition w_env :: resolve_env where
  "w_env = \<lparr>re_lookup = (\<lambda>_. Inr [''10.0.0.5'']), re_probe = (\<lambda>_. True),
     re_docker = \<lparr>da_list = (\<lambda>_. Inr []), da_inspect = (\<lambda>_. None), da_hostname = None, da_file = (\<lambda>_. None)\<rparr>,
     re_now = 0, re_stored = 5\<rparr>"

definition w_spec :: spec where
  "w_spec = \<lparr>o_kind = ''hostname'', o_value = ''git.lan'', o_network = []\<rparr>"

lemma w_spec_valid: "validate w_spec = Inr w_spec"
  by (rule validate_fixpoint)
    (simp add: spec_ok_def w_spec_def Valid_def trim_space_ends is_space_def)

lemma w_env_safe: "safe_backend_ip ''10.0.0.5'' = None"
  by (simp add: safe_backend_ip_def addr_eval safe_backend_addr_def is_loopback_def
      is_link_local_unicast_def is_link_local_multicast_def is_multicast_def is_unspecified_def unmap_def
      is_4in6_def v4_byte_def)

theorem resolve_safe_witness:
  "\<exists>t r'. Resolve w_env (NewResolver None) w_spec 80 ''tcp'' = (Inr t, r') \<and> tg_host t = ''git.lan'' \<and> cache_ok r'"
proof -
  have n: "cached w_env (NewResolver None) w_spec = None"
    by (simp add: cached_def cache_get_def NewResolver_def)
  obtain t r' where r: "Resolve w_env (NewResolver None) w_spec 80 ''tcp'' = (Inr t, r')"
    unfolding Resolve_def w_spec_valid
    using n w_env_safe by (simp add: w_spec_def resolveHostname_def w_env_def Let_def)
  have "no_nul w_spec" by (simp add: no_nul_def w_spec_def)
  from resolve_safe [OF cache_ok_new(1) w_spec_valid this r] r show ?thesis
    by (simp add: w_spec_def)
qed

text \<open>
  Picking a container's address is a search for the best candidate: for a TCP port the first
  safe endpoint that answers the probe; failing that, and for other protocols, the first safe
  one; \<open>NoUsableEndpoint\<close> exactly when no endpoint is safe.
\<close>

theorem select_endpoint_spec:
  "selectEndpoint probe eps port proto =
    (let safe = filter (\<lambda>e. safe_backend_ip (ep_ip e) = None) eps;
         answering = filter (\<lambda>e. proto = ''tcp'' \<and> port > 0 \<and> probe (join_host_port (ep_ip e) (int_str port))) safe in
     if answering \<noteq> [] then Inr (endpoint_target (hd answering) ''runtime socket, probe confirmed'')
     else if safe \<noteq> [] then Inr (endpoint_target (hd safe)
       (if proto = ''tcp'' \<and> port > 0 then ''runtime socket, no candidate answered probe''
        else ''runtime socket, deterministic pick''))
     else Inl NoUsableEndpoint)"
proof -
  have hd: "List.find P xs = (if filter P xs = [] then None else Some (hd (filter P xs)))"
    for P and xs :: "endpoint list" by (induction xs) auto
  show ?thesis
    unfolding selectEndpoint_def select_loop_spec hd filter_filter Let_def
    by (auto simp: conj_commute conj_left_commute)
qed

text \<open>
  How long an answer is kept. When the name of an origin was not cached and it resolves to
  \<open>t\<close>, every resolution of it before the expiry returns \<open>t\<close> without asking anyone and changes
  nothing; from the expiry on, after \<open>Invalidate\<close> and after \<open>SetDocker\<close>, it is asked anew. The
  expiry is the time of storing plus the time to live of the origin's kind.
\<close>

theorem resolve_window:
  assumes "validate s0 = Inr s" and "o_kind s \<in> {Hostname, Container}" and "cached env r s = None"
    and "Resolve env r s0 port proto = (Inr t, r')"
  shows "\<exists>ttl. ttl \<in> (if o_kind s = Hostname then {rs_hostname_ttl r} else {rs_name_ttl r, rs_addr_ttl r})
    \<and> (\<forall>env' port' proto'. re_now env' < re_stored env + ttl \<longrightarrow> Resolve env' r' s0 port' proto' = (Inr t, r'))
    \<and> (\<forall>env'. re_stored env + ttl \<le> re_now env' \<longrightarrow> cached env' r' s = None)
    \<and> (\<forall>env' d. cached env' (Invalidate s r') s = None \<and> cached env' (SetDocker d r') s = None)"
proof -
  have "\<exists>ttl r1. r' = store_target env s t ttl r1
      \<and> ttl \<in> (if o_kind s = Hostname then {rs_hostname_ttl r} else {rs_name_ttl r, rs_addr_ttl r})"
    using assms(2)
  proof (elim insertE emptyE)
    assume k: "o_kind s = Hostname"
    then have "resolveHostname env r s = (Inr t, r')" using assms(1,4) by (simp add: Resolve_def)
    with k assms(3) show ?thesis
      by (auto simp: resolveHostname_def Let_def split: sum.splits if_splits option.splits)
  next
    assume k: "o_kind s = Container"
    then have "resolveContainer env r s port proto = (Inr t, r')" using assms(1,4) by (simp add: Resolve_def)
    with k assms(3) show ?thesis
      by (auto simp: resolveContainer_def Let_def split: sum.splits if_splits prod.splits)
  qed
  then obtain ttl r1 where r': "r' = store_target env s t ttl r1"
    and ttl: "ttl \<in> (if o_kind s = Hostname then {rs_hostname_ttl r} else {rs_name_ttl r, rs_addr_ttl r})"
    by blast
  have c: "cached env' r' s = (if re_now env' < re_stored env + ttl then Some t else None)" for env'
    by (simp add: cached_def r' store_target_def rc.get_put)
  have hit: "Resolve env' r' s0 port' proto' = (Inr t, r')" if "cached env' r' s = Some t" for env' port' proto'
    using that assms(1,2) by (auto simp: Resolve_def resolveHostname_def resolveContainer_def)
  show ?thesis
    using ttl by (intro exI [of _ ttl])
      (auto simp: hit c, auto simp: cached_def Invalidate_def SetDocker_def rc.get_del rc.get_empty)
qed

theorem resolve_window_witness:
  "\<exists>t r'. Resolve w_env (NewResolver None) w_spec 80 ''tcp'' = (Inr t, r')
    \<and> Resolve (w_env\<lparr>re_now := 7, re_lookup := (\<lambda>_. Inl [])\<rparr>) r' w_spec 80 ''tcp'' = (Inr t, r')"
proof -
  have n: "cached w_env (NewResolver None) w_spec = None"
    by (simp add: cached_def cache_get_def NewResolver_def)
  obtain t r' where r: "Resolve w_env (NewResolver None) w_spec 80 ''tcp'' = (Inr t, r')"
    unfolding Resolve_def w_spec_valid
    using n w_env_safe by (simp add: w_spec_def resolveHostname_def w_env_def Let_def)
  have k: "o_kind w_spec \<in> {Hostname, Container}" "o_kind w_spec = Hostname" by (simp_all add: w_spec_def)
  from resolve_window [OF w_spec_valid k(1) n r] r show ?thesis
    by (auto simp: k w_env_def NewResolver_def)
qed

text \<open>
  A container origin is resolved by name without looking at the addresses behind the name.
  \<open>Validate\<close> accepts any text as a container's name, so an origin of kind \<open>container\<close> with the
  value \<open>127.0.0.1\<close> is dialled on the gateway's loopback, which the kinds \<open>ip\<close> and \<open>hostname\<close>
  refuse for the same value.
\<close>

theorem container_name_unchecked:
  "let env = w_env\<lparr>re_lookup := (\<lambda>h. Inr [h])\<rparr>; r = NewResolver None;
       origin = (\<lambda>k. \<lparr>o_kind = k, o_value = ''127.0.0.1'', o_network = []\<rparr>) in
    map_sum id tg_host (fst (Resolve env r (origin Container) 9100 ''tcp'')) = Inr ''127.0.0.1''
    \<and> fst (Resolve env r (origin Hostname) 9100 ''tcp'') = Inl (RefusedBackend RefusedLoopback)
    \<and> fst (Resolve env r (origin IP) 9100 ''tcp'') = Inl (InvalidOrigin RefusedLoopback)"
proof -
  have t: "trim_space ''127.0.0.1'' = ''127.0.0.1''" by (simp add: trim_space_ends is_space_def)
  have p: "parse_addr ''127.0.0.1'' = Some (V4 0x7F000001)" by (simp add: addr_eval)
  have s: "safe_backend_addr (V4 0x7F000001) = Some RefusedLoopback"
    by (simp add: safe_backend_addr_def is_loopback_def unmap_def is_4in6_def v4_byte_def)
  have v: "validate \<lparr>o_kind = Container, o_value = ''127.0.0.1'', o_network = []\<rparr>
      = Inr \<lparr>o_kind = Container, o_value = ''127.0.0.1'', o_network = []\<rparr>"
    "validate \<lparr>o_kind = Hostname, o_value = ''127.0.0.1'', o_network = []\<rparr>
      = Inr \<lparr>o_kind = Hostname, o_value = ''127.0.0.1'', o_network = []\<rparr>"
    by (rule validate_fixpoint; simp add: spec_ok_def Valid_def t)+
  have ip: "validate \<lparr>o_kind = IP, o_value = ''127.0.0.1'', o_network = []\<rparr> = Inl RefusedLoopback"
    using p s t Valid_normal [of IP] by (simp add: validate_def Valid_def Let_def)
  show ?thesis
    by (simp add: Let_def Resolve_def v ip resolveHostname_def resolveContainer_def cached_def cache_get_def
        NewResolver_def w_env_def by_name_def safe_backend_ip_def p s)
qed

end
