(* ===== verification/Proxy.thy ===== *)
theory Proxy
  imports FlowTable Resolver
begin

text \<open>
  \<open>daemon/proxy/tcp.go\<close> and \<open>udp.go\<close>: what becomes of an accepted connection or datagram. The
  network is a parameter: \<open>dial\<close> gives the local address of the socket to a backend, or fails.
  Sockets are handles; calling a flow's \<open>Close\<close> cancels its context and closes its handle.
  \<open>splice\<close> copies bytes until both sides end; what other connections do to the flow table
  meanwhile is a parameter too.
\<close>

section \<open>TCP\<close>

definition service_flow ::
  "user_snapshot \<Rightarrow> service_snapshot \<Rightarrow> int \<Rightarrow> string \<Rightarrow> string \<Rightarrow> string \<Rightarrow> nat \<Rightarrow> flow" where
  "service_flow user svc port proto src local_addr c = \<lparr>f_user = us_id user, f_object_type = ''service'',
     f_object = ss_id svc, f_port = port, f_protocol = proto, f_src_addr = src, f_backend = local_addr,
     f_close = Some c\<rparr>"

text \<open>The decision about a connection from \<open>remote\<close> to \<open>local_addr\<close>.\<close>

definition tcp_admit ::
  "index \<Rightarrow> string option \<Rightarrow> string option \<Rightarrow> (user_snapshot \<times> service_snapshot \<times> int) option" where
  "tcp_admit idx remote local_addr = (case splitHostPort remote of None \<Rightarrow> None
     | Some (srcIP, _) \<Rightarrow> (case splitHostPort local_addr of None \<Rightarrow> None
        | Some (dstIP, dstPort) \<Rightarrow> (case CheckService idx srcIP dstIP dstPort ''tcp'' of
             (Allow, Some user, Some svc) \<Rightarrow> Some (user, svc, dstPort)
           | _ \<Rightarrow> None)))"

definition backend_addr :: "target \<Rightarrow> int \<Rightarrow> string" where
  "backend_addr t port = join_host_port (tg_host t) (int_str port)"

text \<open>Resolving and dialling: a failed dial makes the resolver forget the origin.\<close>

definition tcp_dial ::
  "resolve_env \<Rightarrow> (string \<Rightarrow> string option) \<Rightarrow> service_snapshot \<Rightarrow> int \<Rightarrow> resolver
    \<Rightarrow> (string list \<times> string option) \<times> resolver" where
  "tcp_dial env dial svc port r = (case Resolve env r (ss_origin svc) port ''tcp'' of
     (Inl e, r') \<Rightarrow> (([], None), r')
   | (Inr t, r') \<Rightarrow> (case dial (backend_addr t port) of
        None \<Rightarrow> (([backend_addr t port], None), Invalidate (ss_origin svc) r')
      | Some l \<Rightarrow> (([backend_addr t port], Some l), r')))"

datatype tcp_event = Dialled string | FlowAdded "64 word" | Spliced | FlowRemoved "64 word"
  | BackendClosed | ConnClosed

definition tcp_Handle ::
  "resolve_env \<Rightarrow> (string \<Rightarrow> string option) \<Rightarrow> (flow_table \<Rightarrow> flow_table) \<Rightarrow> index \<Rightarrow> nat
    \<Rightarrow> string option \<Rightarrow> string option \<Rightarrow> resolver \<Rightarrow> flow_table \<Rightarrow> tcp_event list \<times> resolver \<times> flow_table" where
  "tcp_Handle env dial meanwhile idx c remote local_addr r t =
    (case tcp_admit idx remote local_addr of None \<Rightarrow> ([ConnClosed], r, t)
     | Some (user, svc, port) \<Rightarrow>
        (case tcp_dial env dial svc port r of
           ((as, None), r') \<Rightarrow> (map Dialled as @ [ConnClosed], r', t)
         | ((as, Some l), r') \<Rightarrow>
            (case ft_Add (service_flow user svc port ''tcp'' (the remote) l c) t of
               (i, t1) \<Rightarrow> (map Dialled as @ [FlowAdded i, Spliced, FlowRemoved i, BackendClosed, ConnClosed],
                  r', ft_Remove i (meanwhile t1)))))"

section \<open>UDP\<close>

record udp_key =
  uk_src_ip :: string
  uk_src_port :: int
  uk_vip :: string
  uk_port :: int

record udp_flow =
  uf_out :: nat
  uf_seen :: int
  uf_id :: "64 word"

text \<open>The handler's map with what it shares with the rest of the daemon; \<open>uh_open\<close> are the sockets
  that are open, \<open>uh_pumps\<close> the keys of the reply pumps that run, \<open>uh_closing\<close> the flows that a
  finished pump has taken out of the map and not closed yet.\<close>

record udp_handler =
  uh_flows :: "(udp_key \<times> udp_flow) list"
  uh_table :: flow_table
  uh_resolver :: resolver
  uh_open :: "nat list"
  uh_pumps :: "udp_key list"
  uh_closing :: "udp_flow list"

definition idle_timeout :: int where
  "idle_timeout = seconds 60"

definition NewUDPHandler :: "flow_table \<Rightarrow> resolver \<Rightarrow> udp_handler" where
  "NewUDPHandler t r = \<lparr>uh_flows = [], uh_table = t, uh_resolver = r, uh_open = [], uh_pumps = [],
     uh_closing = []\<rparr>"

definition udp_admit ::
  "index \<Rightarrow> string option \<Rightarrow> string \<Rightarrow> int \<Rightarrow> (udp_key \<times> user_snapshot \<times> service_snapshot) option" where
  "udp_admit idx src vip port = (case splitHostPort src of None \<Rightarrow> None
     | Some (srcIP, srcPort) \<Rightarrow> (case CheckService idx srcIP vip port ''udp'' of
          (Allow, Some user, Some svc) \<Rightarrow>
            Some (\<lparr>uk_src_ip = srcIP, uk_src_port = srcPort, uk_vip = vip, uk_port = port\<rparr>, user, svc)
        | _ \<Rightarrow> None))"

text \<open>A new flow: \<open>resolve_addr\<close> is \<open>net.ResolveUDPAddr\<close>, \<open>c\<close> the handle of the socket that a
  successful dial opens.\<close>

definition udp_open ::
  "resolve_env \<Rightarrow> (string \<Rightarrow> bool) \<Rightarrow> (string \<Rightarrow> string option) \<Rightarrow> nat \<Rightarrow> int \<Rightarrow> string
    \<Rightarrow> udp_key \<times> user_snapshot \<times> service_snapshot \<Rightarrow> udp_handler \<Rightarrow> udp_flow option \<times> udp_handler" where
  "udp_open env resolve_addr dial c now src adm h = (case adm of (key, user, svc) \<Rightarrow>
     (case Resolve env (uh_resolver h) (ss_origin svc) (uk_port key) ''udp'' of
        (Inl e, r') \<Rightarrow> (None, h\<lparr>uh_resolver := r'\<rparr>)
      | (Inr t, r') \<Rightarrow>
          (let backend = backend_addr t (uk_port key) in
           if \<not> resolve_addr backend then (None, h\<lparr>uh_resolver := r'\<rparr>)
           else case dial backend of None \<Rightarrow> (None, h\<lparr>uh_resolver := Invalidate (ss_origin svc) r'\<rparr>)
            | Some l \<Rightarrow> (case ft_Add (service_flow user svc (uk_port key) ''udp'' src l c) (uh_table h) of
                 (i, t') \<Rightarrow> (let f = \<lparr>uf_out = c, uf_seen = now, uf_id = i\<rparr> in
                   (Some f, h\<lparr>uh_resolver := r', uh_table := t', uh_open := c # uh_open h,
                      uh_flows := AList.update key f (uh_flows h), uh_pumps := key # uh_pumps h\<rparr>))))))"

text \<open>The part under the handler's lock, then the write: a datagram goes out on the flow's socket
  if that is still open.\<close>

definition udp_forward ::
  "resolve_env \<Rightarrow> (string \<Rightarrow> bool) \<Rightarrow> (string \<Rightarrow> string option) \<Rightarrow> nat \<Rightarrow> int \<Rightarrow> string
    \<Rightarrow> udp_key \<times> user_snapshot \<times> service_snapshot \<Rightarrow> udp_handler \<Rightarrow> nat option \<times> udp_handler" where
  "udp_forward env resolve_addr dial c now src adm h =
    (case (case map_of (uh_flows h) (fst adm) of Some f \<Rightarrow> (Some f, h)
           | None \<Rightarrow> udp_open env resolve_addr dial c now src adm h) of
       (None, h') \<Rightarrow> (None, h')
     | (Some f, h') \<Rightarrow>
         (if uf_out f \<in> set (uh_open h') then Some (uf_out f) else None,
          h'\<lparr>uh_flows := AList.update (fst adm) (f\<lparr>uf_seen := now\<rparr>) (uh_flows h')\<rparr>))"

definition HandlePacket ::
  "resolve_env \<Rightarrow> (string \<Rightarrow> bool) \<Rightarrow> (string \<Rightarrow> string option) \<Rightarrow> index \<Rightarrow> nat \<Rightarrow> int \<Rightarrow> string option
    \<Rightarrow> string \<Rightarrow> int \<Rightarrow> udp_handler \<Rightarrow> nat option \<times> udp_handler" where
  "HandlePacket env resolve_addr dial idx c now src vip port h =
    (case udp_admit idx src vip port of None \<Rightarrow> (None, h)
     | Some adm \<Rightarrow> udp_forward env resolve_addr dial c now (the src) adm h)"

text \<open>One turn of the loop of \<open>pumpReplies\<close>: \<open>done1\<close> and \<open>done2\<close> say whether the flow's context is
  cancelled at the top and after the read.\<close>

datatype read_result = Got string | ReadFailed
datatype pump_next = PumpExit | PumpAgain | PumpReply string

definition pump_turn :: "bool \<Rightarrow> udp_flow option \<Rightarrow> read_result \<Rightarrow> bool \<Rightarrow> int \<Rightarrow> pump_next" where
  "pump_turn done1 entry res done2 now = (if done1 then PumpExit
     else case entry of None \<Rightarrow> PumpExit
      | Some f \<Rightarrow> (case res of Got bytes \<Rightarrow> PumpReply bytes
         | ReadFailed \<Rightarrow> if done2 then PumpExit
             else if now - uf_seen f > idle_timeout then PumpExit else PumpAgain))"

text \<open>\<open>removeFlow\<close>, deferred by the pump: out of the map under the lock, then closed.\<close>

definition take_flow :: "udp_key \<Rightarrow> udp_handler \<Rightarrow> udp_handler" where
  "take_flow key h = h\<lparr>uh_flows := AList.delete key (uh_flows h), uh_pumps := remove1 key (uh_pumps h),
     uh_closing := (case map_of (uh_flows h) key of None \<Rightarrow> uh_closing h | Some f \<Rightarrow> f # uh_closing h)\<rparr>"

definition close_flow :: "udp_flow \<Rightarrow> udp_handler \<Rightarrow> udp_handler" where
  "close_flow f h = h\<lparr>uh_closing := remove1 f (uh_closing h), uh_open := removeAll (uf_out f) (uh_open h),
     uh_table := ft_Remove (uf_id f) (uh_table h)\<rparr>"

definition udp_reap :: "index \<Rightarrow> udp_handler \<Rightarrow> udp_handler" where
  "udp_reap idx h = (case ft_Reap idx (uh_table h) of (t', closed) \<Rightarrow>
     h\<lparr>uh_table := t', uh_open := filter (\<lambda>c. c \<notin> set closed) (uh_open h)\<rparr>)"

section \<open>Interleavings of the UDP handler\<close>

text \<open>Each constructor is one critical section of the handler or the table. A new socket has a
  handle that no flow has. Fewer than 2^64 - 1 flows are ever added.\<close>

abbreviation owned :: "udp_handler \<Rightarrow> udp_flow list" where
  "owned h \<equiv> map snd (uh_flows h) @ uh_closing h"

definition new_handle :: "nat \<Rightarrow> udp_handler \<Rightarrow> bool" where
  "new_handle c h \<longleftrightarrow> c \<notin> uf_out ` set (owned h) \<and> c \<notin> set (uh_open h)
     \<and> (\<forall>g\<in>snd ` set (ft_flows (uh_table h)). f_close g \<noteq> Some c)"

inductive udp_step :: "udp_handler \<Rightarrow> udp_handler \<Rightarrow> bool" where
  packet: "\<lbrakk>udp_admit idx src vip port = Some adm; new_handle c h; ft_next (uh_table h) \<noteq> -1\<rbrakk>
    \<Longrightarrow> udp_step h (snd (udp_forward env resolve_addr dial c now (the src) adm h))"
| reap: "udp_step h (udp_reap idx h)"
| pump_done: "key \<in> set (uh_pumps h) \<Longrightarrow> udp_step h (take_flow key h)"
| closing: "f \<in> set (uh_closing h) \<Longrightarrow> udp_step h (close_flow f h)"
| other_add: "\<lbrakk>f_protocol g \<noteq> ''udp''; f_close g = Some c; new_handle c h; ft_next (uh_table h) \<noteq> -1\<rbrakk>
    \<Longrightarrow> udp_step h (h\<lparr>uh_table := snd (ft_Add g (uh_table h))\<rparr>)"
| other_remove: "i \<notin> uf_id ` set (owned h) \<Longrightarrow> udp_step h (h\<lparr>uh_table := ft_Remove i (uh_table h)\<rparr>)"

inductive udp_run :: "udp_handler \<Rightarrow> udp_handler \<Rightarrow> bool" for h0 where
  begin_run: "udp_run h0 h0"
| extend_run: "\<lbrakk>udp_run h0 h; udp_step h h'\<rbrakk> \<Longrightarrow> udp_run h0 h'"

text \<open>The invariant: pumps and entries correspond; sockets and ids are not shared; a socket is open
  exactly while its flow is in the table; the table's UDP flows are the handler's. \<open>P\<close> holds the
  socket and the id of each flow the handler owns.\<close>

definition sock_inv :: "(64 word \<rightharpoonup> flow) \<Rightarrow> 64 word \<Rightarrow> nat set \<Rightarrow> (nat \<times> 64 word) set \<Rightarrow> bool" where
  "sock_inv T nx Op P \<longleftrightarrow>
     (\<forall>c i j. (c, i) \<in> P \<longrightarrow> (c, j) \<in> P \<longrightarrow> i = j) \<and> (\<forall>c c' i. (c, i) \<in> P \<longrightarrow> (c', i) \<in> P \<longrightarrow> c = c')
     \<and> (\<forall>c\<in>Op. \<exists>i. (c, i) \<in> P) \<and> (\<forall>i g. T i = Some g \<longrightarrow> i \<le> nx) \<and> (\<forall>c i. (c, i) \<in> P \<longrightarrow> i \<le> nx)
     \<and> (\<forall>c i. (c, i) \<in> P \<longrightarrow> T i = None \<longrightarrow> c \<notin> Op)
     \<and> (\<forall>c i g. (c, i) \<in> P \<longrightarrow> T i = Some g \<longrightarrow> c \<in> Op \<and> f_close g = Some c)
     \<and> (\<forall>i g. T i = Some g \<longrightarrow> (\<forall>c. (c, i) \<notin> P) \<longrightarrow>
          f_protocol g \<noteq> ''udp'' \<and> (\<forall>c j. (c, j) \<in> P \<longrightarrow> f_close g \<noteq> Some c))"

definition pairs :: "udp_handler \<Rightarrow> (nat \<times> 64 word) set" where
  "pairs h = (\<lambda>f. (uf_out f, uf_id f)) ` set (owned h)"

definition udp_inv :: "udp_handler \<Rightarrow> bool" where
  "udp_inv h \<longleftrightarrow> ft_wf (uh_table h)
     \<and> distinct (map fst (uh_flows h)) \<and> distinct (uh_pumps h) \<and> set (uh_pumps h) = fst ` set (uh_flows h)
     \<and> sock_inv (map_of (ft_flows (uh_table h))) (ft_next (uh_table h)) (set (uh_open h)) (pairs h)"

lemma udp_inv_new:
  assumes "ft_wf t" and "\<forall>i g. map_of (ft_flows t) i = Some g \<longrightarrow> f_protocol g \<noteq> ''udp''"
  shows "udp_inv (NewUDPHandler t r)"
proof -
  have "i \<le> ft_next t" if "map_of (ft_flows t) i = Some g" for i g
    using assms(1) map_of_SomeD [OF that] by (force simp: ft_wf_def)
  then show ?thesis using assms by (simp add: udp_inv_def NewUDPHandler_def sock_inv_def pairs_def)
qed

lemma udp_inv_resolver [simp]: "udp_inv (h\<lparr>uh_resolver := r\<rparr>) = udp_inv h"
  by (simp add: udp_inv_def pairs_def)

lemma sock_invI:
  assumes "\<And>c i j. \<lbrakk>(c, i) \<in> P; (c, j) \<in> P\<rbrakk> \<Longrightarrow> i = j" "\<And>c c' i. \<lbrakk>(c, i) \<in> P; (c', i) \<in> P\<rbrakk> \<Longrightarrow> c = c'"
    and "\<And>c. c \<in> Op \<Longrightarrow> \<exists>i. (c, i) \<in> P" "\<And>i g. T i = Some g \<Longrightarrow> i \<le> nx" "\<And>c i. (c, i) \<in> P \<Longrightarrow> i \<le> nx"
    and "\<And>c i. \<lbrakk>(c, i) \<in> P; T i = None\<rbrakk> \<Longrightarrow> c \<notin> Op"
    and "\<And>c i g. \<lbrakk>(c, i) \<in> P; T i = Some g\<rbrakk> \<Longrightarrow> c \<in> Op \<and> f_close g = Some c"
    and "\<And>i g. \<lbrakk>T i = Some g; \<forall>c. (c, i) \<notin> P\<rbrakk> \<Longrightarrow>
      f_protocol g \<noteq> ''udp'' \<and> (\<forall>c j. (c, j) \<in> P \<longrightarrow> f_close g \<noteq> Some c)"
  shows "sock_inv T nx Op P"
  unfolding sock_inv_def using assms by blast

lemma sock_invD:
  assumes "sock_inv T nx Op P"
  shows "\<lbrakk>(c, i) \<in> P; (c, j) \<in> P\<rbrakk> \<Longrightarrow> i = j" "\<lbrakk>(c, i) \<in> P; (c', i) \<in> P\<rbrakk> \<Longrightarrow> c = c'"
    and "c \<in> Op \<Longrightarrow> \<exists>i. (c, i) \<in> P" "T i = Some g \<Longrightarrow> i \<le> nx" "(c, i) \<in> P \<Longrightarrow> i \<le> nx"
    and "\<lbrakk>(c, i) \<in> P; T i = None\<rbrakk> \<Longrightarrow> c \<notin> Op"
    and "\<lbrakk>(c, i) \<in> P; T i = Some g\<rbrakk> \<Longrightarrow> c \<in> Op \<and> f_close g = Some c"
    and "\<lbrakk>T i = Some g; \<forall>c. (c, i) \<notin> P\<rbrakk> \<Longrightarrow>
      f_protocol g \<noteq> ''udp'' \<and> (\<forall>c j. (c, j) \<in> P \<longrightarrow> f_close g \<noteq> Some c)"
  using assms unfolding sock_inv_def by blast+

lemma sock_new:
  assumes inv: "sock_inv T nx Op P" and c: "\<And>i. (c, i) \<notin> P" "\<And>i g. T i = Some g \<Longrightarrow> f_close g \<noteq> Some c"
    and g: "f_close g = Some c" and "nx < i"
  shows "sock_inv (T(i := Some g)) i (insert c Op) (insert (c, i) P)"
proof -
  note D = sock_invD [OF inv]
  have le: "j \<le> i \<and> j \<noteq> i" if "j \<le> nx" for j using \<open>nx < i\<close> that by auto
  have P: "j \<le> i \<and> j \<noteq> i \<and> c' \<noteq> c" if "(c', j) \<in> P" for c' j using le D(5) [OF that] that c(1) by blast
  have T: "j \<le> i \<and> j \<noteq> i" if "T j = Some g'" for j g' using le D(4) [OF that] by blast
  show ?thesis
  proof (rule sock_invI)
    fix c' j k assume "(c', j) \<in> insert (c, i) P" "(c', k) \<in> insert (c, i) P"
    then show "j = k" using P D(1) c(1) by blast
  next
    fix c' c'' j assume "(c', j) \<in> insert (c, i) P" "(c'', j) \<in> insert (c, i) P"
    then show "c' = c''" using P D(2) by blast
  next
    fix c' assume "c' \<in> insert c Op" then show "\<exists>j. (c', j) \<in> insert (c, i) P" using D(3) by blast
  next
    fix j g' assume "(T(i := Some g)) j = Some g'" then show "j \<le> i" using T by (cases "j = i") auto
  next
    fix c' j assume "(c', j) \<in> insert (c, i) P" then show "j \<le> i" using P by blast
  next
    fix c' j assume "(c', j) \<in> insert (c, i) P" "(T(i := Some g)) j = None"
    then show "c' \<notin> insert c Op" using P D(6) by (auto split: if_splits)
  next
    fix c' j g' assume "(c', j) \<in> insert (c, i) P" "(T(i := Some g)) j = Some g'"
    then show "c' \<in> insert c Op \<and> f_close g' = Some c'" using P D(7) g by (auto split: if_splits)
  next
    fix j g' assume "(T(i := Some g)) j = Some g'" "\<forall>c'. (c', j) \<notin> insert (c, i) P"
    then have "T j = Some g'" "\<forall>c'. (c', j) \<notin> P" by (auto split: if_splits)
    then show "f_protocol g' \<noteq> ''udp'' \<and> (\<forall>c' k. (c', k) \<in> insert (c, i) P \<longrightarrow> f_close g' \<noteq> Some c')"
      using D(8) c(2) by blast
  qed
qed

lemma sock_reap:
  assumes inv: "sock_inv T nx Op P"
    and T': "\<And>i. T' i = (case T i of Some g \<Rightarrow> if ok g then Some g else None | None \<Rightarrow> None)"
    and Op': "\<And>c. c \<in> Op' \<longleftrightarrow> c \<in> Op \<and> \<not> (\<exists>i g. T i = Some g \<and> \<not> ok g \<and> f_close g = Some c)"
  shows "sock_inv T' nx Op' P"
proof -
  note D = sock_invD [OF inv]
  have one: "j = i" if "(c, i) \<in> P" "T j = Some g'" "f_close g' = Some c" for c i j g'
    using D(1,7,8) that by (metis option.inject)
  have T: "T i = Some g \<and> ok g" if "T' i = Some g" for i g
    using that T' [of i] by (simp split: option.splits if_splits)
  show ?thesis
  proof (rule sock_invI)
    fix c i assume p: "(c, i) \<in> P" "T' i = None"
    show "c \<notin> Op'"
    proof (cases "T i")
      case None
      then show ?thesis using D(6) [OF p(1)] Op' by blast
    next
      case (Some g)
      then have "\<not> ok g" using p(2) T' [of i] by (simp split: if_splits)
      then show ?thesis using D(7) [OF p(1) Some] Some Op' by blast
    qed
  next
    fix c i g assume p: "(c, i) \<in> P" "T' i = Some g"
    have "ok g'" if "T j = Some g'" "f_close g' = Some c" for j g'
      using one [OF p(1) that] T [OF p(2)] that(1) by simp
    then show "c \<in> Op' \<and> f_close g = Some c" using D(7) [OF p(1)] T [OF p(2)] Op' by blast
  next
    fix c assume "c \<in> Op'" then show "\<exists>i. (c, i) \<in> P" using Op' D(3) by blast
  next
    fix i g assume "T' i = Some g" "\<forall>c. (c, i) \<notin> P"
    then show "f_protocol g \<noteq> ''udp'' \<and> (\<forall>c j. (c, j) \<in> P \<longrightarrow> f_close g \<noteq> Some c)" using T D(8) by blast
  next
    fix i g assume "T' i = Some g" then show "i \<le> nx" using T D(4) by blast
  qed (fact D(1) D(2) D(5))+
qed

lemma sock_close:
  assumes inv: "sock_inv T nx Op P" and p: "(c, i) \<in> P" and P': "P - {(c, i)} \<subseteq> P'" "P' \<subseteq> P"
  shows "sock_inv (T(i := None)) nx (Op - {c}) P'"
proof -
  note D = sock_invD [OF inv]
  have other: "c' = c \<longleftrightarrow> j = i" if "(c', j) \<in> P" for c' j using D(1,2) p that by blast
  show ?thesis
  proof (rule sock_invI)
    fix c' assume "c' \<in> Op - {c}"
    then show "\<exists>j. (c', j) \<in> P'" using D(3) P'(1) by blast
  next
    fix c' j assume "(c', j) \<in> P'" "(T(i := None)) j = None"
    then show "c' \<notin> Op - {c}" using other D(6) P'(2) by (auto split: if_splits)
  next
    fix c' j g assume "(c', j) \<in> P'" "(T(i := None)) j = Some g"
    then have "(c', j) \<in> P" "j \<noteq> i" "T j = Some g" using P'(2) by (auto split: if_splits)
    then show "c' \<in> Op - {c} \<and> f_close g = Some c'" using other [of c' j] D(7) by simp
  next
    fix j g assume a: "(T(i := None)) j = Some g" "\<forall>c'. (c', j) \<notin> P'"
    then have "T j = Some g" "\<forall>c'. (c', j) \<notin> P" using P'(1) by (auto split: if_splits)
    then show "f_protocol g \<noteq> ''udp'' \<and> (\<forall>c j. (c, j) \<in> P' \<longrightarrow> f_close g \<noteq> Some c)" using D(8) P'(2) by blast
  next
    fix j g assume "(T(i := None)) j = Some g" then show "j \<le> nx" using D(4) by (auto split: if_splits)
  next
    fix c' j k assume "(c', j) \<in> P'" "(c', k) \<in> P'" then show "j = k" using D(1) P'(2) by blast
  next
    fix c' c'' j assume "(c', j) \<in> P'" "(c'', j) \<in> P'" then show "c' = c''" using D(2) P'(2) by blast
  next
    fix c' j assume "(c', j) \<in> P'" then show "j \<le> nx" using D(5) P'(2) by blast
  qed
qed

lemma sock_other_add:
  assumes inv: "sock_inv T nx Op P" and "nx < i" and g: "f_close g = Some c" "\<And>j. (c, j) \<notin> P" "f_protocol g \<noteq> ''udp''"
  shows "sock_inv (T(i := Some g)) i Op P"
proof -
  note D = sock_invD [OF inv]
  have le: "j \<le> i \<and> j \<noteq> i" if "j \<le> nx" for j using \<open>nx < i\<close> that by auto
  have P: "j \<le> i \<and> j \<noteq> i" if "(c', j) \<in> P" for c' j using le D(5) [OF that] by blast
  show ?thesis
  proof (rule sock_invI)
    fix j g' assume "(T(i := Some g)) j = Some g'" then show "j \<le> i" using le D(4) by (cases "j = i") auto
  next
    fix c' j assume "(c', j) \<in> P" "(T(i := Some g)) j = None"
    then show "c' \<notin> Op" using P D(6) by (auto split: if_splits)
  next
    fix c' j g' assume "(c', j) \<in> P" "(T(i := Some g)) j = Some g'"
    then show "c' \<in> Op \<and> f_close g' = Some c'" using P D(7) by (auto split: if_splits)
  next
    fix j g' assume "(T(i := Some g)) j = Some g'" "\<forall>c'. (c', j) \<notin> P"
    then show "f_protocol g' \<noteq> ''udp'' \<and> (\<forall>c j. (c, j) \<in> P \<longrightarrow> f_close g' \<noteq> Some c)"
      using g D(8) by (auto split: if_splits)
  next
    fix c' j assume "(c', j) \<in> P" then show "j \<le> i" using P by blast
  qed (fact D(1) D(2) D(3))+
qed

lemma sock_other_remove:
  assumes inv: "sock_inv T nx Op P" and "\<And>c. (c, i) \<notin> P"
  shows "sock_inv (T(i := None)) nx Op P"
proof -
  note D = sock_invD [OF inv]
  show ?thesis
  proof (rule sock_invI)
    fix c j assume "(c, j) \<in> P" "(T(i := None)) j = None"
    then show "c \<notin> Op" using D(6) assms(2) by (auto split: if_splits)
  next
    fix c j g assume "(c, j) \<in> P" "(T(i := None)) j = Some g"
    then show "c \<in> Op \<and> f_close g = Some c" using D(7) by (auto split: if_splits)
  next
    fix j g assume "(T(i := None)) j = Some g" then show "j \<le> nx" using D(4) by (auto split: if_splits)
  next
    fix j g assume "(T(i := None)) j = Some g" "\<forall>c. (c, j) \<notin> P"
    then show "f_protocol g \<noteq> ''udp'' \<and> (\<forall>c j. (c, j) \<in> P \<longrightarrow> f_close g \<noteq> Some c)"
      using D(8) by (auto split: if_splits)
  qed (fact D(1) D(2) D(3) D(5))+
qed

section \<open>Every step keeps the invariant\<close>

abbreviation ids :: "udp_flow \<Rightarrow> nat \<times> 64 word" where "ids f \<equiv> (uf_out f, uf_id f)"

lemma pairs_ran:
  "distinct (map fst (uh_flows h)) \<Longrightarrow> pairs h = ids ` (ran (map_of (uh_flows h)) \<union> set (uh_closing h))"
  by (auto simp: pairs_def ran_distinct)

lemma ran_upd: "ran (m(k := Some f)) = insert f (ran (m(k := None)))"
  by (auto simp: ran_def)

lemma ran_split: "m k = Some f \<Longrightarrow> ran m = insert f (ran (m(k := None)))"
  by (auto simp: ran_def) (metis option.inject)

lemma map_of_filter_values:
  "distinct (map fst xs) \<Longrightarrow> map_of (filter (\<lambda>(i, f). ok f) xs) i =
    (case map_of xs i of Some g \<Rightarrow> if ok g then Some g else None | None \<Rightarrow> None)"
  by (induction xs) (auto simp: map_of_eq_None_iff image_iff split: option.split)

lemma inv_next: "udp_inv h \<Longrightarrow> ft_next (uh_table h) \<noteq> -1 \<Longrightarrow> ft_next (uh_table h) < ft_next (uh_table h) + 1"
  by (rule word64_next)

lemma udp_inv_seen:
  assumes "udp_inv h" "map_of (uh_flows h) key = Some f"
  shows "udp_inv (h\<lparr>uh_flows := AList.update key (f\<lparr>uf_seen := now\<rparr>) (uh_flows h)\<rparr>)" (is "udp_inv ?h")
proof -
  have k: "key \<in> fst ` set (uh_flows h)" using assms(2) by (force dest: map_of_SomeD)
  have d: "distinct (map fst (uh_flows h))" using assms(1) by (simp add: udp_inv_def)
  then have d': "distinct (map fst (uh_flows ?h))" by (simp add: distinct_update)
  have "pairs ?h = pairs h"
    unfolding pairs_ran [OF d] pairs_ran [OF d']
    by (simp add: update_conv' ran_upd ran_split [of "map_of (uh_flows h)" key f, OF assms(2)])
  then show ?thesis using assms(1) k by (auto simp: udp_inv_def distinct_update AList.dom_update)
qed

lemma udp_inv_open:
  assumes inv: "udp_inv h" and "map_of (uh_flows h) key = None" "new_handle c h"
    and g: "f_close g = Some c" and nx: "ft_next (uh_table h) \<noteq> -1" and add: "ft_Add g (uh_table h) = (i, t')"
  shows "udp_inv (h\<lparr>uh_table := t', uh_open := c # uh_open h,
      uh_flows := AList.update key \<lparr>uf_out = c, uf_seen = now, uf_id = i\<rparr> (uh_flows h),
      uh_pumps := key # uh_pumps h\<rparr>)" (is "udp_inv ?h")
proof -
  let ?t = "uh_table h"
  have wf: "ft_wf ?t" and d: "distinct (map fst (uh_flows h))" using inv by (simp_all add: udp_inv_def)
  have k: "key \<notin> fst ` set (uh_flows h)" using assms(2) by (simp add: map_of_eq_None_iff)
  have d': "distinct (map fst (uh_flows ?h))" using d by (simp add: distinct_update)
  have i: "i = ft_next ?t + 1" "ft_next t' = i"
    using add by (auto simp: ft_Add_def Let_def)
  have "(map_of (uh_flows h))(key := None) = map_of (uh_flows h)" using assms(2) by (simp add: fun_upd_idem)
  then have P: "pairs ?h = insert (c, i) (pairs h)"
    unfolding pairs_ran [OF d] pairs_ran [OF d'] by (simp add: update_conv' ran_upd)
  have "sock_inv ((map_of (ft_flows ?t))(i := Some g)) i (insert c (set (uh_open h))) (insert (c, i) (pairs h))"
  proof (rule sock_new)
    show "sock_inv (map_of (ft_flows ?t)) (ft_next ?t) (set (uh_open h)) (pairs h)"
      using inv by (simp add: udp_inv_def)
    show "(c, j) \<notin> pairs h" for j using assms(3) by (auto simp: new_handle_def pairs_def)
    show "f_close g' \<noteq> Some c" if "map_of (ft_flows ?t) j = Some g'" for j g'
      using assms(3) map_of_SomeD [OF that] by (force simp: new_handle_def)
    show "ft_next ?t < i" using inv_next [OF inv nx] i(1) by simp
  qed (rule g)
  then show ?thesis
    using inv k d' ft.inv_add [OF wf nx add] ft.of_add [OF wf nx add] P i(2)
    by (simp add: udp_inv_def AList.dom_update)
qed

lemma udp_inv_reap: "udp_inv h \<Longrightarrow> udp_inv (udp_reap idx h)"
proof -
  assume inv: "udp_inv h"
  let ?t = "uh_table h"
  obtain t' closed where r: "ft_Reap idx ?t = (t', closed)" by (cases "ft_Reap idx ?t")
  have wf: "ft_wf ?t" using inv by (simp add: udp_inv_def)
  have d: "distinct (map fst (ft_flows ?t))" using wf by (simp add: ft_wf_def)
  have fl: "ft_flows t' = filter (\<lambda>(i, f). flow_allowed idx f) (ft_flows ?t)" "ft_next t' = ft_next ?t"
    using Reap_flows [OF wf, of idx] r by (auto simp: ft_Reap_def Let_def)
  have T': "map_of (ft_flows t') i = (case map_of (ft_flows ?t) i of
      Some g \<Rightarrow> if flow_allowed idx g then Some g else None | None \<Rightarrow> None)" for i
    unfolding fl(1) by (rule map_of_filter_values [OF d])
  have closed: "c \<in> set closed \<longleftrightarrow>
      (\<exists>i g. map_of (ft_flows ?t) i = Some g \<and> \<not> flow_allowed idx g \<and> f_close g = Some c)" for c
    using r map_of_eq_Some_iff [OF d] by (force simp: ft_Reap_def Let_def split: option.splits)
  have "sock_inv (map_of (ft_flows t')) (ft_next ?t) (set (filter (\<lambda>c. c \<notin> set closed) (uh_open h))) (pairs h)"
  proof (rule sock_reap)
    show "sock_inv (map_of (ft_flows ?t)) (ft_next ?t) (set (uh_open h)) (pairs h)"
      using inv by (simp add: udp_inv_def)
    show "map_of (ft_flows t') i = (case map_of (ft_flows ?t) i of
      Some g \<Rightarrow> if flow_allowed idx g then Some g else None | None \<Rightarrow> None)" for i by (rule T')
  qed (simp add: closed)
  then show ?thesis
    using inv ft_wf_Reap [OF wf, of idx] r fl(2) by (simp add: udp_inv_def udp_reap_def pairs_def)
qed

lemma udp_inv_take: "udp_inv h \<Longrightarrow> udp_inv (take_flow key h)"
proof -
  assume inv: "udp_inv h"
  then have d: "distinct (map fst (uh_flows h))" by (simp add: udp_inv_def)
  then have d': "distinct (map fst (uh_flows (take_flow key h)))"
    by (simp add: take_flow_def AList.distinct_delete)
  have "pairs (take_flow key h) = pairs h"
  proof (cases "map_of (uh_flows h) key")
    case None
    then have "(map_of (uh_flows h))(key := None) = map_of (uh_flows h)" by (simp add: fun_upd_idem)
    then show ?thesis
      unfolding pairs_ran [OF d] pairs_ran [OF d'] by (simp add: take_flow_def None delete_conv')
  next
    case (Some f)
    then show ?thesis
      unfolding pairs_ran [OF d] pairs_ran [OF d'] by (simp add: take_flow_def delete_conv' ran_split [of "map_of (uh_flows h)" key f, OF Some])
  qed
  then show ?thesis
    using inv d' by (auto simp: udp_inv_def take_flow_def set_delete_fst)
qed

lemma udp_inv_close:
  assumes inv: "udp_inv h" and f: "f \<in> set (uh_closing h)"
  shows "udp_inv (close_flow f h)"
proof -
  let ?h = "close_flow f h"
  have wf: "ft_wf (uh_table h)" using inv by (simp add: udp_inv_def)
  have "set (remove1 f (uh_closing h)) \<subseteq> set (uh_closing h)"
    "set (uh_closing h) \<subseteq> insert f (set (remove1 f (uh_closing h)))"
    using set_remove1_subset in_set_remove1 [of _ f "uh_closing h"] by fast+
  moreover have "pairs h = ids ` (snd ` set (uh_flows h) \<union> set (uh_closing h))"
    "pairs ?h = ids ` (snd ` set (uh_flows h) \<union> set (remove1 f (uh_closing h)))"
    by (simp_all add: pairs_def close_flow_def)
  ultimately have P: "pairs h - {ids f} \<subseteq> pairs ?h" "pairs ?h \<subseteq> pairs h" "ids f \<in> pairs h"
    using f by blast+
  have "sock_inv ((map_of (ft_flows (uh_table h)))(uf_id f := None)) (ft_next (uh_table h))
      (set (uh_open h) - {uf_out f}) (pairs ?h)"
    using inv P(1,2) by (intro sock_close [where P = "pairs h"] P(3)) (simp_all add: udp_inv_def)
  then show ?thesis
    using inv ft.inv_remove [OF wf] ft.of_remove [OF wf]
    by (simp add: udp_inv_def close_flow_def) (simp add: ft_Remove_def)
qed

lemma udp_inv_forward:
  assumes inv: "udp_inv h" and "new_handle c h" "ft_next (uh_table h) \<noteq> -1"
  shows "udp_inv (snd (udp_forward env resolve_addr dial c now src adm h))"
proof -
  obtain key user svc where adm: "adm = (key, user, svc)" by (cases adm)
  show ?thesis
  proof (cases "map_of (uh_flows h) key")
    case (Some f)
    then show ?thesis using udp_inv_seen [OF inv Some] by (simp add: udp_forward_def adm)
  next
    case None
    obtain fo h' where o: "udp_open env resolve_addr dial c now src adm h = (fo, h')"
      by (cases "udp_open env resolve_addr dial c now src adm h")
    have "udp_inv h' \<and> (\<forall>f. fo = Some f \<longrightarrow> map_of (uh_flows h') key = Some f)"
    proof (cases fo)
      case None
      then show ?thesis using o inv
        by (auto simp: udp_open_def adm Let_def split: sum.splits prod.splits if_splits option.splits)
    next
      case (Some f)
      then obtain t r' l where "Resolve env (uh_resolver h) (ss_origin svc) (uk_port key) ''udp'' = (Inr t, r')"
        "resolve_addr (backend_addr t (uk_port key))" "dial (backend_addr t (uk_port key)) = Some l"
        using o by (auto simp: udp_open_def adm Let_def split: sum.splits prod.splits if_splits option.splits)
      note r = this
      let ?g = "service_flow user svc (uk_port key) ''udp'' src l c"
      obtain i t' where a: "ft_Add ?g (uh_table h) = (i, t')" by (cases "ft_Add ?g (uh_table h)")
      have g: "f_close ?g = Some c" by (simp add: service_flow_def)
      have f: "f = \<lparr>uf_out = c, uf_seen = now, uf_id = i\<rparr>"
        and h': "h' = h\<lparr>uh_resolver := r', uh_table := t', uh_open := c # uh_open h,
              uh_flows := AList.update key f (uh_flows h), uh_pumps := key # uh_pumps h\<rparr>"
        using o Some r a by (auto simp: udp_open_def adm Let_def)
      let ?h = "h\<lparr>uh_resolver := r'\<rparr>"
      have "udp_inv ?h" "map_of (uh_flows ?h) key = None" "new_handle c ?h"
        "ft_next (uh_table ?h) \<noteq> -1" "ft_Add ?g (uh_table ?h) = (i, t')"
        using assms None a by (simp_all add: new_handle_def)
      from udp_inv_open [OF this(1,2,3) g this(4,5), of now] show ?thesis
        using Some by (simp add: h' f update_conv')
    qed
    then show ?thesis using o None udp_inv_seen [of h' key]
      by (auto simp: udp_forward_def adm split: option.split)
  qed
qed

lemma udp_inv_other_add:
  assumes inv: "udp_inv h" and g: "f_protocol g \<noteq> ''udp''" "f_close g = Some c"
    and c: "new_handle c h" and nx: "ft_next (uh_table h) \<noteq> -1"
  shows "udp_inv (h\<lparr>uh_table := snd (ft_Add g (uh_table h))\<rparr>)"
proof -
  let ?t = "uh_table h"
  obtain i t' where add: "ft_Add g ?t = (i, t')" by (cases "ft_Add g ?t")
  have wf: "ft_wf ?t" using inv by (simp add: udp_inv_def)
  have i: "i = ft_next ?t + 1" "ft_next t' = i" using add by (auto simp: ft_Add_def Let_def)
  have "sock_inv ((map_of (ft_flows ?t))(i := Some g)) i (set (uh_open h)) (pairs h)"
  proof (rule sock_other_add)
    show "sock_inv (map_of (ft_flows ?t)) (ft_next ?t) (set (uh_open h)) (pairs h)"
      using inv by (simp add: udp_inv_def)
    show "(c, j) \<notin> pairs h" for j using c by (auto simp: new_handle_def pairs_def)
    show "ft_next ?t < i" using inv_next [OF inv nx] i(1) by simp
  qed (use g in simp_all)
  then show ?thesis
    using inv ft.inv_add [OF wf nx add] ft.of_add [OF wf nx add] add i(2)
    by (simp add: udp_inv_def pairs_def)
qed

lemma udp_inv_other_remove:
  assumes inv: "udp_inv h" and i: "i \<notin> uf_id ` set (owned h)"
  shows "udp_inv (h\<lparr>uh_table := ft_Remove i (uh_table h)\<rparr>)"
proof -
  have wf: "ft_wf (uh_table h)" using inv by (simp add: udp_inv_def)
  have "sock_inv ((map_of (ft_flows (uh_table h)))(i := None)) (ft_next (uh_table h)) (set (uh_open h)) (pairs h)"
    using inv i by (intro sock_other_remove) (auto simp: udp_inv_def pairs_def)
  then show ?thesis
    using inv ft.inv_remove [OF wf] ft.of_remove [OF wf]
    by (simp add: udp_inv_def pairs_def) (simp add: ft_Remove_def)
qed

lemma udp_inv_step: "udp_step h h' \<Longrightarrow> udp_inv h \<Longrightarrow> udp_inv h'"
proof (induction rule: udp_step.induct)
  case packet then show ?case by (intro udp_inv_forward)
next
  case reap then show ?case by (rule udp_inv_reap)
next
  case pump_done then show ?case by (intro udp_inv_take)
next
  case closing then show ?case by (intro udp_inv_close)
next
  case other_add then show ?case by (intro udp_inv_other_add)
next
  case other_remove then show ?case by (intro udp_inv_other_remove)
qed

lemma udp_inv_run: "udp_run h0 h \<Longrightarrow> udp_inv h0 \<Longrightarrow> udp_inv h"
  by (induction rule: udp_run.induct) (auto dest: udp_inv_step)

section \<open>Admitted traffic is allowed\<close>

lemma admitted:
  assumes wf: "db_wf d" and idx: "index_of d idx"
    and chk: "CheckService idx src vip port proto = (Allow, Some user, Some svc)"
  shows "service_access d src vip port proto" "us_addr user = src" "ss_ip svc = vip"
    and "flow_allowed idx (service_flow user svc port proto s l c)"
proof -
  show "service_access d src vip port proto"
    using CheckService_access [OF wf idx, of src vip port proto] chk by simp
  from chk have u: "map_of (PeerByIP idx) src = Some user" and v: "map_of (ServiceByVIP idx) vip = Some svc"
    by (auto simp: CheckService_def split: option.splits if_splits)
  obtain r where r: "row_by u_ip src (t_users d) = Some r" "user = user_snap (scanUser r)"
    using u idx by (auto simp: index_of_def)
  obtain q where q: "row_by s_ip vip (t_services d) = Some q" "svc = service_snap (service_view d q)"
    using v idx by (auto simp: index_of_def)
  have m: "r \<in> set (t_users d)" "u_ip r = src" "q \<in> set (t_services d)" "s_ip q = vip"
    using r(1) q(1) by (auto dest: row_by_Some)
  show a: "us_addr user = src" "ss_ip svc = vip" using m r q by (simp_all add: scanUser_def)
  have "map_of (UserByID idx) (us_id user) = Some user"
    using idx row_by_unique [OF wf_keys(2) [OF wf] m(1)] by (simp add: index_of_def r(2) scanUser_def)
  moreover have "map_of (ServiceByID idx) (ss_id svc) = Some svc"
    using idx row_by_unique [OF wf_keys(4) [OF wf] m(3)] by (simp add: index_of_def q(2))
  ultimately show "flow_allowed idx (service_flow user svc port proto s l c)"
    using chk a by (simp add: flow_allowed_def service_flow_def)
qed

section \<open>Properties\<close>

lemma tcp_admit_Some:
  assumes "tcp_admit idx remote local_addr = Some (user, svc, port)"
  shows "\<exists>src sp dst. splitHostPort remote = Some (src, sp) \<and> splitHostPort local_addr = Some (dst, port)
    \<and> CheckService idx src dst port ''tcp'' = (Allow, Some user, Some svc)"
  using assms by (auto simp: tcp_admit_def split: option.splits prod.splits decision.splits)

text \<open>
  C18: what \<open>TCPHandler.Handle\<close> does with a connection, on every path. It dials at most once, and only
  when the database allows the source address the destination address and port; the address
  dialled is the target of the service's origin with that very port. The connection is closed
  exactly once, at the end. When the dial succeeds the flow added is one that the database allows,
  with a handle that closes the connection; it is removed under its own id, after the copying, and
  the backend is closed. In every other case the flow table is untouched.
\<close>

theorem tcp_handle_contract:
  assumes "db_wf d" and "Build ev d = Inr idx"
    and "tcp_Handle env dial meanwhile idx c remote local_addr r t = (es, r', t')"
  shows "(\<forall>a. Dialled a \<in> set es \<longrightarrow> (\<exists>src sp dst port s tg.
        splitHostPort remote = Some (src, sp) \<and> splitHostPort local_addr = Some (dst, port)
      \<and> service_access d src dst port ''tcp''
      \<and> s \<in> set (t_services d) \<and> s_ip s = dst
      \<and> fst (Resolve env r (s_origin s) port ''tcp'') = Inr tg \<and> a = backend_addr tg port))
    \<and> ((t' = t \<and> (es = [ConnClosed] \<or> (\<exists>a. es = [Dialled a, ConnClosed] \<and> dial a = None)))
      \<or> (\<exists>a i f t1. es = [Dialled a, FlowAdded i, Spliced, FlowRemoved i, BackendClosed, ConnClosed]
          \<and> dial a \<noteq> None \<and> ft_Add f t = (i, t1) \<and> t' = ft_Remove i (meanwhile t1)
          \<and> flow_access d f \<and> f_protocol f = ''tcp'' \<and> f_close f = Some c))"
proof (cases "tcp_admit idx remote local_addr")
  case None
  then show ?thesis using assms(3) by (auto simp: tcp_Handle_def)
next
  case (Some a)
  obtain user svc port where a: "a = (user, svc, port)" by (cases a)
  have idx: "index_of d idx" by (rule Build_index_of [OF assms(1,2)])
  obtain src sp dst where s: "splitHostPort remote = Some (src, sp)"
    "splitHostPort local_addr = Some (dst, port)"
    and chk: "CheckService idx src dst port ''tcp'' = (Allow, Some user, Some svc)"
    using tcp_admit_Some Some a by blast
  note ok = admitted [OF assms(1) idx chk]
  obtain q where q: "q \<in> set (t_services d)" "s_ip q = dst" "ss_origin svc = s_origin q"
  proof -
    have "map_of (ServiceByVIP idx) dst = Some svc"
      using chk by (auto simp: CheckService_def split: option.splits if_splits)
    then show ?thesis using idx that by (auto simp: index_of_def service_view_def dest: row_by_Some)
  qed
  obtain as lo r1 where d: "tcp_dial env dial svc port r = ((as, lo), r1)" by (metis surj_pair)
  then have as: "as = [] \<and> lo = None \<or> (\<exists>tg. as = [backend_addr tg port]
      \<and> fst (Resolve env r (s_origin q) port ''tcp'') = Inr tg \<and> lo = dial (backend_addr tg port))"
    unfolding tcp_dial_def q(3) by (auto split: prod.splits sum.splits option.splits)
  show ?thesis
  proof (cases lo)
    case None
    then have "es = map Dialled as @ [ConnClosed]" "t' = t"
      using assms(3) Some a d by (simp_all add: tcp_Handle_def)
    then show ?thesis using as s ok(1) q None by auto
  next
    case (Some l)
    let ?f = "service_flow user svc port ''tcp'' (the remote) l c"
    obtain i t1 where add: "ft_Add ?f t = (i, t1)" by (cases "ft_Add ?f t")
    obtain tg where tg: "as = [backend_addr tg port]" "dial (backend_addr tg port) = Some l"
      "fst (Resolve env r (s_origin q) port ''tcp'') = Inr tg" using as Some by auto
    have es: "es = [Dialled (backend_addr tg port), FlowAdded i, Spliced, FlowRemoved i, BackendClosed, ConnClosed]"
      "t' = ft_Remove i (meanwhile t1)"
      using assms(3) \<open>tcp_admit idx remote local_addr = Some a\<close> a d Some tg add by (simp_all add: tcp_Handle_def)
    have "flow_access d ?f \<and> f_protocol ?f = ''tcp'' \<and> f_close ?f = Some c"
      using flow_allowed_access [OF assms(1) idx] ok(4) by (simp add: service_flow_def)
    then show ?thesis using es s ok(1) q tg add by auto
  qed
qed

text \<open>
  C19: the UDP handler leaks nothing. However packets, policy changes, ending reply pumps and the flows
  of other connections interleave, the running pumps and the entries of the map correspond one to
  one; a flow's socket is open exactly as long as the flow is in the flow table, which a policy
  change ends; every open socket belongs to an entry or is about to be closed; so once all pumps
  have ended and closed what they took, no socket is open and no UDP flow is left in the table.
\<close>

theorem udp_resources:
  assumes "udp_run (NewUDPHandler t r) h"
    and "ft_wf t" and "\<forall>i g. map_of (ft_flows t) i = Some g \<longrightarrow> f_protocol g \<noteq> ''udp''"
  shows "distinct (uh_pumps h) \<and> set (uh_pumps h) = fst ` set (uh_flows h) \<and> distinct (map fst (uh_flows h))
    \<and> (\<forall>f\<in>set (owned h). uf_out f \<in> set (uh_open h) \<longleftrightarrow> map_of (ft_flows (uh_table h)) (uf_id f) \<noteq> None)
    \<and> set (uh_open h) \<subseteq> uf_out ` set (owned h)
    \<and> (uh_pumps h = [] \<longrightarrow> uh_closing h = [] \<longrightarrow> uh_open h = []
        \<and> (\<forall>i g. map_of (ft_flows (uh_table h)) i = Some g \<longrightarrow> f_protocol g \<noteq> ''udp''))"
proof -
  have inv: "udp_inv h" using udp_inv_run [OF assms(1) udp_inv_new [OF assms(2,3)]] .
  then have s: "sock_inv (map_of (ft_flows (uh_table h))) (ft_next (uh_table h)) (set (uh_open h)) (pairs h)"
    and k: "distinct (uh_pumps h)" "set (uh_pumps h) = fst ` set (uh_flows h)" "distinct (map fst (uh_flows h))"
    by (simp_all add: udp_inv_def)
  note D = sock_invD [OF s]
  have o: "set (uh_open h) \<subseteq> uf_out ` set (owned h)" using D(3) by (fastforce simp: pairs_def)
  have e: "uf_out f \<in> set (uh_open h) \<longleftrightarrow> map_of (ft_flows (uh_table h)) (uf_id f) \<noteq> None"
    if "f \<in> set (owned h)" for f
  proof -
    have "ids f \<in> pairs h" using that by (simp add: pairs_def)
    then show ?thesis using D(6,7) by (cases "map_of (ft_flows (uh_table h)) (uf_id f)") auto
  qed
  have "uh_open h = [] \<and> (\<forall>i g. map_of (ft_flows (uh_table h)) i = Some g \<longrightarrow> f_protocol g \<noteq> ''udp'')"
    if "uh_pumps h = []" "uh_closing h = []"
  proof -
    have "owned h = []" using that k(2) by simp
    then show ?thesis using o D(8) by (auto simp: pairs_def)
  qed
  then show ?thesis using k o e by blast
qed

section \<open>Witnesses\<close>

theorem tcp_handle_contract_witness:
  "\<exists>idx es r' t'. Build quiet_env w_db = Inr idx
    \<and> tcp_Handle w_env (\<lambda>_. None) id idx 7 (Some ''1:5'') (Some ''2:80'') (NewResolver None) NewFlowTable = (es, r', t')
    \<and> t' = NewFlowTable \<and> last es = ConnClosed"
proof -
  obtain idx where b: "Build quiet_env w_db = Inr idx" using w_build by blast
  obtain es r' t' where t: "tcp_Handle w_env (\<lambda>_. None) id idx 7 (Some ''1:5'') (Some ''2:80'')
      (NewResolver None) NewFlowTable = (es, r', t')" by (metis surj_pair)
  show ?thesis using tcp_handle_contract [OF w_db_wf b t] b t by auto
qed

definition w_adm :: "udp_key \<times> user_snapshot \<times> service_snapshot" where
  "w_adm = (\<lparr>uk_src_ip = ''1'', uk_src_port = 5, uk_vip = ''2'', uk_port = 53\<rparr>,
     user_snap (scanUser w_user), service_snap (service_view w_db w_service))"

lemma w_admitted:
  assumes "Build quiet_env w_db = Inr idx"
  shows "udp_admit idx (Some ''1:5'') ''2'' 53 = Some w_adm"
proof -
  have idx: "index_of w_db idx" by (rule Build_index_of [OF w_db_wf assms])
  have "service_access w_db ''1'' ''2'' 53 ''udp''"
    by (simp add: service_access_def w_db_def w_user_def w_service_def empty_db_def port_open_def
        rules_allow_def decides_def applies_def w_rule_def user_refs_def service_refs_def)
  then have a: "fst (CheckService idx ''1'' ''2'' 53 ''udp'') = Allow"
    using CheckService_access [OF w_db_wf idx] by blast
  have "map_of (PeerByIP idx) ''1'' = Some (user_snap (scanUser w_user))"
    "map_of (ServiceByVIP idx) ''2'' = Some (service_snap (service_view w_db w_service))"
    using idx by (simp_all add: index_of_def w_db_def w_user_def w_service_def empty_db_def row_by_def)
  then have "CheckService idx ''1'' ''2'' 53 ''udp'' = (Allow, Some (fst (snd w_adm)), Some (snd (snd w_adm)))"
    using a by (auto simp: CheckService_def w_adm_def split: if_splits)
  moreover have "splitHostPort (Some ''1:5'') = Some (''1'', 5)"
    by code_simp
  ultimately show ?thesis by (simp add: udp_admit_def w_adm_def)
qed

text \<open>A datagram opens a flow and its reply pump ends.\<close>

theorem udp_resources_witness:
  "\<exists>idx h. Build quiet_env w_db = Inr idx
    \<and> h = take_flow (fst w_adm) (snd (udp_forward w_env (\<lambda>_. True) Some 7 0 ''1:5'' w_adm
          (NewUDPHandler NewFlowTable (NewResolver None))))
    \<and> uh_pumps h = [] \<and> set (uh_open h) \<subseteq> uf_out ` set (owned h)"
proof -
  obtain idx where b: "Build quiet_env w_db = Inr idx" using w_build by blast
  let ?h0 = "NewUDPHandler NewFlowTable (NewResolver None)"
  let ?h1 = "snd (udp_forward w_env (\<lambda>_. True) Some 7 0 (the (Some ''1:5'')) w_adm ?h0)"
  have "udp_step ?h0 ?h1"
    by (rule udp_step.packet [OF w_admitted [OF b]])
      (simp_all add: new_handle_def NewUDPHandler_def NewFlowTable_def)
  then have r1: "udp_run ?h0 ?h1" by (rule udp_run.extend_run [OF udp_run.begin_run])
  have "validate (s_origin w_service) = Inr (s_origin w_service)"
    by (simp add: w_service_def) code_simp
  then have p: "uh_pumps ?h1 = [fst w_adm]"
    by (simp add: udp_forward_def udp_open_def NewUDPHandler_def Let_def w_adm_def Resolve_def w_service_def
        split: prod.splits)
  then have "udp_step ?h1 (take_flow (fst w_adm) ?h1)" by (intro udp_step.pump_done) simp
  then have r2: "udp_run ?h0 (take_flow (fst w_adm) ?h1)" by (rule udp_run.extend_run [OF r1])
  have "uh_pumps (take_flow (fst w_adm) ?h1) = []" by (simp add: take_flow_def p [unfolded option.sel])
  moreover have "ft_wf NewFlowTable" "\<forall>i g. map_of (ft_flows NewFlowTable) i = Some g \<longrightarrow> f_protocol g \<noteq> ''udp''"
    by (simp_all add: ft_wf_new) (simp add: NewFlowTable_def)
  ultimately show ?thesis using udp_resources [OF r2] b by auto
qed

end
