(* ===== verification/Config.thy ===== *)
theory Config
  imports Prelude
begin

text \<open>
  \<open>shared/config/config.go\<close>: the configuration, its defaults and which file it is loaded
  from. \<open>stat\<close> is \<open>os.Stat\<close>, \<open>getenv\<close> the value of \<open>LIGHTSCALE_CONFIG\<close>, and \<open>toml\<close> what
  \<open>toml.DecodeFile\<close> makes of a file on top of a configuration (with \<open>False\<close> on an error).
\<close>

section \<open>Model\<close>

record wireguard_config =
  wg_port :: int
  wg_subnet :: string
  wg_client_subnet :: string
  wg_service_subnet :: string
  wg_server_ip :: string
  wg_dns :: "string list"

record socket_config =
  so_path :: string
  so_mode :: string
  so_group :: string

record log_config =
  lg_format :: string
  lg_level :: string
  lg_file :: string

record config =
  c_public_endpoint :: string
  c_domain :: string
  c_wireguard :: wireguard_config
  c_socket :: socket_config
  c_database :: string
  c_log :: log_config
  c_docker_socket :: string
  c_path :: string

definition defaultSocketPath :: string where
  "defaultSocketPath = ''/run/lightscale/lightscale.sock''"

definition defaultDatabasePath :: string where
  "defaultDatabasePath = ''/var/lib/lightscale/lightscale.db''"

definition defaultDockerSocket :: string where
  "defaultDockerSocket = ''/var/run/docker.sock''"

definition defaultPathCandidates :: "string list" where
  "defaultPathCandidates = [''/etc/lightscale/lightscale.toml'']"

definition Defaults :: config where
  "Defaults = \<lparr>c_public_endpoint = [], c_domain = ''lightscale.local'',
     c_wireguard = \<lparr>wg_port = 51820, wg_subnet = ''10.6.0.0/23'',
       wg_client_subnet = ''10.6.0.0/24'', wg_service_subnet = ''10.6.1.0/24'',
       wg_server_ip = ''10.6.0.1'', wg_dns = []\<rparr>,
     c_socket = \<lparr>so_path = defaultSocketPath, so_mode = ''0660'', so_group = ''lightscale''\<rparr>,
     c_database = defaultDatabasePath,
     c_log = \<lparr>lg_format = [], lg_level = ''info'', lg_file = []\<rparr>,
     c_docker_socket = defaultDockerSocket, c_path = []\<rparr>"

datatype stat_result = Exists | NotExist | StatFailed

datatype config_error = ErrConfigFlag | ErrConfigEnv | ErrConfigStat | ErrConfigDecode

fun first_candidate :: "(string \<Rightarrow> stat_result) \<Rightarrow> string list \<Rightarrow> config_error + string" where
  "first_candidate stat [] = Inr []"
| "first_candidate stat (c # cs) =
    (if c = [] then first_candidate stat cs
     else case stat c of Exists \<Rightarrow> Inr c
       | NotExist \<Rightarrow> first_candidate stat cs
       | StatFailed \<Rightarrow> Inl ErrConfigStat)"

definition resolvePath ::
  "(string \<Rightarrow> stat_result) \<Rightarrow> string \<Rightarrow> string \<Rightarrow> config_error + string" where
  "resolvePath stat getenv explicitPath =
    (if explicitPath \<noteq> [] then
       (if stat explicitPath \<noteq> Exists then Inl ErrConfigFlag else Inr explicitPath)
     else if getenv \<noteq> [] then
       (if stat getenv \<noteq> Exists then Inl ErrConfigEnv else Inr getenv)
     else first_candidate stat defaultPathCandidates)"

text \<open>\<open>Load\<close> returns a configuration beside its error.\<close>

definition Load ::
  "(string \<Rightarrow> stat_result) \<Rightarrow> string \<Rightarrow> (string \<Rightarrow> config \<Rightarrow> config \<times> bool) \<Rightarrow> string
    \<Rightarrow> config \<times> config_error option" where
  "Load stat getenv toml explicitPath =
    (case resolvePath stat getenv explicitPath of
       Inl e \<Rightarrow> (Defaults, Some e)
     | Inr path \<Rightarrow>
        if path = [] then (Defaults, None)
        else (case toml path Defaults of (cfg, ok) \<Rightarrow>
          if ok then (cfg\<lparr>c_path := path\<rparr>, None) else (cfg, Some ErrConfigDecode)))"

section \<open>Properties\<close>

text \<open>
  Which file the configuration comes from: the one of \<open>--config\<close>, else that of
  \<open>LIGHTSCALE_CONFIG\<close>, else \<open>/etc/lightscale/lightscale.toml\<close>, else no file and the defaults.
  A file named by the flag or the variable must be there: \<open>Load\<close> fails rather than fall
  through to the next source, and only the last candidate may be absent. A configuration
  returned without an error records the file it came from.
\<close>

theorem load_precedence:
  assumes "Load stat getenv toml explicit = (cfg, err)"
  shows "(explicit \<noteq> [] \<longrightarrow> (if stat explicit = Exists
        then (err = None \<and> cfg = (fst (toml explicit Defaults))\<lparr>c_path := explicit\<rparr>) \<or> err = Some ErrConfigDecode
        else err = Some ErrConfigFlag \<and> cfg = Defaults))
    \<and> (explicit = [] \<and> getenv \<noteq> [] \<longrightarrow> (if stat getenv = Exists
        then (err = None \<and> cfg = (fst (toml getenv Defaults))\<lparr>c_path := getenv\<rparr>) \<or> err = Some ErrConfigDecode
        else err = Some ErrConfigEnv \<and> cfg = Defaults))
    \<and> (explicit = [] \<and> getenv = [] \<longrightarrow>
        (case stat ''/etc/lightscale/lightscale.toml'' of
          Exists \<Rightarrow> (err = None \<and> cfg = (fst (toml ''/etc/lightscale/lightscale.toml'' Defaults))
              \<lparr>c_path := ''/etc/lightscale/lightscale.toml''\<rparr>) \<or> err = Some ErrConfigDecode
        | NotExist \<Rightarrow> err = None \<and> cfg = Defaults
        | StatFailed \<Rightarrow> err = Some ErrConfigStat \<and> cfg = Defaults))"
  using assms
  by (auto simp: Load_def resolvePath_def defaultPathCandidates_def
      split: stat_result.splits if_splits prod.splits)

theorem load_precedence_witness:
  "snd (Load (\<lambda>_. NotExist) ''/env.toml'' (\<lambda>p c. (c, True)) ''/flag.toml'') = Some ErrConfigFlag"
proof -
  obtain cfg err where l: "Load (\<lambda>_. NotExist) ''/env.toml'' (\<lambda>p c. (c, True)) ''/flag.toml'' = (cfg, err)"
    by (cases "Load (\<lambda>_. NotExist) ''/env.toml'' (\<lambda>p c. (c, True)) ''/flag.toml''")
  from load_precedence [OF l] l show ?thesis by simp
qed

end
