(* ===== verification/Socket.thy ===== *)
theory Socket
  imports Config "HOL-Library.Word"
begin

text \<open>
  Access to the daemon's socket: \<open>daemon/runtime/socket.go\<close>, and \<open>ensureSocketDir\<close>,
  \<open>applySocketPerms\<close>, \<open>lookupGID\<close> of \<open>daemon.go\<close>. The operating system is a parameter: which file
  calls succeed, the group ids that names stand for, the credentials of a connection. Modes are
  written in decimal: 488 is octal 750 and 432 is octal 660.
\<close>

section \<open>Model\<close>

datatype sock_call = MkdirAll string nat | Chmod string nat | Chown string int

datatype sock_error = ErrCall sock_call | ErrLookupGroup string | ErrParseGid string | ErrParseMode string

text \<open>A call, recorded with those made before it.\<close>

definition do_call ::
  "(sock_call \<Rightarrow> bool) \<Rightarrow> sock_call \<Rightarrow> sock_call list \<Rightarrow> sock_error option \<times> sock_call list" where
  "do_call works c cs = (if works c then (None, cs @ [c]) else (Some (ErrCall c), cs))"

definition lookupGID :: "(string \<Rightarrow> string option) \<Rightarrow> string \<Rightarrow> sock_error + int" where
  "lookupGID groups g = (case groups g of None \<Rightarrow> Inl (ErrLookupGroup g)
     | Some gid \<Rightarrow> (case parse_int64 gid of None \<Rightarrow> Inl (ErrParseGid gid) | Some n \<Rightarrow> Inr n))"

text \<open>The group of a path, when the configuration names one.\<close>

definition give_group ::
  "(string \<Rightarrow> string option) \<Rightarrow> (sock_call \<Rightarrow> bool) \<Rightarrow> string \<Rightarrow> string \<Rightarrow> sock_call list
    \<Rightarrow> sock_error option \<times> sock_call list" where
  "give_group groups works path g cs = (if g = [] then (None, cs)
     else case lookupGID groups g of Inl e \<Rightarrow> (Some e, cs) | Inr gid \<Rightarrow> do_call works (Chown path gid) cs)"

definition ensureSocketDir ::
  "(string \<Rightarrow> string option) \<Rightarrow> (sock_call \<Rightarrow> bool) \<Rightarrow> string \<Rightarrow> socket_config
    \<Rightarrow> sock_error option \<times> sock_call list" where
  "ensureSocketDir groups works dir s = (case do_call works (MkdirAll dir 488) [] of
     (Some e, cs) \<Rightarrow> (Some e, cs)
   | (None, cs) \<Rightarrow> (case do_call works (Chmod dir 488) cs of
        (Some e, cs) \<Rightarrow> (Some e, cs)
      | (None, cs) \<Rightarrow> give_group groups works dir (so_group s) cs))"

text \<open>\<open>strconv.ParseUint\<close> in base 8 and 32 bits.\<close>

definition octal_digit :: "char \<Rightarrow> bool" where
  "octal_digit c \<longleftrightarrow> is_digit c \<and> digit_val c < 8"

definition parse_octal32 :: "string \<Rightarrow> nat option" where
  "parse_octal32 s = (if s \<noteq> [] \<and> list_all octal_digit s
     then (let v = foldl (\<lambda>a c. 8 * a + digit_val c) 0 s in if v < 2 ^ 32 then Some v else None) else None)"

definition socket_mode :: "string \<Rightarrow> nat option" where
  "socket_mode m = (if m = [] then Some 432 else parse_octal32 m)"

definition applySocketPerms ::
  "(string \<Rightarrow> string option) \<Rightarrow> (sock_call \<Rightarrow> bool) \<Rightarrow> socket_config \<Rightarrow> sock_error option \<times> sock_call list" where
  "applySocketPerms groups works s = (if so_path s = [] then (None, [])
     else case socket_mode (so_mode s) of None \<Rightarrow> (Some (ErrParseMode (so_mode s)), [])
      | Some mode \<Rightarrow> (case do_call works (Chmod (so_path s) mode) [] of
           (Some e, cs) \<Rightarrow> (Some e, cs)
         | (None, cs) \<Rightarrow> give_group groups works (so_path s) (so_group s) cs))"

section \<open>Peer credentials\<close>

text \<open>Who may talk: the daemon's own user, and the members of one group.\<close>

record peer_listener =
  pl_self :: "32 word"
  pl_gid :: "32 word option"

definition parse_uint32 :: "string \<Rightarrow> nat option" where
  "parse_uint32 s = (case digits_val s of None \<Rightarrow> None | Some n \<Rightarrow> if n < 2 ^ 32 then Some n else None)"

definition newPeerCredListener ::
  "32 word \<Rightarrow> (string \<Rightarrow> string option) \<Rightarrow> socket_config \<Rightarrow> sock_error + peer_listener" where
  "newPeerCredListener self groups s = (if so_group s = [] then Inr \<lparr>pl_self = self, pl_gid = None\<rparr>
     else case groups (so_group s) of None \<Rightarrow> Inl (ErrLookupGroup (so_group s))
      | Some gid \<Rightarrow> (case parse_uint32 gid of None \<Rightarrow> Inl (ErrParseGid gid)
         | Some n \<Rightarrow> Inr \<lparr>pl_self = self, pl_gid = Some (of_nat n)\<rparr>))"

text \<open>A connection: its credentials, unless they cannot be had (it is no Unix connection, or the
  kernel refuses). \<open>members\<close> gives the group ids of a user, as text.\<close>

record conn =
  cn_id :: nat
  cn_cred :: "(32 word \<times> 32 word) option"

definition inAllowedGroup :: "(string \<Rightarrow> string list option) \<Rightarrow> 32 word \<Rightarrow> 32 word \<Rightarrow> bool" where
  "inAllowedGroup members gid uid = (case members (nat_str (unat uid)) of None \<Rightarrow> False
     | Some gids \<Rightarrow> nat_str (unat gid) \<in> set gids)"

definition authorized :: "(string \<Rightarrow> string list option) \<Rightarrow> peer_listener \<Rightarrow> conn \<Rightarrow> bool option" where
  "authorized members l c = (case cn_cred c of None \<Rightarrow> None
     | Some (uid, gid) \<Rightarrow> Some (if uid = pl_self l then True
         else case pl_gid l of None \<Rightarrow> False
          | Some allowed \<Rightarrow> if gid = allowed then True else inAllowedGroup members allowed uid))"

text \<open>\<open>Accept\<close> over what the wrapped listener yields: the result, the connections it closed, and what
  is left; the result is \<open>None\<close> while it is still waiting.\<close>

datatype arrival = Arrived conn | ListenerFailed string

fun Accept :: "(string \<Rightarrow> string list option) \<Rightarrow> peer_listener \<Rightarrow> arrival list
    \<Rightarrow> (string + conn) option \<times> conn list \<times> arrival list" where
  "Accept members l [] = (None, [], [])"
| "Accept members l (ListenerFailed e # as) = (Some (Inl e), [], as)"
| "Accept members l (Arrived c # as) = (case authorized members l c of
     Some True \<Rightarrow> (Some (Inr c), [], as)
   | _ \<Rightarrow> (case Accept members l as of (r, closed, rest) \<Rightarrow> (r, c # closed, rest)))"

text \<open>\<open>http.Serve\<close>: it accepts until the listener fails; the connections it is given.\<close>

function serve :: "(string \<Rightarrow> string list option) \<Rightarrow> peer_listener \<Rightarrow> arrival list
    \<Rightarrow> conn list \<times> conn list \<times> string option" where
  "serve members l as = (case Accept members l as of
     (None, closed, rest) \<Rightarrow> ([], closed, None)
   | (Some (Inl e), closed, rest) \<Rightarrow> ([], closed, Some e)
   | (Some (Inr c), closed, rest) \<Rightarrow> (case serve members l rest of (cs, closed', e) \<Rightarrow> (c # cs, closed @ closed', e)))"
  by pat_completeness auto

section \<open>Lemmas\<close>

lemma Accept_rest: "Accept members l as = (Some r, closed, rest) \<Longrightarrow> length rest < length as"
  by (induction members l as arbitrary: closed rest rule: Accept.induct)
    (fastforce split: option.splits bool.splits prod.splits)+

termination serve
  by (relation "measure (\<lambda>(m, l, as). length as)") (auto dest!: sym [of _ "Accept _ _ _"] Accept_rest)

declare serve.simps [simp del]

text \<open>Who is entitled: the owner, or a member of the group, by primary or supplementary group.\<close>

definition entitled :: "(string \<Rightarrow> string list option) \<Rightarrow> peer_listener \<Rightarrow> conn \<Rightarrow> bool" where
  "entitled members l c \<longleftrightarrow> (\<exists>uid gid. cn_cred c = Some (uid, gid) \<and> (uid = pl_self l
     \<or> (\<exists>a. pl_gid l = Some a \<and> (gid = a
          \<or> (\<exists>gs. members (nat_str (unat uid)) = Some gs \<and> nat_str (unat a) \<in> set gs)))))"

lemma authorized_entitled: "authorized members l c = Some True \<longleftrightarrow> entitled members l c"
  by (auto simp: authorized_def entitled_def inAllowedGroup_def split: option.splits)

lemma Accept_spec:
  "Accept members l as = (r, closed, rest) \<Longrightarrow>
     as = map Arrived closed @ (case r of None \<Rightarrow> [] | Some (Inl e) \<Rightarrow> [ListenerFailed e] | Some (Inr c) \<Rightarrow> [Arrived c]) @ rest
     \<and> (\<forall>c\<in>set closed. \<not> entitled members l c) \<and> (\<forall>c. r = Some (Inr c) \<longrightarrow> entitled members l c)
     \<and> (r = None \<longrightarrow> rest = [])"
proof (induction members l as arbitrary: r closed rest rule: Accept.induct)
  case (3 members l c as)
  show ?case
  proof (cases "authorized members l c = Some True")
    case True
    then show ?thesis using 3(3) authorized_entitled [of members l c] by auto
  next
    case False
    obtain r' closed' rest' where a: "Accept members l as = (r', closed', rest')" by (metis surj_pair)
    have "Accept members l (Arrived c # as) = (r', c # closed', rest')"
      using False a by (auto split: option.split bool.split)
    moreover have "authorized members l c = None \<or> authorized members l c = Some False"
      using False by (cases "authorized members l c") auto
    ultimately show ?thesis using 3 a False authorized_entitled [of members l c] by auto
  qed
qed auto

section \<open>Properties\<close>

text \<open>The connections that arrive before the listener fails, and that failure.\<close>

fun conns :: "arrival list \<Rightarrow> conn list" where
  "conns [] = []" | "conns (ListenerFailed e # as) = []" | "conns (Arrived c # as) = c # conns as"

fun failure :: "arrival list \<Rightarrow> string option" where
  "failure [] = None" | "failure (ListenerFailed e # as) = Some e" | "failure (Arrived c # as) = failure as"

lemma conns_append: "conns (map Arrived cs @ as) = cs @ conns as" "failure (map Arrived cs @ as) = failure as"
  by (induction cs) simp_all

lemma Accept_None: "fst (Accept members l as) = None \<longleftrightarrow>
    (\<forall>a\<in>set as. \<exists>c. a = Arrived c \<and> \<not> entitled members l c)"
  by (induction members l as rule: Accept.induct)
    (auto simp: authorized_entitled [symmetric] split: prod.splits option.splits bool.splits)

lemma serve_filter:
  "serve members l as = (filter (entitled members l) (conns as),
     filter (\<lambda>c. \<not> entitled members l c) (conns as), failure as)"
proof (induction members l as rule: serve.induct)
  case (1 members l as)
  obtain r closed rest where a: "Accept members l as = (r, closed, rest)" by (metis surj_pair)
  note sp = Accept_spec [OF a]
  then have no: "filter (entitled members l) closed = []" "filter (\<lambda>c. \<not> entitled members l c) closed = closed"
    by (auto simp: filter_empty_conv filter_id_conv)
  note run = serve.simps [of members l as, unfolded a prod.case]
  show ?case
  proof (cases r)
    case None
    then have "conns as = closed" "failure as = None" using sp conns_append [of closed "[]"] by auto
    then show ?thesis using None no by (simp add: run)
  next
    case (Some x)
    show ?thesis
    proof (cases x)
      case (Inl e)
      then have "conns as = closed" "failure as = Some e" using sp Some by (auto simp: conns_append)
      then show ?thesis using Some Inl no by (simp add: run)
    next
      case (Inr c)
      then have "serve members l rest = (filter (entitled members l) (conns rest),
          filter (\<lambda>c. \<not> entitled members l c) (conns rest), failure rest)"
        using 1 [OF a [symmetric]] Some by simp
      moreover have "conns as = closed @ c # conns rest" "failure as = failure rest" "entitled members l c"
        using sp Some Inr by (auto simp: conns_append)
      ultimately show ?thesis using Some Inr no by (simp add: run)
    qed
  qed
qed

text \<open>
  C11: who gets through to the API. \<open>Accept\<close> returns exactly when a connection of an entitled peer
  arrives or the listener fails: rejected connections never end it and never wedge it. So whatever
  arrives, the server is handed exactly the connections of the entitled peers, in order, up to
  the failure of the listener, and exactly the others are closed: those of any other user who is
  not in the configured group, and those whose credentials cannot be read.
\<close>

theorem socket_access:
  "(fst (Accept members l as) \<noteq> None \<longleftrightarrow>
      (\<exists>a\<in>set as. case a of Arrived c \<Rightarrow> entitled members l c | ListenerFailed e \<Rightarrow> True))
   \<and> serve members l as = (filter (entitled members l) (conns as),
        filter (\<lambda>c. \<not> entitled members l c) (conns as), failure as)"
proof -
  have "(\<exists>a\<in>set as. case a of Arrived c \<Rightarrow> entitled members l c | ListenerFailed e \<Rightarrow> True) \<longleftrightarrow>
      \<not> (\<forall>a\<in>set as. \<exists>c. a = Arrived c \<and> \<not> entitled members l c)"
    by (auto split: arrival.splits)
  then show ?thesis using Accept_None [of members l as] serve_filter by simp
qed

text \<open>What a secured socket has been through.\<close>

lemma applySocketPerms_calls:
  assumes "applySocketPerms groups works s = (None, cs)" "so_path s \<noteq> []"
  shows "\<exists>mode. socket_mode (so_mode s) = Some mode \<and> works (Chmod (so_path s) mode) \<and> (so_group s \<noteq> [] \<longrightarrow>
    (\<exists>gid. lookupGID groups (so_group s) = Inr gid \<and> works (Chown (so_path s) gid)))"
  using assms by (auto simp: applySocketPerms_def give_group_def do_call_def
      split: option.splits prod.splits if_splits sum.splits)

end
