(* ===== verification/Daemon.thy ===== *)
theory Daemon
  imports Proxy Peers Listeners Relay Socket
begin

text \<open>
  \<open>daemon/runtime/daemon.go\<close>: how the parts run together. \<open>start_daemon\<close> is \<open>Run\<close> up to its main
  loop, \<open>on_change\<close> the callback that every committed store operation triggers, \<open>reload\<close> the
  reaction to a new configuration. HTTP requests are served concurrently and the callback holds
  no lock, so the steps of several callbacks may interleave: the machine \<open>dm_step\<close> has them so.
\<close>

section \<open>Model\<close>

text \<open>The operating system and the libraries, as far as \<open>Run\<close> uses them.\<close>

record os =
  os_mkdir :: "string \<Rightarrow> bool"
  os_open_db :: "string \<Rightarrow> bool"
  os_rand :: "nat list option"
  os_x25519 :: "nat list \<Rightarrow> nat list option"
  os_netstack :: bool
  os_ipc :: "string \<Rightarrow> bool"
  os_up :: bool
  os_add :: "addr \<Rightarrow> bool"
  os_docker :: "string \<Rightarrow> docker_error option"
  os_dir :: "string \<Rightarrow> string"
  os_groups :: "string \<Rightarrow> string option"
  os_call :: "sock_call \<Rightarrow> bool"
  os_listen :: "string \<Rightarrow> bool"
  os_uid :: "32 word"

datatype run_error = ErrDbDir | ErrDbOpen | ErrStore store_error | ErrKeys key_error | ErrServerIP string
  | ErrWg wg_error | ErrRelay | ErrNoSocketPath | ErrSocketDir sock_error | ErrListen
  | ErrSocketPerms sock_error | ErrSocketAuth sock_error

record daemon =
  dm_db :: db
  dm_index :: index
  dm_flows :: flow_table
  dm_server :: wg_server
  dm_relay :: relay
  dm_vips :: vips
  dm_resolver :: resolver
  dm_docker :: "docker_client option"
  dm_config :: config
  dm_listener :: peer_listener

definition store_result :: "store_error + 'a \<Rightarrow> run_error + 'a" where
  "store_result = map_sum ErrStore id"

text \<open>\<open>ensureServerKeypair\<close>: the stored pair, or a new one when either half is missing. A first
  \<open>SetSetting\<close> is kept even when the second fails.\<close>

definition new_keypair ::
  "env \<Rightarrow> nat list option \<Rightarrow> (nat list \<Rightarrow> nat list option) \<Rightarrow> db \<Rightarrow> (run_error + string \<times> string) \<times> db" where
  "new_keypair ev rand x25519 d = (case wgGenerateKeypair rand x25519 of Inl e \<Rightarrow> (Inl (ErrKeys e), d)
     | Inr (priv, pub) \<Rightarrow> (case SetSetting ev ''server_private_key'' priv d of
          (Inl e, d1, _) \<Rightarrow> (Inl (ErrStore e), d1)
        | (Inr _, d1, _) \<Rightarrow> (case SetSetting ev ''server_public_key'' pub d1 of
             (Inl e, d2, _) \<Rightarrow> (Inl (ErrStore e), d2)
           | (Inr _, d2, _) \<Rightarrow> (Inr (priv, pub), d2))))"

definition ensureServerKeypair ::
  "env \<Rightarrow> nat list option \<Rightarrow> (nat list \<Rightarrow> nat list option) \<Rightarrow> db \<Rightarrow> (run_error + string \<times> string) \<times> db" where
  "ensureServerKeypair ev rand x25519 d =
    (case (case GetSetting ev ''server_private_key'' d of Inl e \<Rightarrow> Inl e
           | Inr priv \<Rightarrow> (case GetSetting ev ''server_public_key'' d of Inl e \<Rightarrow> Inl e
              | Inr pub \<Rightarrow> Inr (priv, pub))) of
       Inr kp \<Rightarrow> (Inr kp, d)
     | Inl e \<Rightarrow> if e \<noteq> ErrNotFound then (Inl (ErrStore e), d) else new_keypair ev rand x25519 d)"

text \<open>\<open>docker.New\<close> as \<open>Run\<close> uses it: any failure leaves no client.\<close>

definition docker_of :: "(string \<Rightarrow> docker_error option) \<Rightarrow> string \<Rightarrow> docker_client option" where
  "docker_of connect host = (case newClient connect host of Inl _ \<Rightarrow> None | Inr c \<Rightarrow> Some c)"

text \<open>\<open>Run\<close> up to the index and the device: the database it leaves, and the parts.\<close>

definition start_core ::
  "os \<Rightarrow> env \<Rightarrow> config \<Rightarrow> db \<Rightarrow> (run_error + index \<times> wg_server \<times> relay) \<times> db" where
  "start_core w ev cfg d = (case ensureServerKeypair ev (os_rand w) (os_x25519 w) d of
     (Inl e, d1) \<Rightarrow> (Inl e, d1)
   | (Inr (priv, _), d1) \<Rightarrow> (case Build ev d1 of Inl e \<Rightarrow> (Inl (ErrStore e), d1)
      | Inr idx \<Rightarrow> (case parse_addr (wg_server_ip (c_wireguard cfg)) of
           None \<Rightarrow> (Inl (ErrServerIP (wg_server_ip (c_wireguard cfg))), d1)
         | Some ip \<Rightarrow> (case wgOpen (os_netstack w \<and> AddAddress (os_add w) ip) (os_rand w) (os_x25519 w)
                (os_ipc w) (os_up w) priv (wg_port (c_wireguard cfg)) of
              Inl e \<Rightarrow> (Inl (ErrWg e), d1)
            | Inr srv \<Rightarrow> (case SetSetting ev ''server_public_key'' (sv_public srv) d1 of
                 (Inl e, d2, _) \<Rightarrow> (Inl (ErrStore e), d2)
               | (Inr _, d2, _) \<Rightarrow> (case ApplyPeers (os_ipc w) (Some idx) srv of
                    (Inl e, _, _) \<Rightarrow> (Inl (ErrWg e), d2)
                  | (Inr _, srv', _) \<Rightarrow> (case NewRelay (wg_client_subnet (c_wireguard cfg))
                          (wg_server_ip (c_wireguard cfg)) of
                       None \<Rightarrow> (Inl ErrRelay, d2)
                     | Some rl \<Rightarrow> (Inr (idx, srv', rl), d2))))))))"

text \<open>The socket: without a path, or when it cannot be secured, the daemon refuses to serve.\<close>

definition start_socket :: "os \<Rightarrow> socket_config \<Rightarrow> run_error + peer_listener" where
  "start_socket w s = (if so_path s = [] then Inl ErrNoSocketPath
     else case ensureSocketDir (os_groups w) (os_call w) (os_dir w (so_path s)) s of
       (Some e, _) \<Rightarrow> Inl (ErrSocketDir e)
     | (None, _) \<Rightarrow> if \<not> os_listen w (so_path s) then Inl ErrListen
         else (case applySocketPerms (os_groups w) (os_call w) s of
             (Some e, _) \<Rightarrow> Inl (ErrSocketPerms e)
           | (None, _) \<Rightarrow> (case newPeerCredListener (os_uid w) (os_groups w) s of
                Inl e \<Rightarrow> Inl (ErrSocketAuth e) | Inr l \<Rightarrow> Inr l)))"

definition start_daemon :: "os \<Rightarrow> env \<Rightarrow> config \<Rightarrow> db \<Rightarrow> (run_error + daemon) \<times> db" where
  "start_daemon w ev cfg d =
    (if \<not> os_mkdir w (c_database cfg) then (Inl ErrDbDir, d)
     else if \<not> os_open_db w (c_database cfg) then (Inl ErrDbOpen, d)
     else case start_core w ev cfg d of (Inl e, d') \<Rightarrow> (Inl e, d')
      | (Inr (idx, srv, rl), d') \<Rightarrow>
          (let docker = docker_of (os_docker w) (c_docker_socket cfg) in
           case start_socket w (c_socket cfg) of Inl e \<Rightarrow> (Inl e, d')
           | Inr l \<Rightarrow> (Inr \<lparr>dm_db = d', dm_index = idx, dm_flows = NewFlowTable, dm_server = srv, dm_relay = rl,
                dm_vips = fst (reconcile (os_add w) idx []), dm_resolver = NewResolver docker,
                dm_docker = docker, dm_config = cfg, dm_listener = l\<rparr>, d')))"

text \<open>The change callback. A failing \<open>Build\<close> leaves everything as it was; a device that refuses
  the peers does not stop the listeners.\<close>

definition install_index :: "os \<Rightarrow> index \<Rightarrow> daemon \<Rightarrow> daemon" where
  "install_index w idx dm = dm\<lparr>dm_index := idx, dm_flows := fst (ft_Reap idx (dm_flows dm)),
     dm_server := fst (snd (ApplyPeers (os_ipc w) (Some idx) (dm_server dm))),
     dm_vips := fst (reconcile (os_add w) idx (dm_vips dm))\<rparr>"

definition on_change :: "os \<Rightarrow> env \<Rightarrow> daemon \<Rightarrow> daemon" where
  "on_change w ev dm = (case Build ev (dm_db dm) of Inl e \<Rightarrow> dm | Inr idx \<Rightarrow> install_index w idx dm)"

text \<open>A store operation with its callbacks run to the end before anything else happens.\<close>

definition change :: "os \<Rightarrow> env \<Rightarrow> env \<Rightarrow> store_op \<Rightarrow> daemon \<Rightarrow> store_error option \<times> daemon" where
  "change w ev ev' oper dm = (case run_op ev oper (dm_db dm) of (eo, d', ks) \<Rightarrow>
     (eo, foldl (\<lambda>dm k. on_change w ev' dm) (dm\<lparr>dm_db := d'\<rparr>) ks))"

text \<open>\<open>applyHotReload\<close> and the reload case of the main loop: a socket path of the runtime that differs
  gets a new client, and no client when it is empty; when the new one cannot be made the old stays.\<close>

definition applyHotReload :: "config \<Rightarrow> config \<Rightarrow> config" where
  "applyHotReload current fresh = current\<lparr>c_public_endpoint := c_public_endpoint fresh, c_domain := c_domain fresh,
     c_docker_socket := c_docker_socket fresh,
     c_log := (c_log current)\<lparr>lg_level := lg_level (c_log fresh), lg_format := lg_format (c_log fresh)\<rparr>\<rparr>"

definition reload_docker :: "(string \<Rightarrow> docker_error option) \<Rightarrow> config \<Rightarrow> daemon \<Rightarrow> daemon" where
  "reload_docker connect fresh dm =
    (if c_docker_socket fresh = c_docker_socket (dm_config dm) then dm
     else case newClient connect (c_docker_socket fresh) of
        Inr c \<Rightarrow> dm\<lparr>dm_docker := Some c, dm_resolver := SetDocker (Some c) (dm_resolver dm)\<rparr>
      | Inl e \<Rightarrow> if e = ErrNotConfigured then dm\<lparr>dm_docker := None, dm_resolver := SetDocker None (dm_resolver dm)\<rparr>
          else dm)"

text \<open>The main loop: it ends when the context is done or the HTTP server stops.\<close>

datatype loop_event = CtxDone | HttpStopped string | ReloadAsked "string + config"

fun loop_event_step :: "(string \<Rightarrow> docker_error option) \<Rightarrow> loop_event \<Rightarrow> daemon \<Rightarrow> string option option \<times> daemon" where
  "loop_event_step connect CtxDone dm = (Some None, dm)"
| "loop_event_step connect (HttpStopped e) dm = (Some (Some e), dm)"
| "loop_event_step connect (ReloadAsked (Inl e)) dm = (None, dm)"
| "loop_event_step connect (ReloadAsked (Inr fresh)) dm =
    (None, (reload_docker connect fresh dm)\<lparr>dm_config := applyHotReload (dm_config dm) fresh\<rparr>)"

fun main_loop :: "(string \<Rightarrow> docker_error option) \<Rightarrow> loop_event list \<Rightarrow> daemon \<Rightarrow> string option option \<times> daemon" where
  "main_loop connect [] dm = (None, dm)"
| "main_loop connect (e # es) dm = (case loop_event_step connect e dm of
     (Some r, dm') \<Rightarrow> (Some r, dm') | (None, dm') \<Rightarrow> main_loop connect es dm')"

section \<open>Overlapping callbacks\<close>

text \<open>A callback in progress: what it does next.\<close>

datatype task = Building | Storing index | Reaping index | Applying index | Reconciling index

text \<open>The critical sections of a callback, in its order; nothing orders those of two callbacks.\<close>

definition task_step :: "os \<Rightarrow> env \<Rightarrow> task \<Rightarrow> daemon \<Rightarrow> task option \<times> daemon" where
  "task_step w ev t dm = (case t of
     Building \<Rightarrow> (case Build ev (dm_db dm) of Inl e \<Rightarrow> (None, dm) | Inr idx \<Rightarrow> (Some (Storing idx), dm))
   | Storing idx \<Rightarrow> (Some (Reaping idx), dm\<lparr>dm_index := idx\<rparr>)
   | Reaping idx \<Rightarrow> (Some (Applying idx), dm\<lparr>dm_flows := fst (ft_Reap idx (dm_flows dm))\<rparr>)
   | Applying idx \<Rightarrow> (Some (Reconciling idx),
       dm\<lparr>dm_server := fst (snd (ApplyPeers (os_ipc w) (Some idx) (dm_server dm)))\<rparr>)
   | Reconciling idx \<Rightarrow> (None, dm\<lparr>dm_vips := fst (reconcile (os_add w) idx (dm_vips dm))\<rparr>))"

definition task_list :: "task option \<Rightarrow> task list" where
  "task_list t = (case t of None \<Rightarrow> [] | Some t \<Rightarrow> [t])"

inductive dm_step :: "os \<Rightarrow> daemon \<times> task list \<Rightarrow> daemon \<times> task list \<Rightarrow> bool" for w where
  commit: "run_op ev oper (dm_db dm) = (eo, d', ks) \<Longrightarrow>
     dm_step w (dm, ts) (dm\<lparr>dm_db := d'\<rparr>, ts @ map (\<lambda>_. Building) ks)"
| advance: "task_step w ev t dm = (t', dm') \<Longrightarrow>
     dm_step w (dm, ts1 @ t # ts2) (dm', ts1 @ task_list t' @ ts2)"
| flows: "ft_wf t \<Longrightarrow> dm_step w (dm, ts) (dm\<lparr>dm_flows := t\<rparr>, ts)"

inductive dm_run :: "os \<Rightarrow> daemon \<times> task list \<Rightarrow> daemon \<times> task list \<Rightarrow> bool" for w s where
  dm_begin: "dm_run w s s"
| dm_extend: "\<lbrakk>dm_run w s s'; dm_step w s' s''\<rbrakk> \<Longrightarrow> dm_run w s s''"

section \<open>Specification\<close>

text \<open>Everything the daemon serves from memory agrees with the tables: the index represents them,
  the live flows are allowed, the device knows exactly the users' keys, and exactly the services
  whose address the stack takes are announced.\<close>

definition in_sync :: "os \<Rightarrow> daemon \<Rightarrow> bool" where
  "in_sync w dm \<longleftrightarrow> index_of (dm_db dm) (dm_index dm)
     \<and> (\<forall>f\<in>snd ` set (ft_flows (dm_flows dm)). flow_access (dm_db dm) f)
     \<and> set (sv_peers (dm_server dm)) = {h. \<exists>r\<in>set (t_users (dm_db dm)). base64ToHex (u_public_key r) = Inr h}
     \<and> (\<forall>i. (map_of (dm_vips dm) i \<noteq> None \<longrightarrow> row_by s_id i (t_services (dm_db dm)) \<noteq> None)
          \<and> (announced (os_add w) (dm_db dm) i \<noteq> None \<longrightarrow> map_of (dm_vips dm) i \<noteq> None))"

definition keys_ok :: "db \<Rightarrow> bool" where
  "keys_ok d \<longleftrightarrow> (\<forall>r\<in>set (t_users d). u_preshared_key r = [] \<or> is_ok (base64ToHex (u_preshared_key r)))"

section \<open>Lemmas\<close>

lemma mapE_total: "(\<And>x. \<exists>y. f x = Inr y) \<Longrightarrow> \<exists>ys. mapE f xs = Inr ys"
proof (induction xs)
  case (Cons x xs)
  then obtain y ys where "f x = Inr y" "mapE f xs = Inr ys" by blast
  then show ?case by simp
qed simp

lemma foldE_total: "(\<And>x s. \<exists>s'. f x s = Inr s') \<Longrightarrow> \<exists>s'. foldE f xs s = Inr s'"
proof (induction xs arbitrary: s)
  case (Cons x xs)
  then obtain s' where "f x s = Inr s'" by blast
  then show ?case using Cons by simp
qed simp

text \<open>With no failing statement the index can always be built.\<close>

lemma Build_total:
  assumes ok: "\<And>l i. \<not> sql_fails ev l i"
  shows "\<exists>idx. Build ev d = Inr idx"
proof -
  have "\<exists>ss. ListServices ev d = Inr ss"
    unfolding ListServices_def queryServices_def
    using mapE_total [of "\<lambda>s. bindE (loadServicePorts ev (s_id s) d) (\<lambda>ps. Inr (s\<lparr>s_ports := ps\<rparr>))"]
    by (simp add: ok loadServicePorts_def)
  then obtain ss where s: "ListServices ev d = Inr ss" by blast
  have "\<exists>p. foldE (add_group ev d) (order_by ug_id (t_user_groups d)) ([], []) = Inr p"
    by (rule foldE_total) (auto simp: add_group_def UserGroupMembers_def ok split: prod.split)
  then obtain p where p: "foldE (add_group ev d) (order_by ug_id (t_user_groups d)) ([], []) = Inr p" by blast
  have "\<exists>m. foldE (add_service_groups ev d) ss [] = Inr m"
    by (rule foldE_total) (auto simp: add_service_groups_def ServiceGroupIDsForService_def ok)
  then obtain m where "foldE (add_service_groups ev d) ss [] = Inr m" by blast
  then show ?thesis
    using s p by (cases p) (simp add: Build_def ListUsers_def ListUserGroups_def ListPolicies_def ok)
qed

lemma psks_ok_built: "\<lbrakk>db_wf d; Build ev d = Inr idx; keys_ok d\<rbrakk> \<Longrightarrow> psks_ok idx"
  by (simp add: psks_ok_def user_set_built keys_ok_def user_snap_def scanUser_def)

lemma peers_built:
  assumes "db_wf d" "Build ev d = Inr idx" "keys_ok d"
  shows "set (sv_peers (fst (snd (ApplyPeers ipc (Some idx) s))))
    = {h. \<exists>r\<in>set (t_users d). base64ToHex (u_public_key r) = Inr h}"
proof -
  have "sv_peers (fst (snd (ApplyPeers ipc (Some idx) s))) = next_peers idx (sv_peers s)"
    by (simp add: ApplyPeers_def Let_def)
  then show ?thesis
    using next_peers_set [OF psks_ok_built [OF assms]] user_set_built [OF assms(1,2)]
    by (auto simp: hex_keys_def user_snap_def scanUser_def)
qed

lemma install_in_sync:
  assumes "db_wf (dm_db dm)" "ft_wf (dm_flows dm)" "keys_ok (dm_db dm)" "Build ev (dm_db dm) = Inr idx"
  shows "in_sync w (install_index w idx dm)"
proof -
  let ?d = "dm_db dm"
  have idx: "index_of ?d idx" by (rule Build_index_of [OF assms(1,4)])
  have "\<forall>f\<in>snd ` set (ft_flows (fst (ft_Reap idx (dm_flows dm)))). flow_access ?d f"
    unfolding Reap_flows [OF assms(2)] using flow_allowed_access [OF assms(1) idx] by auto
  moreover have "(map_of (fst (reconcile (os_add w) idx (dm_vips dm))) i \<noteq> None \<longrightarrow> row_by s_id i (t_services ?d) \<noteq> None)
      \<and> (announced (os_add w) ?d i \<noteq> None \<longrightarrow> map_of (fst (reconcile (os_add w) idx (dm_vips dm))) i \<noteq> None)" for i
    unfolding reconcile_lookup [OF Build_services_distinct [OF assms(4)]] built_services [OF assms(1,4)] announced_def
    by (auto split: option.splits)
  ultimately show ?thesis
    using idx peers_built [OF assms(1,4,3)] by (simp add: in_sync_def install_index_def)
qed

lemma run_op_notifies:
  "run_op ev oper d = (eo, d', ks) \<Longrightarrow> if eo = None then \<exists>k. ks = [k] else d' = d \<and> ks = []"
  using run_op_atomic [of ev oper d eo d' ks] by auto

lemma change_refused:
  "change w ev ev' oper dm = (Some e, dm') \<Longrightarrow> dm' = dm"
  by (auto simp: change_def split: prod.splits dest: run_op_notifies)

lemma change_committed:
  assumes "change w ev ev' oper dm = (None, dm')"
  obtains d' k where "run_op ev oper (dm_db dm) = (None, d', [k])" "dm' = on_change w ev' (dm\<lparr>dm_db := d'\<rparr>)"
proof -
  obtain eo d' ks where r: "run_op ev oper (dm_db dm) = (eo, d', ks)" by (metis surj_pair)
  then have "eo = None" using assms by (simp add: change_def)
  then obtain k where "ks = [k]" using run_op_notifies [OF r] by auto
  then show ?thesis using that r assms \<open>eo = None\<close> by (simp add: change_def)
qed

section \<open>Properties\<close>


text \<open>A callback that runs without interference does what \<open>on_change\<close> says.\<close>

lemma dm_run_trans: "dm_run w s' s'' \<Longrightarrow> dm_run w s s' \<Longrightarrow> dm_run w s s''"
  by (induction rule: dm_run.induct) (auto intro: dm_run.dm_extend)

lemma run_task:
  "dm_run w (dm, ts1 @ t # ts2) (snd (task_step w ev t dm), ts1 @ task_list (fst (task_step w ev t dm)) @ ts2)"
  by (rule dm_run.dm_extend [OF dm_run.dm_begin dm_step.advance]) simp

lemma run_storing: "dm_run w (dm, ts1 @ Storing idx # ts2) (install_index w idx dm, ts1 @ ts2)"
proof -
  define dm1 where "dm1 = dm\<lparr>dm_index := idx\<rparr>"
  define dm2 where "dm2 = dm1\<lparr>dm_flows := fst (ft_Reap idx (dm_flows dm1))\<rparr>"
  define dm3 where "dm3 = dm2\<lparr>dm_server := fst (snd (ApplyPeers (os_ipc w) (Some idx) (dm_server dm2)))\<rparr>"
  have "dm_run w (dm, ts1 @ Storing idx # ts2) (dm1, ts1 @ Reaping idx # ts2)"
    using run_task [of w dm ts1 "Storing idx" ts2 undefined] by (simp add: task_step_def task_list_def dm1_def)
  moreover have "dm_run w (dm1, ts1 @ Reaping idx # ts2) (dm2, ts1 @ Applying idx # ts2)"
    using run_task [of w dm1 ts1 "Reaping idx" ts2 undefined] by (simp add: task_step_def task_list_def dm2_def)
  moreover have "dm_run w (dm2, ts1 @ Applying idx # ts2) (dm3, ts1 @ Reconciling idx # ts2)"
    using run_task [of w dm2 ts1 "Applying idx" ts2 undefined] by (simp add: task_step_def task_list_def dm3_def)
  moreover have "dm_run w (dm3, ts1 @ Reconciling idx # ts2) (install_index w idx dm, ts1 @ ts2)"
    using run_task [of w dm3 ts1 "Reconciling idx" ts2 undefined]
    by (simp add: task_step_def task_list_def install_index_def dm1_def dm2_def dm3_def)
  ultimately show ?thesis by (blast intro: dm_run_trans)
qed

lemma run_building:
  assumes "Build ev (dm_db dm) = Inr idx"
  shows "dm_run w (dm, ts1 @ Building # ts2) (install_index w idx dm, ts1 @ ts2)"
proof -
  have "dm_run w (dm, ts1 @ Building # ts2) (dm, ts1 @ Storing idx # ts2)"
    using run_task [of w dm ts1 Building ts2 ev] assms by (simp add: task_step_def task_list_def)
  then show ?thesis by (rule dm_run_trans [OF run_storing])
qed

definition w_live_db :: db where
  "w_live_db = empty_db\<lparr>t_users := [w_user\<lparr>u_public_key := b64_encode w_key, u_preshared_key := []\<rparr>],
     q_users := 1, t_services := [w_service\<lparr>s_ip := ''10.0.0.9'',
       s_origin := \<lparr>o_kind = Container, o_value = ''web'', o_network = []\<rparr>\<rparr>], q_services := 1,
     t_rules := [w_rule], q_rules := 1\<rparr>"

lemma w_live_wf: "db_wf w_live_db"
  by (simp add: wf_unfold w_live_db_def w_user_def w_service_def w_rule_def empty_db_def ids_ok_def
      max_int64_def principal_names_def object_names_def addresses_def spec_ok_def Valid_def
      rule_ok_def validSubject_def validObject_def validAction_def row_exists_def trim_space_def
      trim_left_def trim_right_def is_space_def)

lemma w_live_build: "\<exists>idx. Build quiet_env w_live_db = Inr idx"
  by (rule Build_total) (simp add: quiet_env_def)

lemma w_live_access: "service_access w_live_db ''1'' ''10.0.0.9'' 80 ''tcp''"
  by (simp add: service_access_def w_live_db_def w_user_def w_service_def empty_db_def port_open_def
      rules_allow_def decides_def applies_def w_rule_def user_refs_def service_refs_def)

definition w_os :: os where
  "w_os = \<lparr>os_mkdir = \<lambda>_. True, os_open_db = \<lambda>_. True, os_rand = Some w_key, os_x25519 = Some,
     os_netstack = True, os_ipc = \<lambda>_. True, os_up = True, os_add = \<lambda>_. True, os_docker = \<lambda>_. None,
     os_dir = id, os_groups = \<lambda>_. Some ''7'', os_call = \<lambda>_. True, os_listen = \<lambda>_. True, os_uid = 0\<rparr>"

definition w_daemon :: "index \<Rightarrow> daemon" where
  "w_daemon idx = \<lparr>dm_db = w_live_db, dm_index = idx, dm_flows = NewFlowTable,
     dm_server = \<lparr>sv_public = [], sv_private = [], sv_port = 51820, sv_peers = [hex_encode w_key]\<rparr>,
     dm_relay = \<lparr>rl_daemon = V4 0, rl_client = \<lparr>pfx_ip = V4 0, pfx_bits = 24\<rparr>\<rparr>,
     dm_vips = [(1, V4 0x0A000009)], dm_resolver = NewResolver None, dm_docker = None, dm_config = Defaults,
     dm_listener = \<lparr>pl_self = 0, pl_gid = None\<rparr>\<rparr>"

definition w_closed_db :: db where
  "w_closed_db = w_live_db\<lparr>t_rules := []\<rparr>"

lemma w_revoke: "run_op quiet_env (OpDeletePolicy 1) w_live_db = (None, w_closed_db, [''policies''])"
  by (simp add: DeletePolicy_def delete_policy_tx_def withTx_def quiet_env_def exec_sql_def sql_delete_rules_def
      outcome_def w_closed_db_def w_live_db_def w_rule_def)

lemma w_closed_access: "\<not> service_access w_closed_db src vip port proto"
  by (auto simp: service_access_def w_closed_db_def w_live_db_def rules_allow_def decides_def)

lemma w_in_sync:
  assumes "Build quiet_env w_live_db = Inr idx"
  shows "in_sync w_os (w_daemon idx)"
proof -
  have "index_of w_live_db idx" by (rule Build_index_of [OF w_live_wf assms])
  moreover have "{h. \<exists>r\<in>set (t_users w_live_db). base64ToHex (u_public_key r) = Inr h} = {hex_encode w_key}"
    using base64ToHex_key [OF w_key_bytes] by (auto simp: w_live_db_def)
  moreover have "row_by s_id 1 (t_services w_live_db) \<noteq> None"
    "announced (os_add w_os) w_live_db i \<noteq> None \<longrightarrow> i = 1" for i
    by (auto simp: w_live_db_def row_by_def announced_def w_service_def)
  ultimately show ?thesis by (auto simp: in_sync_def w_daemon_def NewFlowTable_def)
qed


text \<open>
  C8: overlapping changes lose a revocation. A daemon in sync handles two requests at once: one that
  changes nothing that matters, one that deletes the only policy rule. The first callback builds
  its index before the deletion commits and installs it after the second callback has finished:
  every callback has then ended, no rule is left in the tables, and the index that the daemon
  goes on to consult still allows the access, until some later change.
\<close>

theorem overlapping_changes_stale:
  "\<exists>w dm dm'. in_sync w dm \<and> dm_run w (dm, []) (dm', [])
    \<and> \<not> service_access (dm_db dm') ''1'' ''10.0.0.9'' 80 ''tcp''
    \<and> fst (CheckService (dm_index dm') ''1'' ''10.0.0.9'' 80 ''tcp'') = Allow \<and> \<not> in_sync w dm'"
proof -
  obtain idx where b: "Build quiet_env w_live_db = Inr idx" using w_live_build by blast
  obtain idx2 where b2: "Build quiet_env w_closed_db = Inr idx2"
    using Build_total [of quiet_env w_closed_db] by (auto simp: quiet_env_def)
  let ?dm = "w_daemon idx"
  let ?dm1 = "?dm\<lparr>dm_db := w_closed_db\<rparr>"
  let ?dm' = "install_index w_os idx (install_index w_os idx2 ?dm1)"
  have db: "dm_db ?dm = w_live_db" by (simp add: w_daemon_def)
  have noop: "run_op quiet_env (OpRemoveUserFromGroup 5 5) (dm_db ?dm) = (None, dm_db ?dm, [''membership''])"
    unfolding db by (simp add: RemoveUserFromGroup_def remove_user_from_group_tx_def withTx_def quiet_env_def
        exec_sql_def sql_remove_ug_member_def outcome_def w_live_db_def empty_db_def)
  have revoke: "run_op quiet_env (OpDeletePolicy 1) (dm_db ?dm) = (None, w_closed_db, [''policies''])"
    using w_revoke by (simp only: db)
  have "dm_run w_os (?dm, []) (?dm\<lparr>dm_db := dm_db ?dm\<rparr>, [] @ map (\<lambda>_. Building) [''membership''])"
    by (rule dm_run.dm_extend [OF dm_run.dm_begin dm_step.commit [OF noop]])
  then have "dm_run w_os (?dm, []) (?dm, [] @ Building # [])" by simp
  then have "dm_run w_os (?dm, []) (?dm, [] @ task_list (Some (Storing idx)) @ [])"
    by (rule dm_run.dm_extend [OF _ dm_step.advance [of _ quiet_env]]) (simp add: task_step_def db b)
  then have "dm_run w_os (?dm, []) (?dm1, ([] @ task_list (Some (Storing idx)) @ []) @ map (\<lambda>_. Building) [''policies''])"
    by (rule dm_run.dm_extend [OF _ dm_step.commit [OF revoke]])
  then have "dm_run w_os (?dm, []) (?dm1, [Storing idx] @ Building # [])" by (simp add: task_list_def)
  moreover have "dm_run w_os (?dm1, [Storing idx] @ Building # []) (install_index w_os idx2 ?dm1, [Storing idx] @ [])"
    by (rule run_building [of quiet_env]) (simp add: b2)
  ultimately have "dm_run w_os (?dm, []) (install_index w_os idx2 ?dm1, [] @ Storing idx # [])"
    using dm_run_trans by fastforce
  from dm_run_trans [OF run_storing this] have run: "dm_run w_os (?dm, []) (?dm', [])" by simp
  have db': "dm_db ?dm' = w_closed_db" "dm_index ?dm' = idx" by (simp_all add: install_index_def)
  have allow: "fst (CheckService idx ''1'' ''10.0.0.9'' 80 ''tcp'') = Allow"
    using CheckService_access [OF w_live_wf Build_index_of [OF w_live_wf b]] w_live_access by blast
  have "db_wf w_closed_db" by (rule run_op_keeps [OF w_live_wf w_revoke])
  then have "\<not> in_sync w_os ?dm'"
    using CheckService_access [of w_closed_db idx] allow w_closed_access db' by (auto simp: in_sync_def)
  then show ?thesis
    using run allow w_closed_access w_in_sync [OF b] db' by (intro exI [of _ w_os] exI [of _ ?dm] exI [of _ ?dm']) simp
qed

section \<open>What interleavings cannot do\<close>

inductive op_run :: "db \<Rightarrow> db \<Rightarrow> bool" where
  op_none: "op_run d d"
| op_more: "\<lbrakk>op_run d d'; run_op ev oper d' = (eo, d'', ks)\<rbrakk> \<Longrightarrow> op_run d d''"

text \<open>An index of some tables that were committed between \<open>d0\<close> and \<open>d\<close>.\<close>

definition past_index :: "db \<Rightarrow> db \<Rightarrow> index \<Rightarrow> bool" where
  "past_index d0 d idx \<longleftrightarrow> (\<exists>p. op_run d0 p \<and> op_run p d \<and> db_wf p \<and> index_of p idx)"

fun task_index :: "task \<Rightarrow> index option" where
  "task_index Building = None"
| "task_index (Storing idx) = Some idx"
| "task_index (Reaping idx) = Some idx"
| "task_index (Applying idx) = Some idx"
| "task_index (Reconciling idx) = Some idx"

definition past_inv :: "db \<Rightarrow> daemon \<times> task list \<Rightarrow> bool" where
  "past_inv d0 s \<longleftrightarrow> (case s of (dm, ts) \<Rightarrow> db_wf (dm_db dm) \<and> op_run d0 (dm_db dm)
     \<and> past_index d0 (dm_db dm) (dm_index dm)
     \<and> (\<forall>t\<in>set ts. \<forall>idx. task_index t = Some idx \<longrightarrow> past_index d0 (dm_db dm) idx))"

lemma past_more: "\<lbrakk>past_index d0 d idx; run_op ev oper d = (eo, d', ks)\<rbrakk> \<Longrightarrow> past_index d0 d' idx"
  by (auto simp: past_index_def intro: op_more)

lemma task_step_past:
  assumes inv: "past_inv d0 (dm, ts1 @ t # ts2)" and st: "task_step w ev t dm = (t', dm')"
  shows "past_inv d0 (dm', ts1 @ task_list t' @ ts2)"
proof -
  have db: "dm_db dm' = dm_db dm" using st by (auto simp: task_step_def split: task.splits sum.splits)
  have i: "past_index d0 (dm_db dm) (dm_index dm')"
    using inv st by (auto simp: past_inv_def task_step_def split: task.splits sum.splits)
  have built: "past_index d0 (dm_db dm) idx" if "Build ev (dm_db dm) = Inr idx" for idx
    using inv Build_index_of [OF _ that] by (auto simp: past_inv_def past_index_def intro: op_none)
  have "past_index d0 (dm_db dm) idx" if "t' = Some u" "task_index u = Some idx" for u idx
    using inv st that built by (auto simp: past_inv_def task_step_def split: task.splits sum.splits)
  then show ?thesis using inv i by (auto simp: past_inv_def db task_list_def split: option.splits)
qed

lemma past_inv_run: "dm_run w s0 s \<Longrightarrow> past_inv d0 s0 \<Longrightarrow> past_inv d0 s"
proof (induction rule: dm_run.induct)
  case (dm_extend s' s'')
  then have inv: "past_inv d0 s'" by simp
  from dm_extend.hyps(2) show ?case
  proof cases
    case (commit ev oper dm eo d' ks ts)
    then show ?thesis using inv run_op_keeps [OF _ commit(3)] past_more [OF _ commit(3)]
      by (auto simp: past_inv_def intro: op_more)
  next
    case (advance ev t dm t' dm' ts1 ts2)
    then show ?thesis using inv task_step_past by simp
  next
    case (flows t dm ts)
    then show ?thesis using inv by (simp add: past_inv_def)
  qed
qed



section \<open>The server's identity\<close>

lemma SetSetting_Inr:
  "SetSetting ev k v d = (Inr u, d', ks) \<Longrightarrow> map_of (t_settings d') = (map_of (t_settings d))(k := Some v)"
  by (auto simp: SetSetting_def set_setting_tx_def sql_upsert_setting_def result_simps update_conv' dest!: withTx_ok)

lemma wgGenerateKeypair_priv: "wgGenerateKeypair rand x25519 = Inr (priv, pub) \<Longrightarrow> priv \<noteq> []"
  using base64ToHex_Nil by (auto simp: wgGenerateKeypair_def result_simps)

lemma ensured:
  assumes "ensureServerKeypair ev rand x25519 d = (Inr (priv, pub), d')"
  shows "map_of (t_settings d') ''server_private_key'' = Some priv
    \<and> map_of (t_settings d') ''server_public_key'' = Some pub
    \<and> (map_of (t_settings d) ''server_private_key'' \<noteq> Some [] \<longrightarrow> priv \<noteq> [])
    \<and> (map_of (t_settings d) ''server_private_key'' \<noteq> None \<and> map_of (t_settings d) ''server_public_key'' \<noteq> None
        \<longrightarrow> d' = d)"
  using assms wgGenerateKeypair_priv [of rand x25519 priv pub]
  by (auto simp: ensureServerKeypair_def new_keypair_def GetSetting_def result_simps exec_sql_def
      split: sum.splits option.splits if_splits prod.splits dest!: SetSetting_Inr)

lemma wgOpen_Inr:
  assumes "wgOpen ns rand x25519 ipc up priv port = Inr srv" "priv \<noteq> []"
  shows "sv_private srv = priv \<and> (\<exists>privHex pub. base64ToHex priv = Inr privHex
    \<and> derivePublicKey x25519 privHex = Inr pub \<and> sv_public srv = b64_encode pub)"
proof -
  have k: "key_result r = Inr x \<longleftrightarrow> r = Inr x" for r :: "key_error + 'a" and x
    by (cases r) (simp_all add: key_result_def)
  show ?thesis using assms by (auto simp: wgOpen_def result_simps k split: if_splits)
qed

lemma ApplyPeers_keys:
  "ApplyPeers ipc idxo s = (r, s', t) \<Longrightarrow> sv_private s' = sv_private s \<and> sv_public s' = sv_public s"
  by (auto simp: ApplyPeers_def Let_def split: option.splits if_splits)

lemma start_core_keys:
  assumes "start_core w ev cfg d = (Inr (idx, srv, rl), d')"
    and "map_of (t_settings d) ''server_private_key'' \<noteq> Some []"
  shows "\<exists>privHex pub. base64ToHex (sv_private srv) = Inr privHex
      \<and> derivePublicKey (os_x25519 w) privHex = Inr pub \<and> sv_public srv = b64_encode pub
      \<and> map_of (t_settings d') ''server_private_key'' = Some (sv_private srv)
      \<and> map_of (t_settings d') ''server_public_key'' = Some (sv_public srv)
      \<and> (map_of (t_settings d) ''server_private_key'' \<noteq> None \<and> map_of (t_settings d) ''server_public_key'' \<noteq> None
          \<longrightarrow> map_of (t_settings d) ''server_private_key'' = Some (sv_private srv))"
proof -
  obtain priv pub0 d1 where e: "ensureServerKeypair ev (os_rand w) (os_x25519 w) d = (Inr (priv, pub0), d1)"
    using assms(1) by (auto simp: start_core_def split: prod.splits sum.splits)
  then obtain ns srv0 u ks where o: "wgOpen ns (os_rand w) (os_x25519 w) (os_ipc w) (os_up w) priv
        (wg_port (c_wireguard cfg)) = Inr srv0"
    and st: "SetSetting ev ''server_public_key'' (sv_public srv0) d1 = (Inr u, d', ks)"
    and a: "\<exists>t. ApplyPeers (os_ipc w) (Some idx) srv0 = (Inr (), srv, t)"
    using assms(1) by (auto simp: start_core_def split: prod.splits sum.splits option.splits)
  note f = ensured [OF e] SetSetting_Inr [OF st]
  have "priv \<noteq> []" using f(1) assms(2) by blast
  from wgOpen_Inr [OF o this] a f show ?thesis by (auto dest!: ApplyPeers_keys)
qed

text \<open>
  The server keeps its identity. Once the daemon has started, its private key and the public key
  that belongs to it are stored; any later start on a database that still has both settings uses
  that very private key and announces the same public key, whatever the random source gives.
\<close>

theorem server_identity_stable:
  assumes "start_core w ev cfg d = (Inr (idx, srv, rl), d')"
    and "map_of (t_settings d) ''server_private_key'' \<noteq> Some []"
    and "map_of (t_settings d2) ''server_private_key'' = map_of (t_settings d') ''server_private_key''"
    and "map_of (t_settings d2) ''server_public_key'' = map_of (t_settings d') ''server_public_key''"
    and "start_core w' ev' cfg' d2 = (Inr (idx', srv', rl'), d3)" and "os_x25519 w' = os_x25519 w"
  shows "sv_private srv' = sv_private srv \<and> sv_public srv' = sv_public srv
    \<and> map_of (t_settings d3) ''server_private_key'' = Some (sv_private srv)
    \<and> map_of (t_settings d3) ''server_public_key'' = Some (sv_public srv)"
proof -
  note k = start_core_keys [OF assms(1,2)]
  then have "sv_private srv \<noteq> []" using base64ToHex_Nil by auto
  then have "map_of (t_settings d2) ''server_private_key'' \<noteq> Some []" using k assms(3) by auto
  from start_core_keys [OF assms(5) this] k assms(3,4,6) show ?thesis by auto
qed

definition w_priv :: string where
  "w_priv = b64_encode (clamp_key w_key)"

lemma w_core:
  assumes "ensureServerKeypair quiet_env rand Some d = (Inr (w_priv, pub0), d1)"
  shows "\<exists>idx srv rl d'. start_core (w_os\<lparr>os_rand := rand\<rparr>) quiet_env Defaults d = (Inr (idx, srv, rl), d')
    \<and> map_of (t_settings d') ''server_private_key'' = Some w_priv
    \<and> map_of (t_settings d') ''server_public_key'' \<noteq> None"
proof -
  have kb: "key_bytes (clamp_key w_key)" by (rule key_bytes_clamp [OF w_key_bytes])
  note m = ensured [OF assms]
  obtain idx where b: "Build quiet_env d1 = Inr idx"
    using Build_total [of quiet_env d1] by (auto simp: quiet_env_def)
  have ip: "parse_addr ''10.6.0.1'' = Some (V4 0x0A060001)" by (simp add: addr_eval)
  have rl: "NewRelay ''10.6.0.0/24'' ''10.6.0.1'' \<noteq> None" by (simp add: NewRelay_def addr_eval)
  have "w_priv \<noteq> []" using base64ToHex_key [OF kb] base64ToHex_Nil by (auto simp: w_priv_def)
  then have o: "\<exists>srv. wgOpen True rand Some (\<lambda>_. True) True w_priv 51820 = Inr srv"
    using base64ToHex_key [OF kb] derivePublicKey_key [OF kb]
    by (simp add: wgOpen_def key_result_def w_priv_def)
  then obtain srv where o: "wgOpen True rand Some (\<lambda>_. True) True w_priv 51820 = Inr srv" by blast
  have st: "SetSetting quiet_env k v d1 = (Inr (), sql_upsert_setting k v d1, [''settings''])" for k v
    by (simp add: SetSetting_def set_setting_tx_def withTx_def quiet_env_def)
  have "\<exists>srv' t. ApplyPeers (\<lambda>_. True) (Some idx) srv = (Inr (), srv', t)"
    by (simp add: ApplyPeers_def Let_def)
  then show ?thesis
    using assms b ip rl o st m
    by (auto simp: start_core_def w_os_def Defaults_def AddAddress_def is_v4_def sql_upsert_setting_def update_conv')
qed

lemma w_started:
  "\<exists>idx srv rl d'. start_core w_os quiet_env Defaults w_live_db = (Inr (idx, srv, rl), d')
    \<and> map_of (t_settings d') ''server_private_key'' = Some w_priv
    \<and> map_of (t_settings d') ''server_public_key'' \<noteq> None"
proof -
  have g: "\<exists>pub. wgGenerateKeypair (Some w_key) Some = Inr (w_priv, pub)"
    using generators_agree [of w_key Some "clamp_key w_key"] w_key_bytes by (simp add: w_priv_def key_bytes_def)
  have none: "map_of (t_settings w_live_db) k = None" for k by (simp add: w_live_db_def empty_db_def)
  have "\<exists>pub0 d1. ensureServerKeypair quiet_env (Some w_key) Some w_live_db = (Inr (w_priv, pub0), d1)"
    using g none by (auto simp: ensureServerKeypair_def new_keypair_def GetSetting_def SetSetting_def
        set_setting_tx_def withTx_def quiet_env_def exec_sql_def)
  moreover have "w_os\<lparr>os_rand := Some w_key\<rparr> = w_os" by (simp add: w_os_def)
  ultimately show ?thesis using w_core [of "Some w_key" w_live_db] by auto
qed

theorem server_identity_stable_witness:
  "\<exists>idx srv rl d' idx' srv' rl' d3. start_core w_os quiet_env Defaults w_live_db = (Inr (idx, srv, rl), d')
    \<and> start_core (w_os\<lparr>os_rand := None\<rparr>) quiet_env Defaults d' = (Inr (idx', srv', rl'), d3)
    \<and> sv_public srv' = sv_public srv"
proof -
  obtain idx srv rl d' where s: "start_core w_os quiet_env Defaults w_live_db = (Inr (idx, srv, rl), d')"
    and m: "map_of (t_settings d') ''server_private_key'' = Some w_priv"
      "map_of (t_settings d') ''server_public_key'' \<noteq> None"
    using w_started by blast
  have n: "map_of (t_settings w_live_db) ''server_private_key'' \<noteq> Some []"
    by (simp add: w_live_db_def empty_db_def)
  have "\<exists>pub0 d1. ensureServerKeypair quiet_env None Some d' = (Inr (w_priv, pub0), d1)"
    using m by (auto simp: ensureServerKeypair_def GetSetting_def quiet_env_def exec_sql_def)
  then obtain idx' srv' rl' d3 where
    s': "start_core (w_os\<lparr>os_rand := None\<rparr>) quiet_env Defaults d' = (Inr (idx', srv', rl'), d3)"
    using w_core by blast
  have "os_x25519 (w_os\<lparr>os_rand := None\<rparr>) = os_x25519 w_os" by simp
  from server_identity_stable [OF s n refl refl s' this] s s' show ?thesis by blast
qed

section \<open>Starting\<close>

lemma index_of_settings: "index_of (sql_upsert_setting k v d) = index_of d"
  by (intro ext) (simp add: index_of_def sql_upsert_setting_def service_view_def ports_of_def cong: option.case_cong)

lemma SetSetting_db: "SetSetting ev k v d = (r, d', ks) \<Longrightarrow> d' = d \<or> d' = sql_upsert_setting k v d"
  by (auto simp: SetSetting_def set_setting_tx_def withTx_def result_simps split: if_splits sum.splits prod.splits)

lemma wf_settings: "db_wf d \<Longrightarrow> SetSetting ev k v d = (r, d', ks) \<Longrightarrow> db_wf d'"
  by (auto simp: SetSetting_def intro: set_setting.keeps)

lemma tables_settings [simp]:
  "t_users (sql_upsert_setting k v d) = t_users d" "t_services (sql_upsert_setting k v d) = t_services d"
  by (simp_all add: sql_upsert_setting_def)

lemma ensured_wf:
  assumes "ensureServerKeypair ev rand x25519 d = (r, d')" "db_wf d"
  shows "db_wf d'"
proof -
  have "d' = d \<or> (\<exists>k v r ks d1. SetSetting ev k v d = (r, d1, ks)
      \<and> (d' = d1 \<or> (\<exists>k v r ks. SetSetting ev k v d1 = (r, d', ks))))"
    using assms(1) by (auto simp: ensureServerKeypair_def new_keypair_def split: sum.splits if_splits prod.splits) blast+
  then show ?thesis using assms(2) wf_settings by blast
qed

lemma ensured_users: "ensureServerKeypair ev rand x25519 d = (r, d') \<Longrightarrow> t_users d' = t_users d"
  by (auto simp: ensureServerKeypair_def new_keypair_def split: sum.splits if_splits prod.splits dest!: SetSetting_db)

lemma start_core_steps:
  assumes "start_core w ev cfg d = (Inr (idx, srv, rl), d')"
  obtains kp d1 srv0 u ks t where "ensureServerKeypair ev (os_rand w) (os_x25519 w) d = (Inr kp, d1)"
    "Build ev d1 = Inr idx" "SetSetting ev ''server_public_key'' (sv_public srv0) d1 = (Inr u, d', ks)"
    "ApplyPeers (os_ipc w) (Some idx) srv0 = (Inr (), srv, t)"
    "NewRelay (wg_client_subnet (c_wireguard cfg)) (wg_server_ip (c_wireguard cfg)) = Some rl"
  using assms by (auto simp: start_core_def split: prod.splits sum.splits option.splits)

text \<open>
  C10: a daemon that starts is consistent and secured. When \<open>Run\<close> reaches its main loop on a
  well-formed database whose preshared keys decode, index, device and announced services are those
  of the database it left, there is no flow, and the socket has a path, was given its mode and, if
  one is configured, its group, and is wrapped in a listener that lets the daemon's own user and
  that group through.
\<close>

theorem start_in_sync:
  assumes "start_daemon w ev cfg d = (Inr dm, d')" and "db_wf d" and "keys_ok d"
  shows "dm_db dm = d' \<and> db_wf d' \<and> in_sync w dm \<and> ft_flows (dm_flows dm) = [] \<and> ft_wf (dm_flows dm)
    \<and> so_path (c_socket cfg) \<noteq> []
    \<and> (\<exists>mode. socket_mode (so_mode (c_socket cfg)) = Some mode
         \<and> os_call w (Chmod (so_path (c_socket cfg)) mode))
    \<and> pl_self (dm_listener dm) = os_uid w
    \<and> (so_group (c_socket cfg) = [] \<longrightarrow> pl_gid (dm_listener dm) = None)
    \<and> (so_group (c_socket cfg) \<noteq> [] \<longrightarrow> (\<exists>gid n. lookupGID (os_groups w) (so_group (c_socket cfg)) = Inr gid
         \<and> os_call w (Chown (so_path (c_socket cfg)) gid) \<and> pl_gid (dm_listener dm) = Some (of_nat n)
         \<and> (\<exists>txt. os_groups w (so_group (c_socket cfg)) = Some txt \<and> parse_uint32 txt = Some n)))"
proof -
  obtain idx srv rl where core: "start_core w ev cfg d = (Inr (idx, srv, rl), d')"
    and sock: "\<exists>l. start_socket w (c_socket cfg) = Inr l \<and> dm_listener dm = l"
    and dm: "dm_db dm = d'" "dm_index dm = idx" "dm_flows dm = NewFlowTable" "dm_server dm = srv"
      "dm_vips dm = fst (reconcile (os_add w) idx [])"
    using assms(1) by (auto simp: start_daemon_def Let_def split: if_splits prod.splits sum.splits)
  from core obtain kp d1 srv0 u ks t where e: "ensureServerKeypair ev (os_rand w) (os_x25519 w) d = (Inr kp, d1)"
    and b: "Build ev d1 = Inr idx" and st: "SetSetting ev ''server_public_key'' (sv_public srv0) d1 = (Inr u, d', ks)"
    and a: "ApplyPeers (os_ipc w) (Some idx) srv0 = (Inr (), srv, t)" by (rule start_core_steps)
  have wf1: "db_wf d1" by (rule ensured_wf [OF e assms(2)])
  have keys: "keys_ok d1" using assms(3) by (simp add: keys_ok_def ensured_users [OF e])
  have db: "t_users d' = t_users d1" "t_services d' = t_services d1" "index_of d' = index_of d1"
    using SetSetting_db [OF st] by (auto simp: index_of_settings)
  have "index_of d' idx" using Build_index_of [OF wf1 b] db by simp
  moreover have "set (sv_peers srv) = {h. \<exists>r\<in>set (t_users d'). base64ToHex (u_public_key r) = Inr h}"
    using peers_built [OF wf1 b keys, of "os_ipc w" srv0] a db by simp
  moreover have "map_of (dm_vips dm) i = announced (os_add w) d' i" for i
    unfolding dm(5) reconcile_lookup [OF Build_services_distinct [OF b]] built_services [OF wf1 b] announced_def db
    by (auto split: option.splits)
  ultimately have "in_sync w dm"
    by (auto simp: in_sync_def dm NewFlowTable_def announced_def split: option.splits)
  moreover from sock obtain cs where p: "applySocketPerms (os_groups w) (os_call w) (c_socket cfg) = (None, cs)"
    "so_path (c_socket cfg) \<noteq> []"
    "newPeerCredListener (os_uid w) (os_groups w) (c_socket cfg) = Inr (dm_listener dm)"
    by (auto simp: start_socket_def split: if_splits prod.splits option.splits sum.splits)
  moreover have "\<exists>mode. socket_mode (so_mode (c_socket cfg)) = Some mode
      \<and> os_call w (Chmod (so_path (c_socket cfg)) mode)
      \<and> (so_group (c_socket cfg) \<noteq> [] \<longrightarrow> (\<exists>gid. lookupGID (os_groups w) (so_group (c_socket cfg)) = Inr gid
         \<and> os_call w (Chown (so_path (c_socket cfg)) gid)))"
    by (rule applySocketPerms_calls [OF p(1,2)])
  moreover have "pl_self (dm_listener dm) = os_uid w
    \<and> (so_group (c_socket cfg) = [] \<longrightarrow> pl_gid (dm_listener dm) = None)
    \<and> (so_group (c_socket cfg) \<noteq> [] \<longrightarrow> (\<exists>n. pl_gid (dm_listener dm) = Some (of_nat n)
         \<and> (\<exists>txt. os_groups w (so_group (c_socket cfg)) = Some txt \<and> parse_uint32 txt = Some n)))"
    using p(3) by (cases "dm_listener dm") (auto simp: newPeerCredListener_def split: if_splits option.splits)
  ultimately show ?thesis
    using dm wf_settings [OF wf1 st] by (simp add: ft_wf_new) (auto simp: NewFlowTable_def)
qed

theorem start_in_sync_witness:
  "\<exists>dm d'. start_daemon w_os quiet_env Defaults w_live_db = (Inr dm, d') \<and> in_sync w_os dm
    \<and> pl_gid (dm_listener dm) = Some 7"
proof -
  obtain idx srv rl d' where c: "start_core w_os quiet_env Defaults w_live_db = (Inr (idx, srv, rl), d')"
    using w_started by blast
  have "parse_octal32 ''0660'' = Some 432"
    by (simp add: parse_octal32_def octal_digit_def is_digit_def digit_val_def)
  moreover have "parse_int64 ''7'' = Some 7" "parse_uint32 ''7'' = Some 7"
    by (simp_all add: parse_int64_def parse_uint32_def digits_val_def is_digit_def digit_val_def max_int64_def)
  moreover have "so_path (c_socket Defaults) \<noteq> []" "so_mode (c_socket Defaults) = ''0660''"
    "so_group (c_socket Defaults) = ''lightscale''" by (simp_all add: Defaults_def defaultSocketPath_def)
  moreover have "os_call w_os c" "os_listen w_os a" "os_groups w_os g = Some ''7''" "os_uid w_os = 0" for c a g
    by (simp_all add: w_os_def)
  ultimately have "start_socket w_os (c_socket Defaults) = Inr \<lparr>pl_self = 0, pl_gid = Some 7\<rparr>"
    by (simp add: start_socket_def ensureSocketDir_def applySocketPerms_def do_call_def
        give_group_def lookupGID_def newPeerCredListener_def socket_mode_def)
  moreover have "os_mkdir w_os a" "os_open_db w_os a" for a by (simp_all add: w_os_def)
  ultimately have "\<exists>dm. start_daemon w_os quiet_env Defaults w_live_db = (Inr dm, d') \<and> pl_gid (dm_listener dm) = Some 7"
    using c by (simp add: start_daemon_def Let_def)
  then obtain dm where s: "start_daemon w_os quiet_env Defaults w_live_db = (Inr dm, d')"
    and g: "pl_gid (dm_listener dm) = Some 7" by blast
  have "keys_ok w_live_db" by (simp add: keys_ok_def w_live_db_def)
  from start_in_sync [OF s w_live_wf this] s g show ?thesis by blast
qed

text \<open>
  A runtime socket that could not be used at a reload is not tried again: the old client stays, but
  the new path is recorded as current, so asking for the same configuration again does nothing.
\<close>

theorem docker_retry_lost:
  assumes "c_docker_socket fresh \<noteq> []" "connect (normalizeDockerHost (c_docker_socket fresh)) = Some e"
    "e \<noteq> ErrNotConfigured" "loop_event_step connect (ReloadAsked (Inr fresh)) dm = (r, dm')"
  shows "dm_docker dm' = dm_docker dm \<and> c_docker_socket (dm_config dm') = c_docker_socket fresh
    \<and> dm_docker (snd (loop_event_step connect' (ReloadAsked (Inr fresh)) dm')) = dm_docker dm"
  using assms by (auto simp: reload_docker_def applyHotReload_def newClient_def)

end
