(* ===== verification/Admission.thy ===== *)
theory Admission
  imports Daemon
begin

text \<open>
  Connections that are being admitted while the policy changes. \<open>TCPHandler.Handle\<close> (\<open>daemon/proxy/tcp.go\<close>) and
  \<open>UDPHandler.HandlePacket\<close> (\<open>daemon/proxy/udp.go\<close>) read the installed index, resolve and dial, and only then register the
  flow; the change callback (\<open>daemon/runtime/daemon.go\<close>) installs the new index and then reaps the flow table. Each access to
  the index and to the table is one step.
\<close>

section \<open>Model\<close>

text \<open>Where the goroutine of a connection stands: after the check, with the flow registered, or over.\<close>

datatype attempt = Checked user_snapshot service_snapshot int string string | Registered "64 word" | Over

record plane =
  pn_index :: index
  pn_table :: flow_table
  pn_attempts :: "nat \<Rightarrow> attempt option"

definition put_attempt :: "nat \<Rightarrow> attempt \<Rightarrow> plane \<Rightarrow> plane" where
  "put_attempt c a p = p\<lparr>pn_attempts := (pn_attempts p)(c \<mapsto> a)\<rparr>"

text \<open>The handlers: the check of a connection that has just arrived, a failed resolution or dial, the registration of the flow
  once the socket to the backend has the local address \<open>l\<close>, and its deferred removal.\<close>

definition check_tcp :: "nat \<Rightarrow> string option \<Rightarrow> string option \<Rightarrow> plane \<Rightarrow> plane option" where
  "check_tcp c remote local_addr p = (if pn_attempts p c \<noteq> None then None
     else Some (case tcp_admit (pn_index p) remote local_addr of None \<Rightarrow> put_attempt c Over p
       | Some (user, svc, port) \<Rightarrow> put_attempt c (Checked user svc port ''tcp'' (the remote)) p))"

definition check_udp :: "nat \<Rightarrow> string option \<Rightarrow> string \<Rightarrow> int \<Rightarrow> plane \<Rightarrow> plane option" where
  "check_udp c src vip port p = (if pn_attempts p c \<noteq> None then None
     else Some (case udp_admit (pn_index p) src vip port of None \<Rightarrow> put_attempt c Over p
       | Some (key, user, svc) \<Rightarrow> put_attempt c (Checked user svc (uk_port key) ''udp'' (the src)) p))"

definition give_up :: "nat \<Rightarrow> plane \<Rightarrow> plane option" where
  "give_up c p = (case pn_attempts p c of Some (Checked user svc port proto src) \<Rightarrow> Some (put_attempt c Over p) | _ \<Rightarrow> None)"

definition register_flow :: "nat \<Rightarrow> string \<Rightarrow> plane \<Rightarrow> plane option" where
  "register_flow c l p = (case pn_attempts p c of
     Some (Checked user svc port proto src) \<Rightarrow>
       (if ft_next (pn_table p) = -1 then None
        else case ft_Add (service_flow user svc port proto src l c) (pn_table p) of
          (i, t) \<Rightarrow> Some (put_attempt c (Registered i) p\<lparr>pn_table := t\<rparr>))
   | _ \<Rightarrow> None)"

definition leave_flow :: "nat \<Rightarrow> plane \<Rightarrow> plane option" where
  "leave_flow c p = (case pn_attempts p c of
     Some (Registered i) \<Rightarrow> Some (put_attempt c Over p\<lparr>pn_table := ft_Remove i (pn_table p)\<rparr>) | _ \<Rightarrow> None)"

text \<open>The callback: \<open>holder.Store(idx)\<close> and \<open>flowTable.Reap(idx)\<close>.\<close>

datatype plane_event = CheckTcpConn nat "string option" "string option" | CheckUdpFlow nat "string option" string int
  | GiveUp nat | Register nat string | Leave nat | Install index | ReapWith index

fun plane_next :: "plane_event \<Rightarrow> plane \<Rightarrow> plane option" where
  "plane_next (CheckTcpConn c remote local_addr) p = check_tcp c remote local_addr p"
| "plane_next (CheckUdpFlow c src vip port) p = check_udp c src vip port p"
| "plane_next (GiveUp c) p = give_up c p"
| "plane_next (Register c l) p = register_flow c l p"
| "plane_next (Leave c) p = leave_flow c p"
| "plane_next (Install idx) p = Some (p\<lparr>pn_index := idx\<rparr>)"
| "plane_next (ReapWith idx) p = Some (p\<lparr>pn_table := fst (ft_Reap idx (pn_table p))\<rparr>)"

fun plane_run :: "plane_event list \<Rightarrow> plane \<Rightarrow> plane option" where
  "plane_run [] p = Some p"
| "plane_run (ev # evs) p = (case plane_next ev p of None \<Rightarrow> None | Some p' \<Rightarrow> plane_run evs p')"

definition installs :: "plane_event \<Rightarrow> bool" where
  "installs ev \<longleftrightarrow> (case ev of Install idx \<Rightarrow> True | _ \<Rightarrow> False)"

definition is_checked :: "plane \<Rightarrow> nat \<Rightarrow> bool" where
  "is_checked p c \<longleftrightarrow> (case pn_attempts p c of Some (Checked user svc port proto src) \<Rightarrow> True | _ \<Rightarrow> False)"

section \<open>Lemmas\<close>

lemma put_attempt_simps [simp]:
  "pn_attempts (put_attempt c a p) = (pn_attempts p)(c \<mapsto> a)" "pn_table (put_attempt c a p) = pn_table p"
  "pn_index (put_attempt c a p) = pn_index p"
  by (simp_all add: put_attempt_def)

lemma plane_run_append: "plane_run (xs @ ys) p = (case plane_run xs p of None \<Rightarrow> None | Some p' \<Rightarrow> plane_run ys p')"
  by (induction xs arbitrary: p) (simp_all split: option.split)

lemma udp_admit_Some:
  "udp_admit idx src vip port = Some (key, user, svc) \<Longrightarrow> uk_port key = port
    \<and> (\<exists>srcIP. CheckService idx srcIP vip port ''udp'' = (Allow, Some user, Some svc))"
  by (auto simp: udp_admit_def split: option.splits prod.splits decision.splits)

text \<open>The attempts whose check a database \<open>d\<close> does not stand behind are among \<open>W\<close>; so are, apart from those registered by the
  events \<open>R\<close>, the flows of the table.\<close>

definition backed :: "db \<Rightarrow> nat set \<Rightarrow> plane \<Rightarrow> bool" where
  "backed d W p \<longleftrightarrow> ft_wf (pn_table p) \<and> (\<forall>c user svc port proto src l. pn_attempts p c = Some (Checked user svc port proto src)
     \<longrightarrow> c \<in> W \<or> flow_access d (service_flow user svc port proto src l c))"

definition covered :: "db \<Rightarrow> nat set \<Rightarrow> flow_table \<Rightarrow> bool" where
  "covered d R t \<longleftrightarrow> (\<forall>i f. (i, f) \<in> set (ft_flows t) \<longrightarrow> flow_access d f \<or> (\<exists>c\<in>R. f_close f = Some c))"

lemma checked_access:
  assumes "db_wf d" "index_of d idx" "CheckService idx src vip port proto = (Allow, Some user, Some svc)"
  shows "flow_access d (service_flow user svc port proto s l c)"
  using admitted(4) [OF assms] flow_allowed_access [OF assms(1,2)] by simp

lemma backed_step:
  assumes d: "db_wf d" "index_of d (pn_index p)" and b: "backed d W p" and s: "plane_next ev p = Some p'" and "\<not> installs ev"
  shows "backed d W p' \<and> pn_index p' = pn_index p"
proof (cases ev)
  case (CheckTcpConn c remote local_addr)
  then show ?thesis using s b checked_access [OF d]
    by (auto simp: backed_def check_tcp_def split: if_splits option.splits dest!: tcp_admit_Some) blast+
next
  case (CheckUdpFlow c src vip port)
  then show ?thesis using s b checked_access [OF d]
    by (auto simp: backed_def check_udp_def split: if_splits option.splits dest!: udp_admit_Some) blast+
next
  case (Register c l)
  then show ?thesis using s b ft_wf_Add(1)
    by (auto simp: backed_def register_flow_def split: option.splits attempt.splits if_splits prod.splits)
      (metis snd_conv)+
next
  case (Leave c)
  then show ?thesis using s b ft_wf_Remove by (auto simp: backed_def leave_flow_def split: option.splits attempt.splits if_splits) blast+
next
  case (GiveUp c)
  then show ?thesis using s b by (auto simp: backed_def give_up_def split: option.splits attempt.splits if_splits) blast+
next
  case (ReapWith idx)
  then have "pn_attempts p' = pn_attempts p" "pn_table p' = fst (ft_Reap idx (pn_table p))" "pn_index p' = pn_index p"
    using s by auto
  then show ?thesis using b ft_wf_Reap unfolding backed_def by metis
qed (use assms(5) in \<open>simp add: installs_def\<close>)

definition late :: "nat set \<Rightarrow> plane_event \<Rightarrow> nat set" where
  "late W ev = (case ev of Register c l \<Rightarrow> {c} \<inter> W | _ \<Rightarrow> {})"

lemma in_late: "c \<in> late W ev \<longleftrightarrow> c \<in> W \<and> (\<exists>l. ev = Register c l)"
  by (cases ev) (auto simp: late_def)

lemma covered_sub: "covered d R t \<Longrightarrow> set (ft_flows t') \<subseteq> set (ft_flows t) \<Longrightarrow> R \<subseteq> R' \<Longrightarrow> covered d R' t'"
  unfolding covered_def by blast

lemma set_update_sub: "x \<in> set (AList.update k v al) \<Longrightarrow> x = (k, v) \<or> x \<in> set al"
  by (induction al) (auto split: if_splits)

lemma set_delete_sub: "x \<in> set (AList.delete k al) \<Longrightarrow> x \<in> set al"
  by (induction al) (auto split: if_splits)

lemma covered_add:
  assumes "covered d R t" and "flow_access d f \<or> f_close f = Some c \<and> c \<in> W"
  shows "covered d (R \<union> ({c} \<inter> W)) (snd (ft_Add f t))"
proof -
  have "set (ft_flows (snd (ft_Add f t))) \<subseteq> insert (ft_next t + 1, f) (set (ft_flows t))"
    by (auto simp: ft_Add_def Let_def dest: set_update_sub)
  then show ?thesis using assms unfolding covered_def by blast
qed

lemma covered_step:
  assumes "backed d W p" and c: "covered d R (pn_table p)" and s: "plane_next ev p = Some p'"
  shows "covered d (R \<union> late W ev) (pn_table p')"
proof (cases ev)
  case (Register c l)
  then obtain user svc port proto src where a: "pn_attempts p c = Some (Checked user svc port proto src)"
    and t: "pn_table p' = snd (ft_Add (service_flow user svc port proto src l c) (pn_table p))"
    using s by (auto simp: register_flow_def split: option.splits attempt.splits if_splits prod.splits)
  have "flow_access d (service_flow user svc port proto src l c) \<or> c \<in> W"
    using assms(1) a unfolding backed_def by blast
  then show ?thesis unfolding t late_def Register plane_event.case
    by (intro covered_add [OF c]) (simp add: service_flow_def)
next
  case (ReapWith idx)
  then show ?thesis using s assms(1) Reap_flows [of "pn_table p" idx]
    by (auto simp: late_def backed_def intro!: covered_sub [OF c])
next
  case (Leave c')
  then show ?thesis using s
    by (auto simp: late_def leave_flow_def ft_Remove_def split: option.splits attempt.splits
        intro!: covered_sub [OF c] dest: set_delete_sub)
qed (use s c in \<open>auto simp: late_def check_tcp_def check_udp_def give_up_def split: option.splits attempt.splits if_splits\<close>)

lemma run_backed:
  assumes "plane_run evs p = Some p'" and "list_all (\<lambda>ev. \<not> installs ev) evs"
    and "db_wf d" and "index_of d (pn_index p)" and "backed d W p"
  shows "backed d W p' \<and> pn_index p' = pn_index p"
  using assms
proof (induction evs arbitrary: p)
  case (Cons ev evs)
  then obtain p1 where p1: "plane_next ev p = Some p1" "plane_run evs p1 = Some p'" by (auto split: option.splits)
  have b: "backed d W p1 \<and> pn_index p1 = pn_index p"
    using backed_step [OF Cons.prems(3,4,5) p1(1)] Cons.prems(2) by simp
  then show ?case using Cons.IH [OF p1(2)] Cons.prems by simp
qed simp

lemma run_covered:
  assumes "plane_run evs p = Some p'" and "list_all (\<lambda>ev. \<not> installs ev) evs"
    and "db_wf d" and "index_of d (pn_index p)" and "backed d W p" and "covered d R (pn_table p)"
  shows "covered d (R \<union> \<Union> (late W ` set evs)) (pn_table p')"
  using assms
proof (induction evs arbitrary: p R)
  case (Cons ev evs)
  then obtain p1 where p1: "plane_next ev p = Some p1" "plane_run evs p1 = Some p'" by (auto split: option.splits)
  have "backed d W p1 \<and> pn_index p1 = pn_index p"
    using backed_step [OF Cons.prems(3,4,5) p1(1)] Cons.prems(2) by simp
  moreover have "covered d (R \<union> late W ev) (pn_table p1)" by (rule covered_step [OF Cons.prems(5,6) p1(1)])
  ultimately have "covered d ((R \<union> late W ev) \<union> \<Union> (late W ` set evs)) (pn_table p')"
    using Cons.IH [OF p1(2)] Cons.prems by simp
  then show ?case by (simp add: Un_assoc)
qed simp

section \<open>A flow that escapes\<close>

lemma no_access_no_flow: "(\<And>src vip port proto. \<not> service_access d src vip port proto) \<Longrightarrow> \<not> flow_access d (service_flow u s port proto src l c)"
  by (simp add: flow_access_def service_flow_def)

lemma w_live_admitted:
  assumes "Build quiet_env w_live_db = Inr idx"
  shows "\<exists>user svc. tcp_admit idx (Some ''1:5'') (Some ''10.0.0.9:80'') = Some (user, svc, 80)"
proof -
  have "fst (CheckService idx ''1'' ''10.0.0.9'' 80 ''tcp'') = Allow"
    using CheckService_access [OF w_live_wf Build_index_of [OF w_live_wf assms]] w_live_access by blast
  then have "\<exists>user svc. CheckService idx ''1'' ''10.0.0.9'' 80 ''tcp'' = (Allow, Some user, Some svc)"
    by (auto simp: CheckService_def split: option.splits if_splits)
  moreover have "splitHostPort (Some ''1:5'') = Some (''1'', 5)" "splitHostPort (Some ''10.0.0.9:80'') = Some (''10.0.0.9'', 80)"
    by code_simp+
  ultimately show ?thesis by (auto simp: tcp_admit_def)
qed

lemma late_flow_exists:
  "\<exists>d d' idx idx' f p'. db_wf d \<and> Build quiet_env d = Inr idx \<and> run_op quiet_env (OpDeletePolicy 1) d = (None, d', [''policies''])
      \<and> Build quiet_env d' = Inr idx'
      \<and> plane_run [CheckTcpConn 7 (Some ''1:5'') (Some ''10.0.0.9:80''), Install idx', ReapWith idx', Register 7 ''l'']
          \<lparr>pn_index = idx, pn_table = NewFlowTable, pn_attempts = Map.empty\<rparr> = Some p'
      \<and> (1, f) \<in> set (ft_flows (pn_table p')) \<and> \<not> flow_access d' f"
proof -
  obtain idx idx' where b: "Build quiet_env w_live_db = Inr idx" "Build quiet_env w_closed_db = Inr idx'"
    using w_live_build Build_total [of quiet_env w_closed_db] by (auto simp: quiet_env_def)
  obtain user svc where a: "tcp_admit idx (Some ''1:5'') (Some ''10.0.0.9:80'') = Some (user, svc, 80)"
    using w_live_admitted [OF b(1)] by blast
  let ?p = "\<lparr>pn_index = idx, pn_table = NewFlowTable, pn_attempts = Map.empty\<rparr>"
  let ?f = "service_flow user svc 80 ''tcp'' ''1:5'' ''l'' 7"
  have "fst (ft_Reap idx' NewFlowTable) = NewFlowTable" by (simp add: ft_Reap_def NewFlowTable_def)
  then obtain p' where "plane_run [CheckTcpConn 7 (Some ''1:5'') (Some ''10.0.0.9:80''), Install idx', ReapWith idx', Register 7 ''l''] ?p = Some p'"
    "(1, ?f) \<in> set (ft_flows (pn_table p'))"
    by (simp add: check_tcp_def register_flow_def a ft_Add_def Let_def NewFlowTable_def)
  then show ?thesis using w_live_wf b w_revoke no_access_no_flow [OF w_closed_access] by blast
qed

section \<open>Properties\<close>

text \<open>
  C12: what a change of the policy reaches. Once the index of a database has been installed and the flow table reaped with it,
  and as long as no other index is installed, every registered flow is one that the database allows, except flows of
  connections that were already checked when the index was installed and were registered only after the reaping. Such flows
  exist: a connection whose grant is revoked while it dials is registered after the reaping and stays in the table.
\<close>

theorem revocation_window:
  assumes a: "db_wf d" "Build ev d = Inr idx" "ft_wf (pn_table p)" "list_all (\<lambda>ev. \<not> installs ev) (es1 @ es2)"
    "plane_run (Install idx # es1 @ ReapWith idx # es2) p = Some p'"
  shows "(\<forall>i f. (i, f) \<in> set (ft_flows (pn_table p'))
        \<longrightarrow> flow_access d f \<or> (\<exists>c l. f_close f = Some c \<and> is_checked p c \<and> Register c l \<in> set es2))
    \<and> (\<exists>d d' idx idx' f p'. db_wf d \<and> Build quiet_env d = Inr idx \<and> run_op quiet_env (OpDeletePolicy 1) d = (None, d', [''policies''])
        \<and> Build quiet_env d' = Inr idx'
        \<and> plane_run [CheckTcpConn 7 (Some ''1:5'') (Some ''10.0.0.9:80''), Install idx', ReapWith idx', Register 7 ''l'']
            \<lparr>pn_index = idx, pn_table = NewFlowTable, pn_attempts = Map.empty\<rparr> = Some p'
        \<and> (1, f) \<in> set (ft_flows (pn_table p')) \<and> \<not> flow_access d' f)"
proof (rule conjI [OF _ late_flow_exists])
  define W where "W = {c. is_checked p c}"
  have idx: "index_of d idx" by (rule Build_index_of [OF a(1,2)])
  obtain p1 where p1: "plane_run es1 (p\<lparr>pn_index := idx\<rparr>) = Some p1"
    "plane_run es2 (p1\<lparr>pn_table := fst (ft_Reap idx (pn_table p1))\<rparr>) = Some p'"
    using a(5) by (auto simp: plane_run_append split: option.splits)
  have b: "backed d W (p\<lparr>pn_index := idx\<rparr>)" using a(3) by (auto simp: backed_def W_def is_checked_def)
  have b1: "backed d W p1 \<and> pn_index p1 = idx"
    using run_backed [OF p1(1) _ a(1) _ b] a(4) idx by simp
  let ?p2 = "p1\<lparr>pn_table := fst (ft_Reap idx (pn_table p1))\<rparr>"
  have b2: "backed d W ?p2" using b1 ft_wf_Reap [of "pn_table p1" idx] by (auto simp: backed_def)
  have "covered d {} (pn_table ?p2)"
    using b1 Reap_flows [of "pn_table p1" idx] flow_allowed_access [OF a(1) idx] by (auto simp: covered_def backed_def)
  then have "covered d (\<Union> (late W ` set es2)) (pn_table p')"
    using run_covered [OF p1(2) _ a(1) _ b2, of "{}"] a(4) b1 idx by simp
  then show "\<forall>i f. (i, f) \<in> set (ft_flows (pn_table p'))
      \<longrightarrow> flow_access d f \<or> (\<exists>c l. f_close f = Some c \<and> is_checked p c \<and> Register c l \<in> set es2)"
    unfolding covered_def Bex_def UN_iff in_late W_def mem_Collect_eq by blast
qed

theorem revocation_window_witness:
  "\<exists>idx p'. Build quiet_env w_closed_db = Inr idx \<and> plane_run [Install idx, ReapWith idx]
      \<lparr>pn_index = idx, pn_table = w_table, pn_attempts = Map.empty\<rparr> = Some p' \<and> (1, w_flow) \<notin> set (ft_flows (pn_table p'))"
proof -
  obtain idx where b: "Build quiet_env w_closed_db = Inr idx"
    using Build_total [of quiet_env w_closed_db] by (auto simp: quiet_env_def)
  let ?p = "\<lparr>pn_index = idx, pn_table = w_table, pn_attempts = Map.empty\<rparr>"
  obtain p' where r: "plane_run (Install idx # [] @ ReapWith idx # []) ?p = Some p'" by simp
  have "db_wf w_closed_db" by (rule run_op_keeps [OF w_live_wf w_revoke])
  then have "flow_access w_closed_db f" if "(i, f) \<in> set (ft_flows (pn_table p'))" for i f
    using conjunct1 [OF revocation_window [OF _ b _ _ r]] w_table_wf that by simp
  moreover have "\<not> flow_access w_closed_db w_flow"
    using w_closed_access by (simp add: flow_access_def w_flow_def)
  ultimately have "(1, w_flow) \<notin> set (ft_flows (pn_table p'))" by blast
  then show ?thesis using b r by auto
qed

end
