(* ===== verification/Dispatch.thy ===== *)
theory Dispatch
  imports Daemon
begin

text \<open>
  From the network stack to the proxy: \<open>Dispatcher.serveUDPConn\<close> (\<open>daemon/wg/wildcard.go\<close>) reads the datagrams of a connection
  that \<open>onUDP\<close> has accepted and hands each to \<open>listenerManager.acceptUDP\<close> (\<open>daemon/runtime/listeners.go\<close>), which starts
  \<open>UDPHandler.HandlePacket\<close>; \<open>acceptTCP\<close> starts \<open>TCPHandler.Handle\<close>.
\<close>

section \<open>Model\<close>

text \<open>The text of a \<open>net.TCPAddr\<close> or \<open>net.UDPAddr\<close>.\<close>

definition sock_text :: "addr \<Rightarrow> nat \<Rightarrow> string" where
  "sock_text a port = join_host_port (addr_string a) (nat_str port)"

text \<open>The loop of \<open>serveUDPConn\<close>: the datagrams passed on before the first failed read, which an idle minute is too.\<close>

datatype udp_read = Datagram string | NoRead

fun serveUDPConn :: "udp_read list \<Rightarrow> string list" where
  "serveUDPConn [] = []"
| "serveUDPConn (Datagram bytes # rs) = bytes # serveUDPConn rs"
| "serveUDPConn (NoRead # rs) = []"

text \<open>What a goroutine finds when it runs: the installed index, what resolving and dialling give, the handle of a new socket, the
  time.\<close>

record surround =
  sd_index :: index
  sd_env :: resolve_env
  sd_resolve_addr :: "string \<Rightarrow> bool"
  sd_dial :: "string \<Rightarrow> string option"
  sd_handle :: nat
  sd_now :: int

definition acceptUDP :: "surround \<Rightarrow> addr \<Rightarrow> nat \<Rightarrow> addr \<Rightarrow> int \<Rightarrow> udp_handler \<Rightarrow> nat option \<times> udp_handler" where
  "acceptUDP sd src sport vip port h =
    HandlePacket (sd_env sd) (sd_resolve_addr sd) (sd_dial sd) (sd_index sd) (sd_handle sd) (sd_now sd)
      (Some (sock_text src sport)) (addr_string vip) port h"

definition acceptTCP :: "surround \<Rightarrow> (flow_table \<Rightarrow> flow_table) \<Rightarrow> addr \<Rightarrow> nat \<Rightarrow> addr \<Rightarrow> nat \<Rightarrow> resolver \<Rightarrow> flow_table
    \<Rightarrow> tcp_event list \<times> resolver \<times> flow_table" where
  "acceptTCP sd meanwhile src sport vip port r t =
    tcp_Handle (sd_env sd) (sd_dial sd) meanwhile (sd_index sd) (sd_handle sd)
      (Some (sock_text src sport)) (Some (sock_text vip port)) r t"

text \<open>The goroutines of one connection's datagrams, in the order in which they take the handler's lock: the socket that each
  datagram goes out on, with its bytes.\<close>

fun udp_session :: "(surround \<times> string) list \<Rightarrow> addr \<Rightarrow> nat \<Rightarrow> addr \<Rightarrow> int \<Rightarrow> udp_handler
    \<Rightarrow> (nat \<times> string) option list \<times> udp_handler" where
  "udp_session [] src sport vip port h = ([], h)"
| "udp_session ((sd, bytes) # rest) src sport vip port h =
    (case acceptUDP sd src sport vip port h of (out, h1) \<Rightarrow>
     (case udp_session rest src sport vip port h1 of (outs, h2) \<Rightarrow>
       (map_option (\<lambda>sock. (sock, bytes)) out # outs, h2)))"

section \<open>Lemmas\<close>

lemma split_sock_text: "int port \<le> max_int64 \<Longrightarrow> splitHostPort (Some (sock_text (V4 a) port)) = Some (addr_string (V4 a), int port)"
  unfolding sock_text_def by (rule splitHostPort_nat) (simp_all add: v4_string_no_sep)

lemma onUDP_accepts: "onUDP check endpoint src dst port = Accepted vip p \<longleftrightarrow>
    check (addr_string src) (addr_string dst) port \<and> endpoint \<and> vip = dst \<and> p = port"
  by (auto simp: onUDP_def)

lemma onTCP_accepts: "onTCP check endpoint src dst port = Accepted vip p \<longleftrightarrow>
    check (addr_string src) (addr_string dst) port \<and> endpoint \<and> vip = dst \<and> p = port"
  by (auto simp: onTCP_def)

lemma acceptUDP_allowed:
  assumes "int sport \<le> max_int64" and "fst (acceptUDP sd (V4 a) sport vip port h) \<noteq> None"
    and "db_wf d" and "index_of d (sd_index sd)"
  shows "service_access d (addr_string (V4 a)) (addr_string vip) port ''udp''"
proof -
  have "udp_admit (sd_index sd) (Some (sock_text (V4 a) sport)) (addr_string vip) port \<noteq> None"
    using assms(2) by (auto simp: acceptUDP_def HandlePacket_def split: option.splits)
  then have "fst (CheckService (sd_index sd) (addr_string (V4 a)) (addr_string vip) port ''udp'') = Allow"
    by (auto simp: udp_admit_def split_sock_text [OF assms(1)] split: option.splits prod.splits decision.splits)
  then show ?thesis using CheckService_access [OF assms(3,4)] by simp
qed

lemma acceptTCP_allowed:
  assumes "int sport \<le> max_int64" "int port \<le> max_int64"
    and "Dialled x \<in> set (fst (acceptTCP sd meanwhile (V4 a) sport (V4 b) port r t))" and "db_wf d" "index_of d (sd_index sd)"
  shows "service_access d (addr_string (V4 a)) (addr_string (V4 b)) (int port) ''tcp''"
proof -
  have "tcp_admit (sd_index sd) (Some (sock_text (V4 a) sport)) (Some (sock_text (V4 b) port)) \<noteq> None"
    using assms(3) by (auto simp: acceptTCP_def tcp_Handle_def split: option.splits)
  then have "fst (CheckService (sd_index sd) (addr_string (V4 a)) (addr_string (V4 b)) (int port) ''tcp'') = Allow"
    by (auto simp: tcp_admit_def split_sock_text [OF assms(1)] split_sock_text [OF assms(2)]
        split: option.splits prod.splits decision.splits)
  then show ?thesis using CheckService_access [OF assms(4,5)] by simp
qed

lemma udp_session_allowed:
  assumes "int sport \<le> max_int64" and "udp_session ws (V4 a) sport vip port h = (outs, h')"
  shows "list_all2 (\<lambda>(sd, bytes) out. \<forall>sock b. out = Some (sock, b) \<longrightarrow> b = bytes
      \<and> (\<forall>d. db_wf d \<and> index_of d (sd_index sd) \<longrightarrow> service_access d (addr_string (V4 a)) (addr_string vip) port ''udp'')) ws outs"
  using assms(2)
proof (induction ws arbitrary: h outs h')
  case (Cons w ws)
  obtain sd bytes where w: "w = (sd, bytes)" by (cases w)
  obtain out h1 where o: "acceptUDP sd (V4 a) sport vip port h = (out, h1)" by (cases "acceptUDP sd (V4 a) sport vip port h")
  obtain outs1 h2 where s: "udp_session ws (V4 a) sport vip port h1 = (outs1, h2)"
    by (cases "udp_session ws (V4 a) sport vip port h1")
  have "outs = map_option (\<lambda>sock. (sock, bytes)) out # outs1" using Cons.prems by (simp add: w o s)
  then show ?case
    using Cons.IH [OF s] acceptUDP_allowed [OF assms(1), of sd a vip port h] by (auto simp: w o simp del: addr_string.simps)
qed simp

section \<open>Properties\<close>

text \<open>
  C13: a client's traffic is authorised again at each stage. A connection that the dispatcher accepts was allowed by the database of
  the index it asked. A TCP connection is dialled only if the database of the index that the handler finds allows it as well. Of
  an accepted UDP connection each datagram goes out, with its own bytes, only if the database whose index is installed at that
  moment allows it, so a revocation holds from the next datagram on, on flows that exist too.
\<close>

theorem traffic_authorised:
  assumes "db_wf d" and "Build ev d = Inr idx" and "int sport \<le> max_int64" and "int port \<le> max_int64"
  shows "(onTCP (CheckTCP idx) endpoint (V4 a) (V4 b) (int port) = Accepted vip p
        \<longrightarrow> service_access d (addr_string (V4 a)) (addr_string (V4 b)) (int port) ''tcp'')
    \<and> (onUDP (CheckUDP idx) endpoint (V4 a) (V4 b) (int port) = Accepted vip p
        \<longrightarrow> service_access d (addr_string (V4 a)) (addr_string (V4 b)) (int port) ''udp'')
    \<and> (sd_index sd = idx \<and> Dialled x \<in> set (fst (acceptTCP sd meanwhile (V4 a) sport (V4 b) port r t))
        \<longrightarrow> service_access d (addr_string (V4 a)) (addr_string (V4 b)) (int port) ''tcp'')
    \<and> list_all2 (\<lambda>(sd, bytes) out. \<forall>sock c. out = Some (sock, c) \<longrightarrow> c = bytes
          \<and> (sd_index sd = idx \<longrightarrow> service_access d (addr_string (V4 a)) (addr_string (V4 b)) (int port) ''udp''))
        ws (fst (udp_session ws (V4 a) sport (V4 b) (int port) h))"
proof (intro conjI impI)
  note idx = Build_index_of [OF assms(1,2)]
  note access = CheckService_access [OF assms(1) idx]
  show "onTCP (CheckTCP idx) endpoint (V4 a) (V4 b) (int port) = Accepted vip p
      \<Longrightarrow> service_access d (addr_string (V4 a)) (addr_string (V4 b)) (int port) ''tcp''"
    by (simp add: onTCP_accepts CheckTCP_def access)
  show "onUDP (CheckUDP idx) endpoint (V4 a) (V4 b) (int port) = Accepted vip p
      \<Longrightarrow> service_access d (addr_string (V4 a)) (addr_string (V4 b)) (int port) ''udp''"
    by (simp add: onUDP_accepts CheckUDP_def access)
  show "service_access d (addr_string (V4 a)) (addr_string (V4 b)) (int port) ''tcp''"
    if "sd_index sd = idx \<and> Dialled x \<in> set (fst (acceptTCP sd meanwhile (V4 a) sport (V4 b) port r t))"
    using acceptTCP_allowed [OF assms(3,4) conjunct2 [OF that]] that assms(1) idx by blast
  show "list_all2 (\<lambda>(sd, bytes) out. \<forall>sock c. out = Some (sock, c) \<longrightarrow> c = bytes
      \<and> (sd_index sd = idx \<longrightarrow> service_access d (addr_string (V4 a)) (addr_string (V4 b)) (int port) ''udp''))
      ws (fst (udp_session ws (V4 a) sport (V4 b) (int port) h))"
    by (rule list_all2_mono [OF udp_session_allowed [OF assms(3) prod.collapse [symmetric]]]) (use assms(1) idx in auto)
qed

definition w_net_db :: db where
  "w_net_db = w_live_db\<lparr>t_users := [w_user\<lparr>u_ip := ''10.6.0.2'', u_public_key := b64_encode w_key, u_preshared_key := []\<rparr>]\<rparr>"

lemma w_net_wf: "db_wf w_net_db"
  by (simp add: wf_unfold w_net_db_def w_live_db_def w_user_def w_service_def w_rule_def empty_db_def ids_ok_def
      max_int64_def principal_names_def object_names_def addresses_def spec_ok_def Valid_def
      rule_ok_def validSubject_def validObject_def validAction_def row_exists_def trim_space_def
      trim_left_def trim_right_def is_space_def)

lemma w_net_access: "service_access w_net_db ''10.6.0.2'' ''10.0.0.9'' 53 ''udp''"
  by (simp add: service_access_def w_net_db_def w_live_db_def w_user_def w_service_def empty_db_def port_open_def
      rules_allow_def decides_def applies_def w_rule_def user_refs_def service_refs_def)

lemma w_net_texts: "addr_string (V4 0x0A060002) = ''10.6.0.2''" "addr_string (V4 0x0A000009) = ''10.0.0.9''"
  by (simp_all add: addr_text_eval)

theorem traffic_authorised_witness:
  "\<exists>idx. Build quiet_env w_net_db = Inr idx \<and> onUDP (CheckUDP idx) True (V4 0x0A060002) (V4 0x0A000009) 53 = Accepted (V4 0x0A000009) 53
    \<and> service_access w_net_db ''10.6.0.2'' ''10.0.0.9'' 53 ''udp''"
proof -
  obtain idx where b: "Build quiet_env w_net_db = Inr idx"
    using Build_total [of quiet_env w_net_db] by (auto simp: quiet_env_def)
  have "CheckUDP idx ''10.6.0.2'' ''10.0.0.9'' 53"
    using CheckService_access [OF w_net_wf Build_index_of [OF w_net_wf b]] w_net_access by (simp add: CheckUDP_def)
  then have a: "onUDP (CheckUDP idx) True (V4 0x0A060002) (V4 0x0A000009) (int 53) = Accepted (V4 0x0A000009) 53"
    by (simp only: onUDP_accepts w_net_texts) simp
  then have "service_access w_net_db (addr_string (V4 0x0A060002)) (addr_string (V4 0x0A000009)) (int 53) ''udp''"
    using traffic_authorised [OF w_net_wf b, where sport = 5 and port = 53 and endpoint = True and a = "0x0A060002" and b = "0x0A000009"
        and vip = "V4 0x0A000009" and p = 53] by (auto simp: max_int64_def simp del: addr_string.simps)
  then show ?thesis using b a by (simp add: w_net_texts del: addr_string.simps)
qed

end
