(* ===== verification/Api.thy ===== *)
theory Api
  imports Store Config Docker Keys Ipalloc
begin

text \<open>
  \<open>daemon/api/server.go\<close> and \<open>users.go\<close>: replies, the mapping of errors to HTTP statuses, and
  the handlers on users. A handler is a function of the database; its JSON body is an option
  (\<open>None\<close>: not decodable) and a path parameter its text. The third component of its result is
  the list of changes notified. The router and the recovery from panics are not modelled: a
  panic is a reply of its own.
\<close>

section \<open>Replies\<close>

datatype api_error = StoreError store_error | OriginError origin_error | AllocError alloc_error
  | KeyError key_error | DockerError docker_error | Message string

datatype 'b reply = Reply nat 'b | ReplyEmpty nat | ReplyError nat api_error | ReplyPanic

type_synonym 'b handled = "'b reply \<times> db \<times> string list"

definition error_status :: "store_error \<Rightarrow> nat" where
  "error_status e = (case e of ErrNotFound \<Rightarrow> 404
     | ErrNameTaken \<Rightarrow> 409 | ErrIPInUse \<Rightarrow> 409 | ErrPortConflict \<Rightarrow> 409
     | ErrInvalidInput \<Rightarrow> 400
     | ErrDriver _ \<Rightarrow> 500)"

definition writeError :: "store_error \<Rightarrow> 'b reply" where
  "writeError e = ReplyError (error_status e) (StoreError e)"

definition reject :: "nat \<Rightarrow> api_error \<Rightarrow> db \<Rightarrow> 'b handled" where
  "reject st e d = (ReplyError st e, d, [])"

text \<open>\<open>readJSON\<close>, and \<open>parseID\<close> on a path parameter.\<close>

definition readJSON :: "'q option \<Rightarrow> ('q \<Rightarrow> db \<Rightarrow> 'b handled) \<Rightarrow> db \<Rightarrow> 'b handled" where
  "readJSON body h d = (case body of None \<Rightarrow> reject 400 (Message ''invalid JSON'') d | Some req \<Rightarrow> h req d)"

definition parseID :: "string \<Rightarrow> (int \<Rightarrow> db \<Rightarrow> 'b handled) \<Rightarrow> db \<Rightarrow> 'b handled" where
  "parseID raw h d = (case parse_int64 raw of
     None \<Rightarrow> reject 400 (Message ''invalid id'') d
   | Some i \<Rightarrow> if i \<le> 0 then reject 400 (Message ''invalid id'') d else h i d)"

text \<open>Ending a handler with the result of an operation, or of a query.\<close>

definition respond ::
  "nat \<Rightarrow> ('a \<Rightarrow> 'b) \<Rightarrow> (store_error + 'a) \<times> db \<times> string list \<Rightarrow> 'b handled" where
  "respond st f r = (case r of (res, d, ks) \<Rightarrow>
     ((case res of Inl e \<Rightarrow> writeError e | Inr x \<Rightarrow> Reply st (f x)), d, ks))"

definition respond_empty :: "(store_error + unit) \<times> db \<times> string list \<Rightarrow> 'b handled" where
  "respond_empty r = (case r of (res, d, ks) \<Rightarrow>
     ((case res of Inl e \<Rightarrow> writeError e | Inr _ \<Rightarrow> ReplyEmpty 204), d, ks))"

definition answer :: "('a \<Rightarrow> 'b) \<Rightarrow> store_error + 'a \<Rightarrow> db \<Rightarrow> 'b handled" where
  "answer f r d = ((case r of Inl e \<Rightarrow> writeError e | Inr x \<Rightarrow> Reply 200 (f x)), d, [])"

definition handleHealth :: "db \<Rightarrow> string handled" where
  "handleHealth d = (Reply 200 ''ok'', d, [])"

definition handleStatus :: "status_snapshot \<Rightarrow> db \<Rightarrow> status_snapshot handled" where
  "handleStatus snap d = (Reply 200 snap, d, [])"

definition user_ref :: "string user \<Rightarrow> wire_ref" where
  "user_ref u = \<lparr>wr_type = ''user'', wr_id = u_id u, wr_name = u_name u\<rparr>"

definition user_group_ref :: "user_group \<Rightarrow> wire_ref" where
  "user_group_ref g = \<lparr>wr_type = ''user_group'', wr_id = ug_id g, wr_name = ug_name g\<rparr>"

definition service_ref :: "service \<Rightarrow> wire_ref" where
  "service_ref s = \<lparr>wr_type = ''service'', wr_id = s_id s, wr_name = s_name s\<rparr>"

definition service_group_ref :: "service_group \<Rightarrow> wire_ref" where
  "service_group_ref g = \<lparr>wr_type = ''service_group'', wr_id = sg_id g, wr_name = sg_name g\<rparr>"

definition listPrincipals :: "env \<Rightarrow> db \<Rightarrow> wire_ref list handled" where
  "listPrincipals ev d = answer id
    (bindE (ListUsers ev d) (\<lambda>users.
     bindE (ListUserGroups ev d) (\<lambda>groups.
     Inr (map user_ref users @ map user_group_ref groups)))) d"

definition listObjects :: "env \<Rightarrow> db \<Rightarrow> wire_ref list handled" where
  "listObjects ev d = answer id
    (bindE (ListUsers ev d) (\<lambda>users.
     bindE (ListUserGroups ev d) (\<lambda>userGroups.
     bindE (ListServices ev d) (\<lambda>services.
     bindE (ListServiceGroups ev d) (\<lambda>serviceGroups.
     Inr (map user_ref users @ map user_group_ref userGroups @ map service_ref services
          @ map service_group_ref serviceGroups)))))) d"

text \<open>\<open>docker\<close> is the server's client, whose listing may change its state.\<close>

definition discoverContainers ::
  "docker_api \<Rightarrow> docker_client option \<Rightarrow> db \<Rightarrow> container_summary list handled \<times> docker_client option" where
  "discoverContainers api docker d = (case docker of None \<Rightarrow> ((Reply 200 [], d, []), None)
     | Some c \<Rightarrow> (case ListContainers api (Some c) of
          (Inl e, c') \<Rightarrow> (reject 500 (DockerError e) d, c')
        | (Inr out, c') \<Rightarrow> ((Reply 200 out, d, []), c')))"

section \<open>Users\<close>

definition toUserDTO :: "string user \<Rightarrow> wire_user" where
  "toUserDTO u = \<lparr>wu_id = u_id u, wu_name = u_name u, wu_email = u_email u,
     wu_public_key = u_public_key u, wu_preshared_key = u_preshared_key u, wu_ip = u_ip u,
     wu_endpoint = u_endpoint u, wu_migrated = (u_private_key u = []),
     wu_created = u_created u, wu_updated = u_updated u\<rparr>"

definition listUsers :: "env \<Rightarrow> db \<Rightarrow> wire_user list handled" where
  "listUsers ev d = answer (map toUserDTO) (ListUsers ev d) d"

text \<open>The address of a new user or service: \<open>None\<close> if \<open>Allocate\<close> does not return.\<close>

definition pick_ip ::
  "string \<Rightarrow> string \<Rightarrow> string list \<Rightarrow> store_error + string list \<Rightarrow> (nat \<times> api_error + string) option"
where
  "pick_ip ip subnet reserved taken =
    (if ip = [] then
       (case taken of Inl e \<Rightarrow> Some (Inl (error_status e, StoreError e))
        | Inr ips \<Rightarrow> map_option (\<lambda>r. case r of Inl e \<Rightarrow> Inl (409, AllocError e) | Inr a \<Rightarrow> Inr a)
            (allocate subnet ips reserved))
     else Some (case is_in_prefix subnet ip of
         Inr True \<Rightarrow> Inr ip
       | _ \<Rightarrow> Inl (400, Message ''ip not in subnet'')))"

definition createUser ::
  "env \<Rightarrow> config \<Rightarrow> nat list option \<Rightarrow> nat list option \<Rightarrow> (nat list \<Rightarrow> nat list option)
    \<Rightarrow> create_user_req option \<Rightarrow> db \<Rightarrow> wire_user handled option" where
  "createUser ev cfg rand1 rand2 x25519 body d =
    (case body of None \<Rightarrow> Some (reject 400 (Message ''invalid JSON'') d)
     | Some req \<Rightarrow>
        if cur_name req = [] then Some (reject 400 (Message ''name required'') d)
        else map_option (\<lambda>picked. case picked of
          Inl (st, e) \<Rightarrow> reject st e d
        | Inr ip \<Rightarrow>
          (case GenerateKeypair rand1 x25519 of Inl e \<Rightarrow> reject 500 (KeyError e) d
           | Inr kp \<Rightarrow>
            (case GeneratePresharedKey rand2 of Inl e \<Rightarrow> reject 500 (KeyError e) d
             | Inr psk \<Rightarrow> respond 201 toUserDTO (CreateUser ev
                 \<lparr>cu_name = cur_name req, cu_email = cur_email req,
                  cu_public_key = kp_public kp, cu_private_key = kp_private kp,
                  cu_preshared_key = psk, cu_ip = ip, cu_endpoint = cur_endpoint req\<rparr> d))))
        (pick_ip (cur_ip req) (wg_client_subnet (c_wireguard cfg)) [wg_server_ip (c_wireguard cfg)]
          (TakenUserIPs ev d)))"

definition getUser :: "env \<Rightarrow> string \<Rightarrow> db \<Rightarrow> wire_user handled" where
  "getUser ev raw = parseID raw (\<lambda>i d. answer toUserDTO (GetUser ev i d) d)"

definition updateUser :: "env \<Rightarrow> string \<Rightarrow> update_user_req option \<Rightarrow> db \<Rightarrow> wire_user handled" where
  "updateUser ev raw body = parseID raw (\<lambda>i. readJSON body (\<lambda>req d.
     respond 200 toUserDTO (UpdateUser ev i \<lparr>uu_name = uur_name req, uu_email = uur_email req,
       uu_endpoint = uur_endpoint req\<rparr> d)))"

definition deleteUser :: "env \<Rightarrow> string \<Rightarrow> db \<Rightarrow> unit handled" where
  "deleteUser ev raw = parseID raw (\<lambda>i d. respond_empty (DeleteUser ev i d))"

section \<open>Client configurations\<close>

definition joinDNS :: "string list \<Rightarrow> string" where
  "joinDNS dns = join '', '' (filter (\<lambda>s. s \<noteq> []) (map trim_space dns))"

text \<open>The builder \<open>wgConf\<close> is the list of its lines.\<close>

definition wgconf_section :: "string \<Rightarrow> string list \<Rightarrow> string list" where
  "wgconf_section nm ls = (if ls \<noteq> [] then ls @ [[]] else ls) @ [''['' @ nm @ '']'']"

definition wgconf_add :: "string \<Rightarrow> string \<Rightarrow> string list \<Rightarrow> string list" where
  "wgconf_add key val ls = (if val = [] then ls else ls @ [key @ '' = '' @ val])"

definition wgconf_string :: "string list \<Rightarrow> string" where
  "wgconf_string ls = join [CHR 0x0A] ls @ [CHR 0x0A]"

definition conf_lines :: "string user \<Rightarrow> string \<Rightarrow> string \<Rightarrow> string \<Rightarrow> string list \<Rightarrow> string list" where
  "conf_lines u serverPub endpoint fullSubnet dns =
    (let mask = (case cut (CHR ''/'') fullSubnet of None \<Rightarrow> ''23'' | Some (_, m) \<Rightarrow> m) in
     wgconf_add ''PersistentKeepalive'' ''25''
    (wgconf_add ''Endpoint'' endpoint
    (wgconf_add ''AllowedIPs'' fullSubnet
    (wgconf_add ''PresharedKey'' (u_preshared_key u)
    (wgconf_add ''PublicKey'' serverPub
    (wgconf_section ''Peer''
    (wgconf_add ''DNS'' (joinDNS dns)
    (wgconf_add ''Address'' (u_ip u @ ''/'' @ mask)
    (wgconf_add ''PrivateKey'' (u_private_key u)
    (wgconf_section ''Interface'' []))))))))))"

definition renderClientConf ::
  "string user \<Rightarrow> string \<Rightarrow> string \<Rightarrow> string \<Rightarrow> string list \<Rightarrow> string" where
  "renderClientConf u serverPub endpoint fullSubnet dns =
     wgconf_string (conf_lines u serverPub endpoint fullSubnet dns)"

definition getUserConfig :: "env \<Rightarrow> config \<Rightarrow> string \<Rightarrow> db \<Rightarrow> string handled" where
  "getUserConfig ev cfg raw = parseID raw (\<lambda>i d.
    case GetUser ev i d of Inl e \<Rightarrow> (writeError e, d, [])
    | Inr u \<Rightarrow>
      let endpoint = (if u_endpoint u = [] then c_public_endpoint cfg else u_endpoint u) in
      if endpoint = [] then reject 503 (Message ''no public_endpoint configured'') d
      else case GetSetting ev ''server_public_key'' d of
        Inl e \<Rightarrow> if e = ErrNotFound then reject 503 (Message ''server keypair not initialised'') d
                 else (writeError e, d, [])
      | Inr serverPub \<Rightarrow> (Reply 200 (renderClientConf u serverPub endpoint
            (wg_subnet (c_wireguard cfg)) (wg_dns (c_wireguard cfg))), d, []))"

end
