(* ===== verification/ApiServices.thy ===== *)
theory ApiServices
  imports Api StoreContracts
begin

text \<open>\<open>daemon/api/services.go\<close>: the handlers on services and the port list parser.\<close>

section \<open>Port lists\<close>

definition mk_port :: "int \<Rightarrow> string \<Rightarrow> service_port" where
  "mk_port p proto = \<lparr>sp_id = 0, sp_service = 0, sp_port = p, sp_protocol = proto\<rparr>"

text \<open>One item of the list, trimmed and not empty.\<close>

definition parse_port_item :: "string \<Rightarrow> string + service_port list" where
  "parse_port_item raw =
    (case (case cut (CHR ''/'') raw of Some (before, after) \<Rightarrow> (before, to_lower after)
           | None \<Rightarrow> (raw, [])) of (portStr, proto) \<Rightarrow>
      (case parse_int64 portStr of None \<Rightarrow> Inl ''invalid port''
       | Some port \<Rightarrow>
          if port \<le> 0 \<or> port > 65535 then Inl ''invalid port''
          else if proto = ''tcp'' then Inr [mk_port port ''tcp'']
          else if proto = ''udp'' then Inr [mk_port port ''udp'']
          else if proto = [] then Inr [mk_port port ''tcp'', mk_port port ''udp'']
          else Inl ''invalid protocol''))"

fun parse_port_items :: "string list \<Rightarrow> string + service_port list" where
  "parse_port_items [] = Inr []"
| "parse_port_items (r # rs) =
    (let raw = trim_space r in
     if raw = [] then parse_port_items rs
     else bindE (parse_port_item raw) (\<lambda>ps. bindE (parse_port_items rs) (\<lambda>qs. Inr (ps @ qs))))"

definition parsePorts :: "string \<Rightarrow> string + service_port list" where
  "parsePorts s = (let spec = trim_space s in
     if spec = [] then Inr [] else parse_port_items (split_on (CHR '','') spec))"

section \<open>Handlers\<close>

definition toServiceDTO :: "service \<Rightarrow> wire_service" where
  "toServiceDTO s = \<lparr>ws_id = s_id s, ws_name = s_name s, ws_hostname = s_hostname s,
     ws_origin_kind = o_kind (s_origin s), ws_origin_value = o_value (s_origin s),
     ws_origin_network = o_network (s_origin s), ws_ip = s_ip s,
     ws_description = s_description s,
     ws_ports = map (\<lambda>p. \<lparr>wp_port = sp_port p, wp_protocol = sp_protocol p\<rparr>) (s_ports s),
     ws_created = s_created s, ws_updated = s_updated s\<rparr>"

definition listServices :: "env \<Rightarrow> db \<Rightarrow> wire_service list handled" where
  "listServices ev d = answer (map toServiceDTO) (ListServices ev d) d"

definition host_needs_ports :: "spec \<Rightarrow> service_port list \<Rightarrow> bool" where
  "host_needs_ports s ps \<longleftrightarrow> o_kind s = Host \<and> ps = []"

definition createService ::
  "env \<Rightarrow> config \<Rightarrow> create_service_req option \<Rightarrow> db \<Rightarrow> wire_service handled option" where
  "createService ev cfg body d =
    (case body of None \<Rightarrow> Some (reject 400 (Message ''invalid JSON'') d)
     | Some req \<Rightarrow>
        if csr_name req = [] then Some (reject 400 (Message ''name required'') d)
        else case validate \<lparr>o_kind = csr_origin_kind req, o_value = csr_origin_value req,
                 o_network = csr_origin_network req\<rparr> of
          Inl e \<Rightarrow> Some (reject 400 (OriginError e) d)
        | Inr spec \<Rightarrow>
          let hostname = (if csr_hostname req = [] then csr_name req @ ''.'' @ c_domain cfg
                          else csr_hostname req) in
          map_option (\<lambda>picked. case picked of
            Inl (st, e) \<Rightarrow> reject st e d
          | Inr ip \<Rightarrow>
            (case parsePorts (csr_ports req) of Inl m \<Rightarrow> reject 400 (Message m) d
             | Inr ports \<Rightarrow>
                if host_needs_ports spec ports
                then reject 400 (Message ''a host service must declare explicit ports'') d
                else respond 201 toServiceDTO (CreateService ev
                  \<lparr>cs_name = csr_name req, cs_hostname = hostname, cs_origin = spec, cs_ip = ip,
                   cs_description = csr_description req, cs_ports = ports\<rparr> d)))
          (pick_ip (csr_ip req) (wg_service_subnet (c_wireguard cfg)) [] (TakenServiceIPs ev d)))"

definition getService :: "env \<Rightarrow> string \<Rightarrow> db \<Rightarrow> wire_service handled" where
  "getService ev raw = parseID raw (\<lambda>i d. answer toServiceDTO (GetService ev i d) d)"

text \<open>The origin after an update: a change of kind clears value and network first.\<close>

definition effective_origin :: "update_service_req \<Rightarrow> spec \<Rightarrow> spec" where
  "effective_origin req cur =
    (let o1 = (case usr_origin_kind req of None \<Rightarrow> cur
               | Some k \<Rightarrow> if k \<noteq> o_kind cur then \<lparr>o_kind = k, o_value = [], o_network = []\<rparr> else cur);
         o2 = (case usr_origin_value req of None \<Rightarrow> o1 | Some v \<Rightarrow> o1\<lparr>o_value := v\<rparr>)
     in (case usr_origin_network req of None \<Rightarrow> o2 | Some n \<Rightarrow> o2\<lparr>o_network := n\<rparr>))"

definition origin_changed :: "update_service_req \<Rightarrow> bool" where
  "origin_changed req \<longleftrightarrow> usr_origin_kind req \<noteq> None \<or> usr_origin_value req \<noteq> None
     \<or> usr_origin_network req \<noteq> None"

text \<open>What is checked against the stored service, and the origin to store.\<close>

definition check_update ::
  "env \<Rightarrow> int \<Rightarrow> update_service_req \<Rightarrow> service_port list option \<Rightarrow> db
    \<Rightarrow> (nat \<times> api_error) + spec option" where
  "check_update ev i req newPorts d =
    (if origin_changed req \<or> newPorts \<noteq> None then
       (case GetService ev i d of Inl e \<Rightarrow> Inl (error_status e, StoreError e)
        | Inr cur \<Rightarrow>
           (case (if origin_changed req then map_sum id Some (validate (effective_origin req (s_origin cur)))
                  else Inr None) of
              Inl e \<Rightarrow> Inl (400, OriginError e)
            | Inr changed \<Rightarrow>
               let effOrigin = (case changed of None \<Rightarrow> s_origin cur | Some s \<Rightarrow> s);
                   effPorts = (case newPorts of None \<Rightarrow> s_ports cur | Some ps \<Rightarrow> ps) in
               if host_needs_ports effOrigin effPorts
               then Inl (400, Message ''a host service must declare explicit ports'')
               else Inr changed))
     else Inr None)"

definition updateService :: "env \<Rightarrow> string \<Rightarrow> update_service_req option \<Rightarrow> db \<Rightarrow> wire_service handled" where
  "updateService ev raw body = parseID raw (\<lambda>i. readJSON body (\<lambda>req d.
    case (case usr_ports req of None \<Rightarrow> Inr None | Some s \<Rightarrow> map_sum id Some (parsePorts s)) of
      Inl m \<Rightarrow> reject 400 (Message m) d
    | Inr newPorts \<Rightarrow>
      (case check_update ev i req newPorts d of
         Inl (st, e) \<Rightarrow> reject st e d
       | Inr changed \<Rightarrow> respond 200 toServiceDTO (UpdateService ev i
           \<lparr>us_name = usr_name req, us_hostname = usr_hostname req, us_origin = changed,
            us_ip = usr_ip req, us_description = usr_description req,
            us_ports = (case newPorts of None \<Rightarrow> [] | Some ps \<Rightarrow> ps),
            us_replace_ports = (newPorts \<noteq> None)\<rparr> d))))"

definition deleteService :: "env \<Rightarrow> string \<Rightarrow> db \<Rightarrow> unit handled" where
  "deleteService ev raw = parseID raw (\<lambda>i d. respond_empty (DeleteService ev i d))"

text \<open>The port that an origin check dials: the lowest TCP port, or 0.\<close>

definition check_port :: "service_port list \<Rightarrow> int" where
  "check_port ps = foldl (\<lambda>port p. if sp_protocol p = ''tcp'' \<and> (port = 0 \<or> sp_port p < port)
     then sp_port p else port) 0 ps"

text \<open>\<open>resolve\<close> is the origin checker, \<open>None\<close> when the daemon has none; its result is an error
  text or dial host, network and detail.\<close>

definition checkServiceOrigin ::
  "env \<Rightarrow> (spec \<Rightarrow> int \<Rightarrow> string \<Rightarrow> string + string \<times> string \<times> string) option \<Rightarrow> string \<Rightarrow> db
    \<Rightarrow> origin_check handled" where
  "checkServiceOrigin ev resolve raw = parseID raw (\<lambda>i d.
    answer id (bindE (GetService ev i d) (\<lambda>sv. Inr (case resolve of
      None \<Rightarrow> \<lparr>oc_reachable = False, oc_dial_host = [], oc_network = [],
        oc_detail = ''origin checking is unavailable on this daemon'', oc_error = []\<rparr>
    | Some f \<Rightarrow> (case f (s_origin sv) (check_port (s_ports sv)) ''tcp'' of
        Inl e \<Rightarrow> \<lparr>oc_reachable = False, oc_dial_host = [], oc_network = [], oc_detail = [], oc_error = e\<rparr>
      | Inr (host, net, detail) \<Rightarrow> \<lparr>oc_reachable = True, oc_dial_host = host, oc_network = net,
          oc_detail = detail, oc_error = []\<rparr>)))) d)"

section \<open>Lemmas\<close>

lemma parse_port_item_valid:
  "parse_port_item raw = Inr ps \<Longrightarrow> ps \<noteq> [] \<and> (\<forall>p\<in>set ps. port_valid (sp_port p) (sp_protocol p))"
  by (auto simp: parse_port_item_def mk_port_def port_valid_def split: option.splits if_splits prod.splits)

lemma parse_port_items_valid:
  "parse_port_items rs = Inr ps \<Longrightarrow> \<forall>p\<in>set ps. port_valid (sp_port p) (sp_protocol p)"
proof (induction rs arbitrary: ps)
  case (Cons r rs)
  then show ?case
    using parse_port_item_valid [of "trim_space r"]
    by (auto simp: Let_def bindE_Inr_iff split: if_splits)
qed simp

lemma parsePorts_valid:
  "parsePorts s = Inr ps \<Longrightarrow> \<forall>p\<in>set ps. port_valid (sp_port p) (sp_protocol p)"
  by (auto simp: parsePorts_def Let_def dest: parse_port_items_valid split: if_splits)

text \<open>A host service has a port: the invariant that the API keeps.\<close>

definition host_ports :: "db \<Rightarrow> bool" where
  "host_ports d \<longleftrightarrow> (\<forall>s\<in>set (t_services d). o_kind (s_origin s) = Host \<longrightarrow> ports_of d (s_id s) \<noteq> [])"

lemma ports_of_nonempty: "ports_of d i \<noteq> [] \<longleftrightarrow> (\<exists>p\<in>set (t_ports d). sp_service p = i)"
proof -
  have "set (ports_of d i) = {p \<in> set (t_ports d). sp_service p = i}" by (auto simp: ports_of_def)
  then show ?thesis unfolding set_empty [symmetric] by auto
qed

lemma insert_ports_services: "insert_ports ev sid n ps d = Inr (out, d') \<Longrightarrow> t_services d' = t_services d"
proof (induction ps arbitrary: n d out)
  case (Cons p ps)
  from Cons.prems obtain i d1 out' where
    ins: "sql_insert_port sid (sp_port p) (sp_protocol p) d = Some (i, d1)"
    and rest: "insert_ports ev sid (n + 1) ps d1 = Inr (out', d')"
    by (auto simp: result_simps split: if_splits)
  from ins have "t_services d1 = t_services d"
    by (auto simp: sql_insert_port_def split: if_splits option.splits)
  then show ?case using Cons.IH [OF rest] by simp
qed simp

lemma replace_ports_effect:
  assumes "replaceServicePorts ev sid ps d = Inr (out, d')"
  shows "t_services d' = t_services d" "t_ports d' = filter (\<lambda>p. sp_service p \<noteq> sid) (t_ports d) @ out"
    "\<forall>p\<in>set out. sp_service p = sid" "length out = length ps"
proof -
  have i: "insert_ports ev sid 0 ps (sql_clear_ports sid d) = Inr (out, d')"
    using assms by (auto simp: replaceServicePorts_def result_simps)
  show "t_services d' = t_services d" using insert_ports_services [OF i] by (simp add: sql_clear_ports_def)
  note f = insert_ports_Inr [OF i]
  then show "t_ports d' = filter (\<lambda>p. sp_service p \<noteq> sid) (t_ports d) @ out" "\<forall>p\<in>set out. sp_service p = sid"
    by (simp_all add: sql_clear_ports_def)
  show "length out = length ps" using f by (metis length_map)
qed

text \<open>Replacing or dropping the ports of one service leaves those of another.\<close>

lemma port_frame:
  assumes "t_ports d' = filter (\<lambda>p. sp_service p \<noteq> i) (t_ports d) @ out"
    and "\<forall>p\<in>set out. sp_service p = i"
  shows "j \<noteq> i \<Longrightarrow> ports_of d' j \<noteq> [] \<longleftrightarrow> ports_of d j \<noteq> []" and "out \<noteq> [] \<Longrightarrow> ports_of d' i \<noteq> []"
proof -
  show "j \<noteq> i \<Longrightarrow> ports_of d' j \<noteq> [] \<longleftrightarrow> ports_of d j \<noteq> []"
    unfolding ports_of_nonempty assms(1) using assms(2) by auto
  show "out \<noteq> [] \<Longrightarrow> ports_of d' i \<noteq> []"
    unfolding ports_of_nonempty assms(1) using assms(2) by (cases out) auto
qed

lemma host_ports_create:
  assumes wf: "db_wf d" and hp: "host_ports d" and need: "\<not> host_needs_ports (cs_origin inp) (cs_ports inp)"
    and run: "create_service_tx ev inp d = Inr (x, d')"
  shows "host_ports d'"
proof -
  from run obtain i d1 ps where
    ins: "sql_insert_service (cs_name inp) (cs_hostname inp) (cs_origin inp) (cs_ip inp)
        (nullableString (cs_description inp)) (nowTimestamp ev) d = Some (i, d1)"
    and rep: "replaceServicePorts ev i (cs_ports inp) d1 = Inr (ps, d')"
    by (auto simp: create_service_tx_def result_simps)
  from ins obtain r where q: "next_rowid (q_services d) = Some i" and d1: "t_services d1 = t_services d @ [r]"
    "s_id r = i" "s_origin r = cs_origin inp" "t_ports d1 = t_ports d"
    by (auto simp: sql_insert_service_def split: if_splits option.splits)
  note frame = port_frame [OF replace_ports_effect(2,3) [OF rep]]
  have old: "ports_of d' (s_id s) \<noteq> []" if s: "s \<in> set (t_services d)" "o_kind (s_origin s) = Host" for s
  proof -
    have "s_id s \<noteq> i"
      using ids_ok_fresh [OF _ q, of "map s_id (t_services d)"] wf s(1)
      by (auto simp: db_wf_def wf_ids_def)
    moreover have "ports_of d1 (s_id s) = ports_of d (s_id s)" by (simp add: ports_of_def d1)
    ultimately show ?thesis using hp s frame(1) [of "s_id s"] by (simp add: host_ports_def)
  qed
  have new: "ports_of d' i \<noteq> []" if "o_kind (cs_origin inp) = Host"
  proof -
    have "ps \<noteq> []" using need that replace_ports_effect(4) [OF rep] by (auto simp: host_needs_ports_def)
    then show ?thesis by (rule frame(2))
  qed
  show ?thesis
    using old new d1 replace_ports_effect(1) [OF rep] by (auto simp: host_ports_def)
qed

lemma edit_service_origin:
  "edit_service ev i inp d cur0 = Inr cur \<Longrightarrow>
    s_id cur = s_id cur0 \<and> (case us_origin inp of None \<Rightarrow> s_origin cur = s_origin cur0
      | Some org \<Rightarrow> validate org = Inr (s_origin cur))"
  unfolding edit_service_def Let_def
  by (elim bindE_InrE) (auto simp: result_simps split: option.splits if_splits sum.splits)

lemma host_ports_update:
  assumes wf: "db_wf d" and hp: "host_ports d" and run: "update_service_tx ev i inp d = Inr (x, d')"
    and need: "\<And>r org. \<lbrakk>r \<in> set (t_services d); s_id r = i;
        case us_origin inp of None \<Rightarrow> org = s_origin r | Some o1 \<Rightarrow> validate o1 = Inr org;
        us_origin inp \<noteq> None \<or> us_replace_ports inp; o_kind org = Host\<rbrakk> \<Longrightarrow>
      (if us_replace_ports inp then us_ports inp \<noteq> [] else ports_of d i \<noteq> [])"
  shows "host_ports d'"
proof -
  from run obtain cur0 cur d1 where
    c0: "serviceByID ev i d = Inr cur0" and c: "edit_service ev i inp d cur0 = Inr cur"
    and upd: "sql_update_service i (s_name cur) (s_hostname cur) (s_origin cur) (s_ip cur)
        (nullableString (s_description cur)) (s_updated cur) d = Some d1"
    and fin: "if us_replace_ports inp then \<exists>ps. replaceServicePorts ev i (us_ports inp) d1 = Inr (ps, d')
        else d' = d1"
    by (auto simp: update_service_tx_def result_simps split: if_splits)
  from serviceByID_Inr [OF c0] obtain r where r: "r \<in> set (t_services d)" "s_id r = i"
    and r0: "cur0 = (scanService r)\<lparr>s_ports := ports_of d i\<rparr>" by blast
  have org: "case us_origin inp of None \<Rightarrow> s_origin cur = s_origin r | Some o1 \<Rightarrow> validate o1 = Inr (s_origin cur)"
    using edit_service_origin [OF c] by (simp add: r0 split: option.splits)
  from upd have d1: "t_ports d1 = t_ports d"
    "\<And>s. s \<in> set (t_services d1) \<Longrightarrow> (s \<in> set (t_services d) \<and> s_id s \<noteq> i) \<or> (s_id s = i \<and> s_origin s = s_origin cur)"
  proof -
    let ?f = "\<lambda>r. r\<lparr>s_name := s_name cur, s_hostname := s_hostname cur, s_origin := s_origin cur,
        s_ip := s_ip cur, s_description := nullableString (s_description cur), s_updated := s_updated cur\<rparr>"
    have e: "d1 = d\<lparr>t_services := update_rows s_id i ?f (t_services d)\<rparr>"
      using upd by (simp add: sql_update_service_def split: if_splits)
    show "t_ports d1 = t_ports d" by (simp add: e)
    show "(s \<in> set (t_services d) \<and> s_id s \<noteq> i) \<or> (s_id s = i \<and> s_origin s = s_origin cur)"
      if "s \<in> set (t_services d1)" for s
      using that by (auto simp: e set_update_rows)
  qed
  have same: "ports_of d j = ports_of d1 j" for j by (simp add: ports_of_def d1)
  have own: "if us_replace_ports inp then us_ports inp \<noteq> [] else ports_of d i \<noteq> []" if h: "o_kind (s_origin cur) = Host"
  proof (cases "us_origin inp \<noteq> None \<or> us_replace_ports inp")
    case True
    then show ?thesis using need [OF r org True h] by simp
  next
    case False
    then have "s_origin cur = s_origin r" using org by auto
    then show ?thesis using False hp r h by (auto simp: host_ports_def)
  qed
  show ?thesis
  proof (cases "us_replace_ports inp")
    case True
    with fin obtain ps where rep: "replaceServicePorts ev i (us_ports inp) d1 = Inr (ps, d')" by auto
    show ?thesis unfolding host_ports_def
    proof (intro ballI impI)
      fix s assume s: "s \<in> set (t_services d')" and h: "o_kind (s_origin s) = Host"
      then have "s \<in> set (t_services d1)" using replace_ports_effect(1) [OF rep] by simp
      from d1(2) [OF this] show "ports_of d' (s_id s) \<noteq> []"
      proof
        assume "s \<in> set (t_services d) \<and> s_id s \<noteq> i"
        then show ?thesis
          using hp h port_frame(1) [OF replace_ports_effect(2,3) [OF rep], of "s_id s"]
          by (simp add: host_ports_def same)
      next
        assume a: "s_id s = i \<and> s_origin s = s_origin cur"
        then have "ps \<noteq> []" using own h True replace_ports_effect(4) [OF rep] by auto
        then show ?thesis using a port_frame(2) [OF replace_ports_effect(2,3) [OF rep]] by simp
      qed
    qed
  next
    case False
    then have d': "d' = d1" using fin by simp
    show ?thesis unfolding host_ports_def d' same [symmetric]
    proof (intro ballI impI)
      fix s assume s: "s \<in> set (t_services d1)" and h: "o_kind (s_origin s) = Host"
      show "ports_of d (s_id s) \<noteq> []"
        using d1(2) [OF s] hp own False h by (auto simp: host_ports_def)
    qed
  qed
qed

lemma host_ports_delete:
  assumes hp: "host_ports d" and run: "delete_service_tx ev i d = Inr (x, d')"
  shows "host_ports d'"
proof -
  have d': "d' = sql_delete_service i (sql_delete_rules (object_is ''service'' i) d)"
    by (rule delete_body(3) [OF run])
  then have "t_ports d' = filter (\<lambda>p. sp_service p \<noteq> i) (t_ports d) @ []"
    by (simp add: sql_delete_service_def sql_delete_rules_def)
  from port_frame(1) [OF this] show ?thesis
    using hp by (auto simp: host_ports_def d' sql_delete_service_def sql_delete_rules_def)
qed

section \<open>Properties\<close>

lemma withTx_cases:
  "withTx ev k body d = (res, d', ks) \<Longrightarrow> d' = d \<or> (\<exists>x. body d = Inr (x, d'))"
  by (auto simp: withTx_def split: if_splits sum.splits prod.splits)

lemma CreateService_host:
  assumes "db_wf d" "host_ports d" "\<not> host_needs_ports (cs_origin inp) (cs_ports inp)"
    and "spec_ok (cs_origin inp)" "CreateService ev inp d = (res, d', ks)"
  shows "host_ports d'"
  using assms host_ports_create [OF assms(1,2), of inp ev _ d'] validate_fixpoint [OF assms(4)]
  by (auto simp: CreateService_def split: if_splits dest!: withTx_cases)

lemma GetService_row:
  assumes "db_wf d" "GetService ev i d = Inr s" "r \<in> set (t_services d)" "s_id r = i"
  shows "s_origin s = s_origin r" "s_ports s = ports_of d i"
proof -
  have dist: "distinct (map s_id (t_services d))"
    using assms(1) by (auto simp: db_wf_def wf_ids_def dest: ids_ok_distinct)
  have "filter (\<lambda>x. s_id x = i) (t_services d) = [r]"
    using distinct_filter_unique [OF dist assms(3)] assms(4) by simp
  then have "s = (scanService r)\<lparr>s_ports := ports_of d i\<rparr>"
    using assms(2,4) by (auto simp: GetService_def first_or_not_found_def queryServices_def
        loadServicePorts_def result_simps split: list.splits)
  then show "s_origin s = s_origin r" "s_ports s = ports_of d i" by simp_all
qed

lemma map_sum_Some: "map_sum id Some r = Inr x \<longleftrightarrow> (\<exists>y. r = Inr y \<and> x = Some y)"
  by (cases r) auto

lemma validate_twice: "validate s = Inr t \<Longrightarrow> validate t = Inr t"
  by (rule validate_fixpoint [OF validate_ok])

lemma UpdateService_host:
  assumes wf: "db_wf d" and hp: "host_ports d"
    and chk: "check_update ev i req newPorts d = Inr changed"
    and run: "UpdateService ev i \<lparr>us_name = usr_name req, us_hostname = usr_hostname req, us_origin = changed,
            us_ip = usr_ip req, us_description = usr_description req,
            us_ports = (case newPorts of None \<Rightarrow> [] | Some ps \<Rightarrow> ps),
            us_replace_ports = (newPorts \<noteq> None)\<rparr> d = (res, d', ks)"
  shows "host_ports d'"
proof -
  let ?inp = "\<lparr>us_name = usr_name req, us_hostname = usr_hostname req, us_origin = changed,
            us_ip = usr_ip req, us_description = usr_description req,
            us_ports = (case newPorts of None \<Rightarrow> [] | Some ps \<Rightarrow> ps),
            us_replace_ports = (newPorts \<noteq> None)\<rparr>"
  from run [unfolded UpdateService_def] have "d' = d \<or> (\<exists>x. update_service_tx ev i ?inp d = Inr (x, d'))"
    by (rule withTx_cases)
  then show ?thesis
  proof (elim disjE exE)
    fix x assume run: "update_service_tx ev i ?inp d = Inr (x, d')"
    show ?thesis
    proof (rule host_ports_update [OF wf hp run])
      fix r org
      assume r: "r \<in> set (t_services d)" "s_id r = i"
        and org: "case us_origin ?inp of None \<Rightarrow> org = s_origin r | Some o1 \<Rightarrow> validate o1 = Inr org"
        and what: "us_origin ?inp \<noteq> None \<or> us_replace_ports ?inp" and h: "o_kind org = Host"
      have "origin_changed req \<or> newPorts \<noteq> None"
        using what chk by (auto simp: check_update_def split: if_splits)
      then obtain cur where cur: "GetService ev i d = Inr cur"
        and need: "\<not> host_needs_ports (case changed of None \<Rightarrow> s_origin cur | Some s \<Rightarrow> s)
          (case newPorts of None \<Rightarrow> s_ports cur | Some ps \<Rightarrow> ps)"
        and ch: "case changed of None \<Rightarrow> True | Some s \<Rightarrow> validate s = Inr s"
        using chk
        by (auto simp: check_update_def Let_def map_sum_Some dest: validate_twice
            split: sum.splits if_splits option.splits)
      have "org = (case changed of None \<Rightarrow> s_origin cur | Some s \<Rightarrow> s)"
        using org ch GetService_row(1) [OF wf cur r] by (auto split: option.splits)
      then show "if us_replace_ports ?inp then us_ports ?inp \<noteq> [] else ports_of d i \<noteq> []"
        using need h GetService_row(2) [OF wf cur r] by (auto simp: host_needs_ports_def split: option.splits)
    qed
  qed (use hp in simp)
qed

lemma respond_db: "respond st f r = (rep, d', ks) \<Longrightarrow> \<exists>res. r = (res, d', ks)"
  by (auto simp: respond_def split: prod.splits)

lemma respond_empty_db: "respond_empty r = (rep, d', ks) \<Longrightarrow> \<exists>res. r = (res, d', ks)"
  by (auto simp: respond_empty_def split: prod.splits)

lemma createService_host:
  assumes inv: "db_wf d" "host_ports d" and run: "createService ev cfg body d = Some (cr, d', ks)"
  shows "host_ports d'"
proof (cases body)
  case None
  then show ?thesis using run inv(2) by (simp add: createService_def reject_def)
next
  case (Some req)
  note body = Some
  let ?o = "\<lparr>o_kind = csr_origin_kind req, o_value = csr_origin_value req,
                 o_network = csr_origin_network req\<rparr>"
  let ?pick = "pick_ip (csr_ip req) (wg_service_subnet (c_wireguard cfg)) [] (TakenServiceIPs ev d)"
  show ?thesis
  proof (cases "csr_name req = [] \<or> (\<exists>e. validate ?o = Inl e)")
    case True
    then show ?thesis using run inv(2) body
      by (auto simp: createService_def reject_def split: if_splits)
  next
    case False
    then obtain spec where name: "csr_name req \<noteq> []" and spec: "validate ?o = Inr spec"
      by (cases "validate ?o") auto
    let ?inp = "\<lambda>ip ports. \<lparr>cs_name = csr_name req, cs_hostname = (if csr_hostname req = []
          then csr_name req @ ''.'' @ c_domain cfg else csr_hostname req), cs_origin = spec,
        cs_ip = ip, cs_description = csr_description req, cs_ports = ports\<rparr>"
    from run body name spec obtain picked where run': "(case picked of Inl (st, e) \<Rightarrow> reject st e d
        | Inr ip \<Rightarrow> (case parsePorts (csr_ports req) of Inl m \<Rightarrow> reject 400 (Message m) d
             | Inr ports \<Rightarrow>
                if host_needs_ports spec ports
                then reject 400 (Message ''a host service must declare explicit ports'') d
                else respond 201 toServiceDTO (CreateService ev (?inp ip ports) d))) = (cr, d', ks)"
      by (auto simp: createService_def)
    show ?thesis
    proof (cases picked)
      case (Inl se)
      then show ?thesis using run' inv(2) by (cases se) (simp add: reject_def)
    next
      case (Inr ip)
      note ip = Inr
      show ?thesis
      proof (cases "parsePorts (csr_ports req)")
        case (Inl m)
        then show ?thesis using run' ip inv(2) by (simp add: reject_def)
      next
        case (Inr ports)
        then show ?thesis
          using run' ip inv(2) CreateService_host [OF inv, of "?inp ip ports"] validate_ok [OF spec]
          by (auto simp: reject_def dest!: respond_db split: if_splits)
      qed
    qed
  qed
qed

text \<open>
  A service on the host always declares a port. Every request that creates, changes or
  deletes a service keeps, whatever it replies and whichever statement fails, that a service
  whose origin is \<open>host\<close> has at least one port, so that no service opens all loopback ports of
  the daemon's machine. (An empty port list means any port to the access check.)
\<close>

theorem host_services_declare_ports:
  assumes "db_wf d" and "host_ports d"
  shows "(createService ev cfg cbody d = Some (cr, d', ks) \<longrightarrow> host_ports d')
    \<and> (updateService ev raw ubody d = (ur, d', ks) \<longrightarrow> host_ports d')
    \<and> (deleteService ev raw d = (dr, d', ks) \<longrightarrow> host_ports d')"
proof (intro conjI impI)
  assume "createService ev cfg cbody d = Some (cr, d', ks)"
  then show "host_ports d'" by (rule createService_host [OF assms])
next
  assume "updateService ev raw ubody d = (ur, d', ks)"
  then show "host_ports d'"
    using assms UpdateService_host [OF assms]
    by (auto simp: updateService_def parseID_def readJSON_def reject_def dest!: respond_db
        split: option.splits if_splits sum.splits prod.splits)
next
  assume "deleteService ev raw d = (dr, d', ks)"
  then have "d' = d \<or> (\<exists>i res. DeleteService ev i d = (res, d', ks))"
    by (auto simp: deleteService_def parseID_def reject_def dest!: respond_empty_db
        split: option.splits if_splits)
  then show "host_ports d'"
    using assms(2) host_ports_delete [OF assms(2)]
    by (auto simp: DeleteService_def dest!: withTx_cases)
qed

definition host_req :: create_service_req where
  "host_req = \<lparr>csr_name = ''ssh'', csr_origin_kind = Host, csr_origin_value = [],
     csr_origin_network = [], csr_ports = [], csr_hostname = [], csr_ip = ''bad'', csr_description = []\<rparr>"

theorem host_services_declare_ports_witness:
  "\<exists>cr d' ks. createService quiet_env Defaults (Some host_req) empty_db = Some (cr, d', ks) \<and> host_ports d'"
proof -
  have hp: "host_ports empty_db" by (simp add: host_ports_def empty_db_def)
  have "\<exists>st e. validate \<lparr>o_kind = Host, o_value = [], o_network = []\<rparr>
      = Inr \<lparr>o_kind = Host, o_value = [], o_network = []\<rparr>"
    by (simp add: validate_fixpoint spec_ok_def Valid_def)
  then obtain r where "createService quiet_env Defaults (Some host_req) empty_db = Some r"
    by (auto simp: createService_def host_req_def pick_ip_def)
  then obtain cr d' ks where r: "createService quiet_env Defaults (Some host_req) empty_db = Some (cr, d', ks)"
    by (cases r) auto
  then show ?thesis
    using host_services_declare_ports [OF db_wf_empty hp, of quiet_env Defaults "Some host_req" cr d' ks]
    by blast
qed

end
