(* ===== verification/ApiGroups.thy ===== *)
theory ApiGroups
  imports ApiServices FlowTable
begin

text \<open>
  \<open>daemon/api/groups.go\<close>, \<open>policies.go\<close> and \<open>status.go\<close>: the handlers on user groups,
  service groups, policy rules, peers and connections.
\<close>

section \<open>User groups\<close>

definition toUserGroupDTO :: "user_group \<Rightarrow> wire_user_group" where
  "toUserGroupDTO g = \<lparr>wg_id = ug_id g, wg_name = ug_name g, wg_lan_mode = ug_lan_mode g,
     wg_created = ug_created g, wg_updated = ug_updated g\<rparr>"

definition listUserGroups :: "env \<Rightarrow> db \<Rightarrow> wire_user_group list handled" where
  "listUserGroups ev d = answer (map toUserGroupDTO) (ListUserGroups ev d) d"

definition createUserGroup :: "env \<Rightarrow> create_user_group_req option \<Rightarrow> db \<Rightarrow> wire_user_group handled" where
  "createUserGroup ev body = readJSON body (\<lambda>req d.
     respond 201 toUserGroupDTO (CreateUserGroup ev (cugr_name req) (cugr_lan_mode req) d))"

definition updateUserGroup ::
  "env \<Rightarrow> string \<Rightarrow> update_user_group_req option \<Rightarrow> db \<Rightarrow> wire_user_group handled" where
  "updateUserGroup ev raw body = parseID raw (\<lambda>i. readJSON body (\<lambda>req d.
     respond 200 toUserGroupDTO (UpdateUserGroup ev i
       \<lparr>uug_name = uugr_name req, uug_lan_mode = uugr_lan_mode req\<rparr> d)))"

definition getUserGroup :: "env \<Rightarrow> string \<Rightarrow> db \<Rightarrow> wire_user_group handled" where
  "getUserGroup ev raw = parseID raw (\<lambda>i d. answer toUserGroupDTO (GetUserGroup ev i d) d)"

definition deleteUserGroup :: "env \<Rightarrow> string \<Rightarrow> db \<Rightarrow> unit handled" where
  "deleteUserGroup ev raw = parseID raw (\<lambda>i d. respond_empty (DeleteUserGroup ev i d))"

definition listUserGroupMembers :: "env \<Rightarrow> string \<Rightarrow> db \<Rightarrow> wire_user list handled" where
  "listUserGroupMembers ev raw = parseID raw (\<lambda>i d. answer (map toUserDTO) (UserGroupMembers ev i d) d)"

definition addUserGroupMember :: "env \<Rightarrow> string \<Rightarrow> user_group_member_req option \<Rightarrow> db \<Rightarrow> unit handled" where
  "addUserGroupMember ev raw body = parseID raw (\<lambda>i. readJSON body (\<lambda>req d.
     case (if ugm_user_id req = 0 \<and> ugm_user_name req \<noteq> []
           then bindE (GetUserByName ev (ugm_user_name req) d) (\<lambda>u. Inr (u_id u))
           else Inr (ugm_user_id req)) of
       Inl e \<Rightarrow> (writeError e, d, [])
     | Inr uid \<Rightarrow> if uid = 0 then reject 400 (Message ''user_id or user_name required'') d
         else respond_empty (AddUserToGroup ev i uid d)))"

definition removeUserGroupMember :: "env \<Rightarrow> string \<Rightarrow> string \<Rightarrow> db \<Rightarrow> unit handled" where
  "removeUserGroupMember ev raw uidRaw = parseID raw (\<lambda>i d.
     case parse_int64 uidRaw of None \<Rightarrow> reject 400 (Message ''invalid uid'') d
     | Some uid \<Rightarrow> if uid \<le> 0 then reject 400 (Message ''invalid uid'') d
         else respond_empty (RemoveUserFromGroup ev i uid d))"

section \<open>Service groups\<close>

definition toServiceGroupDTO :: "service_group \<Rightarrow> wire_service_group" where
  "toServiceGroupDTO g = \<lparr>wsg_id = sg_id g, wsg_name = sg_name g, wsg_created = sg_created g,
     wsg_updated = sg_updated g\<rparr>"

definition listServiceGroups :: "env \<Rightarrow> db \<Rightarrow> wire_service_group list handled" where
  "listServiceGroups ev d = answer (map toServiceGroupDTO) (ListServiceGroups ev d) d"

definition createServiceGroup :: "env \<Rightarrow> string option \<Rightarrow> db \<Rightarrow> wire_service_group handled" where
  "createServiceGroup ev body = readJSON body (\<lambda>nm d.
     respond 201 toServiceGroupDTO (CreateServiceGroup ev nm d))"

definition getServiceGroup :: "env \<Rightarrow> string \<Rightarrow> db \<Rightarrow> wire_service_group handled" where
  "getServiceGroup ev raw = parseID raw (\<lambda>i d. answer toServiceGroupDTO (GetServiceGroup ev i d) d)"

definition updateServiceGroup ::
  "env \<Rightarrow> string \<Rightarrow> string option option \<Rightarrow> db \<Rightarrow> wire_service_group handled" where
  "updateServiceGroup ev raw body = parseID raw (\<lambda>i. readJSON body (\<lambda>nm d.
     respond 200 toServiceGroupDTO (UpdateServiceGroup ev i nm d)))"

definition deleteServiceGroup :: "env \<Rightarrow> string \<Rightarrow> db \<Rightarrow> unit handled" where
  "deleteServiceGroup ev raw = parseID raw (\<lambda>i d. respond_empty (DeleteServiceGroup ev i d))"

definition listServiceGroupMembers :: "env \<Rightarrow> string \<Rightarrow> db \<Rightarrow> wire_service list handled" where
  "listServiceGroupMembers ev raw = parseID raw (\<lambda>i d.
     answer (map toServiceDTO) (ServiceGroupMembers ev i d) d)"

definition addServiceGroupMember ::
  "env \<Rightarrow> string \<Rightarrow> service_group_member_req option \<Rightarrow> db \<Rightarrow> unit handled" where
  "addServiceGroupMember ev raw body = parseID raw (\<lambda>i. readJSON body (\<lambda>req d.
     case (if sgm_service_id req = 0 \<and> sgm_service_name req \<noteq> []
           then bindE (GetServiceByName ev (sgm_service_name req) d) (\<lambda>s. Inr (s_id s))
           else Inr (sgm_service_id req)) of
       Inl e \<Rightarrow> (writeError e, d, [])
     | Inr sid \<Rightarrow> if sid = 0 then reject 400 (Message ''service_id or service_name required'') d
         else respond_empty (AddServiceToGroup ev i sid d)))"

definition removeServiceGroupMember :: "env \<Rightarrow> string \<Rightarrow> string \<Rightarrow> db \<Rightarrow> unit handled" where
  "removeServiceGroupMember ev raw sidRaw = parseID raw (\<lambda>i d.
     case parse_int64 sidRaw of None \<Rightarrow> reject 400 (Message ''invalid sid'') d
     | Some sid \<Rightarrow> if sid \<le> 0 then reject 400 (Message ''invalid sid'') d
         else respond_empty (RemoveServiceFromGroup ev i sid d))"

section \<open>Policy rules\<close>

text \<open>\<open>nameFor\<close> panics (\<open>None\<close>) on a type it does not know; a failed query gives no name.\<close>

definition name_or_empty :: "store_error + 'a \<Rightarrow> ('a \<Rightarrow> string) \<Rightarrow> string" where
  "name_or_empty r f = (case r of Inl _ \<Rightarrow> [] | Inr x \<Rightarrow> f x)"

definition nameFor :: "env \<Rightarrow> string \<Rightarrow> int \<Rightarrow> db \<Rightarrow> string option" where
  "nameFor ev t i d =
    (if t = ''user'' then Some (name_or_empty (GetUser ev i d) u_name)
     else if t = ''user_group'' then Some (name_or_empty (GetUserGroup ev i d) ug_name)
     else if t = ''service'' then Some (name_or_empty (GetService ev i d) s_name)
     else if t = ''service_group'' then Some (name_or_empty (GetServiceGroup ev i d) sg_name)
     else None)"

definition toPolicyDTO :: "env \<Rightarrow> db \<Rightarrow> policy_rule \<Rightarrow> wire_policy option" where
  "toPolicyDTO ev d p =
    (case (nameFor ev (r_subject_type p) (r_subject_id p) d, nameFor ev (r_object_type p) (r_object_id p) d) of
       (Some sn, Some obn) \<Rightarrow> Some \<lparr>wpo_id = r_id p, wpo_subject_type = r_subject_type p,
         wpo_subject_id = r_subject_id p, wpo_subject_name = sn, wpo_object_type = r_object_type p,
         wpo_object_id = r_object_id p, wpo_object_name = obn, wpo_action = r_action p,
         wpo_created = r_created p, wpo_updated = r_updated p\<rparr>
     | _ \<Rightarrow> None)"

fun all_or_panic :: "'a option list \<Rightarrow> 'a list option" where
  "all_or_panic [] = Some []"
| "all_or_panic (None # xs) = None"
| "all_or_panic (Some x # xs) = map_option (\<lambda>ys. x # ys) (all_or_panic xs)"

definition listPolicies :: "env \<Rightarrow> db \<Rightarrow> wire_policy list handled" where
  "listPolicies ev d = ((case ListPolicies ev d of Inl e \<Rightarrow> writeError e
     | Inr rules \<Rightarrow> (case all_or_panic (map (toPolicyDTO ev d) rules) of
         None \<Rightarrow> ReplyPanic | Some out \<Rightarrow> Reply 200 out)), d, [])"

text \<open>Trying the tables in turn: the first hit, or the first error other than \<open>ErrNotFound\<close>.\<close>

fun first_named :: "(string \<times> (store_error + int)) list \<Rightarrow> store_error + string \<times> int" where
  "first_named [] = Inl ErrNotFound"
| "first_named ((t, r) # rest) = (case r of Inr i \<Rightarrow> Inr (t, i)
     | Inl e \<Rightarrow> if e = ErrNotFound then first_named rest else Inl e)"

definition id_of :: "('a \<Rightarrow> int) \<Rightarrow> store_error + 'a \<Rightarrow> store_error + int" where
  "id_of f r = bindE r (\<lambda>x. Inr (f x))"

definition resolveSubject ::
  "env \<Rightarrow> string \<Rightarrow> int \<Rightarrow> string \<Rightarrow> db \<Rightarrow> store_error + string \<times> int" where
  "resolveSubject ev t i nm d =
    (if i \<noteq> 0 \<and> t \<noteq> [] then Inr (t, i)
     else if nm = [] then Inl ErrInvalidInput
     else first_named [(''user'', id_of u_id (GetUserByName ev nm d)),
       (''user_group'', id_of ug_id (GetUserGroupByName ev nm d))])"

definition resolveObject ::
  "env \<Rightarrow> string \<Rightarrow> int \<Rightarrow> string \<Rightarrow> db \<Rightarrow> store_error + string \<times> int" where
  "resolveObject ev t i nm d =
    (if i \<noteq> 0 \<and> t \<noteq> [] then Inr (t, i)
     else if nm = [] then Inl ErrInvalidInput
     else first_named [(''service'', id_of s_id (GetServiceByName ev nm d)),
       (''service_group'', id_of sg_id (GetServiceGroupByName ev nm d)),
       (''user'', id_of u_id (GetUserByName ev nm d)),
       (''user_group'', id_of ug_id (GetUserGroupByName ev nm d))])"

definition createPolicy :: "env \<Rightarrow> create_policy_req option \<Rightarrow> db \<Rightarrow> wire_policy handled" where
  "createPolicy ev body = readJSON body (\<lambda>req d.
     case bindE (resolveSubject ev (cpr_subject_type req) (cpr_subject_id req) (cpr_subject_name req) d)
        (\<lambda>s. bindE (resolveObject ev (cpr_object_type req) (cpr_object_id req) (cpr_object_name req) d)
          (\<lambda>obj. Inr (s, obj))) of
       Inl e \<Rightarrow> (writeError e, d, [])
     | Inr ((st, si), (ot, oi)) \<Rightarrow>
        (case CreatePolicy ev \<lparr>cp_subject_type = st, cp_subject_id = si, cp_object_type = ot,
               cp_object_id = oi, cp_action = cpr_action req\<rparr> d of
           (Inl e, d', ks) \<Rightarrow> (writeError e, d', ks)
         | (Inr rule, d', ks) \<Rightarrow> ((case toPolicyDTO ev d' rule of None \<Rightarrow> ReplyPanic
             | Some dto \<Rightarrow> Reply 201 dto), d', ks)))"

definition deletePolicy :: "env \<Rightarrow> string \<Rightarrow> db \<Rightarrow> unit handled" where
  "deletePolicy ev raw = parseID raw (\<lambda>i d. respond_empty (DeletePolicy ev i d))"

section \<open>Peers and connections\<close>

record peer_status =
  pst_public_key :: string
  pst_preshared_key :: string
  pst_allowed_ips :: "string list"
  pst_endpoint :: string
  pst_last_handshake :: "int option"
  pst_keepalive :: int
  pst_rx_bytes :: nat
  pst_tx_bytes :: nat

record user_brief =
  ub_id :: int
  ub_name :: string
  ub_ip :: string
  ub_public_key :: string

record service_brief =
  sb_id :: int
  sb_name :: string
  sb_ip :: string

definition toPeerDTO :: "int \<Rightarrow> (string \<times> user_brief) list \<Rightarrow> peer_status \<Rightarrow> wire_peer" where
  "toPeerDTO now byKey p =
    (let u = map_of byKey (pst_public_key p) in
     \<lparr>wpe_name = (case u of None \<Rightarrow> [] | Some b \<Rightarrow> ub_name b),
      wpe_user_id = (case u of None \<Rightarrow> 0 | Some b \<Rightarrow> ub_id b),
      wpe_ip = (case u of None \<Rightarrow> [] | Some b \<Rightarrow> ub_ip b),
      wpe_public_key = pst_public_key p, wpe_preshared_key = pst_preshared_key p,
      wpe_allowed_ips = pst_allowed_ips p, wpe_endpoint = pst_endpoint p,
      wpe_last_handshake = pst_last_handshake p,
      wpe_last_handshake_ago = (case pst_last_handshake p of None \<Rightarrow> 0 | Some t \<Rightarrow> now - t),
      wpe_keepalive = pst_keepalive p, wpe_rx_bytes = pst_rx_bytes p, wpe_tx_bytes = pst_tx_bytes p\<rparr>)"

text \<open>\<open>users\<close> is what the resolver lists, \<open>None\<close> without one.\<close>

definition listPeers ::
  "store_error + peer_status list \<Rightarrow> user_brief list option \<Rightarrow> int \<Rightarrow> db \<Rightarrow> wire_peer list handled" where
  "listPeers statuses users now d =
    (let byKey = foldl (\<lambda>m u. AList.update (ub_public_key u) u m) []
       (case users of None \<Rightarrow> [] | Some us \<Rightarrow> us)
     in answer (map (toPeerDTO now byKey)) statuses d)"

definition toConnectionDTO ::
  "((int \<Rightarrow> user_brief option) \<times> (int \<Rightarrow> service_brief option)) option \<Rightarrow> flow_snapshot \<Rightarrow> wire_connection"
where
  "toConnectionDTO res f =
    (let src = (case res of None \<Rightarrow> None | Some (ub, _) \<Rightarrow> ub (fs_user f));
         obj = (case res of None \<Rightarrow> None | Some (ub, sb) \<Rightarrow>
           if fs_object_type f = ''service'' then map_option (\<lambda>s. (sb_name s, sb_ip s)) (sb (fs_object f))
           else if fs_object_type f = ''user'' then map_option (\<lambda>u. (ub_name u, ub_ip u)) (ub (fs_object f))
           else None) in
     \<lparr>wc_id = unat (fs_id f), wc_src_user_id = fs_user f,
      wc_src_name = (case src of None \<Rightarrow> [] | Some u \<Rightarrow> ub_name u),
      wc_src_ip = (case src of None \<Rightarrow> [] | Some u \<Rightarrow> ub_ip u),
      wc_object_type = fs_object_type f, wc_object_id = fs_object f,
      wc_object_name = (case obj of None \<Rightarrow> [] | Some (n, _) \<Rightarrow> n),
      wc_object_ip = (case obj of None \<Rightarrow> [] | Some (_, a) \<Rightarrow> a),
      wc_port = fs_port f, wc_protocol = fs_protocol f, wc_src_addr = fs_src_addr f,
      wc_backend_addr = fs_backend f\<rparr>)"

definition listConnections ::
  "flow_snapshot list \<Rightarrow> ((int \<Rightarrow> user_brief option) \<times> (int \<Rightarrow> service_brief option)) option
    \<Rightarrow> string \<Rightarrow> db \<Rightarrow> wire_connection list handled" where
  "listConnections flows res backendAddr d =
    (Reply 200 (map (toConnectionDTO res)
       (filter (\<lambda>f. \<not> (backendAddr \<noteq> [] \<and> fs_backend f \<noteq> backendAddr)) flows)), d, [])"

section \<open>Lemmas\<close>

lemma all_or_panic_Some:
  "all_or_panic xs = Some ys \<longleftrightarrow> map Some ys = xs"
proof (induction xs arbitrary: ys)
  case (Cons x xs)
  then show ?case by (cases x) (auto simp: Cons_eq_map_conv)
qed auto

lemma all_or_panic_map:
  "(\<And>x. x \<in> set xs \<Longrightarrow> f x = Some (g x)) \<Longrightarrow> all_or_panic (map f xs) = Some (map g xs)"
  by (induction xs) auto

lemma nameFor_known: "validObject t \<Longrightarrow> nameFor ev t i d \<noteq> None"
  by (auto simp: nameFor_def validObject_def)

lemma valid_subject_object: "validSubject t \<Longrightarrow> validObject t"
  by (auto simp: validSubject_def validObject_def)

lemma toPolicyDTO_known: "rule_ok d r \<Longrightarrow> toPolicyDTO ev d r \<noteq> None"
  using nameFor_known [of "r_subject_type r" ev "r_subject_id r" d]
    nameFor_known [of "r_object_type r" ev "r_object_id r" d]
  by (auto simp: rule_ok_def toPolicyDTO_def valid_subject_object split: option.split)

text \<open>The row that a reference means, by name.\<close>

definition named :: "db \<Rightarrow> string \<Rightarrow> int \<Rightarrow> string \<Rightarrow> bool" where
  "named d t i n \<longleftrightarrow> (t = ''user'' \<and> (\<exists>u\<in>set (t_users d). u_id u = i \<and> u_name u = n))
    \<or> (t = ''user_group'' \<and> (\<exists>g\<in>set (t_user_groups d). ug_id g = i \<and> ug_name g = n))
    \<or> (t = ''service'' \<and> (\<exists>s\<in>set (t_services d). s_id s = i \<and> s_name s = n))
    \<or> (t = ''service_group'' \<and> (\<exists>g\<in>set (t_service_groups d). sg_id g = i \<and> sg_name g = n))"

lemma has_id_row: "has_id f t i \<Longrightarrow> \<exists>r. row_by f i t = Some r \<and> r \<in> set t \<and> f r = i"
proof -
  assume "has_id f t i"
  then obtain r where "row_by f i t = Some r" using row_by_mem [of i f t] by (auto simp: has_id_iff)
  then show ?thesis using row_by_Some [of f i t r] by blast
qed

lemma GetService_named:
  assumes "sql_never_fails ev" "has_id s_id (t_services d) i"
  shows "\<exists>s. GetService ev i d = Inr s \<and> (\<exists>r\<in>set (t_services d). s_id r = i \<and> s_name r = s_name s)"
proof -
  let ?rows = "filter (\<lambda>r. s_id r = i) (t_services d)"
  have q: "queryServices ev (\<lambda>d. filter (\<lambda>r. s_id r = i) (t_services d)) d
      = Inr (map (\<lambda>s. s\<lparr>s_ports := ports_of d (s_id s)\<rparr>) (map scanService ?rows))"
    using assms(1) by (simp add: queryServices_def loadServicePorts_def mapE_ok)
  obtain r rs where rows: "?rows = r # rs"
    using assms(2) by (cases ?rows) (auto simp: has_id_iff filter_empty_conv)
  have "r \<in> set ?rows" unfolding rows by simp
  then have "r \<in> set (t_services d)" "s_id r = i" by simp_all
  then show ?thesis using q rows by (auto simp: GetService_def first_or_not_found_def)
qed

lemma nameFor_named:
  assumes ok: "sql_never_fails ev" and ex: "row_exists d t i"
  shows "\<exists>n. nameFor ev t i d = Some n \<and> named d t i n"
proof -
  from ex consider (u) "t = ''user''" "has_id u_id (t_users d) i"
    | (g) "t = ''user_group''" "has_id ug_id (t_user_groups d) i"
    | (s) "t = ''service''" "has_id s_id (t_services d) i"
    | (h) "t = ''service_group''" "has_id sg_id (t_service_groups d) i"
    by (auto simp: row_exists_def)
  then show ?thesis
  proof cases
    case u
    then show ?thesis using has_id_row [OF u(2)] ok
      by (auto simp: nameFor_def GetUser_def query_user_def name_or_empty_def named_def)
  next
    case g
    then show ?thesis using has_id_row [OF g(2)] ok
      by (auto simp: nameFor_def GetUserGroup_def query_row_def name_or_empty_def named_def)
  next
    case s
    then show ?thesis using GetService_named [OF ok s(2)]
      by (auto simp: nameFor_def name_or_empty_def named_def)
  next
    case h
    then show ?thesis using has_id_row [OF h(2)] ok
      by (auto simp: nameFor_def GetServiceGroup_def query_row_def name_or_empty_def named_def)
  qed
qed

definition dto_of :: "db \<Rightarrow> policy_rule \<Rightarrow> wire_policy \<Rightarrow> bool" where
  "dto_of d r w \<longleftrightarrow> wpo_id w = r_id r \<and> wpo_subject_type w = r_subject_type r
     \<and> wpo_subject_id w = r_subject_id r \<and> wpo_object_type w = r_object_type r
     \<and> wpo_object_id w = r_object_id r \<and> wpo_action w = r_action r
     \<and> named d (r_subject_type r) (r_subject_id r) (wpo_subject_name w)
     \<and> named d (r_object_type r) (r_object_id r) (wpo_object_name w)"

lemma toPolicyDTO_named:
  assumes "sql_never_fails ev" "rule_ok d r"
  shows "\<exists>w. toPolicyDTO ev d r = Some w \<and> dto_of d r w"
proof -
  obtain sn obn where "nameFor ev (r_subject_type r) (r_subject_id r) d = Some sn"
    "named d (r_subject_type r) (r_subject_id r) sn"
    "nameFor ev (r_object_type r) (r_object_id r) d = Some obn"
    "named d (r_object_type r) (r_object_id r) obn"
    using nameFor_named [OF assms(1)] assms(2) unfolding rule_ok_def by metis
  then show ?thesis by (simp add: toPolicyDTO_def dto_of_def)
qed

lemma createPolicy_no_panic:
  assumes wf: "db_wf d"
  shows "fst (createPolicy ev body d) \<noteq> ReplyPanic"
proof (cases body)
  case (Some req)
  let ?res = "bindE (resolveSubject ev (cpr_subject_type req) (cpr_subject_id req) (cpr_subject_name req) d)
        (\<lambda>s. bindE (resolveObject ev (cpr_object_type req) (cpr_object_id req) (cpr_object_name req) d)
          (\<lambda>obj. Inr (s, obj)))"
  show ?thesis
  proof (cases ?res)
    case (Inl e)
    then show ?thesis using Some by (simp add: createPolicy_def readJSON_def writeError_def)
  next
    case (Inr x)
    obtain st si ot oi where x: "x = ((st, si), (ot, oi))" by (cases x) auto
    let ?inp = "\<lparr>cp_subject_type = st, cp_subject_id = si, cp_object_type = ot,
               cp_object_id = oi, cp_action = cpr_action req\<rparr>"
    obtain res d' ks where run: "CreatePolicy ev ?inp d = (res, d', ks)"
      by (cases "CreatePolicy ev ?inp d") auto
    have r: "createPolicy ev body d = (case res of Inl e \<Rightarrow> (writeError e, d', ks)
        | Inr rule \<Rightarrow> ((case toPolicyDTO ev d' rule of None \<Rightarrow> ReplyPanic | Some dto \<Rightarrow> Reply 201 dto), d', ks))"
      using Some Inr x run by (simp add: createPolicy_def readJSON_def split: sum.split)
    show ?thesis
    proof (cases res)
      case (Inl e)
      then show ?thesis using r by (simp add: writeError_def)
    next
      case (Inr rule)
      then have tx: "create_policy_tx ev ?inp d = Inr (rule, d')"
        and v: "validObject st" "validObject ot"
        using run by (auto simp: CreatePolicy_def valid_subject_object dest: withTx_ok split: if_splits)
      have "r_subject_type rule = st" "r_object_type rule = ot"
        using tx by (auto simp: create_policy_tx_def result_simps split: option.splits)
      then have "toPolicyDTO ev d' rule \<noteq> None"
        using nameFor_known [OF v(1), of ev "r_subject_id rule" d']
          nameFor_known [OF v(2), of ev "r_object_id rule" d']
        by (auto simp: toPolicyDTO_def split: option.split)
      then show ?thesis using r Inr by (auto split: option.split)
    qed
  qed
qed (simp add: createPolicy_def readJSON_def reject_def)

lemma listPolicies_no_panic:
  assumes "db_wf d"
  shows "fst (listPolicies ev d) \<noteq> ReplyPanic"
proof -
  have ok: "rule_ok d r" if "r \<in> set (t_rules d)" for r
    using assms that by (simp add: db_wf_def wf_rules_def)
  have "all_or_panic (map (toPolicyDTO ev d) rules) \<noteq> None" if "set rules \<subseteq> set (t_rules d)" for rules
    using all_or_panic_map [of rules "toPolicyDTO ev d" "\<lambda>r. the (toPolicyDTO ev d r)"]
      toPolicyDTO_known ok that by fastforce
  then have "all_or_panic (map (toPolicyDTO ev d) (order_by r_id (t_rules d))) \<noteq> None" by simp
  then show ?thesis
    by (auto simp: listPolicies_def ListPolicies_def writeError_def exec_sql_def split: option.split)
qed

section \<open>Properties\<close>

text \<open>
  The policy handlers never run into the panic of \<open>nameFor\<close>. On a well-formed database
  listing the rules and creating one never panic, whatever statements fail; and with statements
  that work, the list is complete and in order, each entry with the rule's references and the
  names that those rows have.
\<close>

theorem policy_handlers_total:
  assumes "db_wf d"
  shows "fst (listPolicies ev d) \<noteq> ReplyPanic \<and> fst (createPolicy ev body d) \<noteq> ReplyPanic
    \<and> (sql_never_fails ev \<longrightarrow>
        (\<exists>out. listPolicies ev d = (Reply 200 out, d, []) \<and> list_all2 (dto_of d) (t_rules d) out))"
proof (intro conjI impI)
  have ok: "rule_ok d r" if "r \<in> set (t_rules d)" for r
    using assms that by (simp add: db_wf_def wf_rules_def)
  show "fst (listPolicies ev d) \<noteq> ReplyPanic" by (rule listPolicies_no_panic [OF assms])
  show "fst (createPolicy ev body d) \<noteq> ReplyPanic" by (rule createPolicy_no_panic [OF assms])
  assume nf: "sql_never_fails ev"
  define out where "out = map (\<lambda>r. the (toPolicyDTO ev d r)) (t_rules d)"
  have w: "toPolicyDTO ev d r = Some (the (toPolicyDTO ev d r)) \<and> dto_of d r (the (toPolicyDTO ev d r))"
    if "r \<in> set (t_rules d)" for r
    using toPolicyDTO_named [OF nf ok [OF that]] by auto
  have "ListPolicies ev d = Inr (t_rules d)"
    using nf wf_sorted(4) [OF assms] by (simp add: ListPolicies_def)
  moreover have "all_or_panic (map (toPolicyDTO ev d) (t_rules d)) = Some out"
    unfolding out_def using w by (intro all_or_panic_map) blast
  ultimately have "listPolicies ev d = (Reply 200 out, d, [])" by (simp add: listPolicies_def)
  moreover have "list_all2 (dto_of d) (t_rules d) out"
    using w by (auto simp: out_def list_all2_conv_all_nth)
  ultimately show "\<exists>out. listPolicies ev d = (Reply 200 out, d, []) \<and> list_all2 (dto_of d) (t_rules d) out"
    by blast
qed

theorem policy_handlers_total_witness:
  "\<exists>out. listPolicies quiet_env w_db = (Reply 200 out, w_db, []) \<and> map wpo_subject_name out = [''al'']"
  using policy_handlers_total [OF w_db_wf, of quiet_env None]
  by (auto simp: w_db_def w_rule_def w_user_def empty_db_def dto_of_def named_def list_all2_Cons1)

end
