(* ===== verification/Status.thy ===== *)
theory Status
  imports Daemon ApiGroups
begin

text \<open>
  What the API shows of the running daemon: the adapters of \<open>daemon/runtime/daemon.go\<close> between the
  device, the flow table and the index on one side and the handlers of \<open>daemon/api/status.go\<close> on
  the other.
\<close>

section \<open>Model\<close>

definition status_Snapshot :: "int \<Rightarrow> int \<Rightarrow> daemon \<Rightarrow> status_snapshot" where
  "status_Snapshot startedAt now dm = \<lparr>st_running = True, st_peers = PeerCount (dm_server dm),
     st_active_flows = ft_Len (dm_flows dm), st_started_at = startedAt, st_uptime_sec = now - startedAt,
     st_wireguard_udp = ''0.0.0.0:'' @ int_str (wg_port (c_wireguard (dm_config dm))),
     st_socket_path = so_path (c_socket (dm_config dm))\<rparr>"

definition peer_of :: "wg_peer \<Rightarrow> peer_status" where
  "peer_of p = \<lparr>pst_public_key = pr_public p, pst_preshared_key = pr_psk p, pst_allowed_ips = pr_allowed p,
     pst_endpoint = pr_endpoint p, pst_last_handshake = pr_handshake p, pst_keepalive = pr_keepalive p,
     pst_rx_bytes = pr_rx p, pst_tx_bytes = pr_tx p\<rparr>"

definition peersAdapter :: "string option \<Rightarrow> store_error + peer_status list" where
  "peersAdapter dump = (case PeerStatus dump of Inl e \<Rightarrow> Inl (ErrDriver ''wg: ipc get'')
     | Inr raw \<Rightarrow> Inr (map peer_of raw))"

definition flowsAdapter :: "flow_table \<Rightarrow> flow_snapshot list" where
  "flowsAdapter t = ft_Snapshot t"

definition brief :: "user_snapshot \<Rightarrow> user_brief" where
  "brief u = \<lparr>ub_id = us_id u, ub_name = us_uname u, ub_ip = us_addr u, ub_public_key = us_public_key u\<rparr>"

definition resolver_Users :: "index \<Rightarrow> user_brief list" where
  "resolver_Users idx = map (brief \<circ> snd) (UserByID idx)"

definition resolver_UserByID :: "index \<Rightarrow> int \<Rightarrow> user_brief option" where
  "resolver_UserByID idx i = map_option brief (map_of (UserByID idx) i)"

definition resolver_ServiceByID :: "index \<Rightarrow> int \<Rightarrow> service_brief option" where
  "resolver_ServiceByID idx i = map_option (\<lambda>s. \<lparr>sb_id = ss_id s, sb_name = ss_name s, sb_ip = ss_ip s\<rparr>)
     (map_of (ServiceByID idx) i)"

text \<open>\<open>GET /api/connections\<close> and \<open>GET /api/peers\<close> of the daemon.\<close>

definition connections_of :: "daemon \<Rightarrow> string \<Rightarrow> wire_connection list handled" where
  "connections_of dm backendAddr = listConnections (flowsAdapter (dm_flows dm))
     (Some (resolver_UserByID (dm_index dm), resolver_ServiceByID (dm_index dm))) backendAddr (dm_db dm)"

definition peers_of :: "string option \<Rightarrow> int \<Rightarrow> daemon \<Rightarrow> wire_peer list handled" where
  "peers_of dump now dm = listPeers (peersAdapter dump) (Some (resolver_Users (dm_index dm))) now (dm_db dm)"

section \<open>Properties\<close>

lemma UserByID_row:
  assumes "db_wf d" "index_of d idx" "u \<in> set (t_users d)"
  shows "resolver_UserByID idx (u_id u) = Some (brief (user_snap (scanUser u)))"
  using assms row_by_unique [OF wf_keys(2) [OF assms(1)] assms(3)]
  by (simp add: resolver_UserByID_def index_of_def)

lemma ServiceByID_row:
  assumes "db_wf d" "index_of d idx" "s \<in> set (t_services d)"
  shows "resolver_ServiceByID idx (s_id s) = Some \<lparr>sb_id = s_id s, sb_name = s_name s, sb_ip = s_ip s\<rparr>"
  using assms row_by_unique [OF wf_keys(4) [OF assms(1)] assms(3)]
  by (simp add: resolver_ServiceByID_def index_of_def)


definition w_live_flow :: flow where
  "w_live_flow = \<lparr>f_user = 1, f_object_type = ''service'', f_object = 1, f_port = 80,
     f_protocol = ''tcp'', f_src_addr = ''1:5'', f_backend = ''b'', f_close = Some 7\<rparr>"


end
