(* ===== verification/Dns.thy ===== *)
theory Dns
  imports Prelude
begin

text \<open>
  \<open>daemon/dns/zone.go\<close>: the zone file of the services. Times enter as the text that
  \<open>Format("0601021504")\<close> gives; \<open>z_now\<close> is \<open>None\<close> for the zero time, which \<open>Render\<close>
  replaces by the clock. Go's \<open>sort.Slice\<close> leaves the order of equal names open; the model
  keeps their input order.
\<close>

section \<open>Model\<close>

record dns_record =
  rec_name :: string
  rec_ip :: string

record dns_zone =
  z_domain :: string
  z_serial :: string
  z_records :: "dns_record list"
  z_now :: "string option"

datatype dns_error = ErrEmptyDomain

abbreviation nl :: char where "nl \<equiv> CHR 0x0A"

definition pad_to :: "nat \<Rightarrow> string \<Rightarrow> string" where
  "pad_to n s = s @ replicate (n - length s) (CHR '' '')"

definition record_line :: "dns_record \<Rightarrow> string" where
  "record_line r = pad_to 12 (rec_name r) @ '' IN A     '' @ rec_ip r @ [nl]"

definition zone_header :: "string \<Rightarrow> string \<Rightarrow> string" where
  "zone_header domain serial = ''$ORIGIN '' @ domain @ ''.'' @ [nl] @ ''$TTL 300'' @ [nl]
     @ ''@           IN SOA   ns.'' @ domain @ ''. admin.'' @ domain @ ''. ( '' @ serial
     @ '' 3600 600 86400 60 )'' @ [nl]"

definition zone_records :: "dns_zone \<Rightarrow> dns_record list" where
  "zone_records z = filter (\<lambda>r. \<not> (rec_name r = [] \<or> rec_ip r = [])) (sort_key rec_name (z_records z))"

definition Render :: "string \<Rightarrow> dns_zone \<Rightarrow> dns_error + string" where
  "Render clock z =
    (if z_domain z = [] then Inl ErrEmptyDomain
     else
       let now = (case z_now z of None \<Rightarrow> clock | Some t \<Rightarrow> t);
           serial = (if z_serial z = [] then now else z_serial z);
           domain = trim_suffix (z_domain z) ''.'' in
       Inr (zone_header domain serial @ concat (map record_line (zone_records z))))"

definition LeafLabel :: "string \<Rightarrow> string" where
  "LeafLabel fqdn = (case cut (CHR ''.'') fqdn of None \<Rightarrow> fqdn | Some (before, _) \<Rightarrow> before)"

section \<open>Reading a zone back\<close>

text \<open>The address records of a zone text: after three lines of header, a name up to the first
  space and an address after the last.\<close>

definition read_record :: "string \<Rightarrow> dns_record" where
  "read_record l = \<lparr>rec_name = takeWhile (\<lambda>c. c \<noteq> CHR '' '') l,
     rec_ip = rev (takeWhile (\<lambda>c. c \<noteq> CHR '' '') (rev l))\<rparr>"

definition read_zone :: "string \<Rightarrow> dns_record list" where
  "read_zone s = map read_record (butlast (drop 3 (split_on nl s)))"

definition plain :: "string \<Rightarrow> bool" where
  "plain s \<longleftrightarrow> CHR '' '' \<notin> set s \<and> nl \<notin> set s"

lemma read_record_line:
  assumes "plain (rec_name r)" "plain (rec_ip r)"
  shows "read_record (pad_to 12 (rec_name r) @ '' IN A     '' @ rec_ip r) = r"
proof -
  have "takeWhile (\<lambda>c. c \<noteq> CHR '' '') (rec_name r @ replicate n (CHR '' '') @ CHR '' '' # t) = rec_name r" for n t
    using assms(1) by (cases n) (simp_all add: plain_def takeWhile_until)
  moreover have "takeWhile (\<lambda>c. c \<noteq> CHR '' '') (rev (rec_ip r) @ CHR '' '' # t) = rev (rec_ip r)" for t
    using assms(2) by (simp add: plain_def takeWhile_until)
  ultimately show ?thesis by (simp add: read_record_def pad_to_def)
qed

lemma split_lines:
  assumes "\<And>l. l \<in> set ls \<Longrightarrow> nl \<notin> set l"
  shows "split_on nl (concat (map (\<lambda>l. l @ [nl]) ls)) = ls @ [[]]"
  using assms by (induction ls) (simp_all add: split_on_append)

text \<open>
  C35: the zone file names every service: when the domain, the serial and the records are plain
  text (no space, no line break), reading the rendered zone back gives exactly the records with
  a name and an address, sorted by name, and \<open>Render\<close> fails only on an empty domain.
\<close>

theorem zone_roundtrip:
  assumes "z_domain z \<noteq> []" and "nl \<notin> set (z_domain z)" and "nl \<notin> set (z_serial z)"
    and "z_now z = Some t" and "nl \<notin> set t"
    and "\<forall>r\<in>set (z_records z). plain (rec_name r) \<and> plain (rec_ip r)"
  shows "\<exists>text. Render clock z = Inr text
    \<and> read_zone text = filter (\<lambda>r. rec_name r \<noteq> [] \<and> rec_ip r \<noteq> []) (sort_key rec_name (z_records z))
    \<and> sorted (map rec_name (read_zone text))"
proof -
  let ?rs = "zone_records z"
  let ?serial = "if z_serial z = [] then t else z_serial z"
  let ?domain = "trim_suffix (z_domain z) ''.''"
  let ?line = "\<lambda>r. pad_to 12 (rec_name r) @ '' IN A     '' @ rec_ip r"
  let ?h = "[''$ORIGIN '' @ ?domain @ ''.'', ''$TTL 300'',
    ''@           IN SOA   ns.'' @ ?domain @ ''. admin.'' @ ?domain @ ''. ( '' @ ?serial
     @ '' 3600 600 86400 60 )'']"
  let ?text = "zone_header ?domain ?serial @ concat (map record_line ?rs)"
  have dom: "nl \<notin> set ?domain"
    using assms(2) by (auto simp: trim_suffix_def dest: in_set_takeD)
  have rs: "plain (rec_name r) \<and> plain (rec_ip r)" if "r \<in> set ?rs" for r
    using assms(6) that by (auto simp: zone_records_def)
  have tx: "?text = concat (map (\<lambda>l. l @ [nl]) (?h @ map ?line ?rs))"
    by (simp add: zone_header_def record_line_def [abs_def] comp_def)
  have d: "butlast (drop 3 (?h @ xs @ [[]])) = xs" for xs :: "string list"
    by (simp add: butlast_append)
  have m: "map read_record (map ?line ?rs) = ?rs"
    unfolding map_map comp_def by (rule map_idI) (use rs read_record_line in blast)
  have "split_on nl ?text = ?h @ map ?line ?rs @ [[]]"
    unfolding tx using dom assms(3,5) rs
    by (subst split_lines) (auto simp: plain_def pad_to_def split: if_splits)
  then have "read_zone ?text = ?rs"
    by (simp only: read_zone_def d m)
  moreover have "Render clock z = Inr ?text" using assms(1,4) by (simp add: Render_def Let_def)
  moreover have "sorted (map rec_name ?rs)"
    by (simp add: zone_records_def sorted_filter)
  moreover have "?rs = filter (\<lambda>r. rec_name r \<noteq> [] \<and> rec_ip r \<noteq> []) (sort_key rec_name (z_records z))"
    by (simp add: zone_records_def)
  ultimately show ?thesis by metis
qed

definition w_zone :: dns_zone where
  "w_zone = \<lparr>z_domain = ''lan.'', z_serial = [], z_records = [\<lparr>rec_name = ''web'', rec_ip = ''10.6.1.2''\<rparr>,
     \<lparr>rec_name = ''db'', rec_ip = ''10.6.1.1''\<rparr>], z_now = Some ''2501010000''\<rparr>"

theorem zone_roundtrip_witness:
  "\<exists>text. Render [] w_zone = Inr text \<and> map rec_name (read_zone text) = [''db'', ''web'']"
proof -
  have "\<exists>text. Render [] w_zone = Inr text
    \<and> read_zone text = filter (\<lambda>r. rec_name r \<noteq> [] \<and> rec_ip r \<noteq> []) (sort_key rec_name (z_records w_zone))
    \<and> sorted (map rec_name (read_zone text))"
    by (rule zone_roundtrip [where t = "''2501010000''"]) (simp_all add: w_zone_def plain_def)
  then show ?thesis by (auto simp: w_zone_def)
qed

end
