(* ===== verification/ApiConf.thy ===== *)
theory ApiConf
  imports ApiServices Dns
begin

text \<open>
  \<open>daemon/api/dns.go\<close>, and what a WireGuard client reads in the configuration that
  \<open>renderClientConf\<close> writes.
\<close>

section \<open>The zone of the services\<close>

definition getDNSZone :: "env \<Rightarrow> config \<Rightarrow> string option \<Rightarrow> string \<Rightarrow> db \<Rightarrow> string handled" where
  "getDNSZone ev cfg now clock d =
    ((case ListServices ev d of Inl e \<Rightarrow> writeError e
      | Inr services \<Rightarrow>
         (case Render clock \<lparr>z_domain = c_domain cfg, z_serial = [],
             z_records = map (\<lambda>sv. \<lparr>rec_name = LeafLabel (s_hostname sv), rec_ip = s_ip sv\<rparr>) services,
             z_now = now\<rparr> of
            Inl e \<Rightarrow> ReplyError 500 (Message ''dns: empty domain'')
          | Inr body \<Rightarrow> Reply 200 body)), d, [])"

section \<open>Reading a client configuration\<close>

text \<open>Section, key and value of each line, white space around them dropped.\<close>

fun conf_entries :: "string \<Rightarrow> string list \<Rightarrow> (string \<times> string \<times> string) list" where
  "conf_entries sec [] = []"
| "conf_entries sec (l # ls) =
    (if l = [] then conf_entries sec ls
     else if hd l = CHR ''['' then conf_entries (butlast (tl l)) ls
     else case cut (CHR ''='') l of None \<Rightarrow> conf_entries sec ls
       | Some (k, v) \<Rightarrow> (sec, trim_space k, trim_space v) # conf_entries sec ls)"

definition read_conf :: "string \<Rightarrow> (string \<times> string \<times> string) list" where
  "read_conf s = conf_entries [] (split_on (CHR 0x0A) s)"

text \<open>A value that survives: not empty, on one line, without white space at its ends.\<close>

definition clean_value :: "string \<Rightarrow> bool" where
  "clean_value v \<longleftrightarrow> v \<noteq> [] \<and> CHR 0x0A \<notin> set v \<and> trim_space v = v"

lemma trim_space_blank: "trim_space (CHR '' '' # v) = trim_space v"
  by (simp add: trim_space_def trim_left_def is_space_def)

lemma trim_space_key:
  "\<lbrakk>k \<noteq> []; trim_space k = k\<rbrakk> \<Longrightarrow> trim_space (k @ '' '') = k"
proof -
  assume k: "k \<noteq> []" "trim_space k = k"
  then have e: "\<not> is_space (hd k)" "\<not> is_space (last k)" using trim_space_ends [of k] by auto
  have "dropWhile is_space (k @ '' '') = k @ '' ''" using k e by (simp add: dropWhile_hd)
  moreover have "dropWhile is_space (rev k) = rev k" using k e by (simp add: dropWhile_hd hd_rev)
  moreover have "is_space (CHR '' '')" by (simp add: is_space_def)
  ultimately show ?thesis by (simp add: trim_space_def trim_left_def trim_right_def)
qed

definition conf_line :: "string \<Rightarrow> string \<Rightarrow> string" where
  "conf_line key v = key @ '' = '' @ v"

definition conf_head :: "string \<Rightarrow> string" where
  "conf_head nm = ''['' @ nm @ '']''"

definition conf_key :: "string \<Rightarrow> bool" where
  "conf_key k \<longleftrightarrow> CHR ''='' \<notin> set k \<and> k \<noteq> [] \<and> hd k \<noteq> CHR ''['' \<and> trim_space k = k \<and> CHR 0x0A \<notin> set k"

lemma conf_keys [simp]:
  "conf_key ''PrivateKey''" "conf_key ''Address''" "conf_key ''DNS''" "conf_key ''PublicKey''"
  "conf_key ''PresharedKey''" "conf_key ''AllowedIPs''" "conf_key ''Endpoint''"
  "conf_key ''PersistentKeepalive''"
  by (simp_all add: conf_key_def trim_space_ends is_space_def)

lemma conf_entries_line:
  assumes "conf_key key" "clean_value v"
  shows "conf_entries sec (conf_line key v # ls) = (sec, key, v) # conf_entries sec ls"
proof -
  have "cut (CHR ''='') ((key @ '' '') @ CHR ''='' # '' '' @ v) = Some (key @ '' '', '' '' @ v)"
    using assms(1) by (intro cut_append) (simp add: conf_key_def)
  then have "cut (CHR ''='') (key @ '' = '' @ v) = Some (key @ '' '', '' '' @ v)" by simp
  moreover have "hd (key @ '' = '' @ v) \<noteq> CHR ''[''" "key @ '' = '' @ v \<noteq> []"
    using assms(1) by (simp_all add: conf_key_def)
  ultimately show ?thesis using assms trim_space_key [of key]
    by (simp add: trim_space_blank clean_value_def conf_key_def conf_line_def)
qed

lemma conf_entries_head: "conf_entries sec (conf_head nm # ls) = conf_entries nm ls"
  by (simp add: conf_head_def butlast_append)

lemma conf_entries_blank: "conf_entries sec ([] # ls) = conf_entries sec ls"
  by simp

lemma one_line:
  "\<lbrakk>conf_key k; clean_value v\<rbrakk> \<Longrightarrow> CHR 0x0A \<notin> set (conf_line k v)"
  "CHR 0x0A \<notin> set nm \<Longrightarrow> CHR 0x0A \<notin> set (conf_head nm)"
  by (auto simp: conf_line_def conf_head_def conf_key_def clean_value_def)

definition conf_mask :: "string \<Rightarrow> string" where
  "conf_mask subnet = (case cut (CHR ''/'') subnet of None \<Rightarrow> ''23'' | Some (_, m) \<Rightarrow> m)"

lemma wgconf_text:
  assumes "ls \<noteq> []" and "\<And>l. l \<in> set ls \<Longrightarrow> CHR 0x0A \<notin> set l"
  shows "split_on (CHR 0x0A) (wgconf_string ls) = ls @ [[]]"
proof -
  have "join [CHR 0x0A] (ls @ [[]]) = join [CHR 0x0A] ls @ [CHR 0x0A]"
    using assms(1) by (induction "[CHR 0x0A]" ls rule: join.induct) auto
  moreover have "split_on (CHR 0x0A) (join [CHR 0x0A] (ls @ [[]])) = ls @ [[]]"
    using assms(2) by (intro split_on_join) auto
  ultimately show ?thesis by (simp add: wgconf_string_def)
qed

lemma clean_25: "clean_value ''25''"
  by (simp add: clean_value_def trim_space_ends is_space_def)

section \<open>Properties\<close>

text \<open>
  C34: a client configuration says what it should: when the values are clean (a single line, no
  white space at the ends), reading the rendered text back gives exactly the private key and
  address of the user, with the prefix length of the whole network (23 if its text has none), the
  configured DNS servers if there are any, and for the peer the server's public key, the user's
  preshared key, the whole network as allowed addresses, the endpoint and a keepalive of 25.
\<close>

theorem client_conf_roundtrip:
  assumes "clean_value (u_private_key u)" and "clean_value (u_ip u @ ''/'' @ conf_mask subnet)"
    and "clean_value serverPub" and "clean_value (u_preshared_key u)" and "clean_value subnet"
    and "clean_value endpoint" and "joinDNS dns = [] \<or> clean_value (joinDNS dns)"
  shows "read_conf (renderClientConf u serverPub endpoint subnet dns) =
    [(''Interface'', ''PrivateKey'', u_private_key u),
     (''Interface'', ''Address'', u_ip u @ ''/'' @ conf_mask subnet)]
    @ (if joinDNS dns = [] then [] else [(''Interface'', ''DNS'', joinDNS dns)])
    @ [(''Peer'', ''PublicKey'', serverPub), (''Peer'', ''PresharedKey'', u_preshared_key u),
       (''Peer'', ''AllowedIPs'', subnet), (''Peer'', ''Endpoint'', endpoint),
       (''Peer'', ''PersistentKeepalive'', ''25'')]"
proof -
  let ?ls = "conf_lines u serverPub endpoint subnet dns"
  have ne: "u_private_key u \<noteq> []" "serverPub \<noteq> []" "u_preshared_key u \<noteq> []" "subnet \<noteq> []" "endpoint \<noteq> []"
    using assms by (auto simp: clean_value_def)
  have ls: "?ls = [conf_head ''Interface'', conf_line ''PrivateKey'' (u_private_key u),
      conf_line ''Address'' (u_ip u @ ''/'' @ conf_mask subnet)]
    @ (if joinDNS dns = [] then [] else [conf_line ''DNS'' (joinDNS dns)])
    @ [[], conf_head ''Peer'', conf_line ''PublicKey'' serverPub,
       conf_line ''PresharedKey'' (u_preshared_key u), conf_line ''AllowedIPs'' subnet,
       conf_line ''Endpoint'' endpoint, conf_line ''PersistentKeepalive'' ''25'']"
    using ne by (simp add: conf_lines_def wgconf_add_def wgconf_section_def conf_mask_def conf_line_def
      conf_head_def Let_def)
  have "CHR 0x0A \<notin> set l" if "l \<in> set ?ls" for l
    using that assms clean_25 unfolding ls by (auto simp: one_line split: if_splits)
  moreover have "?ls \<noteq> []" by (simp add: ls)
  ultimately have "split_on (CHR 0x0A) (renderClientConf u serverPub endpoint subnet dns) = ?ls @ [[]]"
    unfolding renderClientConf_def by (intro wgconf_text) auto
  then show ?thesis using assms clean_25 unfolding read_conf_def ls
    by (cases "joinDNS dns = []")
      (simp_all add: conf_entries_line conf_entries_head conf_entries_blank del: conf_entries.simps(2))
qed

definition conf_user :: "string user" where
  "conf_user = \<lparr>u_id = 1, u_name = ''ada'', u_email = [], u_public_key = ''UUUU='', u_private_key = ''PPPP='',
     u_preshared_key = ''KKKK='', u_ip = ''10.64.0.2'', u_endpoint = [], u_created = [], u_updated = []\<rparr>"

lemma client_conf_roundtrip_witness:
  "read_conf (renderClientConf conf_user ''SSSS='' ''vpn.example:51820'' ''10.64.0.0/23'' ['' 1.1.1.1 '']) =
    [(''Interface'', ''PrivateKey'', ''PPPP=''), (''Interface'', ''Address'', ''10.64.0.2/23''),
     (''Interface'', ''DNS'', ''1.1.1.1''), (''Peer'', ''PublicKey'', ''SSSS=''),
     (''Peer'', ''PresharedKey'', ''KKKK=''), (''Peer'', ''AllowedIPs'', ''10.64.0.0/23''),
     (''Peer'', ''Endpoint'', ''vpn.example:51820''), (''Peer'', ''PersistentKeepalive'', ''25'')]"
proof -
  have mask: "conf_mask ''10.64.0.0/23'' = ''23''" by (simp add: conf_mask_def cut_def)
  have dns: "joinDNS ['' 1.1.1.1 ''] = ''1.1.1.1''"
    by (simp add: joinDNS_def trim_space_def trim_left_def trim_right_def is_space_def)
  show ?thesis
    using client_conf_roundtrip [of conf_user "''10.64.0.0/23''" "''SSSS=''" "''vpn.example:51820''" "['' 1.1.1.1 '']"]
    by (simp add: mask dns conf_user_def clean_value_def trim_space_ends is_space_def)
qed

end
