(* ===== verification/Router.thy ===== *)
theory Router
  imports Status ApiConf
begin

text \<open>
  \<open>daemon/api/server.go\<close>: the route table and the server as the daemon runs it. A request is
  matched against the table by the router library and its body decoded by the JSON library; both
  are parameters. A change that a handler commits is followed by the daemon's callback.
\<close>

section \<open>Routes\<close>

datatype handler = HandleHealth | HandleStatus
  | HListUsers | HCreateUser | HGetUser | HUpdateUser | HDeleteUser | HGetUserConfig
  | HListUserGroups | HCreateUserGroup | HGetUserGroup | HUpdateUserGroup | HDeleteUserGroup
  | HListUserGroupMembers | HAddUserGroupMember | HRemoveUserGroupMember
  | HListServices | HCreateService | HGetService | HUpdateService | HDeleteService | HCheckServiceOrigin
  | HListServiceGroups | HCreateServiceGroup | HGetServiceGroup | HUpdateServiceGroup
  | HDeleteServiceGroup | HListServiceGroupMembers | HAddServiceGroupMember | HRemoveServiceGroupMember
  | HListPolicies | HCreatePolicy | HDeletePolicy
  | HListPrincipals | HListObjects | HGetDNSZone | HDiscoverContainers | HListPeers | HListConnections

text \<open>A nested \<open>Route\<close> puts its prefix before the patterns inside.\<close>

definition under :: "string \<Rightarrow> (string \<times> string \<times> handler) list \<Rightarrow> (string \<times> string \<times> handler) list" where
  "under prefix rs = map (\<lambda>(m, p, h). (m, prefix @ p, h)) rs"

definition routes :: "(string \<times> string \<times> handler) list" where
  "routes = under ''/api'' (
    [(''GET'', ''/health'', HandleHealth), (''GET'', ''/status'', HandleStatus)]
    @ under ''/users''
     [(''GET'', ''/'', HListUsers), (''POST'', ''/'', HCreateUser), (''GET'', ''/{id}'', HGetUser),
      (''PATCH'', ''/{id}'', HUpdateUser), (''DELETE'', ''/{id}'', HDeleteUser),
      (''GET'', ''/{id}/config'', HGetUserConfig)]
    @ under ''/user-groups''
     [(''GET'', ''/'', HListUserGroups), (''POST'', ''/'', HCreateUserGroup),
      (''GET'', ''/{id}'', HGetUserGroup), (''PATCH'', ''/{id}'', HUpdateUserGroup),
      (''DELETE'', ''/{id}'', HDeleteUserGroup), (''GET'', ''/{id}/members'', HListUserGroupMembers),
      (''POST'', ''/{id}/members'', HAddUserGroupMember),
      (''DELETE'', ''/{id}/members/{uid}'', HRemoveUserGroupMember)]
    @ under ''/services''
     [(''GET'', ''/'', HListServices), (''POST'', ''/'', HCreateService), (''GET'', ''/{id}'', HGetService),
      (''PATCH'', ''/{id}'', HUpdateService), (''DELETE'', ''/{id}'', HDeleteService),
      (''POST'', ''/{id}/check'', HCheckServiceOrigin)]
    @ under ''/service-groups''
     [(''GET'', ''/'', HListServiceGroups), (''POST'', ''/'', HCreateServiceGroup),
      (''GET'', ''/{id}'', HGetServiceGroup), (''PATCH'', ''/{id}'', HUpdateServiceGroup),
      (''DELETE'', ''/{id}'', HDeleteServiceGroup), (''GET'', ''/{id}/members'', HListServiceGroupMembers),
      (''POST'', ''/{id}/members'', HAddServiceGroupMember),
      (''DELETE'', ''/{id}/members/{sid}'', HRemoveServiceGroupMember)]
    @ under ''/policies''
     [(''GET'', ''/'', HListPolicies), (''POST'', ''/'', HCreatePolicy), (''DELETE'', ''/{id}'', HDeletePolicy)]
    @ [(''GET'', ''/principals'', HListPrincipals), (''GET'', ''/objects'', HListObjects),
      (''GET'', ''/dns'', HGetDNSZone), (''GET'', ''/discover/containers'', HDiscoverContainers),
      (''GET'', ''/peers'', HListPeers), (''GET'', ''/connections'', HListConnections)])"

section \<open>Requests\<close>

record codec =
  dec_create_user :: "string \<Rightarrow> create_user_req option"
  dec_update_user :: "string \<Rightarrow> update_user_req option"
  dec_create_user_group :: "string \<Rightarrow> create_user_group_req option"
  dec_update_user_group :: "string \<Rightarrow> update_user_group_req option"
  dec_user_member :: "string \<Rightarrow> user_group_member_req option"
  dec_create_service :: "string \<Rightarrow> create_service_req option"
  dec_update_service :: "string \<Rightarrow> update_service_req option"
  dec_create_service_group :: "string \<Rightarrow> string option"
  dec_update_service_group :: "string \<Rightarrow> string option option"
  dec_service_member :: "string \<Rightarrow> service_group_member_req option"
  dec_create_policy :: "string \<Rightarrow> create_policy_req option"

record request =
  q_method :: string
  q_path :: string
  q_body :: string
  q_backend_addr :: string

text \<open>The router: a handler and the path parameters, or the status of its own refusal.\<close>

type_synonym router = "(string \<times> string \<times> handler) list \<Rightarrow> string \<Rightarrow> string \<Rightarrow> nat + handler \<times> (string \<Rightarrow> string)"

text \<open>What surrounds one request: which statements fail in the handler and in the callback, random
  bytes, clocks, and what device, container runtime and resolver answer.\<close>

record surroundings =
  su_env :: env
  su_callback :: env
  su_rand1 :: "nat list option"
  su_rand2 :: "nat list option"
  su_x25519 :: "nat list \<Rightarrow> nat list option"
  su_start :: int
  su_now :: int
  su_date :: "string option"
  su_clock :: string
  su_dump :: "string option"
  su_docker :: docker_api
  su_resolve :: resolve_env
  su_error_text :: "resolve_error \<Rightarrow> string"

datatype payload = PText string | PStatus status_snapshot | PUser wire_user | PUsers "wire_user list"
  | PUserGroup wire_user_group | PUserGroups "wire_user_group list" | PService wire_service
  | PServices "wire_service list" | PCheck origin_check | PServiceGroup wire_service_group
  | PServiceGroups "wire_service_group list" | PPolicy wire_policy | PPolicies "wire_policy list"
  | PRefs "wire_ref list" | PContainers "container_summary list" | PPeers "wire_peer list"
  | PConnections "wire_connection list" | PNothing unit

definition wrap :: "('b \<Rightarrow> payload) \<Rightarrow> 'b handled \<Rightarrow> payload handled" where
  "wrap f r = (case r of (rep, d, ks) \<Rightarrow> (map_reply f rep, d, ks))"

section \<open>Handling\<close>

definition origin_checker :: "surroundings \<Rightarrow> daemon \<Rightarrow> spec \<Rightarrow> int \<Rightarrow> string \<Rightarrow> string + string \<times> string \<times> string" where
  "origin_checker su dm s port proto = map_sum (su_error_text su) (\<lambda>t. (tg_host t, tg_network t, tg_detail t))
     (fst (Resolve (su_resolve su) (dm_resolver dm) s port proto))"

text \<open>The handlers that create a row may not return (\<open>None\<close>): \<open>Allocate\<close> need not end.\<close>

definition handle_users :: "surroundings \<Rightarrow> codec \<Rightarrow> config \<Rightarrow> (string \<Rightarrow> string) \<Rightarrow> string \<Rightarrow> db
    \<Rightarrow> handler \<Rightarrow> payload handled option" where
  "handle_users su c cfg ps body d h = (let ev = su_env su in case h of
     HListUsers \<Rightarrow> Some (wrap PUsers (listUsers ev d))
   | HCreateUser \<Rightarrow> map_option (wrap PUser) (createUser ev cfg (su_rand1 su) (su_rand2 su) (su_x25519 su)
       (dec_create_user c body) d)
   | HGetUser \<Rightarrow> Some (wrap PUser (getUser ev (ps ''id'') d))
   | HUpdateUser \<Rightarrow> Some (wrap PUser (updateUser ev (ps ''id'') (dec_update_user c body) d))
   | HDeleteUser \<Rightarrow> Some (wrap PNothing (deleteUser ev (ps ''id'') d))
   | HGetUserConfig \<Rightarrow> Some (wrap PText (getUserConfig ev cfg (ps ''id'') d))
   | HListUserGroups \<Rightarrow> Some (wrap PUserGroups (listUserGroups ev d))
   | HCreateUserGroup \<Rightarrow> Some (wrap PUserGroup (createUserGroup ev (dec_create_user_group c body) d))
   | HGetUserGroup \<Rightarrow> Some (wrap PUserGroup (getUserGroup ev (ps ''id'') d))
   | HUpdateUserGroup \<Rightarrow> Some (wrap PUserGroup (updateUserGroup ev (ps ''id'') (dec_update_user_group c body) d))
   | HDeleteUserGroup \<Rightarrow> Some (wrap PNothing (deleteUserGroup ev (ps ''id'') d))
   | HListUserGroupMembers \<Rightarrow> Some (wrap PUsers (listUserGroupMembers ev (ps ''id'') d))
   | HAddUserGroupMember \<Rightarrow> Some (wrap PNothing (addUserGroupMember ev (ps ''id'') (dec_user_member c body) d))
   | HRemoveUserGroupMember \<Rightarrow> Some (wrap PNothing (removeUserGroupMember ev (ps ''id'') (ps ''uid'') d))
   | _ \<Rightarrow> None)"

definition handle_services :: "surroundings \<Rightarrow> codec \<Rightarrow> config \<Rightarrow> (string \<Rightarrow> string) \<Rightarrow> string \<Rightarrow> daemon
    \<Rightarrow> handler \<Rightarrow> payload handled option" where
  "handle_services su c cfg ps body dm h = (let ev = su_env su; d = dm_db dm in case h of
     HListServices \<Rightarrow> Some (wrap PServices (listServices ev d))
   | HCreateService \<Rightarrow> map_option (wrap PService) (createService ev cfg (dec_create_service c body) d)
   | HGetService \<Rightarrow> Some (wrap PService (getService ev (ps ''id'') d))
   | HUpdateService \<Rightarrow> Some (wrap PService (updateService ev (ps ''id'') (dec_update_service c body) d))
   | HDeleteService \<Rightarrow> Some (wrap PNothing (deleteService ev (ps ''id'') d))
   | HCheckServiceOrigin \<Rightarrow> Some (wrap PCheck (checkServiceOrigin ev (Some (origin_checker su dm)) (ps ''id'') d))
   | HListServiceGroups \<Rightarrow> Some (wrap PServiceGroups (listServiceGroups ev d))
   | HCreateServiceGroup \<Rightarrow> Some (wrap PServiceGroup (createServiceGroup ev (dec_create_service_group c body) d))
   | HGetServiceGroup \<Rightarrow> Some (wrap PServiceGroup (getServiceGroup ev (ps ''id'') d))
   | HUpdateServiceGroup \<Rightarrow> Some (wrap PServiceGroup
       (updateServiceGroup ev (ps ''id'') (dec_update_service_group c body) d))
   | HDeleteServiceGroup \<Rightarrow> Some (wrap PNothing (deleteServiceGroup ev (ps ''id'') d))
   | HListServiceGroupMembers \<Rightarrow> Some (wrap PServices (listServiceGroupMembers ev (ps ''id'') d))
   | HAddServiceGroupMember \<Rightarrow> Some (wrap PNothing (addServiceGroupMember ev (ps ''id'') (dec_service_member c body) d))
   | HRemoveServiceGroupMember \<Rightarrow> Some (wrap PNothing (removeServiceGroupMember ev (ps ''id'') (ps ''sid'') d))
   | _ \<Rightarrow> None)"

definition handle_rest :: "surroundings \<Rightarrow> codec \<Rightarrow> config \<Rightarrow> (string \<Rightarrow> string) \<Rightarrow> string \<Rightarrow> string \<Rightarrow> daemon
    \<Rightarrow> handler \<Rightarrow> payload handled option" where
  "handle_rest su c cfg ps body backendAddr dm h = (let ev = su_env su; d = dm_db dm in case h of
     HandleHealth \<Rightarrow> Some (wrap PText (handleHealth d))
   | HandleStatus \<Rightarrow> Some (wrap PStatus (handleStatus (status_Snapshot (su_start su) (su_now su) dm) d))
   | HListPolicies \<Rightarrow> Some (wrap PPolicies (listPolicies ev d))
   | HCreatePolicy \<Rightarrow> Some (wrap PPolicy (createPolicy ev (dec_create_policy c body) d))
   | HDeletePolicy \<Rightarrow> Some (wrap PNothing (deletePolicy ev (ps ''id'') d))
   | HListPrincipals \<Rightarrow> Some (wrap PRefs (listPrincipals ev d))
   | HListObjects \<Rightarrow> Some (wrap PRefs (listObjects ev d))
   | HGetDNSZone \<Rightarrow> Some (wrap PText (getDNSZone ev cfg (su_date su) (su_clock su) d))
   | HDiscoverContainers \<Rightarrow> Some (wrap PContainers (fst (discoverContainers (su_docker su) (dm_docker dm) d)))
   | HListPeers \<Rightarrow> Some (wrap PPeers (peers_of (su_dump su) (su_now su) dm))
   | HListConnections \<Rightarrow> Some (wrap PConnections (connections_of dm backendAddr))
   | _ \<Rightarrow> None)"

fun users_part :: "handler \<Rightarrow> bool" where
  "users_part h \<longleftrightarrow> h \<in> set [HListUsers, HCreateUser, HGetUser, HUpdateUser, HDeleteUser, HGetUserConfig,
     HListUserGroups, HCreateUserGroup, HGetUserGroup, HUpdateUserGroup, HDeleteUserGroup,
     HListUserGroupMembers, HAddUserGroupMember, HRemoveUserGroupMember]"

fun services_part :: "handler \<Rightarrow> bool" where
  "services_part h \<longleftrightarrow> h \<in> set [HListServices, HCreateService, HGetService, HUpdateService, HDeleteService,
     HCheckServiceOrigin, HListServiceGroups, HCreateServiceGroup, HGetServiceGroup, HUpdateServiceGroup,
     HDeleteServiceGroup, HListServiceGroupMembers, HAddServiceGroupMember, HRemoveServiceGroupMember]"

definition handle :: "surroundings \<Rightarrow> codec \<Rightarrow> (string \<Rightarrow> string) \<Rightarrow> request \<Rightarrow> daemon \<Rightarrow> handler
    \<Rightarrow> payload handled option" where
  "handle su c ps q dm h =
    (if users_part h then handle_users su c (dm_config dm) ps (q_body q) (dm_db dm) h
     else if services_part h then handle_services su c (dm_config dm) ps (q_body q) dm h
     else handle_rest su c (dm_config dm) ps (q_body q) (q_backend_addr q) dm h)"

text \<open>What a handler leaves in the daemon's caches: the container client's and the resolver's.\<close>

definition touch_caches :: "surroundings \<Rightarrow> (string \<Rightarrow> string) \<Rightarrow> handler \<Rightarrow> daemon \<Rightarrow> daemon" where
  "touch_caches su ps h dm =
    (if h = HDiscoverContainers
     then dm\<lparr>dm_docker := snd (discoverContainers (su_docker su) (dm_docker dm) (dm_db dm))\<rparr>
     else if h = HCheckServiceOrigin then
       (case parse_int64 (ps ''id'') of None \<Rightarrow> dm
        | Some i \<Rightarrow> if i \<le> 0 then dm else (case GetService (su_env su) i (dm_db dm) of Inl e \<Rightarrow> dm
           | Inr sv \<Rightarrow> dm\<lparr>dm_resolver := snd (Resolve (su_resolve su) (dm_resolver dm)
                (s_origin sv) (check_port (s_ports sv)) ''tcp'')\<rparr>))
     else dm)"

definition serve_http :: "os \<Rightarrow> router \<Rightarrow> codec \<Rightarrow> surroundings \<Rightarrow> request \<Rightarrow> daemon
    \<Rightarrow> (payload reply \<times> daemon) option" where
  "serve_http w rt c su q dm = (case rt routes (q_method q) (q_path q) of
     Inl st \<Rightarrow> Some (ReplyEmpty st, dm)
   | Inr (h, ps) \<Rightarrow> map_option (\<lambda>(rep, d', ks).
       (rep, foldl (\<lambda>dm k. on_change w (su_callback su) dm) ((touch_caches su ps h dm)\<lparr>dm_db := d'\<rparr>) ks))
       (handle su c ps q dm h))"

end
