(* ===== verification/Requests.thy ===== *)
theory Requests
  imports Router
begin

text \<open>
  What every request to the API keeps: the database stays well-formed, a service on the host keeps a
  declared port, preshared keys decode, and the daemon serves the new state once its callback ran.
\<close>

section \<open>What the operations leave alone\<close>

definition psk_ok :: "string \<Rightarrow> bool" where
  "psk_ok k \<longleftrightarrow> k = [] \<or> is_ok (base64ToHex k)"

lemma keys_ok_iff: "keys_ok d \<longleftrightarrow> (\<forall>k\<in>u_preshared_key ` set (t_users d). psk_ok k)"
  by (simp add: keys_ok_def psk_ok_def)

definition psks :: "db \<Rightarrow> string set" where
  "psks d = u_preshared_key ` set (t_users d)"

text \<open>Nothing of the services and their ports changes, and no preshared key comes up but those of \<open>K\<close>.\<close>

definition same :: "string set \<Rightarrow> db \<Rightarrow> db \<Rightarrow> bool" where
  "same K d d' \<longleftrightarrow> t_services d' = t_services d \<and> t_ports d' = t_ports d \<and> psks d' \<subseteq> psks d \<union> K"

lemma same_refl [intro!, simp]: "same K d d"
  by (simp add: same_def)

lemma same_host: "same K d d' \<Longrightarrow> host_ports d \<Longrightarrow> host_ports d'"
  by (simp add: same_def host_ports_def ports_of_def)

lemma same_keys: "\<lbrakk>same K d d'; keys_ok d; \<forall>k\<in>K. psk_ok k\<rbrakk> \<Longrightarrow> keys_ok d'"
  by (auto simp: same_def keys_ok_iff psks_def)

lemma same_sql [intro]:
  "sql_insert_user nm em pub priv psk ip ep now d = Some (i, d') \<Longrightarrow> psk \<in> K \<Longrightarrow> same K d d'"
  "sql_update_user i nm em ep now d = Some d' \<Longrightarrow> same K d d'"
  "sql_insert_user_group nm lan now d = Some (i, d') \<Longrightarrow> same K d d'"
  "sql_update_user_group i nm lan now d = Some d' \<Longrightarrow> same K d d'"
  "sql_add_ug_member i j d = Some d' \<Longrightarrow> same K d d'"
  "sql_insert_service_group nm now d = Some (i, d') \<Longrightarrow> same K d d'"
  "sql_update_service_group i nm now d = Some d' \<Longrightarrow> same K d d'"
  "sql_add_sg_member i j d = Some d' \<Longrightarrow> same K d d'"
  "sql_insert_rule st si ot oi act now d = Some (i, d') \<Longrightarrow> same K d d'"
  "sql_update_rule i act now d = Some d' \<Longrightarrow> same K d d'"
  "same K d (sql_delete_user i (sql_delete_rules p d))" "same K d (sql_delete_user_group i (sql_delete_rules p d))"
  "same K d (sql_delete_service_group i (sql_delete_rules p d))" "same K d (sql_delete_rules p d)"
  "same K d (sql_remove_ug_member i j d)" "same K d (sql_remove_sg_member i j d)" "same K d (sql_upsert_setting k v d)"
  by (auto simp: same_def psks_def set_update_rows sql_insert_user_def sql_update_user_def sql_delete_user_def
      sql_insert_user_group_def sql_update_user_group_def sql_delete_user_group_def sql_add_ug_member_def
      sql_remove_ug_member_def sql_insert_service_group_def sql_update_service_group_def
      sql_delete_service_group_def sql_add_sg_member_def sql_remove_sg_member_def sql_insert_rule_def
      sql_update_rule_def sql_delete_rules_def sql_upsert_setting_def split: if_splits option.splits)

text \<open>Transactions that do so.\<close>

definition keeps_same :: "string set \<Rightarrow> db \<Rightarrow> store_error + 'a \<times> db \<Rightarrow> bool" where
  "keeps_same K d r \<longleftrightarrow> (\<forall>x d'. r = Inr (x, d') \<longrightarrow> same K d d')"

lemma keeps_same_bind: "(\<And>y. r = Inr y \<Longrightarrow> keeps_same K d (f y)) \<Longrightarrow> keeps_same K d (bindE r f)"
  by (cases r) (auto simp: keeps_same_def)

lemma keeps_same_simps [simp]: "keeps_same K d (Inl e)" "keeps_same K d (Inr (x, d')) \<longleftrightarrow> same K d d'"
  by (simp_all add: keeps_same_def)

lemma frames:
  "keeps_same {cu_preshared_key cu} d (create_user_tx ev cu d)" "keeps_same K d (delete_user_tx ev i d)"
  "keeps_same K d (update_user_tx ev i uu d)" "keeps_same K d (set_setting_tx ev k v d)"
  "keeps_same K d (create_user_group_tx ev nm lan d)" "keeps_same K d (update_user_group_tx ev i uug d)"
  "keeps_same K d (delete_user_group_tx ev i d)" "keeps_same K d (add_user_to_group_tx ev g u d)"
  "keeps_same K d (remove_user_from_group_tx ev g u d)" "keeps_same K d (create_service_group_tx ev nm d)"
  "keeps_same K d (update_service_group_tx ev i nmo d)" "keeps_same K d (delete_service_group_tx ev i d)"
  "keeps_same K d (add_service_to_group_tx ev g u d)" "keeps_same K d (remove_service_from_group_tx ev g u d)"
  "keeps_same K d (create_policy_tx ev cp d)" "keeps_same K d (delete_policy_tx ev i d)"
  unfolding create_user_tx_def update_user_tx_def delete_user_tx_def set_setting_tx_def
    create_user_group_tx_def update_user_group_tx_def delete_user_group_tx_def add_user_to_group_tx_def
    remove_user_from_group_tx_def create_service_group_tx_def update_service_group_tx_def
    delete_service_group_tx_def add_service_to_group_tx_def remove_service_from_group_tx_def
    create_policy_tx_def delete_policy_tx_def Let_def
  by (intro keeps_same_bind; force simp: result_simps split: option.splits intro!: keeps_same_bind)+

lemma withTx_same: "\<lbrakk>keeps_same K d (body d); withTx ev k body d = (r, d', ks)\<rbrakk> \<Longrightarrow> same K d d'"
  by (auto simp: keeps_same_def dest!: withTx_cases)

lemma ops_same:
  "CreateUser ev cu d = (ru, d', ks) \<Longrightarrow> same {cu_preshared_key cu} d d'"
  "UpdateUser ev i uu d = (ru, d', ks) \<Longrightarrow> same {} d d'"
  "DeleteUser ev i d = (r, d', ks) \<Longrightarrow> same {} d d'"
  "CreateUserGroup ev nm lan d = (rg, d', ks) \<Longrightarrow> same {} d d'"
  "UpdateUserGroup ev i uug d = (rg, d', ks) \<Longrightarrow> same {} d d'"
  "DeleteUserGroup ev i d = (r, d', ks) \<Longrightarrow> same {} d d'"
  "AddUserToGroup ev i j d = (r, d', ks) \<Longrightarrow> same {} d d'"
  "RemoveUserFromGroup ev i j d = (r, d', ks) \<Longrightarrow> same {} d d'"
  "CreateServiceGroup ev nm d = (rh, d', ks) \<Longrightarrow> same {} d d'"
  "UpdateServiceGroup ev i nmo d = (rh, d', ks) \<Longrightarrow> same {} d d'"
  "DeleteServiceGroup ev i d = (r, d', ks) \<Longrightarrow> same {} d d'"
  "AddServiceToGroup ev i j d = (r, d', ks) \<Longrightarrow> same {} d d'"
  "RemoveServiceFromGroup ev i j d = (r, d', ks) \<Longrightarrow> same {} d d'"
  "CreatePolicy ev cp d = (rp, d', ks) \<Longrightarrow> same {} d d'"
  "DeletePolicy ev i d = (r, d', ks) \<Longrightarrow> same {} d d'"
  unfolding op_defs by (auto intro: frames withTx_same split: if_splits)

text \<open>Services: their operations leave the users alone.\<close>

lemma insert_ports_users: "insert_ports ev sid n ps d = Inr (out, d') \<Longrightarrow> t_users d' = t_users d"
proof (induction ps arbitrary: n d out)
  case (Cons p ps)
  from Cons.prems obtain i d1 out' where
    ins: "sql_insert_port sid (sp_port p) (sp_protocol p) d = Some (i, d1)"
    and rest: "insert_ports ev sid (n + 1) ps d1 = Inr (out', d')"
    by (auto simp: result_simps split: if_splits)
  from ins have "t_users d1 = t_users d" by (auto simp: sql_insert_port_def split: if_splits option.splits)
  then show ?case using Cons.IH [OF rest] by simp
qed simp

lemma replace_ports_users: "replaceServicePorts ev sid ps d = Inr (out, d') \<Longrightarrow> t_users d' = t_users d"
  by (auto simp: replaceServicePorts_def result_simps sql_clear_ports_def dest!: insert_ports_users)

lemma service_ops_users:
  "CreateService ev cs d = (rs, d', ks) \<Longrightarrow> t_users d' = t_users d"
  "UpdateService ev i us d = (rs, d', ks) \<Longrightarrow> t_users d' = t_users d"
  "DeleteService ev i d = (r, d', ks) \<Longrightarrow> t_users d' = t_users d"
proof -
  show "CreateService ev cs d = (rs, d', ks) \<Longrightarrow> t_users d' = t_users d"
    by (auto simp: CreateService_def create_service_tx_def result_simps sql_insert_service_def
        split: if_splits option.splits sum.splits dest!: withTx_cases replace_ports_users)
  have "sql_update_service i nm ho org ip de now d = Some d1 \<Longrightarrow> t_users d1 = t_users d" for nm ho org ip de now d1
    by (auto simp: sql_update_service_def split: if_splits)
  then show "UpdateService ev i us d = (rs, d', ks) \<Longrightarrow> t_users d' = t_users d"
    by (force simp: UpdateService_def update_service_tx_def result_simps
        split: if_splits dest!: withTx_cases replace_ports_users)
  show "DeleteService ev i d = (r, d', ks) \<Longrightarrow> t_users d' = t_users d"
    by (auto simp: DeleteService_def delete_service_tx_def result_simps sql_delete_service_def
        sql_delete_rules_def dest!: withTx_cases)
qed

lemma same_users: "t_users d' = t_users d \<Longrightarrow> keys_ok d' = keys_ok d"
  by (simp add: keys_ok_def)

section \<open>Handlers\<close>

definition api_inv :: "db \<Rightarrow> bool" where
  "api_inv d \<longleftrightarrow> db_wf d \<and> host_ports d \<and> keys_ok d"

fun succeeded :: "'b reply \<Rightarrow> bool" where
  "succeeded (Reply st x) \<longleftrightarrow> st div 100 = 2"
| "succeeded (ReplyEmpty st) \<longleftrightarrow> st div 100 = 2"
| "succeeded _ \<longleftrightarrow> False"

text \<open>A handler either leaves the database alone and notifies nobody, or it commits one store
  operation, notifies that, and replies with success.\<close>

definition fine :: "db \<Rightarrow> 'b handled \<Rightarrow> bool" where
  "fine d r \<longleftrightarrow> (case r of (rep, d', ks) \<Rightarrow> d' = d \<and> ks = []
     \<or> succeeded rep \<and> api_inv d' \<and> (\<exists>ev oper. run_op ev oper d = (None, d', ks)))"

lemma succeeded_map [simp]: "succeeded (map_reply f rep) = succeeded rep"
  by (cases rep) simp_all

lemma fine_wrap [simp]: "fine d (wrap f r) = fine d r"
  by (cases r) (simp add: fine_def wrap_def)

lemma fine_same [simp]: "fine d (rep, d, [])"
  by (simp add: fine_def)

lemma fine_basic [simp]: "fine d (reject st e d)" "fine d (answer f q d)"
  by (simp_all add: fine_def reject_def answer_def)

lemma fine_parse: "(\<And>i. fine d (h i d)) \<Longrightarrow> fine d (parseID raw h d)"
  by (simp add: parseID_def split: option.split)

lemma fine_json: "(\<And>req. fine d (h req d)) \<Longrightarrow> fine d (readJSON body h d)"
  by (simp add: readJSON_def split: option.split)

lemma fine_commit:
  assumes "api_inv d" "run_op ev oper d = outcome (res, d', ks)" "host_ports d'" "keys_ok d'"
    and "case res of Inl e \<Rightarrow> True | Inr x \<Rightarrow> succeeded rep"
  shows "fine d (rep, d', ks)"
proof -
  obtain eo where r: "run_op ev oper d = (eo, d', ks)" and eo: "eo = (case res of Inl e \<Rightarrow> Some e | Inr _ \<Rightarrow> None)"
    using assms(2) by (simp add: outcome_def)
  have "db_wf d'" using run_op_keeps [OF _ r] assms(1) by (simp add: api_inv_def)
  then show ?thesis
    using assms run_op_notifies [OF r] r eo by (cases res) (auto simp: fine_def api_inv_def)
qed

lemma fine_respond:
  assumes "api_inv d" "run_op ev oper d = outcome r" "st div 100 = 2"
    and "\<And>res d' ks. r = (res, d', ks) \<Longrightarrow> host_ports d' \<and> keys_ok d'"
  shows "fine d (respond st f r)"
proof -
  obtain res d' ks where r: "r = (res, d', ks)" by (cases r)
  note c = fine_commit [OF assms(1), of ev oper res d' ks]
  have "host_ports d'" "keys_ok d'" using assms(4) [OF r] by simp_all
  then show ?thesis
    using c [of "Reply st (f (projr res))"] c [of "writeError (projl res)"] assms(2,3)
    by (cases res) (simp_all add: r respond_def)
qed

lemma fine_respond_empty:
  assumes "api_inv d" "run_op ev oper d = outcome r"
    and "\<And>res d' ks. r = (res, d', ks) \<Longrightarrow> host_ports d' \<and> keys_ok d'"
  shows "fine d (respond_empty r)"
proof -
  obtain res d' ks where r: "r = (res, d', ks)" by (cases r)
  note c = fine_commit [OF assms(1), of ev oper res d' ks]
  have "host_ports d'" "keys_ok d'" using assms(3) [OF r] by simp_all
  then show ?thesis
    using c [of "ReplyEmpty 204"] c [of "writeError (projl res)"] assms(2)
    by (cases res) (simp_all add: r respond_empty_def)
qed

lemma same_inv: "\<lbrakk>same {} d d'; api_inv d\<rbrakk> \<Longrightarrow> host_ports d' \<and> keys_ok d'"
  using same_host same_keys by (auto simp: api_inv_def)

lemma fine_ops:
  assumes "api_inv d" "st div 100 = 2"
  shows "fine d (respond st fu (UpdateUser ev i uu d))"
    "fine d (respond st fg (CreateUserGroup ev nm lan d))"
    "fine d (respond st fg (UpdateUserGroup ev i uug d))"
    "fine d (respond st fh (CreateServiceGroup ev nm d))"
    "fine d (respond st fh (UpdateServiceGroup ev i nmo d))"
  by (rule fine_respond [OF assms(1) run_op.simps(2) assms(2) same_inv [OF ops_same(2) assms(1)]]
      fine_respond [OF assms(1) run_op.simps(7) assms(2) same_inv [OF ops_same(4) assms(1)]]
      fine_respond [OF assms(1) run_op.simps(8) assms(2) same_inv [OF ops_same(5) assms(1)]]
      fine_respond [OF assms(1) run_op.simps(12) assms(2) same_inv [OF ops_same(9) assms(1)]]
      fine_respond [OF assms(1) run_op.simps(13) assms(2) same_inv [OF ops_same(10) assms(1)]], assumption)+

lemma fine_ops_empty:
  assumes "api_inv d"
  shows "fine d (respond_empty (DeleteUser ev i d))"
    "fine d (respond_empty (DeleteUserGroup ev i d))"
    "fine d (respond_empty (AddUserToGroup ev i j d))"
    "fine d (respond_empty (RemoveUserFromGroup ev i j d))"
    "fine d (respond_empty (DeleteServiceGroup ev i d))"
    "fine d (respond_empty (AddServiceToGroup ev i j d))"
    "fine d (respond_empty (RemoveServiceFromGroup ev i j d))"
    "fine d (respond_empty (DeletePolicy ev i d))"
  by (rule fine_respond_empty [OF assms run_op.simps(3) same_inv [OF ops_same(3) assms]]
      fine_respond_empty [OF assms run_op.simps(9) same_inv [OF ops_same(6) assms]]
      fine_respond_empty [OF assms run_op.simps(10) same_inv [OF ops_same(7) assms]]
      fine_respond_empty [OF assms run_op.simps(11) same_inv [OF ops_same(8) assms]]
      fine_respond_empty [OF assms run_op.simps(14) same_inv [OF ops_same(11) assms]]
      fine_respond_empty [OF assms run_op.simps(15) same_inv [OF ops_same(12) assms]]
      fine_respond_empty [OF assms run_op.simps(16) same_inv [OF ops_same(13) assms]]
      fine_respond_empty [OF assms run_op.simps(18) same_inv [OF ops_same(15) assms]], assumption)+

lemma fine_create_user:
  assumes "api_inv d" "\<And>k. rand2 = Some k \<Longrightarrow> key_bytes k"
    and "createUser ev cfg rand1 rand2 x25519 body d = Some r"
  shows "fine d r"
proof -
  have "fine d (respond 201 toUserDTO (CreateUser ev inp d))"
    if psk: "GeneratePresharedKey rand2 = Inr (cu_preshared_key inp)" for inp
  proof (rule fine_respond [OF assms(1) run_op.simps(1)])
    fix res d' ks assume c: "CreateUser ev inp d = (res, d', ks)"
    obtain k where "rand2 = Some k" "cu_preshared_key inp = b64_encode k"
      using psk by (auto simp: GeneratePresharedKey_def split: option.splits)
    then have "psk_ok (cu_preshared_key inp)"
      using base64ToHex_key [OF assms(2)] by (simp add: psk_ok_def is_ok_def)
    then show "host_ports d' \<and> keys_ok d'"
      using ops_same(1) [OF c] assms(1) same_host same_keys by (auto simp: api_inv_def)
  qed simp
  note commit = this
  show ?thesis
  proof (cases body)
    case None
    then show ?thesis using assms(3) by (auto simp: createUser_def)
  next
    case (Some req)
    let ?fin = "\<lambda>ip. (case GenerateKeypair rand1 x25519 of Inl e \<Rightarrow> reject 500 (KeyError e) d
           | Inr kp \<Rightarrow> (case GeneratePresharedKey rand2 of Inl e \<Rightarrow> reject 500 (KeyError e) d
             | Inr psk \<Rightarrow> respond 201 toUserDTO (CreateUser ev
                 \<lparr>cu_name = cur_name req, cu_email = cur_email req,
                  cu_public_key = kp_public kp, cu_private_key = kp_private kp,
                  cu_preshared_key = psk, cu_ip = ip, cu_endpoint = cur_endpoint req\<rparr> d)))"
    have fin: "fine d (?fin ip)" for ip using commit by (auto split: sum.split)
    have "r = reject 400 (Message ''name required'') d
        \<or> (\<exists>z. r = (case z of Inl (st, e) \<Rightarrow> reject st e d | Inr ip \<Rightarrow> ?fin ip))"
      using assms(3) Some by (auto simp: createUser_def split: if_splits)
    then show ?thesis using fin by (auto split: sum.split)
  qed
qed

lemma fine_create_service:
  assumes "api_inv d" "createService ev cfg body d = Some r"
  shows "fine d r"
proof (cases body)
  case None
  then show ?thesis using assms(2) by (auto simp: createService_def)
next
  case (Some req)
  let ?o = "\<lparr>o_kind = csr_origin_kind req, o_value = csr_origin_value req, o_network = csr_origin_network req\<rparr>"
  let ?fin = "\<lambda>spec host ip. (case parsePorts (csr_ports req) of Inl m \<Rightarrow> reject 400 (Message m) d
             | Inr ports \<Rightarrow>
                if host_needs_ports spec ports
                then reject 400 (Message ''a host service must declare explicit ports'') d
                else respond 201 toServiceDTO (CreateService ev
                  \<lparr>cs_name = csr_name req, cs_hostname = host, cs_origin = spec, cs_ip = ip,
                   cs_description = csr_description req, cs_ports = ports\<rparr> d))"
  have commit: "fine d (respond 201 toServiceDTO (CreateService ev inp d))"
    if "spec_ok (cs_origin inp)" "\<not> host_needs_ports (cs_origin inp) (cs_ports inp)" for inp
  proof (rule fine_respond [OF assms(1) run_op.simps(4)])
    fix res d' ks assume c: "CreateService ev inp d = (res, d', ks)"
    show "host_ports d' \<and> keys_ok d'"
      using CreateService_host [OF _ _ that(2,1) c] same_users [OF service_ops_users(1) [OF c]] assms(1)
      by (simp add: api_inv_def)
  qed simp
  have fin: "fine d (?fin spec host ip)" if "spec_ok spec" for spec host ip
    using commit that by (simp split: sum.split)
  show ?thesis
  proof (cases "validate ?o")
    case (Inl e)
    then show ?thesis using assms(2) Some by (auto simp: createService_def split: if_splits)
  next
    case (Inr spec)
    then have "(\<exists>st e. r = reject st e d) \<or> (\<exists>host z. r = (case z of Inl (st, e) \<Rightarrow> reject st e d | Inr ip \<Rightarrow> ?fin spec host ip))"
      using assms(2) Some by (simp add: createService_def Let_def split: if_splits) blast+
    then show ?thesis using fin [OF validate_ok [OF Inr]] by (auto split: sum.split)
  qed
qed

lemma fine_update_service:
  assumes "api_inv d"
  shows "fine d (updateService ev raw body d)"
proof -
  have commit: "fine d (respond 200 toServiceDTO (UpdateService ev i
           \<lparr>us_name = usr_name req, us_hostname = usr_hostname req, us_origin = changed,
            us_ip = usr_ip req, us_description = usr_description req,
            us_ports = (case np of None \<Rightarrow> [] | Some ps \<Rightarrow> ps), us_replace_ports = (np \<noteq> None)\<rparr> d))"
    if chk: "check_update ev i req np d = Inr changed" for i req np changed
  proof (rule fine_respond [OF assms(1) run_op.simps(5)])
    fix res d' ks assume c: "UpdateService ev i
           \<lparr>us_name = usr_name req, us_hostname = usr_hostname req, us_origin = changed,
            us_ip = usr_ip req, us_description = usr_description req,
            us_ports = (case np of None \<Rightarrow> [] | Some ps \<Rightarrow> ps), us_replace_ports = (np \<noteq> None)\<rparr> d = (res, d', ks)"
    show "host_ports d' \<and> keys_ok d'"
      using UpdateService_host [OF _ _ chk c] same_users [OF service_ops_users(2) [OF c]] assms(1)
      by (simp add: api_inv_def)
  qed simp
  show ?thesis
    unfolding updateService_def
    by (intro fine_parse fine_json) (use commit in \<open>simp split: sum.split prod.split\<close>)
qed

lemma fine_delete_service:
  assumes "api_inv d"
  shows "fine d (respond_empty (DeleteService ev i d))"
proof (rule fine_respond_empty [OF assms run_op.simps(6)])
  fix res d' ks assume r: "DeleteService ev i d = (res, d', ks)"
  then have "host_ports d'"
    using assms host_ports_delete [of d] by (auto simp: api_inv_def DeleteService_def dest!: withTx_cases)
  then show "host_ports d' \<and> keys_ok d'"
    using same_users [OF service_ops_users(3) [OF r]] assms by (simp add: api_inv_def)
qed

lemma CreatePolicy_named:
  assumes "CreatePolicy ev cp d = (Inr rule, d', ks)"
  shows "toPolicyDTO ev d' rule \<noteq> None"
proof -
  have tx: "create_policy_tx ev cp d = Inr (rule, d')"
    and v: "validObject (cp_subject_type cp)" "validObject (cp_object_type cp)"
    using assms by (auto simp: CreatePolicy_def valid_subject_object dest: withTx_ok split: if_splits)
  have "r_subject_type rule = cp_subject_type cp" "r_object_type rule = cp_object_type cp"
    using tx by (auto simp: create_policy_tx_def result_simps split: option.splits)
  then show ?thesis
    using nameFor_known [OF v(1), of ev "r_subject_id rule" d'] nameFor_known [OF v(2), of ev "r_object_id rule" d']
    by (auto simp: toPolicyDTO_def split: option.split)
qed

lemma fine_create_policy:
  assumes "api_inv d"
  shows "fine d (createPolicy ev body d)"
proof -
  let ?fin = "\<lambda>cp. case CreatePolicy ev cp d of (Inl e, d', ks) \<Rightarrow> (writeError e, d', ks)
         | (Inr rule, d', ks) \<Rightarrow> ((case toPolicyDTO ev d' rule of None \<Rightarrow> ReplyPanic
             | Some dto \<Rightarrow> Reply 201 dto), d', ks)"
  have fin: "fine d (?fin cp)" for cp
  proof -
    obtain res d' ks where r: "CreatePolicy ev cp d = (res, d', ks)" by (metis surj_pair)
    note k = same_inv [OF ops_same(14) [OF r] assms]
    have o: "run_op ev (OpCreatePolicy cp) d = outcome (res, d', ks)" by (simp add: r)
    note c = fine_commit [OF assms o]
    show ?thesis
    proof (cases res)
      case (Inl e)
      then show ?thesis using c [of "writeError e"] k r by simp
    next
      case (Inr rule)
      then obtain dto where "toPolicyDTO ev d' rule = Some dto" using CreatePolicy_named r by blast
      then show ?thesis using c [of "Reply 201 dto"] k r Inr by simp
    qed
  qed
  show ?thesis
    unfolding createPolicy_def
    by (intro fine_json) (auto simp: fin simp del: split_paired_All split: sum.split prod.split)
qed

lemma fine_add_members:
  assumes "api_inv d"
  shows "fine d (addUserGroupMember ev raw ub d)" "fine d (addServiceGroupMember ev raw sb d)"
    "fine d (removeUserGroupMember ev raw raw2 d)" "fine d (removeServiceGroupMember ev raw raw2 d)"
  unfolding addUserGroupMember_def addServiceGroupMember_def removeUserGroupMember_def removeServiceGroupMember_def
  by (intro fine_parse fine_json, simp add: fine_ops_empty [OF assms] split: sum.split option.split)+

lemma fine_writes:
  assumes "api_inv d"
  shows "fine d (updateUser ev raw b1 d)" "fine d (deleteUser ev raw d)"
    "fine d (createUserGroup ev b2 d)" "fine d (updateUserGroup ev raw b3 d)" "fine d (deleteUserGroup ev raw d)"
    "fine d (deleteService ev raw d)" "fine d (createServiceGroup ev b4 d)"
    "fine d (updateServiceGroup ev raw b5 d)" "fine d (deleteServiceGroup ev raw d)" "fine d (deletePolicy ev raw d)"
  unfolding updateUser_def deleteUser_def createUserGroup_def updateUserGroup_def deleteUserGroup_def
    deleteService_def createServiceGroup_def updateServiceGroup_def deleteServiceGroup_def deletePolicy_def
  by (intro fine_parse fine_json fine_ops [OF assms] fine_ops_empty [OF assms] fine_delete_service [OF assms]; simp)+

text \<open>Reading changes nothing.\<close>

definition reads :: "db \<Rightarrow> 'b handled \<Rightarrow> bool" where
  "reads d r \<longleftrightarrow> snd r = (d, [])"

lemma reads_wrap [simp]: "reads d (wrap f r) = reads d r"
  by (cases r) (simp add: reads_def wrap_def)

lemma reads_basic [simp]: "reads d (reject st e d)" "reads d (answer f q d)" "reads d (rep, d, [])"
  by (simp_all add: reads_def reject_def answer_def)

lemma reads_parse: "(\<And>i. reads d (h i d)) \<Longrightarrow> reads d (parseID raw h d)"
  by (simp add: parseID_def split: option.split)

lemma reads_fine: "reads d r \<Longrightarrow> fine d r"
  by (cases r) (simp add: reads_def)

lemma reads_handlers:
  "reads d (listUsers ev d)" "reads d (getUser ev raw d)" "reads d (getUserConfig ev cfg raw d)"
  "reads d (listUserGroups ev d)" "reads d (getUserGroup ev raw d)" "reads d (listUserGroupMembers ev raw d)"
  "reads d (listServices ev d)" "reads d (getService ev raw d)" "reads d (checkServiceOrigin ev res raw d)"
  "reads d (listServiceGroups ev d)" "reads d (getServiceGroup ev raw d)" "reads d (listServiceGroupMembers ev raw d)"
  "reads d (handleHealth d)" "reads d (handleStatus snap d)" "reads d (listPolicies ev d)"
  "reads d (listPrincipals ev d)" "reads d (listObjects ev d)" "reads d (getDNSZone ev cfg now clock d)"
  "reads d (fst (discoverContainers api docker d))" "reads d (listPeers sts us tnow d)"
  "reads d (listConnections flows rs ba d)"
  unfolding listUsers_def getUser_def listUserGroups_def getUserGroup_def listUserGroupMembers_def
    listServices_def getService_def checkServiceOrigin_def listServiceGroups_def getServiceGroup_def
    listServiceGroupMembers_def handleHealth_def handleStatus_def listPrincipals_def listObjects_def
    getUserConfig_def Let_def
  by (simp_all add: reads_parse listPolicies_def getDNSZone_def discoverContainers_def listPeers_def
      listConnections_def Let_def split: sum.split option.split prod.split)

lemma handle_fine:
  assumes inv: "api_inv (dm_db dm)" and rand: "\<And>k. su_rand2 su = Some k \<Longrightarrow> key_bytes k"
    and run: "handle su c ps q dm h = Some r"
  shows "fine (dm_db dm) r"
proof -
  note f = fine_writes [OF inv] fine_add_members [OF inv] fine_update_service [OF inv]
    fine_create_policy [OF inv] reads_fine [OF reads_handlers(1)] reads_fine [OF reads_handlers(2)]
    reads_fine [OF reads_handlers(3)] reads_fine [OF reads_handlers(4)] reads_fine [OF reads_handlers(5)]
    reads_fine [OF reads_handlers(6)] reads_fine [OF reads_handlers(7)] reads_fine [OF reads_handlers(8)]
    reads_fine [OF reads_handlers(9)] reads_fine [OF reads_handlers(10)] reads_fine [OF reads_handlers(11)]
    reads_fine [OF reads_handlers(12)] reads_fine [OF reads_handlers(13)] reads_fine [OF reads_handlers(14)]
    reads_fine [OF reads_handlers(15)] reads_fine [OF reads_handlers(16)] reads_fine [OF reads_handlers(17)]
    reads_fine [OF reads_handlers(18)] reads_fine [OF reads_handlers(19)] reads_fine [OF reads_handlers(20)]
    reads_fine [OF reads_handlers(21)]
  show ?thesis
    using run
    by (cases h) (auto simp: handle_def handle_users_def handle_services_def handle_rest_def Let_def f
        peers_of_def connections_of_def intro: fine_create_user [OF inv rand] fine_create_service [OF inv])
qed

lemma handle_get:
  assumes "(''GET'', pat, h) \<in> set routes" "handle su c ps q dm h = Some r"
  shows "reads (dm_db dm) r"
  using assms by (auto simp: routes_def under_def handle_def handle_users_def handle_services_def
      handle_rest_def Let_def reads_handlers peers_of_def connections_of_def)

section \<open>Properties\<close>

text \<open>What requests may touch beside the database and what follows from it.\<close>

definition same_plane :: "daemon \<Rightarrow> daemon \<Rightarrow> bool" where
  "same_plane dm dm' \<longleftrightarrow> dm_db dm' = dm_db dm \<and> dm_index dm' = dm_index dm \<and> dm_flows dm' = dm_flows dm
     \<and> dm_server dm' = dm_server dm \<and> dm_vips dm' = dm_vips dm \<and> dm_config dm' = dm_config dm"

lemma same_plane_refl [simp]: "same_plane dm dm"
  by (simp add: same_plane_def)

lemma same_plane_touch: "same_plane dm ((touch_caches su ps h dm)\<lparr>dm_db := dm_db dm\<rparr>)"
  by (simp add: same_plane_def touch_caches_def split: option.split sum.split)

lemma touch_db [simp]: "dm_flows ((touch_caches su ps h dm)\<lparr>dm_db := d\<rparr>) = dm_flows dm"
  "dm_db ((touch_caches su ps h dm)\<lparr>dm_db := d\<rparr>) = d"
  by (simp_all add: touch_caches_def split: option.split sum.split)

lemma same_plane_sync: "same_plane dm dm' \<Longrightarrow> in_sync w dm' = in_sync w dm"
  by (simp add: same_plane_def in_sync_def)

lemma serve_keeps:
  assumes "api_inv (dm_db dm)" and "ft_wf (dm_flows dm)" and "in_sync w dm"
    and "\<And>l i. \<not> sql_fails (su_callback su) l i" and "\<And>k. su_rand2 su = Some k \<Longrightarrow> key_bytes k"
    and "\<And>h ps. rt routes (q_method q) (q_path q) = Inr (h, ps) \<Longrightarrow> \<exists>pat. (q_method q, pat, h) \<in> set routes"
    and "serve_http w rt c su q dm = Some (rep, dm')"
  shows "api_inv (dm_db dm') \<and> ft_wf (dm_flows dm') \<and> in_sync w dm'
    \<and> (q_method q = ''GET'' \<or> \<not> succeeded rep \<longrightarrow> same_plane dm dm')"
proof (cases "rt routes (q_method q) (q_path q)")
  case (Inl st)
  then show ?thesis using assms(1,2,3,7) by (auto simp: serve_http_def)
next
  case (Inr x)
  obtain h ps where x: "x = (h, ps)" by (cases x)
  obtain d' ks where r: "handle su c ps q dm h = Some (rep, d', ks)"
    and dm': "dm' = foldl (\<lambda>dm k. on_change w (su_callback su) dm) ((touch_caches su ps h dm)\<lparr>dm_db := d'\<rparr>) ks"
    using assms(7) Inr x by (auto simp: serve_http_def)
  have fine: "fine (dm_db dm) (rep, d', ks)" by (rule handle_fine [OF assms(1,5) r])
  show ?thesis
  proof (cases "ks = []")
    case True
    then have "d' = dm_db dm" using fine by (auto simp: fine_def dest: run_op_notifies)
    then have sp: "same_plane dm dm'" using True same_plane_touch by (simp add: dm')
    then have "in_sync w dm'" using assms(3) by (simp add: same_plane_sync [OF sp])
    then show ?thesis using assms(1,2) sp by (simp add: same_plane_def)
  next
    case False
    then obtain ev oper where s: "succeeded rep" "api_inv d'" "run_op ev oper (dm_db dm) = (None, d', ks)"
      using fine by (auto simp: fine_def)
    then obtain k where ks: "ks = [k]" using run_op_notifies [OF s(3)] by auto
    have get: "q_method q \<noteq> ''GET''"
    proof
      assume "q_method q = ''GET''"
      then obtain pat where "(''GET'', pat, h) \<in> set routes" using assms(6) Inr x by metis
      from handle_get [OF this r] False show False by (simp add: reads_def)
    qed
    let ?dm = "(touch_caches su ps h dm)\<lparr>dm_db := d'\<rparr>"
    obtain idx where b: "Build (su_callback su) d' = Inr idx" using Build_total [OF assms(4)] by blast
    then have e: "dm' = install_index w idx ?dm" by (simp add: dm' ks on_change_def)
    have "in_sync w dm'" unfolding e
      using s(2) assms(2) b by (intro install_in_sync) (simp_all add: api_inv_def)
    moreover have "ft_wf (dm_flows dm')" using assms(2) by (simp add: e install_index_def ft_wf_Reap)
    moreover have "dm_db dm' = d'" by (simp add: e install_index_def)
    ultimately show ?thesis using s get by simp
  qed
qed

text \<open>A \<open>GET\<close> touches nothing, whatever the tables hold.\<close>

lemma serve_get:
  assumes "q_method q = ''GET''"
    and "\<And>h ps. rt routes (q_method q) (q_path q) = Inr (h, ps) \<Longrightarrow> \<exists>pat. (q_method q, pat, h) \<in> set routes"
    and "serve_http w rt c su q dm = Some (rep, dm')"
  shows "same_plane dm dm'"
proof (cases "rt routes (q_method q) (q_path q)")
  case (Inl st)
  then show ?thesis using assms(3) by (auto simp: serve_http_def)
next
  case (Inr x)
  obtain h ps where x: "x = (h, ps)" by (cases x)
  obtain d' ks where r: "handle su c ps q dm h = Some (rep, d', ks)"
    and dm': "dm' = foldl (\<lambda>dm k. on_change w (su_callback su) dm) ((touch_caches su ps h dm)\<lparr>dm_db := d'\<rparr>) ks"
    using assms(3) Inr x by (auto simp: serve_http_def)
  obtain pat where "(''GET'', pat, h) \<in> set routes" using assms(1,2) Inr x by metis
  from handle_get [OF this r] have "d' = dm_db dm" "ks = []" by (simp_all add: reads_def)
  then show ?thesis using same_plane_touch by (simp add: dm')
qed


definition w_router :: router where
  "w_router rs m p = (if m = ''DELETE'' \<and> p = ''/api/policies/1'' then Inr (HDeletePolicy, \<lambda>_. ''1'') else Inl 404)"

definition w_surroundings :: surroundings where
  "w_surroundings = \<lparr>su_env = quiet_env, su_callback = quiet_env, su_rand1 = None, su_rand2 = None,
     su_x25519 = Some, su_start = 0, su_now = 0, su_date = None, su_clock = [], su_dump = None,
     su_docker = w_api, su_resolve = w_env, su_error_text = (\<lambda>_. [])\<rparr>"

definition w_codec :: codec where
  "w_codec = \<lparr>dec_create_user = (\<lambda>_. None), dec_update_user = (\<lambda>_. None), dec_create_user_group = (\<lambda>_. None),
     dec_update_user_group = (\<lambda>_. None), dec_user_member = (\<lambda>_. None), dec_create_service = (\<lambda>_. None),
     dec_update_service = (\<lambda>_. None), dec_create_service_group = (\<lambda>_. None),
     dec_update_service_group = (\<lambda>_. None), dec_service_member = (\<lambda>_. None), dec_create_policy = (\<lambda>_. None)\<rparr>"

definition w_revoke_request :: request where
  "w_revoke_request = \<lparr>q_method = ''DELETE'', q_path = ''/api/policies/1'', q_body = [], q_backend_addr = []\<rparr>"

lemma w_delete: "deletePolicy quiet_env ''1'' w_live_db = (ReplyEmpty 204, w_closed_db, [''policies''])"
proof -
  have "DeletePolicy quiet_env 1 w_live_db = (Inr (), w_closed_db, [''policies''])"
    using w_revoke by (auto simp: outcome_def split: prod.splits sum.splits)
  moreover have "parse_int64 ''1'' = Some 1"
    by (simp add: parse_int64_def digits_val_def is_digit_def digit_val_def max_int64_def)
  ultimately show ?thesis by (simp add: deletePolicy_def parseID_def respond_empty_def)
qed

lemma w_handle:
  "handle w_surroundings c (\<lambda>_. ''1'') w_revoke_request (w_daemon idx) HDeletePolicy
    = Some (ReplyEmpty 204, w_closed_db, [''policies''])"
  by (simp add: w_delete handle_def handle_rest_def w_surroundings_def w_daemon_def wrap_def)

lemma w_serve:
  "\<exists>dm'. serve_http w w_router c w_surroundings w_revoke_request (w_daemon idx) = Some (ReplyEmpty 204, dm')
    \<and> dm_db dm' = w_closed_db"
  by (simp add: serve_http_def w_router_def w_revoke_request_def w_handle [unfolded w_revoke_request_def]
      on_change_def install_index_def touch_caches_def split: sum.split)


text \<open>The subnets that a search for a free address ends in.\<close>

definition usable_subnet :: "string \<Rightarrow> bool" where
  "usable_subnet cidr \<longleftrightarrow> parse_prefix cidr \<noteq> Some \<lparr>pfx_ip = V4 (- 1), pfx_bits = 32\<rparr>"

lemma allocate_answers: "usable_subnet cidr \<Longrightarrow> allocate cidr taken reserved \<noteq> None"
proof -
  assume u: "usable_subnet cidr"
  show ?thesis
  proof (cases "\<exists>p rs a. parse_prefix cidr = Some p \<and> reserved_set reserved = Inr rs \<and> pfx_ip p = V4 a")
    case False
    then show ?thesis by (auto simp: allocate_def is_v4_def split: option.split sum.split addr.splits)
  next
    case True
    then obtain p rs a where p: "parse_prefix cidr = Some p" "reserved_set reserved = Inr rs" "pfx_ip p = V4 a" by blast
    then show ?thesis using u allocate_eq [OF p(1,3) _ p(2)] by (cases p) (auto simp: usable_subnet_def)
  qed
qed

lemma pick_ip_answers: "usable_subnet subnet \<Longrightarrow> \<exists>z. pick_ip ip subnet reserved taken = Some z"
  using allocate_answers by (simp add: pick_ip_def split: sum.split)

lemma map_option_answers: "(\<exists>z. x = Some z) \<Longrightarrow> map_option f x \<noteq> None"
  by auto

lemma create_answers:
  "usable_subnet (wg_client_subnet (c_wireguard cfg)) \<Longrightarrow> createUser ev cfg r1 r2 x ub d \<noteq> None"
  "usable_subnet (wg_service_subnet (c_wireguard cfg)) \<Longrightarrow> createService ev cfg sb d \<noteq> None"
  unfolding createUser_def createService_def Let_def
  by (auto split: option.split sum.split simp del: not_None_eq
      intro!: map_option_answers [unfolded not_None_eq] dest: pick_ip_answers)

text \<open>
  C32: every request is answered. When the two subnets of the configuration are other than
  255.255.255.255/32, the server returns a reply for every request, whatever the
  router, the bodies and the database are: each handler of the route table is dispatched, and the one
  unbounded loop, the search for a free address, ends.
\<close>

theorem requests_answered:
  assumes "usable_subnet (wg_client_subnet (c_wireguard (dm_config dm)))"
    and "usable_subnet (wg_service_subnet (c_wireguard (dm_config dm)))"
  shows "\<exists>rep dm'. serve_http w rt c su q dm = Some (rep, dm')"
proof -
  have "handle su c ps q dm h \<noteq> None" for h ps
    using create_answers(1) [OF assms(1)] create_answers(2) [OF assms(2)]
    by (cases h) (simp_all add: handle_def handle_users_def handle_services_def handle_rest_def Let_def)
  then show ?thesis by (auto simp: serve_http_def split: sum.split)
qed

theorem requests_answered_witness:
  "\<exists>idx rep dm'. Build quiet_env w_live_db = Inr idx
    \<and> serve_http w_os w_router w_codec w_surroundings w_revoke_request (w_daemon idx) = Some (rep, dm')"
proof -
  obtain idx where b: "Build quiet_env w_live_db = Inr idx" using w_live_build by blast
  have "parse_prefix ''10.6.0.0/24'' = Some \<lparr>pfx_ip = V4 0x0A060000, pfx_bits = 24\<rparr>"
    "parse_prefix ''10.6.1.0/24'' = Some \<lparr>pfx_ip = V4 0x0A060100, pfx_bits = 24\<rparr>" by (simp_all add: addr_eval)
  then have "usable_subnet (wg_client_subnet (c_wireguard Defaults))" "usable_subnet (wg_service_subnet (c_wireguard Defaults))"
    by (simp_all add: usable_subnet_def Defaults_def)
  then have "\<exists>rep dm'. serve_http w_os w_router w_codec w_surroundings w_revoke_request (w_daemon idx) = Some (rep, dm')"
    by (intro requests_answered) (simp_all add: w_daemon_def)
  then show ?thesis using b by blast
qed

text \<open>What the client of a route decodes from a reply with that status.\<close>

definition shape :: "handler \<Rightarrow> payload \<Rightarrow> bool" where
  "shape h p = (case p of
     PText x \<Rightarrow> h \<in> {HandleHealth, HGetUserConfig, HGetDNSZone}
   | PStatus x \<Rightarrow> h = HandleStatus
   | PUser x \<Rightarrow> h \<in> {HCreateUser, HGetUser, HUpdateUser}
   | PUsers x \<Rightarrow> h \<in> {HListUsers, HListUserGroupMembers}
   | PUserGroup x \<Rightarrow> h \<in> {HCreateUserGroup, HGetUserGroup, HUpdateUserGroup}
   | PUserGroups x \<Rightarrow> h = HListUserGroups
   | PService x \<Rightarrow> h \<in> {HCreateService, HGetService, HUpdateService}
   | PServices x \<Rightarrow> h \<in> {HListServices, HListServiceGroupMembers}
   | PCheck x \<Rightarrow> h = HCheckServiceOrigin
   | PServiceGroup x \<Rightarrow> h \<in> {HCreateServiceGroup, HGetServiceGroup, HUpdateServiceGroup}
   | PServiceGroups x \<Rightarrow> h = HListServiceGroups
   | PPolicy x \<Rightarrow> h = HCreatePolicy | PPolicies x \<Rightarrow> h = HListPolicies
   | PRefs x \<Rightarrow> h \<in> {HListPrincipals, HListObjects}
   | PContainers x \<Rightarrow> h = HDiscoverContainers | PPeers x \<Rightarrow> h = HListPeers
   | PConnections x \<Rightarrow> h = HListConnections
   | PNothing x \<Rightarrow> False)"

definition creates :: "handler \<Rightarrow> bool" where
  "creates h \<longleftrightarrow> h \<in> {HCreateUser, HCreateUserGroup, HCreateService, HCreateServiceGroup, HCreatePolicy}"

definition bodiless :: "handler \<Rightarrow> bool" where
  "bodiless h \<longleftrightarrow> h \<in> {HDeleteUser, HDeleteUserGroup, HDeleteService, HDeleteServiceGroup, HDeletePolicy,
     HAddUserGroupMember, HRemoveUserGroupMember, HAddServiceGroupMember, HRemoveServiceGroupMember}"

text \<open>The statuses of a handler whose success is \<open>st\<close>.\<close>

definition codes :: "nat \<Rightarrow> 'b handled \<Rightarrow> bool" where
  "codes st r \<longleftrightarrow> (case fst r of Reply s _ \<Rightarrow> st = s \<and> s \<noteq> 204 | ReplyEmpty s \<Rightarrow> st = s \<and> s = 204
     | ReplyError s _ \<Rightarrow> s \<in> {400, 404, 409, 500, 503} | ReplyPanic \<Rightarrow> False)"

lemma codes_basic [simp]:
  "codes st (writeError se, d, ks)" "s \<in> {400, 404, 409, 500, 503} \<Longrightarrow> codes st (reject s e d)"
  "codes 200 (answer f q d)" "codes 204 (respond_empty x)"
  "st \<noteq> 204 \<Longrightarrow> codes st (respond st g z)" "codes st (Reply s y, d, ks) \<longleftrightarrow> st = s \<and> s \<noteq> 204"
  by (auto simp: codes_def writeError_def error_status_def reject_def answer_def respond_empty_def respond_def
      split: store_error.split sum.split prod.split)

lemma codes_parse: "(\<And>i. codes st (h i d)) \<Longrightarrow> codes st (parseID raw h d)"
  by (simp add: parseID_def split: option.split)

lemma codes_json: "(\<And>req. codes st (h req d)) \<Longrightarrow> codes st (readJSON body h d)"
  by (simp add: readJSON_def split: option.split)

lemma codes_reads:
  "codes 200 (listUsers ev d)" "codes 200 (getUser ev raw d)" "codes 200 (getUserConfig ev cfg raw d)"
  "codes 200 (listUserGroups ev d)" "codes 200 (getUserGroup ev raw d)" "codes 200 (listUserGroupMembers ev raw d)"
  "codes 200 (listServices ev d)" "codes 200 (getService ev raw d)" "codes 200 (checkServiceOrigin ev res raw d)"
  "codes 200 (listServiceGroups ev d)" "codes 200 (getServiceGroup ev raw d)" "codes 200 (listServiceGroupMembers ev raw d)"
  "codes 200 (handleHealth d)" "codes 200 (handleStatus snap d)"
  "codes 200 (listPrincipals ev d)" "codes 200 (listObjects ev d)" "codes 200 (getDNSZone ev cfg tnow clock d)"
  "codes 200 (fst (discoverContainers api docker d))" "codes 200 (listPeers sts us tnow2 d)"
  "codes 200 (listConnections flows rs ba d)"
  unfolding listUsers_def getUser_def listUserGroups_def getUserGroup_def listUserGroupMembers_def
    listServices_def getService_def checkServiceOrigin_def listServiceGroups_def getServiceGroup_def
    listServiceGroupMembers_def handleHealth_def handleStatus_def listPrincipals_def listObjects_def
    getUserConfig_def Let_def listPeers_def listConnections_def discoverContainers_def getDNSZone_def
  by (simp_all add: codes_parse Let_def split: sum.split option.split prod.split) (simp_all add: codes_def)

lemma codes_writes:
  "codes 200 (updateUser ev raw b1 d)" "codes 204 (deleteUser ev raw d)" "codes 201 (createUserGroup ev b2 d)"
  "codes 200 (updateUserGroup ev raw b3 d)" "codes 204 (deleteUserGroup ev raw d)"
  "codes 204 (deleteService ev raw d)" "codes 201 (createServiceGroup ev b4 d)"
  "codes 200 (updateServiceGroup ev raw b5 d)" "codes 204 (deleteServiceGroup ev raw d)"
  "codes 204 (deletePolicy ev raw d)" "codes 204 (addUserGroupMember ev raw ub d)"
  "codes 204 (addServiceGroupMember ev raw sb d)" "codes 204 (removeUserGroupMember ev raw raw2 d)"
  "codes 204 (removeServiceGroupMember ev raw raw2 d)"
  unfolding updateUser_def deleteUser_def createUserGroup_def updateUserGroup_def deleteUserGroup_def
    deleteService_def createServiceGroup_def updateServiceGroup_def deleteServiceGroup_def deletePolicy_def
    addUserGroupMember_def addServiceGroupMember_def removeUserGroupMember_def removeServiceGroupMember_def
  by (simp_all add: codes_parse codes_json split: sum.split option.split)

lemma pick_ip_code: "pick_ip ip subnet reserved taken = Some (Inl (st, e)) \<Longrightarrow> st \<in> {400, 404, 409, 500, 503}"
proof -
  assume p: "pick_ip ip subnet reserved taken = Some (Inl (st, e))"
  have err: "error_status se \<in> {400, 404, 409, 500, 503}" for se
    by (simp add: error_status_def split: store_error.split)
  have alloc: "st = 409" if "map_option (\<lambda>r. case r of Inl e \<Rightarrow> Inl (409, AllocError e) | Inr a \<Rightarrow> Inr a) x = Some (Inl (st, e))" for x
    using that by (cases x) (simp, case_tac a, simp_all)
  show ?thesis
  proof (cases "ip = []")
    case True
    show ?thesis
    proof (cases taken)
      case (Inl se)
      then show ?thesis using p True err [of se] by (simp add: pick_ip_def del: insert_iff)
    next
      case (Inr ips)
      then show ?thesis using p True alloc [of "allocate subnet ips reserved"] by (simp add: pick_ip_def)
    qed
  next
    case False
    then show ?thesis using p by (auto simp: pick_ip_def split: sum.splits bool.splits)
  qed
qed

lemma codes_create_user:
  assumes "createUser ev cfg r1 r2 x body d = Some r"
  shows "codes 201 r"
proof (cases body)
  case None
  then show ?thesis using assms by (auto simp: createUser_def)
next
  case (Some req)
  show ?thesis
  proof (cases "cur_name req = []")
    case True
    then show ?thesis using assms Some by (auto simp: createUser_def)
  next
    case False
    then obtain z where z: "pick_ip (cur_ip req) (wg_client_subnet (c_wireguard cfg)) [wg_server_ip (c_wireguard cfg)]
        (TakenUserIPs ev d) = Some z" using assms Some by (auto simp: createUser_def)
    show ?thesis
    proof (cases z)
      case (Inl a)
      then show ?thesis using assms Some False z pick_ip_code [of _ _ _ _ "fst a" "snd a"]
        by (cases a) (fastforce simp: createUser_def)
    next
      case (Inr ip)
      then show ?thesis using assms Some False z by (auto simp: createUser_def split: sum.splits)
    qed
  qed
qed

lemma codes_create_service:
  assumes "createService ev cfg body d = Some r"
  shows "codes 201 r"
proof (cases body)
  case None
  then show ?thesis using assms by (auto simp: createService_def)
next
  case (Some req)
  let ?o = "\<lparr>o_kind = csr_origin_kind req, o_value = csr_origin_value req, o_network = csr_origin_network req\<rparr>"
  show ?thesis
  proof (cases "csr_name req = [] \<or> (\<exists>e. validate ?o = Inl e)")
    case True
    then show ?thesis using assms Some by (auto simp: createService_def split: if_splits)
  next
    case False
    then obtain spec where spec: "validate ?o = Inr spec" by (cases "validate ?o") auto
    then obtain z where z: "pick_ip (csr_ip req) (wg_service_subnet (c_wireguard cfg)) [] (TakenServiceIPs ev d) = Some z"
      using assms Some False by (auto simp: createService_def)
    show ?thesis
    proof (cases z)
      case (Inl a)
      then show ?thesis using assms Some False z spec pick_ip_code [of _ _ _ _ "fst a" "snd a"]
        by (cases a) (fastforce simp: createService_def)
    next
      case (Inr ip)
      then show ?thesis using assms Some False z spec
        by (auto simp: createService_def Let_def split: sum.splits if_splits)
    qed
  qed
qed

lemma codes_update_service: "codes 200 (updateService ev raw body d)"
proof -
  have "st \<in> {400, 404, 409, 500, 503}" if "check_update ev i req np d = Inl (st, e)" for i req np st e
    using that by (auto simp: check_update_def error_status_def Let_def split: if_splits sum.splits store_error.splits)
  then have "codes 200 (reject st e d :: wire_service handled)" if "check_update ev i req np d = Inl (st, e)" for i req np st e
    using that by (simp del: insert_iff)
  then show ?thesis unfolding updateService_def
    by (intro codes_parse codes_json) (simp split: sum.split prod.split)
qed

lemma codes_policies:
  assumes "db_wf d"
  shows "codes 200 (listPolicies ev d)" "codes 201 (createPolicy ev body d)"
proof -
  show "codes 200 (listPolicies ev d)"
    using listPolicies_no_panic [OF assms, of ev]
    by (auto simp: listPolicies_def split: sum.splits option.splits)
  have np: "fst (createPolicy ev body d) \<noteq> ReplyPanic" by (rule createPolicy_no_panic [OF assms])
  have "fst (createPolicy ev body d) \<noteq> ReplyPanic \<longrightarrow> codes 201 (createPolicy ev body d)"
    by (cases body) (simp_all add: createPolicy_def readJSON_def split: sum.split prod.split option.split)
  then show "codes 201 (createPolicy ev body d)" using np by simp
qed

lemma codes_wrap [simp]: "codes st (wrap f r) = codes st r"
  by (cases r) (simp add: codes_def wrap_def split: reply.split)

definition success_of :: "handler \<Rightarrow> nat" where
  "success_of h = (if creates h then 201 else if bodiless h then 204 else 200)"

lemma handle_codes:
  assumes "db_wf (dm_db dm)" "handle su c ps q dm h = Some r"
  shows "codes (success_of h) r"
  using assms(2)
  by (cases h) (auto simp: handle_def handle_users_def handle_services_def handle_rest_def Let_def success_of_def
      creates_def bodiless_def codes_reads codes_writes codes_update_service codes_policies [OF assms(1)]
      peers_of_def connections_of_def intro: codes_create_user codes_create_service)

lemma wrap_payload: "wrap f r = (rep, d', ks) \<Longrightarrow> case rep of Reply s p \<Rightarrow> p \<in> range f | _ \<Rightarrow> True"
  by (cases r; cases "fst r") (auto simp: wrap_def)

text \<open>
  C33: replies are typed. On a well-formed database the reply of every handler is one of three: an error
  with the status 400, 404, 409, 500 or 503; 204 without a body, exactly for the handlers that delete or
  change a membership; or a body of the wire type that the route's client decodes, with 201 from the
  handlers that create a row and 200 from the others. No handler panics.
\<close>

theorem replies_typed:
  assumes "db_wf (dm_db dm)" and "handle su c ps q dm h = Some (rep, d', ks)"
  shows "case rep of Reply st p \<Rightarrow> shape h p \<and> \<not> bodiless h \<and> st = (if creates h then 201 else 200)
     | ReplyEmpty st \<Rightarrow> bodiless h \<and> st = 204
     | ReplyError st e \<Rightarrow> st \<in> {400, 404, 409, 500, 503}
     | ReplyPanic \<Rightarrow> False"
proof -
  have codes: "codes (success_of h) (rep, d', ks)" by (rule handle_codes [OF assms])
  have "case rep of Reply s p \<Rightarrow> bodiless h \<or> shape h p | _ \<Rightarrow> True"
    using assms(2)
    by (cases h) (auto simp: handle_def handle_users_def handle_services_def handle_rest_def Let_def
        bodiless_def shape_def dest!: wrap_payload split: reply.splits)
  moreover have "\<not> (creates h \<and> bodiless h)" by (auto simp: creates_def bodiless_def)
  ultimately show ?thesis using codes
    by (auto simp: codes_def success_of_def split: reply.splits if_splits)
qed

theorem replies_typed_witness:
  "\<exists>idx rep d' ks. Build quiet_env w_live_db = Inr idx
    \<and> handle w_surroundings w_codec (\<lambda>_. ''1'') w_revoke_request (w_daemon idx) HDeletePolicy = Some (rep, d', ks)
    \<and> \<not> (\<exists>st p. rep = Reply st p)"
proof -
  obtain idx where b: "Build quiet_env w_live_db = Inr idx" using w_live_build by blast
  have "db_wf (dm_db (w_daemon idx))" by (simp add: w_daemon_def w_live_wf)
  from replies_typed [OF this w_handle [of w_codec idx]] show ?thesis using w_handle b by (auto simp: bodiless_def)
qed

end
