(* ===== verification/Process.thy ===== *)
theory Process
  imports Daemon Config
begin

text \<open>
  The daemon's process: \<open>daemon/main.go\<close> and \<open>daemon/signals.go\<close>. What \<open>lightscaled\<close> and \<open>lightscaled init\<close> do, the logger
  that a configuration asks for, and how signals reach the main loop. The file system is a function from paths to texts with the
  failures of its calls as parameters; signals, the handler's goroutine and the main loop are a step relation.
\<close>

section \<open>Init\<close>

record disk =
  dk_files :: "string \<Rightarrow> string option"
  dk_hidden :: "string \<Rightarrow> bool"
  dk_mkdir :: "string \<Rightarrow> string option"
  dk_write :: "string \<Rightarrow> (string \<times> string option) option"
  dk_dir :: "string \<Rightarrow> string"

text \<open>\<open>os.Stat\<close> of a path, which may fail for more reasons than that nothing is there. A write that fails has an error and
  leaves what \<open>dk_write\<close> says.\<close>

definition disk_stat :: "disk \<Rightarrow> string \<Rightarrow> stat_result" where
  "disk_stat dk p = (if dk_hidden dk p then StatFailed else if dk_files dk p = None then NotExist else Exists)"

abbreviation newline :: string where
  "newline \<equiv> [CHR 0x0A]"

definition apostrophe :: string where
  "apostrophe = [CHR 0x27]"

definition quotation :: "string \<Rightarrow> string" where
  "quotation s = [CHR 0x22] @ s @ [CHR 0x22]"

definition config_head :: "string list" where
  "config_head = [''# lightscale daemon configuration. see the README for details'', [],
     ''# where clients reach your server, wireguard format.'',
     ''# I'' @ apostrophe @ ''ve been using a domain pointed at my house, and I have :51820 forwarding to my server'',
     ''public_endpoint = '' @ quotation ''vpn.example.com:51820'', [],
     ''# DNS domain suffix used for service hostnames'',
     ''domain = '' @ quotation ''lightscale.local'', []]"

definition config_wireguard :: "string list" where
  "config_wireguard = [''[wireguard]'', ''port            = 51820'', ''subnet          = '' @ quotation ''10.6.0.0/23'',
     ''client_subnet   = '' @ quotation ''10.6.0.0/24'', ''service_subnet  = '' @ quotation ''10.6.1.0/24'',
     ''server_ip       = '' @ quotation ''10.6.0.1'',
     ''# dns = ['' @ quotation ''1.1.1.1'' @ '', '' @ quotation ''8.8.8.8'' @ '']'', []]"

definition config_rest :: "string list" where
  "config_rest = [''[socket]'', ''path  = '' @ quotation ''/run/lightscale/lightscale.sock'', ''mode  = '' @ quotation ''0660'',
     ''group = '' @ quotation ''lightscale'', [],
     ''[storage]'', ''database = '' @ quotation ''/var/lib/lightscale/lightscale.db'', [],
     ''[log]'', ''format = '' @ quotation ''text'', ''level  = '' @ quotation ''info'',
     ''# file = '' @ quotation ''/var/log/lightscale/lightscale.log'', [],
     ''[docker]'', ''# you need this if you want to use automatic docker container network routing'',
     ''# socket = '' @ quotation ''/var/run/docker.sock'', []]"

definition defaultConfigTOML :: string where
  "defaultConfigTOML = join newline (config_head @ config_wireguard @ config_rest)"

definition defaultInitPath :: string where
  "defaultInitPath = ''/etc/lightscale/lightscale.toml''"

definition runInit :: "string \<Rightarrow> string \<Rightarrow> bool \<Rightarrow> disk \<Rightarrow> (string + string) \<times> disk" where
  "runInit getenv configPath force dk =
    (let target = (if configPath \<noteq> [] then configPath else if getenv \<noteq> [] then getenv else defaultInitPath) in
     if target = [] then (Inl ''init: cannot determine target path; pass --config'', dk)
     else if disk_stat dk target = Exists \<and> \<not> force
     then (Inl (''init: '' @ target @ '' already exists (use --force to overwrite)''), dk)
     else (case dk_mkdir dk (dk_dir dk target) of Some e \<Rightarrow> (Inl (''init: mkdir: '' @ e), dk)
       | None \<Rightarrow> (case dk_write dk target of
             Some (e, left) \<Rightarrow> (Inl (''init: write: '' @ e), dk\<lparr>dk_files := (dk_files dk)(target := left)\<rparr>)
           | None \<Rightarrow> (Inr (''wrote default config to '' @ target @ newline),
               dk\<lparr>dk_files := (dk_files dk)(target \<mapsto> defaultConfigTOML)\<rparr>))))"

section \<open>The logger\<close>

datatype log_level = LevelDebug | LevelInfo | LevelWarn | LevelError

record logger =
  lo_level :: log_level
  lo_file :: "string option"
  lo_json :: bool

text \<open>\<open>opens\<close>: whether the log file can be opened; standard output otherwise.\<close>

definition newLogger :: "(string \<Rightarrow> bool) \<Rightarrow> log_config \<Rightarrow> logger" where
  "newLogger opens c = \<lparr>
     lo_level = (if lg_level c = ''debug'' then LevelDebug else if lg_level c = ''warn'' then LevelWarn
       else if lg_level c = ''error'' then LevelError else LevelInfo),
     lo_file = (if lg_file c \<noteq> [] \<and> opens (lg_file c) then Some (lg_file c) else None),
     lo_json = (lg_format c = ''json'')\<rparr>"

section \<open>The daemon\<close>

datatype process_error = ErrLoad config_error | ErrRun run_error

text \<open>\<open>runDaemon\<close> up to the main loop; \<open>toml\<close> is the decoder, given the disk.\<close>

definition runDaemon :: "os \<Rightarrow> env \<Rightarrow> disk \<Rightarrow> string \<Rightarrow> (string \<Rightarrow> config \<Rightarrow> config \<times> bool) \<Rightarrow> string \<Rightarrow> db
    \<Rightarrow> (process_error + daemon) \<times> db" where
  "runDaemon w ev dk getenv toml configPath d =
    (case Load (disk_stat dk) getenv toml configPath of
       (cfg, Some e) \<Rightarrow> (Inl (ErrLoad e), d)
     | (cfg, None) \<Rightarrow> (case start_daemon w ev cfg d of (r, d') \<Rightarrow> (map_sum ErrRun id r, d')))"

section \<open>Signals\<close>

datatype os_signal = Sigint | Sigterm | Sighup

text \<open>
  The process while it serves: the signals waiting in the handler's channel (4 at most, \<open>signal.Notify\<close> drops what does not
  fit), whether the handler still runs, the one place of \<open>reloadCh\<close>, the context, the daemon and, once \<open>Run\<close> has returned, its
  result. Besides, for the statements below: which state of the configuration file is on disk, which one was read last, and
  which one was there when the last \<open>SIGHUP\<close> was sent.
\<close>

record process =
  pr_waiting :: "os_signal list"
  pr_handling :: bool
  pr_token :: bool
  pr_cancelled :: bool
  pr_daemon :: daemon
  pr_result :: "string option option"
  pr_disk :: nat
  pr_read :: nat
  pr_asked :: nat

definition send_signal :: "os_signal \<Rightarrow> process \<Rightarrow> process" where
  "send_signal sg p =
    (let p' = (if length (pr_waiting p) < 4 then p\<lparr>pr_waiting := pr_waiting p @ [sg]\<rparr> else p) in
     if sg = Sighup then p'\<lparr>pr_asked := pr_disk p\<rparr> else p')"

text \<open>One turn of \<open>handleSignals\<close>: a stop cancels the context and ends the handler, anything else asks for a reload; a reload
  asked for and not begun yet is not asked for twice.\<close>

definition handle_signal :: "process \<Rightarrow> process option" where
  "handle_signal p = (case pr_waiting p of [] \<Rightarrow> None
   | sg # rest \<Rightarrow> if \<not> pr_handling p then None
       else if sg = Sigint \<or> sg = Sigterm then Some (p\<lparr>pr_waiting := rest, pr_cancelled := True, pr_handling := False\<rparr>)
       else Some (p\<lparr>pr_waiting := rest, pr_token := True\<rparr>))"

text \<open>The cases of the main loop that these wake.\<close>

definition loop_reload :: "(string \<Rightarrow> docker_error option) \<Rightarrow> (nat \<Rightarrow> string + config) \<Rightarrow> process \<Rightarrow> process option" where
  "loop_reload connect loads p = (if pr_token p \<and> pr_result p = None
     then Some (p\<lparr>pr_token := False, pr_read := pr_disk p,
       pr_daemon := snd (loop_event_step connect (ReloadAsked (loads (pr_disk p))) (pr_daemon p))\<rparr>)
     else None)"

definition loop_cancelled :: "(string \<Rightarrow> docker_error option) \<Rightarrow> process \<Rightarrow> process option" where
  "loop_cancelled connect p = (if pr_cancelled p \<and> pr_result p = None
     then Some (p\<lparr>pr_result := fst (loop_event_step connect CtxDone (pr_daemon p))\<rparr>) else None)"

text \<open>
  Whatever the daemon does meanwhile leaves its configuration alone. \<open>edit\<close> is a new state of the file.
\<close>

inductive process_step :: "(string \<Rightarrow> docker_error option) \<Rightarrow> (nat \<Rightarrow> string + config) \<Rightarrow> process \<Rightarrow> process \<Rightarrow> bool"
  for connect loads where
  edit: "process_step connect loads p (p\<lparr>pr_disk := Suc (pr_disk p)\<rparr>)"
| sent: "process_step connect loads p (send_signal sg p)"
| handled: "handle_signal p = Some p' \<Longrightarrow> process_step connect loads p p'"
| reloaded: "loop_reload connect loads p = Some p' \<Longrightarrow> process_step connect loads p p'"
| stopped: "loop_cancelled connect p = Some p' \<Longrightarrow> process_step connect loads p p'"
| serving: "dm_config dm = dm_config (pr_daemon p) \<Longrightarrow> process_step connect loads p (p\<lparr>pr_daemon := dm\<rparr>)"

inductive process_run :: "(string \<Rightarrow> docker_error option) \<Rightarrow> (nat \<Rightarrow> string + config) \<Rightarrow> process \<Rightarrow> process \<Rightarrow> bool"
  for connect loads p where
  process_begin: "process_run connect loads p p"
| process_extend: "\<lbrakk>process_run connect loads p p'; process_step connect loads p' p''\<rbrakk> \<Longrightarrow> process_run connect loads p p''"

text \<open>A process that has just read its configuration and serves.\<close>

definition process_start :: "nat \<Rightarrow> daemon \<Rightarrow> process" where
  "process_start v dm = \<lparr>pr_waiting = [], pr_handling = True, pr_token = False, pr_cancelled = False, pr_daemon = dm,
     pr_result = None, pr_disk = v, pr_read = v, pr_asked = v\<rparr>"

text \<open>The settings that a reload takes over.\<close>

definition runs_with :: "config \<Rightarrow> config \<Rightarrow> bool" where
  "runs_with fresh c \<longleftrightarrow> c_public_endpoint c = c_public_endpoint fresh \<and> c_domain c = c_domain fresh
     \<and> c_docker_socket c = c_docker_socket fresh \<and> lg_level (c_log c) = lg_level (c_log fresh)
     \<and> lg_format (c_log c) = lg_format (c_log fresh)"

definition signals_inv :: "(nat \<Rightarrow> string + config) \<Rightarrow> process \<Rightarrow> bool" where
  "signals_inv loads p \<longleftrightarrow> length (pr_waiting p) \<le> 4 \<and> pr_asked p \<le> pr_disk p
     \<and> (pr_asked p \<le> pr_read p \<or> pr_token p \<or> \<not> pr_handling p \<or> pr_waiting p \<noteq> [])
     \<and> (pr_cancelled p \<longleftrightarrow> \<not> pr_handling p)
     \<and> (\<forall>fresh. loads (pr_read p) = Inr fresh \<longrightarrow> runs_with fresh (dm_config (pr_daemon p)))"

lemma signals_inv_start:
  "(\<forall>fresh. loads v = Inr fresh \<longrightarrow> runs_with fresh (dm_config dm)) \<Longrightarrow> signals_inv loads (process_start v dm)"
  by (simp add: signals_inv_def process_start_def)

lemma signals_inv_sent: "signals_inv loads p \<Longrightarrow> signals_inv loads (send_signal sg p)"
  by (cases p) (auto simp: signals_inv_def send_signal_def Let_def)

lemma signals_inv_handled: "signals_inv loads p \<Longrightarrow> handle_signal p = Some p' \<Longrightarrow> signals_inv loads p'"
  by (auto simp: signals_inv_def handle_signal_def split: list.splits if_splits)

lemma loop_reload_effect:
  assumes "loop_reload connect loads p = Some p'"
  shows "pr_read p' = pr_disk p \<and> pr_disk p' = pr_disk p \<and> \<not> pr_token p' \<and> pr_waiting p' = pr_waiting p
    \<and> pr_handling p' = pr_handling p \<and> pr_cancelled p' = pr_cancelled p \<and> pr_asked p' = pr_asked p
    \<and> (\<forall>fresh. loads (pr_read p') = Inr fresh \<longrightarrow> runs_with fresh (dm_config (pr_daemon p')))"
  using assms by (auto simp: loop_reload_def runs_with_def applyHotReload_def split: if_splits)

lemma signals_inv_reloaded: "signals_inv loads p \<Longrightarrow> loop_reload connect loads p = Some p' \<Longrightarrow> signals_inv loads p'"
  using loop_reload_effect [of connect loads p p'] by (simp add: signals_inv_def)

lemma signals_inv_run: "process_run connect loads p p' \<Longrightarrow> signals_inv loads p \<Longrightarrow> signals_inv loads p'"
proof (induction rule: process_run.induct)
  case (process_extend p' p'')
  then have inv: "signals_inv loads p'" by simp
  from process_extend(2) show ?case
  proof cases
    case edit
    then show ?thesis using inv by (auto simp: signals_inv_def)
  next
    case stopped
    then show ?thesis using inv by (auto simp: signals_inv_def loop_cancelled_def split: if_splits)
  next
    case serving
    then show ?thesis using inv by (auto simp: signals_inv_def)
  qed (use inv in \<open>auto intro: signals_inv_sent signals_inv_handled signals_inv_reloaded\<close>)
qed simp

text \<open>The handler left to itself.\<close>

fun handle_all :: "nat \<Rightarrow> process \<Rightarrow> process" where
  "handle_all 0 p = p"
| "handle_all (Suc n) p = (case handle_signal p of None \<Rightarrow> p | Some p' \<Rightarrow> handle_all n p')"

lemma handle_all_run: "process_run connect loads p0 p \<Longrightarrow> process_run connect loads p0 (handle_all n p)"
proof (induction n arbitrary: p)
  case (Suc n)
  then show ?case
    by (cases "handle_signal p") (auto intro: process_extend [OF _ process_step.handled])
qed simp

lemma handle_all_done:
  assumes "length (pr_waiting p) \<le> n"
  shows "(pr_waiting (handle_all n p) = [] \<or> \<not> pr_handling (handle_all n p))
    \<and> pr_result (handle_all n p) = pr_result p \<and> pr_asked (handle_all n p) = pr_asked p"
  using assms
proof (induction n arbitrary: p)
  case (Suc n)
  show ?case
  proof (cases "handle_signal p")
    case None
    then show ?thesis by (auto simp: handle_signal_def split: list.splits if_splits)
  next
    case (Some p')
    then have "length (pr_waiting p') \<le> n" "pr_result p' = pr_result p" "pr_asked p' = pr_asked p"
      using Suc.prems by (auto simp: handle_signal_def split: list.splits if_splits)
    then show ?thesis using Some Suc.IH [of p'] by simp
  qed
qed simp

section \<open>Properties\<close>

text \<open>
  C5: no request to reload is lost, and stopping stops. In whatever way signals, edits of the configuration file, the handler, the
  main loop and the rest of the daemon take turns, and even if the handler's channel overflowed: at most four turns of the
  handler and one of the main loop later the daemon has read the file as it was at the last \<open>SIGHUP\<close> or later, and runs with the
  settings of the file it read, if that could be read; or a stop was among the signals, the context is cancelled and the main
  loop returns without an error.
\<close>

theorem reload_requests_kept:
  assumes "process_run connect loads (process_start v dm) p" and "pr_result p = None"
    and "\<forall>fresh. loads v = Inr fresh \<longrightarrow> runs_with fresh (dm_config dm)"
  shows "let q = handle_all 4 p; z = (case loop_reload connect loads q of None \<Rightarrow> q | Some z \<Rightarrow> z) in
     if pr_handling q
     then pr_asked p \<le> pr_read z \<and> pr_waiting z = [] \<and> \<not> pr_token z
       \<and> (\<forall>fresh. loads (pr_read z) = Inr fresh \<longrightarrow> runs_with fresh (dm_config (pr_daemon z)))
     else (\<exists>r. loop_cancelled connect q = Some r \<and> pr_result r = Some None)"
proof -
  let ?q = "handle_all 4 p"
  have start: "signals_inv loads (process_start v dm)" using assms(3) by (rule signals_inv_start)
  have inv: "signals_inv loads ?q" by (rule signals_inv_run [OF handle_all_run [OF assms(1)] start])
  have "signals_inv loads p" by (rule signals_inv_run [OF assms(1) start])
  then have d: "pr_waiting ?q = [] \<or> \<not> pr_handling ?q" "pr_result ?q = None" "pr_asked ?q = pr_asked p"
    using handle_all_done [of p 4] assms(2) by (simp_all add: signals_inv_def)
  show ?thesis
  proof (cases "pr_handling ?q")
    case True
    show ?thesis
    proof (cases "loop_reload connect loads ?q")
      case None
      then have "\<not> pr_token ?q" using d by (simp add: loop_reload_def split: if_splits)
      then show ?thesis using None True d inv by (simp add: signals_inv_def Let_def)
    next
      case (Some z)
      then show ?thesis using loop_reload_effect [OF Some] True d inv by (simp add: signals_inv_def Let_def)
    qed
  next
    case False
    then have "pr_cancelled ?q" using inv by (simp add: signals_inv_def)
    then show ?thesis using False d by (simp add: loop_cancelled_def Let_def)
  qed
qed

theorem reload_requests_kept_witness:
  "\<forall>dm. \<exists>z. loop_reload (\<lambda>_. None) (\<lambda>_. Inl [])
      (handle_all 4 (send_signal Sighup (send_signal Sighup ((process_start 0 dm)\<lparr>pr_disk := 1\<rparr>)))) = Some z \<and> pr_read z = 1"
proof
  fix dm
  let ?p = "send_signal Sighup (send_signal Sighup ((process_start 0 dm)\<lparr>pr_disk := 1\<rparr>))"
  let ?q = "handle_all 4 ?p"
  have edit: "process_step (\<lambda>_. None) (\<lambda>_. Inl []) (process_start 0 dm) ((process_start 0 dm)\<lparr>pr_disk := 1\<rparr>)"
    using process_step.edit [of "\<lambda>_. None" "\<lambda>_. Inl []" "process_start 0 dm"] by (simp add: process_start_def)
  have run: "process_run (\<lambda>_. None) (\<lambda>_. Inl []) (process_start 0 dm) ?p"
    by (rule process_extend [OF process_extend [OF process_extend [OF process_begin edit] process_step.sent] process_step.sent])
  have p: "pr_result ?p = None" "pr_asked ?p = 1" by (simp_all add: send_signal_def process_start_def Let_def)
  have q: "pr_handling ?q" "pr_token ?q" "pr_result ?q = None"
    by (simp_all add: send_signal_def process_start_def Let_def eval_nat_numeral handle_signal_def)
  obtain z where z: "loop_reload (\<lambda>_. None) (\<lambda>_. Inl []) ?q = Some z" using q by (auto simp: loop_reload_def)
  have "1 \<le> pr_read z" using reload_requests_kept [OF run p(1)] z q(1) p(2) by (simp add: Let_def)
  moreover have "pr_read z = 1"
    using loop_reload_effect [OF z]
    by (simp add: send_signal_def process_start_def Let_def eval_nat_numeral handle_signal_def)
  ultimately show "\<exists>z. loop_reload (\<lambda>_. None) (\<lambda>_. Inl []) ?q = Some z \<and> pr_read z = 1" using z by blast
qed

section \<open>The file that init writes\<close>

text \<open>
  What a plain TOML file says: lines that are blank, comments, headers of tables, or a key with a number or with a text in
  quotation marks that needs no escape. Keys are given with their table.
\<close>

fun toml_entries :: "string \<Rightarrow> string list \<Rightarrow> (string \<times> string) list" where
  "toml_entries tab [] = []"
| "toml_entries tab (l # ls) = (if l = [] \<or> hd l = CHR ''#'' then toml_entries tab ls
     else if hd l = CHR ''['' then toml_entries (butlast (tl l) @ ''.'') ls
     else case cut (CHR ''='') l of None \<Rightarrow> ([], l) # toml_entries tab ls
       | Some (k, v) \<Rightarrow> (tab @ trim_space k, trim_space v) # toml_entries tab ls)"

definition unquoted :: "string \<Rightarrow> string" where
  "unquoted v = butlast (tl v)"

definition plain_value :: "string \<Rightarrow> bool" where
  "plain_value v \<longleftrightarrow> digits_val v \<noteq> None \<or> (v = quotation (unquoted v) \<and> CHR 0x22 \<notin> set (unquoted v) \<and> CHR 0x5C \<notin> set (unquoted v))"

text \<open>The field of each key, by the tags of the structures.\<close>

definition text_fields :: "(string \<times> (string \<Rightarrow> config \<Rightarrow> config)) list" where
  "text_fields = [(''public_endpoint'', \<lambda>v c. c\<lparr>c_public_endpoint := v\<rparr>), (''domain'', \<lambda>v c. c\<lparr>c_domain := v\<rparr>),
     (''wireguard.subnet'', \<lambda>v c. c\<lparr>c_wireguard := (c_wireguard c)\<lparr>wg_subnet := v\<rparr>\<rparr>),
     (''wireguard.client_subnet'', \<lambda>v c. c\<lparr>c_wireguard := (c_wireguard c)\<lparr>wg_client_subnet := v\<rparr>\<rparr>),
     (''wireguard.service_subnet'', \<lambda>v c. c\<lparr>c_wireguard := (c_wireguard c)\<lparr>wg_service_subnet := v\<rparr>\<rparr>),
     (''wireguard.server_ip'', \<lambda>v c. c\<lparr>c_wireguard := (c_wireguard c)\<lparr>wg_server_ip := v\<rparr>\<rparr>),
     (''socket.path'', \<lambda>v c. c\<lparr>c_socket := (c_socket c)\<lparr>so_path := v\<rparr>\<rparr>),
     (''socket.mode'', \<lambda>v c. c\<lparr>c_socket := (c_socket c)\<lparr>so_mode := v\<rparr>\<rparr>),
     (''socket.group'', \<lambda>v c. c\<lparr>c_socket := (c_socket c)\<lparr>so_group := v\<rparr>\<rparr>),
     (''storage.database'', \<lambda>v c. c\<lparr>c_database := v\<rparr>),
     (''log.format'', \<lambda>v c. c\<lparr>c_log := (c_log c)\<lparr>lg_format := v\<rparr>\<rparr>), (''log.level'', \<lambda>v c. c\<lparr>c_log := (c_log c)\<lparr>lg_level := v\<rparr>\<rparr>),
     (''log.file'', \<lambda>v c. c\<lparr>c_log := (c_log c)\<lparr>lg_file := v\<rparr>\<rparr>), (''docker.socket'', \<lambda>v c. c\<lparr>c_docker_socket := v\<rparr>)]"

definition set_field :: "config \<Rightarrow> string \<times> string \<Rightarrow> config" where
  "set_field c kv = (case kv of (k, v) \<Rightarrow>
     if k = ''wireguard.port'' then c\<lparr>c_wireguard := (c_wireguard c)\<lparr>wg_port := (case digits_val v of None \<Rightarrow> 0 | Some n \<Rightarrow> int n)\<rparr>\<rparr>
     else case map_of text_fields k of None \<Rightarrow> c | Some f \<Rightarrow> f (unquoted v) c)"

text \<open>The decoder on plain files: it sets the fields of their keys, in the order of the lines, and does not fail.\<close>

definition decodes_plain :: "disk \<Rightarrow> (string \<Rightarrow> config \<Rightarrow> config \<times> bool) \<Rightarrow> bool" where
  "decodes_plain dk toml \<longleftrightarrow> (\<forall>p s c. dk_files dk p = Some s
     \<and> list_all (\<lambda>kv. plain_value (snd kv) \<and> (fst kv = ''wireguard.port'' \<longleftrightarrow> digits_val (snd kv) \<noteq> None)) (toml_entries [] (split_on (CHR 0x0A) s))
     \<longrightarrow> toml p c = (foldl set_field c (toml_entries [] (split_on (CHR 0x0A) s)), True))"

definition init_entries :: "(string \<times> string) list" where
  "init_entries = [(''public_endpoint'', quotation ''vpn.example.com:51820''), (''domain'', quotation ''lightscale.local''),
     (''wireguard.port'', ''51820''), (''wireguard.subnet'', quotation ''10.6.0.0/23''),
     (''wireguard.client_subnet'', quotation ''10.6.0.0/24''), (''wireguard.service_subnet'', quotation ''10.6.1.0/24''),
     (''wireguard.server_ip'', quotation ''10.6.0.1''), (''socket.path'', quotation ''/run/lightscale/lightscale.sock''),
     (''socket.mode'', quotation ''0660''), (''socket.group'', quotation ''lightscale''),
     (''storage.database'', quotation ''/var/lib/lightscale/lightscale.db''), (''log.format'', quotation ''text''),
     (''log.level'', quotation ''info'')]"

lemma init_lines: "split_on (CHR 0x0A) defaultConfigTOML = config_head @ config_wireguard @ config_rest"
  unfolding defaultConfigTOML_def
  by (rule split_on_join) (auto simp: config_head_def config_wireguard_def config_rest_def apostrophe_def quotation_def)

lemma toml_entries_append:
  "list_all (\<lambda>l. l = [] \<or> hd l \<noteq> CHR ''['') ls \<Longrightarrow> toml_entries tab (ls @ ls') = toml_entries tab ls @ toml_entries tab ls'"
  by (induction ls) (auto split: option.splits)

lemma init_says: "toml_entries [] (split_on (CHR 0x0A) defaultConfigTOML) = init_entries"
  unfolding init_lines
  by (simp add: config_head_def config_wireguard_def config_rest_def init_entries_def quotation_def apostrophe_def cut_def
      trim_space_def trim_left_def trim_right_def is_space_def)

lemma init_fields: "foldl set_field Defaults init_entries
    = Defaults\<lparr>c_public_endpoint := ''vpn.example.com:51820'', c_log := (c_log Defaults)\<lparr>lg_format := ''text''\<rparr>\<rparr>"
  by (simp add: init_entries_def set_field_def text_fields_def quotation_def unquoted_def digits_val_def is_digit_def digit_val_def
      Defaults_def defaultSocketPath_def defaultDatabasePath_def)

lemma decodes_plainD:
  "decodes_plain dk toml \<Longrightarrow> dk_files dk p = Some s \<Longrightarrow> toml_entries [] (split_on (CHR 0x0A) s) = es
    \<Longrightarrow> list_all (\<lambda>kv. plain_value (snd kv) \<and> (fst kv = ''wireguard.port'' \<longleftrightarrow> digits_val (snd kv) \<noteq> None)) es
    \<Longrightarrow> toml p c = (foldl set_field c es, True)"
  unfolding decodes_plain_def by blast

lemma init_plain:
  "list_all (\<lambda>kv. plain_value (snd kv) \<and> (fst kv = ''wireguard.port'' \<longleftrightarrow> digits_val (snd kv) \<noteq> None)) init_entries"
  by (simp add: init_entries_def plain_value_def quotation_def unquoted_def digits_val_def is_digit_def digit_val_def)

definition init_target :: "string \<Rightarrow> string \<Rightarrow> string" where
  "init_target getenv configPath = (if configPath \<noteq> [] then configPath else if getenv \<noteq> [] then getenv
     else ''/etc/lightscale/lightscale.toml'')"

lemma runInit_outcome:
  "runInit getenv configPath force dk = (r, dk') \<Longrightarrow> let t = init_target getenv configPath in
     (\<forall>p. p \<noteq> t \<longrightarrow> dk_files dk' p = dk_files dk p) \<and> dk_hidden dk' = dk_hidden dk
     \<and> (disk_stat dk t = Exists \<and> \<not> force \<longrightarrow> dk' = dk \<and> (\<exists>m. r = Inl m))
     \<and> (is_ok r \<longleftrightarrow> (disk_stat dk t = Exists \<longrightarrow> force) \<and> dk_mkdir dk (dk_dir dk t) = None \<and> dk_write dk t = None)
     \<and> (is_ok r \<longrightarrow> dk_files dk' t = Some defaultConfigTOML)"
  by (auto simp: runInit_def init_target_def defaultInitPath_def Let_def split: if_splits option.splits)

text \<open>
  \<open>lightscaled init\<close> writes the defaults, and only where nothing is. It goes for the file of \<open>--config\<close>, else of
  \<open>LIGHTSCALE_CONFIG\<close>, else \<open>/etc/lightscale/lightscale.toml\<close>, touches no other file, leaves a file that it can see as it is
  unless forced, and succeeds exactly when it may write. The daemon started with the same flag and variable then loads that very
  file (if it can see it) and runs with \<open>Defaults\<close>, but for the example of a public endpoint and the log format being spelt
  out, which gives the same logger.
\<close>

theorem init_then_load:
  assumes "runInit getenv configPath force dk = (r, dk')" and "decodes_plain dk' toml"
  shows "let t = init_target getenv configPath in
    (\<forall>p. p \<noteq> t \<longrightarrow> dk_files dk' p = dk_files dk p)
    \<and> (disk_stat dk t = Exists \<and> \<not> force \<longrightarrow> dk' = dk)
    \<and> (is_ok r \<longleftrightarrow> (disk_stat dk t = Exists \<longrightarrow> force) \<and> dk_mkdir dk (dk_dir dk t) = None \<and> dk_write dk t = None)
    \<and> (is_ok r \<and> \<not> dk_hidden dk t \<longrightarrow> Load (disk_stat dk') getenv toml configPath
        = (Defaults\<lparr>c_public_endpoint := ''vpn.example.com:51820'', c_log := (c_log Defaults)\<lparr>lg_format := ''text''\<rparr>, c_path := t\<rparr>, None))
    \<and> newLogger opens ((c_log Defaults)\<lparr>lg_format := ''text''\<rparr>) = newLogger opens (c_log Defaults)"
proof -
  let ?t = "init_target getenv configPath"
  have o: "(\<forall>p. p \<noteq> ?t \<longrightarrow> dk_files dk' p = dk_files dk p) \<and> dk_hidden dk' = dk_hidden dk
     \<and> (disk_stat dk ?t = Exists \<and> \<not> force \<longrightarrow> dk' = dk \<and> (\<exists>m. r = Inl m))
     \<and> (is_ok r \<longleftrightarrow> (disk_stat dk ?t = Exists \<longrightarrow> force) \<and> dk_mkdir dk (dk_dir dk ?t) = None \<and> dk_write dk ?t = None)
     \<and> (is_ok r \<longrightarrow> dk_files dk' ?t = Some defaultConfigTOML)"
    using runInit_outcome [OF assms(1)] by (simp add: Let_def)
  have "Load (disk_stat dk') getenv toml configPath
      = (Defaults\<lparr>c_public_endpoint := ''vpn.example.com:51820'', c_log := (c_log Defaults)\<lparr>lg_format := ''text''\<rparr>, c_path := ?t\<rparr>, None)"
    if ok: "is_ok r \<and> \<not> dk_hidden dk ?t"
  proof -
    have e: "disk_stat dk' ?t = Exists" using o ok by (simp add: disk_stat_def)
    then have "resolvePath (disk_stat dk') getenv configPath = Inr ?t \<and> ?t \<noteq> []"
      by (cases "configPath = []"; cases "getenv = []") (simp_all add: resolvePath_def init_target_def defaultPathCandidates_def)
    moreover have "toml ?t Defaults = (foldl set_field Defaults init_entries, True)"
      using o ok by (intro decodes_plainD [OF assms(2) _ init_says init_plain]) blast
    ultimately show ?thesis by (simp add: Load_def init_fields)
  qed
  moreover have "newLogger opens ((c_log Defaults)\<lparr>lg_format := ''text''\<rparr>) = newLogger opens (c_log Defaults)"
    by (simp add: newLogger_def Defaults_def)
  ultimately show ?thesis using o by (simp add: Let_def)
qed

definition w_disk :: disk where
  "w_disk = \<lparr>dk_files = (\<lambda>_. None), dk_hidden = (\<lambda>_. False), dk_mkdir = (\<lambda>_. None), dk_write = (\<lambda>_. None), dk_dir = (\<lambda>p. p)\<rparr>"

definition w_toml :: "disk \<Rightarrow> string \<Rightarrow> config \<Rightarrow> config \<times> bool" where
  "w_toml dk p c = (case dk_files dk p of None \<Rightarrow> (c, False)
     | Some s \<Rightarrow> (foldl set_field c (toml_entries [] (split_on (CHR 0x0A) s)), True))"

theorem init_then_load_witness:
  "snd (Load (disk_stat (snd (runInit [] [] False w_disk))) [] (w_toml (snd (runInit [] [] False w_disk))) []) = None"
proof -
  obtain r dk' where r: "runInit [] [] False w_disk = (r, dk')" by (cases "runInit [] [] False w_disk")
  have "decodes_plain dk' (w_toml dk')" by (simp add: decodes_plain_def w_toml_def)
  from init_then_load [OF r this] have "is_ok r \<and> snd (Load (disk_stat dk') [] (w_toml dk') []) = None"
    by (simp add: Let_def w_disk_def disk_stat_def)
  then show ?thesis by (simp add: r)
qed

end
