(* ===== verification/CliFormat.thy ===== *)
theory CliFormat
  imports ApiServices HostPort
begin

text \<open>
  What the command line prints: \<open>cli/cli/format.go\<close>, the formatting of \<open>peers.go\<close> and
  \<open>service.go\<close>, and \<open>normalizeBind\<close> of \<open>serve.go\<close>. Lengths and padding count bytes, as the code does;
  a text is the list of its bytes.
\<close>

section \<open>Tables\<close>

definition padRight :: "string \<Rightarrow> nat \<Rightarrow> string" where
  "padRight s w = (if length s \<ge> w then s else s @ replicate (w - length s) (CHR '' ''))"

text \<open>A row longer than the header would index \<open>widths\<close> out of range; every caller's rows fit.\<close>

definition grow_width :: "nat list \<Rightarrow> nat \<times> string \<Rightarrow> nat list" where
  "grow_width widths ic = (case ic of (i, c) \<Rightarrow>
     if length c > widths ! i then widths[i := length c] else widths)"

definition grow_row :: "nat list \<Rightarrow> string list \<Rightarrow> nat list" where
  "grow_row widths r = foldl grow_width widths (enumerate 0 r)"

definition table_widths :: "string list \<Rightarrow> string list list \<Rightarrow> nat list" where
  "table_widths headers rows = foldl grow_row (map length headers) rows"

definition formatRow :: "nat list \<Rightarrow> string list \<Rightarrow> string" where
  "formatRow widths cells = join ''  '' (map (\<lambda>(i, c). padRight c (widths ! i)) (enumerate 0 cells)) @ [CHR 0x0A]"

definition table :: "string list \<Rightarrow> string list list \<Rightarrow> string" where
  "table headers rows = (let ws = table_widths headers rows in
     formatRow ws headers @ formatRow ws (map (\<lambda>w. replicate w (CHR ''-'')) (take (length headers) ws))
       @ concat (map (formatRow ws) rows))"

definition boolStr :: "bool \<Rightarrow> string" where
  "boolStr b = (if b then ''true'' else ''false'')"

text \<open>Natural order of addresses: those that parse first, by value; the others by their bytes.\<close>

definition ipLess :: "string \<Rightarrow> string \<Rightarrow> bool" where
  "ipLess a b = (case (parse_addr a, parse_addr b) of
     (Some x, Some y) \<Rightarrow> x < y
   | (Some x, None) \<Rightarrow> True
   | (None, Some y) \<Rightarrow> False
   | (None, None) \<Rightarrow> a < b)"

section \<open>Peers\<close>

definition nonEmpty :: "string \<Rightarrow> string \<Rightarrow> string" where
  "nonEmpty s fallback = (if s = [] then fallback else s)"

definition ellipsis :: string where
  "ellipsis = [CHR 0xE2, CHR 0x80, CHR 0xA6]"

definition shortKey :: "string \<Rightarrow> string" where
  "shortKey b = (if length b \<le> 10 then b else take 6 b @ ellipsis @ drop (length b - 4) b)"

text \<open>The zero time is \<open>None\<close>.\<close>

definition formatHandshake :: "int option \<Rightarrow> int \<Rightarrow> string" where
  "formatHandshake t ago0 = (if t = None then ''(never)'' else
     let ago = max 0 ago0 in
     if ago < 60 then int_str ago @ ''s ago''
     else if ago < 3600 then int_str (ago div 60) @ ''m '' @ int_str (ago mod 60) @ ''s ago''
     else if ago < 86400 then int_str (ago div 3600) @ ''h '' @ int_str ((ago mod 3600) div 60) @ ''m ago''
     else int_str (ago div 86400) @ ''d '' @ int_str ((ago mod 86400) div 3600) @ ''h ago'')"

text \<open>The loop over units; with it the verb for two decimals of a quotient by a power of 1024: both operands are exact in
  a float below 2^53, and the text is the nearest hundredth, ties to the even one.\<close>

fun unit_loop :: "nat \<Rightarrow> nat \<Rightarrow> nat \<Rightarrow> nat \<times> nat" where
  "unit_loop n divisor e = (if n \<ge> 1024 then unit_loop (n div 1024) (divisor * 1024) (e + 1) else (divisor, e))"

declare unit_loop.simps [simp del]

definition hundredths :: "nat \<Rightarrow> nat \<Rightarrow> nat" where
  "hundredths b d = (let q = (100 * b) div d; r = (100 * b) mod d in
     if 2 * r > d \<or> (2 * r = d \<and> odd q) then q + 1 else q)"

definition two_digits :: "nat \<Rightarrow> string" where
  "two_digits n = [digit_char (n div 10), digit_char (n mod 10)]"

definition suffixes :: "string list" where
  "suffixes = [''KiB'', ''MiB'', ''GiB'', ''TiB'']"

text \<open>\<open>None\<close> is the panic of the index into the suffixes.\<close>

definition formatBytes :: "nat \<Rightarrow> string option" where
  "formatBytes b = (if b < 1024 then Some (nat_str b @ '' B'')
     else (case unit_loop (b div 1024) 1024 0 of (divisor, e) \<Rightarrow>
       if e < length suffixes then
         let h = hundredths b divisor in
         Some (nat_str (h div 100) @ ''.'' @ two_digits (h mod 100) @ '' '' @ suffixes ! e)
       else None))"

section \<open>Services\<close>

definition originValueLabel :: "wire_service \<Rightarrow> string" where
  "originValueLabel sv = (if ws_origin_kind sv = ''host'' then ''(this machine)'' else ws_origin_value sv)"

definition formatOrigin :: "wire_service \<Rightarrow> string" where
  "formatOrigin sv = (if ws_origin_kind sv = ''host'' then ''host''
     else ws_origin_kind sv @ '':'' @ ws_origin_value sv)"

definition port_text :: "wire_port \<Rightarrow> string" where
  "port_text p = int_str (wp_port p) @ ''/'' @ wp_protocol p"

definition formatPorts :: "wire_port list \<Rightarrow> string" where
  "formatPorts ports = (if ports = [] then ''all'' else join '','' (map port_text ports))"

section \<open>The bind address of the web interface\<close>

definition defaultWebPort :: string where
  "defaultWebPort = ''11687''"

definition isAllDigits :: "string \<Rightarrow> bool" where
  "isAllDigits s \<longleftrightarrow> s \<noteq> [] \<and> list_all is_digit s"

definition normalizeBind :: "string \<Rightarrow> string" where
  "normalizeBind arg = (if split_host_port arg \<noteq> None then arg
     else if isAllDigits arg then '':'' @ arg
     else arg @ '':'' @ defaultWebPort)"

section \<open>Tables line up\<close>

lemma grow_width_length [simp]: "length (grow_width ws ic) = length ws"
  by (simp add: grow_width_def split: prod.split)

lemma grow_cells:
  assumes "k + length r \<le> length ws"
  shows "length (foldl grow_width ws (enumerate k r)) = length ws
    \<and> (\<forall>i < length ws. foldl grow_width ws (enumerate k r) ! i
        = max (ws ! i) (if k \<le> i \<and> i < k + length r then length (r ! (i - k)) else 0))"
  using assms
proof (induction r arbitrary: k ws)
  case (Cons c r)
  let ?ws = "grow_width ws (k, c)"
  have step: "?ws ! i = max (ws ! i) (if i = k then length c else 0)" if "i < length ws" for i
    using that by (auto simp: grow_width_def)
  have "Suc k + length r \<le> length ?ws" using Cons.prems by simp
  note ih = Cons.IH [OF this]
  show ?case
  proof (intro conjI allI impI)
    show "length (foldl grow_width ws (enumerate k (c # r))) = length ws" using ih by simp
    fix i assume i: "i < length ws"
    then have "foldl grow_width ws (enumerate k (c # r)) ! i
        = max (?ws ! i) (if Suc k \<le> i \<and> i < Suc k + length r then length (r ! (i - Suc k)) else 0)"
      using ih by simp
    then show "foldl grow_width ws (enumerate k (c # r)) ! i
        = max (ws ! i) (if k \<le> i \<and> i < k + length (c # r) then length ((c # r) ! (i - k)) else 0)"
      using step [OF i] by (cases "i = k") (auto simp: nth_Cons' Suc_le_eq)
  qed
qed simp

lemma grow_row_nth:
  assumes "length r = length ws"
  shows "length (grow_row ws r) = length ws" "i < length ws \<Longrightarrow> grow_row ws r ! i = max (ws ! i) (length (r ! i))"
  using grow_cells [of 0 r ws] assms by (simp_all add: grow_row_def)

text \<open>The width of a column is the length of its longest cell.\<close>

lemma widths_cover:
  assumes "\<forall>r\<in>set rows. length r = length ws"
  shows "length (foldl grow_row ws rows) = length ws
    \<and> (\<forall>i < length ws. foldl grow_row ws rows ! i = Max (insert (ws ! i) ((\<lambda>r. length (r ! i)) ` set rows)))"
  using assms
proof (induction rows arbitrary: ws)
  case (Cons r rows)
  note g = grow_row_nth [of r ws]
  have "\<forall>q\<in>set rows. length q = length (grow_row ws r)" using Cons.prems g(1) by simp
  then have ih: "length (foldl grow_row (grow_row ws r) rows) = length ws"
    "\<And>i. i < length ws \<Longrightarrow> foldl grow_row (grow_row ws r) rows ! i
       = Max (insert (grow_row ws r ! i) ((\<lambda>r. length (r ! i)) ` set rows))"
    using Cons.IH [of "grow_row ws r"] Cons.prems g(1) by simp_all
  have "Max (insert (max a b) X) = Max (insert a (insert b X))" if "finite X" for a b :: nat and X
    using that by (cases "X = {}") (simp_all add: max.assoc)
  then show ?case using ih g(2) Cons.prems by simp
qed simp

definition offset :: "nat list \<Rightarrow> nat \<Rightarrow> nat" where
  "offset ws i = (\<Sum>j<i. ws ! j + 2)"

lemma join_cell:
  "i < length ps \<Longrightarrow> take (length (ps ! i)) (drop (\<Sum>j<i. length (ps ! j) + length sep) (join sep ps)) = ps ! i"
proof (induction ps arbitrary: i)
  case (Cons p ps)
  show ?case
  proof (cases i)
    case 0
    then show ?thesis by (cases ps) simp_all
  next
    case (Suc k)
    then obtain q qs where ps: "ps = q # qs" using Cons.prems by (cases ps) auto
    have "(\<Sum>j<i. length ((p # ps) ! j) + length sep) = length p + length sep + (\<Sum>j<k. length (ps ! j) + length sep)"
      unfolding Suc by (subst sum.lessThan_Suc_shift) simp
    then show ?thesis using Cons.IH [of k] Cons.prems Suc ps by simp
  qed
qed simp

lemma padRight_length: "length s \<le> w \<Longrightarrow> length (padRight s w) = w"
  by (simp add: padRight_def)

lemma padRight_take: "length s \<le> w \<Longrightarrow> take (length s) (padRight s w) = s"
  by (simp add: padRight_def)

lemma join_length: "length (join sep ps) = (\<Sum>p\<leftarrow>ps. length p) + length sep * (length ps - 1)"
  by (induction sep ps rule: join.induct) (simp_all add: algebra_simps)

lemma take_drop_append:
  assumes "take (length x) (drop n u) = x"
  shows "take (length x) (drop n (u @ v)) = x"
proof -
  have "min (length x) (length u - n) = length x" using arg_cong [OF assms, of length] by simp
  then have "x = [] \<or> n + length x \<le> length u" by (cases x) auto
  then show ?thesis using assms by (auto simp: take_append)
qed

lemma formatRow_cells:
  assumes "length cells = length ws" "\<And>i. i < length ws \<Longrightarrow> length (cells ! i) \<le> ws ! i"
  shows "length (formatRow ws cells) = sum_list ws + 2 * (length ws - 1) + 1"
    and "i < length ws \<Longrightarrow> take (length (cells ! i)) (drop (offset ws i) (formatRow ws cells)) = cells ! i"
proof -
  let ?ps = "map (\<lambda>(i, c). padRight c (ws ! i)) (enumerate 0 cells)"
  have nth: "?ps ! j = padRight (cells ! j) (ws ! j)" "length (?ps ! j) = ws ! j" if "j < length ws" for j
    using that assms by (simp_all add: nth_enumerate_eq padRight_length)
  have "map length ?ps = ws" using nth assms(1) by (intro nth_equalityI) simp_all
  then show "length (formatRow ws cells) = sum_list ws + 2 * (length ws - 1) + 1"
    using assms(1) by (simp add: formatRow_def join_length)
  assume i: "i < length ws"
  have off: "offset ws i = (\<Sum>j<i. length (?ps ! j) + length ''  '')"
    unfolding offset_def using nth i by (intro sum.cong) simp_all
  have cell: "take (ws ! i) (drop (offset ws i) (join ''  '' ?ps)) = ?ps ! i"
    using join_cell [of i ?ps "''  ''"] nth(2) [OF i] i assms(1) unfolding off by simp
  have "take (length (cells ! i)) (drop (offset ws i) (join ''  '' ?ps))
      = take (length (cells ! i)) (take (ws ! i) (drop (offset ws i) (join ''  '' ?ps)))"
    using assms(2) [OF i] by (simp only: take_take min.absorb1)
  also have "\<dots> = cells ! i"
    unfolding cell nth(1) [OF i] by (rule padRight_take [OF assms(2) [OF i]])
  finally have "take (length (cells ! i)) (drop (offset ws i) (join ''  '' ?ps)) = cells ! i" .
  then show "take (length (cells ! i)) (drop (offset ws i) (formatRow ws cells)) = cells ! i"
    unfolding formatRow_def by (rule take_drop_append)
qed

text \<open>
  Tables line up. When every row has as many cells as there are headers, each column is as wide as its
  longest cell, all lines of the table have the same length, and the cell of a column starts at the same
  offset in every line, from where it can be read back whole.
\<close>

theorem table_aligned:
  assumes "\<forall>r\<in>set rows. length r = length headers" and "r \<in> set (headers # rows)" and "i < length headers"
  defines "ws \<equiv> table_widths headers rows"
  shows "ws ! i = Max ((\<lambda>r. length (r ! i)) ` set (headers # rows))
    \<and> length (formatRow ws r) = length (formatRow ws headers)
    \<and> take (length (r ! i)) (drop (offset ws i) (formatRow ws r)) = r ! i"
proof -
  have "\<forall>r\<in>set rows. length r = length (map length headers)" using assms(1) by simp
  note c = widths_cover [OF this, folded table_widths_def, folded ws_def]
  have len: "length ws = length headers" using c by simp
  have w: "ws ! j = Max ((\<lambda>r. length (r ! j)) ` set (headers # rows))" if "j < length headers" for j
    using c that by simp
  have fits: "length (q ! j) \<le> ws ! j" if "q \<in> set (headers # rows)" "j < length headers" for q j
    unfolding w [OF that(2)] using that(1) by (intro Max_ge) auto
  have n: "length q = length ws" if "q \<in> set (headers # rows)" for q using assms(1) len that by auto
  have line: "length (formatRow ws q) = sum_list ws + 2 * (length ws - 1) + 1" if "q \<in> set (headers # rows)" for q
    using formatRow_cells(1) [OF n [OF that]] fits [OF that] len by simp
  show ?thesis
    using w [OF assms(3)] line [OF assms(2)] line [of headers]
      formatRow_cells(2) [OF n [OF assms(2)]] fits [OF assms(2)] len assms(3) by simp
qed

theorem table_aligned_witness:
  "let hs = [''NAME'', ''IP'']; r = [''al'', ''::'']; ws = table_widths hs [r] in
    take (length (r ! 1)) (drop (offset ws 1) (formatRow ws r)) = r ! 1"
  using table_aligned [of "[[''al'', ''::'']]" "[''NAME'', ''IP'']" "[''al'', ''::'']" 1] by (simp add: Let_def)

section \<open>Port lists\<close>

lemma int_str_port: "0 < p \<Longrightarrow> int_str p = nat_str (nat p)"
  by (simp add: int_str_def)

lemma port_text_item:
  assumes "port_valid (wp_port p) (wp_protocol p)"
  shows "parse_port_item (port_text p) = Inr [mk_port (wp_port p) (wp_protocol p)]"
    and "trim_space (port_text p) = port_text p" and "port_text p \<noteq> []" and "CHR '','' \<notin> set (port_text p)"
proof -
  let ?n = "nat (wp_port p)"
  have v: "0 < wp_port p" "wp_port p \<le> 65535" "wp_protocol p = ''tcp'' \<or> wp_protocol p = ''udp''"
    using assms by (auto simp: port_valid_def)
  then have t: "port_text p = nat_str ?n @ CHR ''/'' # wp_protocol p" by (simp add: port_text_def int_str_port)
  have d: "CHR '','' \<notin> set (nat_str ?n)" by (intro nat_str_not_in) (simp add: is_digit_def)
  have cut: "cut (CHR ''/'') (port_text p) = Some (nat_str ?n, wp_protocol p)"
    unfolding t by (intro cut_append nat_str_not_in) (simp add: is_digit_def)
  have "parse_int64 (nat_str ?n) = Some (wp_port p)"
    using v parse_int64_nat_str [of ?n] by (simp add: max_int64_def)
  then show "parse_port_item (port_text p) = Inr [mk_port (wp_port p) (wp_protocol p)]"
    using v cut by (auto simp: parse_port_item_def to_lower_def lower_char_def)
  show "port_text p \<noteq> []" by (simp add: t)
  show "CHR '','' \<notin> set (port_text p)" using d v by (auto simp: t)
  have "\<not> is_space (hd (port_text p))"
    using nat_str_hd_digit [of ?n] by (auto simp: t hd_append is_space_def is_digit_def)
  moreover have "\<not> is_space (last (port_text p))" using v by (auto simp: t is_space_def)
  ultimately show "trim_space (port_text p) = port_text p"
    using trim_space_ends by blast
qed

lemma port_text_items:
  "\<forall>p\<in>set ps. port_valid (wp_port p) (wp_protocol p) \<Longrightarrow>
    parse_port_items (map port_text ps) = Inr (map (\<lambda>p. mk_port (wp_port p) (wp_protocol p)) ps)"
  by (induction ps) (simp_all add: port_text_item)

lemma join_ends:
  "xs \<noteq> [] \<Longrightarrow> \<forall>x\<in>set xs. x \<noteq> [] \<Longrightarrow>
    join sep xs \<noteq> [] \<and> hd (join sep xs) = hd (hd xs) \<and> last (join sep xs) = last (last xs)"
  by (induction sep xs rule: join.induct) auto

text \<open>
  What \<open>service list\<close> prints as a service's ports is what \<open>service update --ports\<close> reads: parsing the
  formatted list of valid ports gives exactly those ports in order. The empty list, printed as
  \<open>all\<close>, is not read back: the parser refuses that word.
\<close>

theorem ports_roundtrip:
  assumes "\<forall>p\<in>set ps. port_valid (wp_port p) (wp_protocol p)"
  shows "parsePorts (formatPorts ps)
    = (if ps = [] then Inl ''invalid port'' else Inr (map (\<lambda>p. mk_port (wp_port p) (wp_protocol p)) ps))"
proof (cases "ps = []")
  case True
  have "trim_space ''all'' = ''all''" by (simp add: trim_space_ends is_space_def)
  then show ?thesis using True
    by (simp add: formatPorts_def parsePorts_def split_on_no_sep parse_port_item_def cut_none parse_int64_def
        digits_val_def is_digit_def)
next
  case False
  let ?xs = "map port_text ps"
  have item: "trim_space (port_text p) = port_text p" "port_text p \<noteq> []" "CHR '','' \<notin> set (port_text p)" if "p \<in> set ps" for p
    using port_text_item(2-4) assms that by blast+
  have ends: "\<not> is_space (hd (port_text p))" "\<not> is_space (last (port_text p))" if "p \<in> set ps" for p
    using item [OF that] trim_space_ends [of "port_text p"] by auto
  have j: "join '','' ?xs \<noteq> [] \<and> hd (join '','' ?xs) = hd (hd ?xs) \<and> last (join '','' ?xs) = last (last ?xs)"
    using False item by (intro join_ends) auto
  have "hd ?xs = port_text (hd ps)" "last ?xs = port_text (last ps)" using False by (simp_all add: hd_map last_map)
  then have "trim_space (join '','' ?xs) = join '','' ?xs"
    using False j ends [of "hd ps"] ends [of "last ps"] by (simp add: trim_space_ends)
  moreover have "split_on (CHR '','') (join '','' ?xs) = ?xs"
    using False item(3) by (intro split_on_join) auto
  ultimately show ?thesis
    using False j port_text_items [OF assms] by (simp add: formatPorts_def parsePorts_def)
qed

theorem ports_roundtrip_witness:
  "parsePorts (formatPorts [\<lparr>wp_port = 80, wp_protocol = ''tcp''\<rparr>, \<lparr>wp_port = 53, wp_protocol = ''udp''\<rparr>])
    = Inr [mk_port 80 ''tcp'', mk_port 53 ''udp'']"
  using ports_roundtrip [of "[\<lparr>wp_port = 80, wp_protocol = ''tcp''\<rparr>, \<lparr>wp_port = 53, wp_protocol = ''udp''\<rparr>]"]
  by (simp add: port_valid_def)

section \<open>Amounts\<close>

lemma div_1024:
  "1024 * (n div 1024) \<le> (n :: nat)"
  "(n :: nat) < 1024 * Suc (n div 1024)"
  using times_div_less_eq_dividend [of 1024 n] dividend_less_times_div [of 1024 n] by simp_all

lemma unit_loop_power:
  "0 < n \<Longrightarrow> \<exists>k. unit_loop n d e = (d * 1024 ^ k, e + k) \<and> 1024 ^ k \<le> n \<and> n < 1024 ^ Suc k"
proof (induction n d e rule: unit_loop.induct)
  case (1 n d e)
  show ?case
  proof (cases "n \<ge> 1024")
    case True
    then obtain k where k: "unit_loop (n div 1024) (d * 1024) (e + 1) = (d * 1024 * 1024 ^ k, e + 1 + k)"
      "1024 ^ k \<le> n div 1024" "n div 1024 < 1024 ^ Suc k"
      using "1.IH" [OF True] div_greater_zero_iff [of n 1024] True by auto
    have "1024 ^ Suc k \<le> n" "n < 1024 ^ Suc (Suc k)" using k(2,3) div_1024 [of n] by simp_all
    then show ?thesis using True k(1) by (intro exI [of _ "Suc k"]) (simp add: unit_loop.simps [of n])
  next
    case False
    then show ?thesis using 1 by (intro exI [of _ 0]) (simp add: unit_loop.simps [of n])
  qed
qed

lemma hundredths_near:
  assumes "0 < d"
  shows "2 * \<bar>int (100 * b) - int (hundredths b d * d)\<bar> \<le> int d"
proof -
  let ?q = "(100 * b) div d" and ?r = "(100 * b) mod d"
  have e: "100 * b = ?q * d + ?r" "?r < d" using assms by simp_all
  show ?thesis
  proof (cases "2 * ?r > d \<or> (2 * ?r = d \<and> odd ?q)")
    case True
    then have "hundredths b d = ?q + 1" by (simp add: hundredths_def Let_def)
    then have "int (100 * b) - int (hundredths b d * d) = int ?r - int d"
      using e(1) by (simp add: algebra_simps flip: of_nat_add of_nat_mult)
    then show ?thesis using True e(2) by auto
  next
    case False
    then have "hundredths b d = ?q" by (simp add: hundredths_def Let_def)
    then have "int (100 * b) - int (hundredths b d * d) = int ?r"
      using arg_cong [OF e(1), of int] by (simp only: of_nat_add of_nat_mult)
    then show ?thesis using False by auto
  qed
qed

text \<open>
  The amount of traffic of \<open>peers\<close>. A count below 1024 is printed as it is. From there up to 2^50, less one,
  the unit is the largest power of 1024 that is not above the count, and the number printed is within
  half a hundredth of the count in that unit. From 2^50 on, a pebibyte, there is no unit, and the
  command panics.
\<close>

theorem format_bytes_bounds:
  "(b < 1024 \<longrightarrow> formatBytes b = Some (nat_str b @ '' B''))
   \<and> (formatBytes b = None \<longleftrightarrow> 2 ^ 50 \<le> b)
   \<and> (1024 \<le> b \<and> b < 2 ^ 50 \<longrightarrow> (\<exists>e h. e < 4 \<and> 1024 ^ Suc e \<le> b \<and> b < 1024 ^ Suc (Suc e)
        \<and> 2 * \<bar>int (100 * b) - int (h * 1024 ^ Suc e)\<bar> \<le> int (1024 ^ Suc e)
        \<and> formatBytes b = Some (nat_str (h div 100) @ ''.'' @ two_digits (h mod 100) @ '' '' @ suffixes ! e)))"
proof (cases "b < 1024")
  case True
  then show ?thesis by (simp add: formatBytes_def)
next
  case False
  then have "0 < b div 1024" by auto
  then obtain k where k: "unit_loop (b div 1024) 1024 0 = (1024 * 1024 ^ k, 0 + k)"
    "1024 ^ k \<le> b div 1024" "b div 1024 < 1024 ^ Suc k"
    using unit_loop_power by blast
  have b: "1024 ^ Suc k \<le> b" "b < 1024 ^ Suc (Suc k)" using k(2,3) div_1024 [of b] by simp_all
  have four: "(1024 :: nat) ^ 5 = 2 ^ 50" by simp
  have "k < 4 \<longleftrightarrow> b < 2 ^ 50"
  proof
    assume "k < 4"
    then have "(1024 :: nat) ^ Suc (Suc k) \<le> 1024 ^ 5" by (intro power_increasing) auto
    then show "b < 2 ^ 50" using b(2) four by linarith
  next
    assume s: "b < 2 ^ 50"
    show "k < 4"
    proof (rule ccontr)
      assume "\<not> k < 4"
      then have "(1024 :: nat) ^ 5 \<le> 1024 ^ Suc k" by (intro power_increasing) auto
      then show False using b(1) s four by linarith
    qed
  qed
  moreover have "length suffixes = 4" by (simp add: suffixes_def)
  moreover have "formatBytes b = (if k < length suffixes then
      Some (nat_str (hundredths b (1024 ^ Suc k) div 100) @ ''.'' @ two_digits (hundredths b (1024 ^ Suc k) mod 100)
        @ '' '' @ suffixes ! k) else None)"
    using False k(1) by (simp add: formatBytes_def Let_def)
  ultimately show ?thesis
    using False b hundredths_near [of "1024 ^ Suc k" b] by auto
qed

text \<open>
  The order of addresses is a strict weak order, as a stable sort needs: irreflexive, transitive, and
  incomparable texts are those of one address, or equal.
\<close>

definition same_place :: "string \<Rightarrow> string \<Rightarrow> bool" where
  "same_place a b \<longleftrightarrow> parse_addr a = parse_addr b \<and> (parse_addr a = None \<longrightarrow> a = b)"

theorem ip_less_order:
  "\<not> ipLess a a \<and> (ipLess a b \<longrightarrow> ipLess b c \<longrightarrow> ipLess a c)
   \<and> (\<not> ipLess a b \<and> \<not> ipLess b a \<longleftrightarrow> same_place a b)"
  by (auto simp: ipLess_def same_place_def split: option.splits)

end
