(* ===== verification/Client.thy ===== *)
theory Client
  imports CliFormat
begin

text \<open>
  \<open>shared/client/client.go\<close>: the HTTP client of the daemon's API, and the two texts of the Go library
  it prints with. What is outside the process is a record of parameters: the environment variables,
  the parsing of URLs, the encoding of a JSON body and the exchange itself, which threads the state of
  whatever is at the other end.
\<close>

section \<open>Texts\<close>

text \<open>The verb for a quoted text. A byte of 0x80 or more is part of a printable character here, and is copied.\<close>

definition quote_byte :: "char \<Rightarrow> string" where
  "quote_byte c = (let b = byte_of c in
     if c = CHR 0x22 \<or> c = CHR 0x5C then [CHR 0x5C, c]
     else if b = 7 then [CHR 0x5C, CHR ''a''] else if b = 8 then [CHR 0x5C, CHR ''b'']
     else if b = 9 then [CHR 0x5C, CHR ''t''] else if b = 10 then [CHR 0x5C, CHR ''n'']
     else if b = 11 then [CHR 0x5C, CHR ''v''] else if b = 12 then [CHR 0x5C, CHR ''f'']
     else if b = 13 then [CHR 0x5C, CHR ''r'']
     else if b < 32 \<or> b = 127 then [CHR 0x5C, CHR ''x'', hex_digit (b div 16), hex_digit (b mod 16)]
     else [c])"

definition quote :: "string \<Rightarrow> string" where
  "quote s = [CHR 0x22] @ concat (map quote_byte s) @ [CHR 0x22]"

text \<open>\<open>url.QueryEscape\<close>.\<close>

definition unreserved :: "char \<Rightarrow> bool" where
  "unreserved c \<longleftrightarrow> is_digit c \<or> (65 \<le> byte_of c \<and> byte_of c \<le> 90) \<or> (97 \<le> byte_of c \<and> byte_of c \<le> 122)
     \<or> c \<in> set ''-_.~''"

definition upper_hex :: "nat \<Rightarrow> char" where
  "upper_hex n = (if n < 10 then digit_char n else char_of (55 + n))"

definition escape_byte :: "char \<Rightarrow> string" where
  "escape_byte c = (if unreserved c then [c] else if c = CHR '' '' then ''+''
     else [CHR ''%'', upper_hex (byte_of c div 16), upper_hex (byte_of c mod 16)])"

definition QueryEscape :: "string \<Rightarrow> string" where
  "QueryEscape s = concat (map escape_byte s)"

section \<open>The client\<close>

text \<open>\<open>cl_dial\<close> is the socket that the transport dials, whatever the URL says; \<open>None\<close> is the default transport.\<close>

record client =
  cl_dial :: "string option"
  cl_base :: string
  cl_socket :: string

datatype json = JStr string | JInt int | JBool bool

type_synonym json_object = "(string \<times> json) list"

record http_request =
  rq_method :: string
  rq_url :: string
  rq_body :: "string option"
  rq_json :: bool

text \<open>A body that breaks off has the error of reading it to the end.\<close>

record http_response =
  rs_status :: nat
  rs_body :: string
  rs_broken :: "string option"

record 's outside =
  ou_getenv :: "string \<Rightarrow> string"
  ou_parse_url :: "string \<Rightarrow> string + string"
  ou_new_request :: "string \<Rightarrow> string \<Rightarrow> string option"
  ou_marshal :: "json_object \<Rightarrow> string"
  ou_exchange :: "client \<Rightarrow> http_request \<Rightarrow> 's \<Rightarrow> (string + http_response) \<times> 's"

datatype client_error = BadPath string string | BadRequest string | SendFailed string string string
  | BodyFailed string | DecodeFailed string | APIError nat string

definition client_error_text :: "client_error \<Rightarrow> string" where
  "client_error_text e = (case e of
     BadPath p t \<Rightarrow> ''client: bad path '' @ quote p @ '': '' @ t
   | BadRequest t \<Rightarrow> t
   | SendFailed m p t \<Rightarrow> ''client: '' @ m @ '' '' @ p @ '': '' @ t
   | BodyFailed t \<Rightarrow> ''client: read body: '' @ t
   | DecodeFailed t \<Rightarrow> ''client: decode: '' @ t
   | APIError st body \<Rightarrow> ''api: status '' @ nat_str st @ '': '' @ body)"

definition IsNotFound :: "client_error \<Rightarrow> bool" where
  "IsNotFound e \<longleftrightarrow> (case e of APIError st _ \<Rightarrow> st = 404 | _ \<Rightarrow> False)"

definition clientSocketPath :: string where
  "clientSocketPath = ''/run/lightscale/lightscale.sock''"

definition new_client :: "(string \<Rightarrow> string) \<Rightarrow> string \<Rightarrow> client" where
  "new_client getenv socketPath0 =
    (let envURL = getenv ''LIGHTSCALE_URL'' in
     if envURL \<noteq> [] then \<lparr>cl_dial = None, cl_base = trim_right (\<lambda>c. c = CHR ''/'') envURL, cl_socket = []\<rparr>
     else
       let socketPath1 = (if socketPath0 = [] then getenv ''LIGHTSCALE_SOCKET'' else socketPath0);
           socketPath = (if socketPath1 = [] then clientSocketPath else socketPath1) in
       \<lparr>cl_dial = Some socketPath, cl_base = ''http://lightscale'', cl_socket = socketPath\<rparr>)"

section \<open>Calls\<close>

text \<open>A computation over the state at the other end that may fail.\<close>

type_synonym ('s, 'e, 'a) call = "'s \<Rightarrow> ('e + 'a) \<times> 's"

definition failC :: "'e \<Rightarrow> ('s, 'e, 'a) call" where
  "failC e s = (Inl e, s)"

definition retC :: "'a \<Rightarrow> ('s, 'e, 'a) call" where
  "retC x s = (Inr x, s)"

definition bindC :: "('s, 'e, 'a) call \<Rightarrow> ('a \<Rightarrow> ('s, 'e, 'b) call) \<Rightarrow> ('s, 'e, 'b) call" where
  "bindC m f s = (case m s of (Inl e, s') \<Rightarrow> (Inl e, s') | (Inr x, s') \<Rightarrow> f x s')"

definition send :: "'s outside \<Rightarrow> client \<Rightarrow> string \<Rightarrow> string \<Rightarrow> json_object option
    \<Rightarrow> ('s, client_error, http_response) call" where
  "send ou c m path0 body s =
    (let path = (if has_prefix path0 ''/'' then path0 else ''/'' @ path0) in
     case ou_parse_url ou (cl_base c @ path) of Inl t \<Rightarrow> (Inl (BadPath path t), s)
     | Inr u \<Rightarrow>
       (case ou_new_request ou m u of Some t \<Rightarrow> (Inl (BadRequest t), s)
        | None \<Rightarrow>
          (case ou_exchange ou c \<lparr>rq_method = m, rq_url = u, rq_body = map_option (ou_marshal ou) body,
               rq_json = (body \<noteq> None)\<rparr> s of
             (Inl t, s') \<Rightarrow> (Inl (SendFailed m path t), s')
           | (Inr resp, s') \<Rightarrow> (Inr resp, s'))))"

text \<open>What a call decodes its answer into: the decoder of the type, and the zero value that stays when nothing
  is decoded. Without a target (\<open>nil\<close>) the value is the zero value.\<close>

type_synonym 'a decoding = "(http_response \<Rightarrow> string + 'a) option \<times> 'a"

definition client_do :: "'s outside \<Rightarrow> client \<Rightarrow> string \<Rightarrow> string \<Rightarrow> json_object option \<Rightarrow> 'a decoding
    \<Rightarrow> ('s, client_error, 'a) call" where
  "client_do ou c m path body out = bindC (send ou c m path body) (\<lambda>resp.
     if rs_status resp div 100 \<noteq> 2 then failC (APIError (rs_status resp) (rs_body resp))
     else (case fst out of None \<Rightarrow> retC (snd out)
       | Some dec \<Rightarrow> if rs_status resp = 204 then retC (snd out)
           else (case dec resp of Inl t \<Rightarrow> failC (DecodeFailed t) | Inr x \<Rightarrow> retC x)))"

definition Get :: "'s outside \<Rightarrow> client \<Rightarrow> string \<Rightarrow> 'a decoding \<Rightarrow> ('s, client_error, 'a) call" where
  "Get ou c path out = client_do ou c ''GET'' path None out"

definition Post :: "'s outside \<Rightarrow> client \<Rightarrow> string \<Rightarrow> json_object \<Rightarrow> 'a decoding \<Rightarrow> ('s, client_error, 'a) call" where
  "Post ou c path body out = client_do ou c ''POST'' path (Some body) out"

definition Patch :: "'s outside \<Rightarrow> client \<Rightarrow> string \<Rightarrow> json_object \<Rightarrow> 'a decoding \<Rightarrow> ('s, client_error, 'a) call" where
  "Patch ou c path body out = client_do ou c ''PATCH'' path (Some body) out"

definition no_target :: "unit decoding" where
  "no_target = (None, ())"

definition Delete :: "'s outside \<Rightarrow> client \<Rightarrow> string \<Rightarrow> ('s, client_error, unit) call" where
  "Delete ou c path = client_do ou c ''DELETE'' path None no_target"

definition GetText :: "'s outside \<Rightarrow> client \<Rightarrow> string \<Rightarrow> ('s, client_error, string) call" where
  "GetText ou c path = bindC (send ou c ''GET'' path None) (\<lambda>resp.
     case rs_broken resp of Some t \<Rightarrow> failC (BodyFailed t)
     | None \<Rightarrow> if rs_status resp div 100 \<noteq> 2 then failC (APIError (rs_status resp) (rs_body resp))
         else retC (rs_body resp))"

definition Connections :: "'s outside \<Rightarrow> client \<Rightarrow> string \<Rightarrow> wire_connection list decoding
    \<Rightarrow> ('s, client_error, wire_connection list) call" where
  "Connections ou c backendAddr out =
    (let path = ''/api/connections'' @
       (if backendAddr \<noteq> [] then ''?backend_addr='' @ QueryEscape backendAddr else []) in
     Get ou c path out)"

end
