(* ===== verification/CliBase.thy ===== *)
theory CliBase
  imports Client Router
begin

text \<open>
  The ground of the commands of \<open>cli/cli\<close>: options (\<open>root.go\<close>), flags, arguments, the calls a command
  makes and how it shows a result. A command is a function of its arguments and flags over the state at
  the other end of the client; its result is the text it prints, or an error. The parsing of the command line is
  the library's, which leaves the flags given in their order, with the text of their values. A cancelled
  context shows as a failed exchange.
\<close>

section \<open>Options and flags\<close>

record options =
  op_socket :: string
  op_json :: bool

type_synonym flags = "(string \<times> string) list"

text \<open>Two flags share a variable (\<open>registerIdentityFlags\<close>); the one given last sets it.\<close>

definition flag_variable :: "string \<Rightarrow> string" where
  "flag_variable n = (if n = ''internal-hostname'' then ''domain'' else n)"

definition flag :: "flags \<Rightarrow> string \<Rightarrow> string" where
  "flag fs n = (case List.find (\<lambda>f. flag_variable (fst f) = flag_variable n) (rev fs) of
     None \<Rightarrow> [] | Some f \<Rightarrow> snd f)"

definition changed :: "flags \<Rightarrow> string \<Rightarrow> bool" where
  "changed fs n \<longleftrightarrow> n \<in> fst ` set fs"

definition flag_on :: "flags \<Rightarrow> string \<Rightarrow> bool" where
  "flag_on fs n \<longleftrightarrow> flag fs n = ''true''"

section \<open>Calls and results\<close>

record named_row =
  nr_id :: int
  nr_name :: string
  nr_lan_mode :: bool

text \<open>The decoders of replies; the error is the text of the decoder. The listings of references are read into
  pairs of type and name.\<close>

record decoders =
  rd_user :: "http_response \<Rightarrow> string + wire_user"
  rd_users :: "http_response \<Rightarrow> string + wire_user list"
  rd_user_group :: "http_response \<Rightarrow> string + wire_user_group"
  rd_user_groups :: "http_response \<Rightarrow> string + wire_user_group list"
  rd_service :: "http_response \<Rightarrow> string + wire_service"
  rd_services :: "http_response \<Rightarrow> string + wire_service list"
  rd_service_group :: "http_response \<Rightarrow> string + wire_service_group"
  rd_service_groups :: "http_response \<Rightarrow> string + wire_service_group list"
  rd_policy :: "http_response \<Rightarrow> string + wire_policy"
  rd_policies :: "http_response \<Rightarrow> string + wire_policy list"
  rd_names :: "http_response \<Rightarrow> string + (string \<times> string) list"
  rd_rows :: "http_response \<Rightarrow> string + named_row list"
  rd_status :: "http_response \<Rightarrow> string + status_snapshot"
  rd_check :: "http_response \<Rightarrow> string + origin_check"
  rd_containers :: "http_response \<Rightarrow> string + container_summary list"
  rd_peers :: "http_response \<Rightarrow> string + wire_peer list"
  rd_connections :: "http_response \<Rightarrow> string + wire_connection list"

record 's shell =
  sh_outside :: "'s outside"
  sh_decoders :: decoders
  sh_emit :: "payload \<Rightarrow> string"
  sh_options :: options

datatype cli_error = Called client_error | Complained string | BadArgs nat nat | Panicked

definition cli_error_text :: "cli_error \<Rightarrow> string" where
  "cli_error_text e = (case e of Called ce \<Rightarrow> client_error_text ce | Complained t \<Rightarrow> t
     | BadArgs n m \<Rightarrow> ''accepts '' @ nat_str n @ '' arg(s), received '' @ nat_str m
     | Panicked \<Rightarrow> ''panic'')"

type_synonym ('s, 'a) cmd = "('s, cli_error, 'a) call"

definition calling :: "('s, client_error, 'a) call \<Rightarrow> ('s, 'a) cmd" where
  "calling m s = (case m s of (r, s') \<Rightarrow> (map_sum Called id r, s'))"

definition cli_client :: "'s shell \<Rightarrow> client" where
  "cli_client sh = new_client (ou_getenv (sh_outside sh)) (op_socket (sh_options sh))"

definition into :: "(http_response \<Rightarrow> string + 'a) \<Rightarrow> 'a \<Rightarrow> 'a decoding" where
  "into dec zero = (Some dec, zero)"

definition api_get :: "'s shell \<Rightarrow> string \<Rightarrow> 'a decoding \<Rightarrow> ('s, 'a) cmd" where
  "api_get sh path t = calling (Get (sh_outside sh) (cli_client sh) path t)"

definition api_post :: "'s shell \<Rightarrow> string \<Rightarrow> json_object \<Rightarrow> 'a decoding \<Rightarrow> ('s, 'a) cmd" where
  "api_post sh path body t = calling (Post (sh_outside sh) (cli_client sh) path body t)"

definition api_patch :: "'s shell \<Rightarrow> string \<Rightarrow> json_object \<Rightarrow> 'a decoding \<Rightarrow> ('s, 'a) cmd" where
  "api_patch sh path body t = calling (Patch (sh_outside sh) (cli_client sh) path body t)"

definition api_delete :: "'s shell \<Rightarrow> string \<Rightarrow> ('s, unit) cmd" where
  "api_delete sh path = calling (Delete (sh_outside sh) (cli_client sh) path)"

definition api_text :: "'s shell \<Rightarrow> string \<Rightarrow> ('s, string) cmd" where
  "api_text sh path = calling (GetText (sh_outside sh) (cli_client sh) path)"

text \<open>The zero values of the reply types.\<close>

definition zero_user :: wire_user where
  "zero_user = \<lparr>wu_id = 0, wu_name = [], wu_email = [], wu_public_key = [], wu_preshared_key = [], wu_ip = [],
     wu_endpoint = [], wu_migrated = False, wu_created = [], wu_updated = []\<rparr>"

definition zero_user_group :: wire_user_group where
  "zero_user_group = \<lparr>wg_id = 0, wg_name = [], wg_lan_mode = False, wg_created = [], wg_updated = []\<rparr>"

definition zero_service :: wire_service where
  "zero_service = \<lparr>ws_id = 0, ws_name = [], ws_hostname = [], ws_origin_kind = [], ws_origin_value = [],
     ws_origin_network = [], ws_ip = [], ws_description = [], ws_ports = [], ws_created = [], ws_updated = []\<rparr>"

definition zero_service_group :: wire_service_group where
  "zero_service_group = \<lparr>wsg_id = 0, wsg_name = [], wsg_created = [], wsg_updated = []\<rparr>"

definition zero_policy :: wire_policy where
  "zero_policy = \<lparr>wpo_id = 0, wpo_subject_type = [], wpo_subject_id = 0, wpo_subject_name = [],
     wpo_object_type = [], wpo_object_id = 0, wpo_object_name = [], wpo_action = [], wpo_created = [], wpo_updated = []\<rparr>"

definition zero_status :: status_snapshot where
  "zero_status = \<lparr>st_running = False, st_peers = 0, st_active_flows = 0, st_started_at = 0, st_uptime_sec = 0,
     st_wireguard_udp = [], st_socket_path = []\<rparr>"

definition zero_check :: origin_check where
  "zero_check = \<lparr>oc_reachable = False, oc_dial_host = [], oc_network = [], oc_detail = [], oc_error = []\<rparr>"

section \<open>Arguments and printing\<close>

text \<open>\<open>cobra.ExactArgs\<close>.\<close>

definition exact1 :: "string list \<Rightarrow> (string \<Rightarrow> ('s, 'a) cmd) \<Rightarrow> ('s, 'a) cmd" where
  "exact1 args k = (case args of [a] \<Rightarrow> k a | _ \<Rightarrow> failC (BadArgs 1 (length args)))"

definition exact2 :: "string list \<Rightarrow> (string \<Rightarrow> string \<Rightarrow> ('s, 'a) cmd) \<Rightarrow> ('s, 'a) cmd" where
  "exact2 args k = (case args of [a, b] \<Rightarrow> k a b | _ \<Rightarrow> failC (BadArgs 2 (length args)))"

definition exact3 :: "string list \<Rightarrow> (string \<Rightarrow> string \<Rightarrow> string \<Rightarrow> ('s, 'a) cmd) \<Rightarrow> ('s, 'a) cmd" where
  "exact3 args k = (case args of [a, b, c] \<Rightarrow> k a b c | _ \<Rightarrow> failC (BadArgs 3 (length args)))"

abbreviation eol :: string where
  "eol \<equiv> [CHR 0x0A]"

text \<open>\<open>--json\<close> replaces what a command would print.\<close>

definition shown :: "'s shell \<Rightarrow> payload \<Rightarrow> string \<Rightarrow> ('s, string) cmd" where
  "shown sh p txt = retC (if op_json (sh_options sh) then sh_emit sh p else txt)"

definition complain :: "string \<Rightarrow> ('s, 'a) cmd" where
  "complain t = failC (Complained t)"

text \<open>A field of a body that is sent only when its text is not empty, or only when its flag was given.\<close>

definition unless_empty :: "string \<Rightarrow> string \<Rightarrow> json_object" where
  "unless_empty k v = (if v \<noteq> [] then [(k, JStr v)] else [])"

definition if_changed :: "flags \<Rightarrow> string \<Rightarrow> string \<Rightarrow> json_object" where
  "if_changed fs n k = (if changed fs n then [(k, JStr (flag fs n))] else [])"

end
