(* ===== verification/CliUsers.thy ===== *)
theory CliUsers
  imports CliBase
begin

text \<open>The commands of \<open>cli/cli/user.go\<close>, \<open>usergroup.go\<close> and \<open>policy.go\<close>.\<close>

section \<open>Users\<close>

definition into_users :: "'s shell \<Rightarrow> wire_user list decoding" where
  "into_users sh = into (rd_users (sh_decoders sh)) []"

definition into_user :: "'s shell \<Rightarrow> wire_user decoding" where
  "into_user sh = into (rd_user (sh_decoders sh)) zero_user"

definition lookupUserByName :: "'s shell \<Rightarrow> string \<Rightarrow> ('s, wire_user) cmd" where
  "lookupUserByName sh name = bindC (api_get sh ''/api/users'' (into_users sh)) (\<lambda>users.
     case List.find (\<lambda>u. wu_name u = name) users of
       Some u \<Rightarrow> retC u
     | None \<Rightarrow> complain (''user '' @ quote name @ '' not found''))"

definition create_user_body :: "string \<Rightarrow> flags \<Rightarrow> json_object" where
  "create_user_body name fs = [(''name'', JStr name)] @ unless_empty ''email'' (flag fs ''email'')
     @ unless_empty ''ip'' (flag fs ''ip'') @ unless_empty ''endpoint'' (flag fs ''endpoint'')"

definition user_create :: "'s shell \<Rightarrow> string list \<Rightarrow> flags \<Rightarrow> ('s, string) cmd" where
  "user_create sh args fs = exact1 args (\<lambda>name.
     bindC (api_post sh ''/api/users'' (create_user_body name fs) (into_user sh)) (\<lambda>u.
     shown sh (PUser u) (''created user '' @ wu_name u @ '' (id '' @ int_str (wu_id u) @ '', ip '' @ wu_ip u @ '')'' @ eol)))"

definition user_row :: "wire_user \<Rightarrow> string list" where
  "user_row u = [int_str (wu_id u), wu_name u, wu_ip u, wu_email u]"

definition users_table :: "wire_user list \<Rightarrow> string" where
  "users_table users = table [''ID'', ''NAME'', ''IP'', ''EMAIL''] (map user_row users)"

definition user_list :: "'s shell \<Rightarrow> string list \<Rightarrow> flags \<Rightarrow> ('s, string) cmd" where
  "user_list sh args fs = bindC (api_get sh ''/api/users'' (into_users sh)) (\<lambda>users.
     shown sh (PUsers users) (users_table users))"

definition user_get :: "'s shell \<Rightarrow> string list \<Rightarrow> flags \<Rightarrow> ('s, string) cmd" where
  "user_get sh args fs = exact1 args (\<lambda>name. bindC (lookupUserByName sh name) (\<lambda>u.
     shown sh (PUser u) (''id            '' @ int_str (wu_id u) @ eol @ ''name          '' @ wu_name u @ eol
       @ ''email         '' @ wu_email u @ eol @ ''ip            '' @ wu_ip u @ eol
       @ ''endpoint      '' @ wu_endpoint u @ eol @ ''public_key    '' @ wu_public_key u @ eol)))"

definition update_user_body :: "flags \<Rightarrow> json_object" where
  "update_user_body fs = if_changed fs ''name'' ''name'' @ if_changed fs ''email'' ''email''
     @ if_changed fs ''endpoint'' ''endpoint''"

definition user_update :: "'s shell \<Rightarrow> string list \<Rightarrow> flags \<Rightarrow> ('s, string) cmd" where
  "user_update sh args fs = exact1 args (\<lambda>name. bindC (lookupUserByName sh name) (\<lambda>u.
     let body = update_user_body fs in
     if body = [] then complain ''nothing to update''
     else bindC (api_patch sh (''/api/users/'' @ int_str (wu_id u)) body (into_user sh)) (\<lambda>out.
       shown sh (PUser out) (''updated user '' @ wu_name out @ eol))))"

definition user_delete :: "'s shell \<Rightarrow> string list \<Rightarrow> flags \<Rightarrow> ('s, string) cmd" where
  "user_delete sh args fs = exact1 args (\<lambda>name. bindC (lookupUserByName sh name) (\<lambda>u.
     bindC (api_delete sh (''/api/users/'' @ int_str (wu_id u))) (\<lambda>_.
     retC (''deleted user '' @ wu_name u @ eol))))"

definition user_config :: "'s shell \<Rightarrow> string list \<Rightarrow> flags \<Rightarrow> ('s, string) cmd" where
  "user_config sh args fs = exact1 args (\<lambda>name. bindC (lookupUserByName sh name) (\<lambda>u.
     api_text sh (''/api/users/'' @ int_str (wu_id u) @ ''/config'')))"

section \<open>User groups\<close>

definition into_user_groups :: "'s shell \<Rightarrow> wire_user_group list decoding" where
  "into_user_groups sh = into (rd_user_groups (sh_decoders sh)) []"

definition into_user_group :: "'s shell \<Rightarrow> wire_user_group decoding" where
  "into_user_group sh = into (rd_user_group (sh_decoders sh)) zero_user_group"

definition lookupUserGroupByName :: "'s shell \<Rightarrow> string \<Rightarrow> ('s, wire_user_group) cmd" where
  "lookupUserGroupByName sh name = bindC (api_get sh ''/api/user-groups'' (into_user_groups sh)) (\<lambda>groups.
     case List.find (\<lambda>g. wg_name g = name) groups of
       Some g \<Rightarrow> retC g
     | None \<Rightarrow> complain (''user-group '' @ quote name @ '' not found''))"

definition user_group_members :: "'s shell \<Rightarrow> string list \<Rightarrow> flags \<Rightarrow> ('s, string) cmd" where
  "user_group_members sh args fs = exact1 args (\<lambda>name. bindC (lookupUserGroupByName sh name) (\<lambda>g.
     bindC (api_get sh (''/api/user-groups/'' @ int_str (wg_id g) @ ''/members'') (into_users sh)) (\<lambda>users.
     shown sh (PUsers users) (users_table users))))"

definition user_group_create :: "'s shell \<Rightarrow> string list \<Rightarrow> flags \<Rightarrow> ('s, string) cmd" where
  "user_group_create sh args fs = exact1 args (\<lambda>name.
     bindC (api_post sh ''/api/user-groups'' [(''name'', JStr name), (''lan_mode'', JBool (flag_on fs ''lan-mode''))]
       (into_user_group sh)) (\<lambda>g.
     shown sh (PUserGroup g) (''created user-group '' @ wg_name g @ '' (lan_mode='' @ boolStr (wg_lan_mode g) @ '')'' @ eol)))"

definition user_group_list :: "'s shell \<Rightarrow> string list \<Rightarrow> flags \<Rightarrow> ('s, string) cmd" where
  "user_group_list sh args fs = bindC (api_get sh ''/api/user-groups'' (into_user_groups sh)) (\<lambda>groups.
     shown sh (PUserGroups groups) (table [''ID'', ''NAME'', ''LAN_MODE'']
       (map (\<lambda>g. [int_str (wg_id g), wg_name g, boolStr (wg_lan_mode g)]) groups)))"

definition user_group_get :: "'s shell \<Rightarrow> string list \<Rightarrow> flags \<Rightarrow> ('s, string) cmd" where
  "user_group_get sh args fs = exact1 args (\<lambda>name. bindC (lookupUserGroupByName sh name) (\<lambda>g.
     shown sh (PUserGroup g) (''id        '' @ int_str (wg_id g) @ eol @ ''name      '' @ wg_name g @ eol
       @ ''lan_mode  '' @ boolStr (wg_lan_mode g) @ eol)))"

definition user_group_update :: "'s shell \<Rightarrow> string list \<Rightarrow> flags \<Rightarrow> ('s, string) cmd" where
  "user_group_update sh args fs = exact1 args (\<lambda>name. bindC (lookupUserGroupByName sh name) (\<lambda>g.
     let lanMode = flag_on fs ''lan-mode''; noLAN = flag_on fs ''no-lan-mode'' in
     if lanMode \<and> noLAN then complain ''--lan-mode and --no-lan-mode are mutually exclusive''
     else
       let body = if_changed fs ''name'' ''name''
         @ (if lanMode then [(''lan_mode'', JBool True)] else if noLAN then [(''lan_mode'', JBool False)] else []) in
       if body = [] then complain ''nothing to update''
       else bindC (api_patch sh (''/api/user-groups/'' @ int_str (wg_id g)) body (into_user_group sh)) (\<lambda>out.
         shown sh (PUserGroup out) (''updated user-group '' @ wg_name out @ eol))))"

definition user_group_delete :: "'s shell \<Rightarrow> string list \<Rightarrow> flags \<Rightarrow> ('s, string) cmd" where
  "user_group_delete sh args fs = exact1 args (\<lambda>name. bindC (lookupUserGroupByName sh name) (\<lambda>g.
     bindC (api_delete sh (''/api/user-groups/'' @ int_str (wg_id g))) (\<lambda>_.
     retC (''deleted user-group '' @ wg_name g @ eol))))"

definition user_group_join :: "'s shell \<Rightarrow> string list \<Rightarrow> flags \<Rightarrow> ('s, string) cmd" where
  "user_group_join sh args fs = exact2 args (\<lambda>group name.
     bindC (lookupUserGroupByName sh group) (\<lambda>g. bindC (lookupUserByName sh name) (\<lambda>u.
     bindC (api_post sh (''/api/user-groups/'' @ int_str (wg_id g) @ ''/members'')
       [(''user_id'', JInt (wu_id u))] no_target) (\<lambda>_.
     retC (''added '' @ wu_name u @ '' to '' @ wg_name g @ eol)))))"

definition user_group_leave :: "'s shell \<Rightarrow> string list \<Rightarrow> flags \<Rightarrow> ('s, string) cmd" where
  "user_group_leave sh args fs = exact2 args (\<lambda>group name.
     bindC (lookupUserGroupByName sh group) (\<lambda>g. bindC (lookupUserByName sh name) (\<lambda>u.
     bindC (api_delete sh (''/api/user-groups/'' @ int_str (wg_id g) @ ''/members/'' @ int_str (wu_id u))) (\<lambda>_.
     retC (''removed '' @ wu_name u @ '' from '' @ wg_name g @ eol)))))"

section \<open>Policies\<close>

definition into_policies :: "'s shell \<Rightarrow> wire_policy list decoding" where
  "into_policies sh = into (rd_policies (sh_decoders sh)) []"

definition into_policy :: "'s shell \<Rightarrow> wire_policy decoding" where
  "into_policy sh = into (rd_policy (sh_decoders sh)) zero_policy"

definition policy_add :: "'s shell \<Rightarrow> string list \<Rightarrow> flags \<Rightarrow> ('s, string) cmd" where
  "policy_add sh args fs = exact3 args (\<lambda>subject object action.
     if action \<noteq> ''allow'' \<and> action \<noteq> ''deny''
     then complain (''action must be '' @ [CHR 0x27] @ ''allow'' @ [CHR 0x27] @ '' or '' @ [CHR 0x27] @ ''deny'' @ [CHR 0x27])
     else bindC (api_post sh ''/api/policies'' [(''subject_name'', JStr subject), (''object_name'', JStr object),
         (''action'', JStr action)] (into_policy sh)) (\<lambda>p.
       shown sh (PPolicy p) (''added policy #'' @ int_str (wpo_id p) @ '': '' @ wpo_subject_name p @ '' -> ''
         @ wpo_object_name p @ '' = '' @ wpo_action p @ eol)))"

definition policy_row :: "wire_policy \<Rightarrow> string list" where
  "policy_row r = [int_str (wpo_id r), wpo_subject_type r @ '':'' @ wpo_subject_name r,
     wpo_object_type r @ '':'' @ wpo_object_name r, wpo_action r]"

definition policy_list :: "'s shell \<Rightarrow> string list \<Rightarrow> flags \<Rightarrow> ('s, string) cmd" where
  "policy_list sh args fs = bindC (api_get sh ''/api/policies'' (into_policies sh)) (\<lambda>rules.
     shown sh (PPolicies rules) (table [''ID'', ''SUBJECT'', ''OBJECT'', ''ACTION''] (map policy_row rules)))"

definition policy_delete :: "'s shell \<Rightarrow> string list \<Rightarrow> flags \<Rightarrow> ('s, string) cmd" where
  "policy_delete sh args fs = exact1 args (\<lambda>raw.
     case parse_int64 raw of None \<Rightarrow> complain ''invalid id''
     | Some i \<Rightarrow> if i \<le> 0 then complain ''invalid id''
         else bindC (api_delete sh (''/api/policies/'' @ int_str i)) (\<lambda>_.
           retC (''deleted policy #'' @ int_str i @ eol)))"

end
