(* ===== verification/CliServices.thy ===== *)
theory CliServices
  imports CliUsers
begin

text \<open>
  The commands of \<open>cli/cli/service.go\<close>, \<open>servicegroup.go\<close>, \<open>status.go\<close>, \<open>dns.go\<close>, \<open>peers.go\<close> and
  \<open>connections.go\<close>.
\<close>

section \<open>The origin of a service\<close>

text \<open>The variables of \<open>originFlags\<close>; whether \<open>--network\<close> was given is asked of the command.\<close>

record origin_flags =
  of_container :: string
  of_ip :: string
  of_hostname :: string
  of_host :: bool
  of_network :: string

definition origin_flags_of :: "flags \<Rightarrow> origin_flags" where
  "origin_flags_of fs = \<lparr>of_container = flag fs ''container'', of_ip = flag fs ''ip'',
     of_hostname = flag fs ''hostname'', of_host = flag_on fs ''host'', of_network = flag fs ''network''\<rparr>"

definition picked :: "origin_flags \<Rightarrow> (string \<times> string \<times> string) list" where
  "picked o' = (if of_host o' then [(''host'', '''', ''--host'')] else [])
     @ (if of_container o' \<noteq> [] then [(''container'', of_container o', ''--container'')] else [])
     @ (if of_ip o' \<noteq> [] then [(''ip'', of_ip o', ''--ip'')] else [])
     @ (if of_hostname o' \<noteq> [] then [(''hostname'', of_hostname o', ''--hostname'')] else [])"

text \<open>\<open>Inr None\<close> is an origin left as it is.\<close>

definition resolve_origin :: "origin_flags \<Rightarrow> bool \<Rightarrow> string + (string \<times> string) option" where
  "resolve_origin o' networkChanged = (case picked o' of
     [] \<Rightarrow> if networkChanged then Inl ''--network needs a container origin (--container <name>)'' else Inr None
   | [(kind, val, f)] \<Rightarrow> Inr (Some (kind, val))
   | ps \<Rightarrow> Inl (''only one origin may be given, got '' @ join '' and '' (map (\<lambda>(kind, val, f). f) ps)))"

section \<open>Services\<close>

definition into_services :: "'s shell \<Rightarrow> wire_service list decoding" where
  "into_services sh = into (rd_services (sh_decoders sh)) []"

definition into_service :: "'s shell \<Rightarrow> wire_service decoding" where
  "into_service sh = into (rd_service (sh_decoders sh)) zero_service"

definition lookupServiceByName :: "'s shell \<Rightarrow> string \<Rightarrow> ('s, wire_service) cmd" where
  "lookupServiceByName sh name = bindC (api_get sh ''/api/services'' (into_services sh)) (\<lambda>services.
     case List.find (\<lambda>sv. ws_name sv = name) services of
       Some sv \<Rightarrow> retC sv
     | None \<Rightarrow> complain (''service '' @ quote name @ '' not found''))"

definition create_service_body :: "string \<Rightarrow> string \<Rightarrow> string \<Rightarrow> flags \<Rightarrow> json_object" where
  "create_service_body name kind val fs =
     [(''name'', JStr name), (''origin_kind'', JStr kind), (''origin_value'', JStr val)]
     @ unless_empty ''origin_network'' (flag fs ''network'') @ unless_empty ''ports'' (flag fs ''ports'')
     @ unless_empty ''hostname'' (flag fs ''domain'') @ unless_empty ''ip'' (flag fs ''internal-ip'')
     @ unless_empty ''description'' (flag fs ''description'')"

definition service_create :: "'s shell \<Rightarrow> string list \<Rightarrow> flags \<Rightarrow> ('s, string) cmd" where
  "service_create sh args fs = exact1 args (\<lambda>name.
     case resolve_origin (origin_flags_of fs) (changed fs ''network'') of
       Inl t \<Rightarrow> complain t
     | Inr None \<Rightarrow> complain ''an origin is required: pass one of --container, --ip, --hostname, or --host''
     | Inr (Some (kind, val)) \<Rightarrow>
         bindC (api_post sh ''/api/services'' (create_service_body name kind val fs) (into_service sh)) (\<lambda>sv.
         shown sh (PService sv) (''created service '' @ ws_name sv @ '' (id '' @ int_str (ws_id sv) @ '', internal ip ''
           @ ws_ip sv @ '', domain '' @ ws_hostname sv @ '', origin '' @ formatOrigin sv @ '')'' @ eol)))"

definition service_cells :: "wire_service \<Rightarrow> string list" where
  "service_cells sv = [int_str (ws_id sv), ws_name sv, ws_ip sv, ws_origin_kind sv, originValueLabel sv, ws_hostname sv]"

definition service_list :: "'s shell \<Rightarrow> string list \<Rightarrow> flags \<Rightarrow> ('s, string) cmd" where
  "service_list sh args fs = bindC (api_get sh ''/api/services'' (into_services sh)) (\<lambda>services.
     shown sh (PServices services)
       (table [''ID'', ''NAME'', ''INTERNAL IP'', ''KIND'', ''BACKEND'', ''DOMAIN'', ''PORTS'']
         (map (\<lambda>sv. service_cells sv @ [formatPorts (ws_ports sv)]) services)))"

definition service_get :: "'s shell \<Rightarrow> string list \<Rightarrow> flags \<Rightarrow> ('s, string) cmd" where
  "service_get sh args fs = exact1 args (\<lambda>name. bindC (lookupServiceByName sh name) (\<lambda>sv.
     shown sh (PService sv)
      (''id            '' @ int_str (ws_id sv) @ eol @ ''name          '' @ ws_name sv @ eol
       @ ''domain        '' @ ws_hostname sv @ eol @ ''internal ip   '' @ ws_ip sv @ eol
       @ ''origin kind   '' @ ws_origin_kind sv @ eol @ ''origin value  '' @ originValueLabel sv @ eol
       @ (if ws_origin_network sv \<noteq> [] then ''origin net    '' @ ws_origin_network sv @ eol else [])
       @ ''ports         '' @ formatPorts (ws_ports sv) @ eol @ ''description   '' @ ws_description sv @ eol)))"

definition update_service_body :: "(string \<times> string) option \<Rightarrow> flags \<Rightarrow> json_object" where
  "update_service_body origin fs = if_changed fs ''name'' ''name''
     @ (case origin of None \<Rightarrow> [] | Some (kind, val) \<Rightarrow> [(''origin_kind'', JStr kind), (''origin_value'', JStr val)])
     @ if_changed fs ''network'' ''origin_network'' @ if_changed fs ''ports'' ''ports''
     @ (if changed fs ''domain'' \<or> changed fs ''internal-hostname'' then [(''hostname'', JStr (flag fs ''domain''))] else [])
     @ if_changed fs ''internal-ip'' ''ip'' @ if_changed fs ''description'' ''description''"

definition service_update :: "'s shell \<Rightarrow> string list \<Rightarrow> flags \<Rightarrow> ('s, string) cmd" where
  "service_update sh args fs = exact1 args (\<lambda>name. bindC (lookupServiceByName sh name) (\<lambda>sv.
     case resolve_origin (origin_flags_of fs) (changed fs ''network'') of
       Inl t \<Rightarrow> complain t
     | Inr origin \<Rightarrow>
         let body = update_service_body origin fs in
         if body = [] then complain ''nothing to update''
         else bindC (api_patch sh (''/api/services/'' @ int_str (ws_id sv)) body (into_service sh)) (\<lambda>out.
           shown sh (PService out) (''updated service '' @ ws_name out @ eol))))"

definition service_delete :: "'s shell \<Rightarrow> string list \<Rightarrow> flags \<Rightarrow> ('s, string) cmd" where
  "service_delete sh args fs = exact1 args (\<lambda>name. bindC (lookupServiceByName sh name) (\<lambda>sv.
     bindC (api_delete sh (''/api/services/'' @ int_str (ws_id sv))) (\<lambda>_.
     retC (''deleted service '' @ ws_name sv @ eol))))"

definition into_containers :: "'s shell \<Rightarrow> container_summary list decoding" where
  "into_containers sh = into (rd_containers (sh_decoders sh)) []"

definition service_containers :: "'s shell \<Rightarrow> string list \<Rightarrow> flags \<Rightarrow> ('s, string) cmd" where
  "service_containers sh args fs = bindC (api_get sh ''/api/discover/containers'' (into_containers sh)) (\<lambda>containers.
     shown sh (PContainers containers)
      (if containers = [] then ''no containers visible (is a container runtime socket configured and readable?)'' @ eol
       else table [''NAME'', ''REACHABLE'', ''NETWORKS'']
         (map (\<lambda>c. [cs_cname c, boolStr (cs_shared c), join '','' (cs_networks c)]) containers)))"

definition check_text :: "string \<Rightarrow> origin_check \<Rightarrow> string" where
  "check_text name res = (if \<not> oc_reachable res
     then name @ '': NOT reachable'' @ eol @ ''  '' @ (if oc_error res = [] then oc_detail res else oc_error res) @ eol
     else name @ '': reachable'' @ eol @ ''  dials    '' @ oc_dial_host res @ eol @ ''  resolved '' @ oc_detail res @ eol
       @ (if oc_network res \<noteq> [] then ''  network  '' @ oc_network res @ eol else []))"

definition service_check :: "'s shell \<Rightarrow> string list \<Rightarrow> flags \<Rightarrow> ('s, string) cmd" where
  "service_check sh args fs = exact1 args (\<lambda>name. bindC (lookupServiceByName sh name) (\<lambda>sv.
     bindC (api_post sh (''/api/services/'' @ int_str (ws_id sv) @ ''/check'') [] (into (rd_check (sh_decoders sh)) zero_check)) (\<lambda>res.
     shown sh (PCheck res) (check_text (ws_name sv) res))))"

section \<open>Service groups\<close>

definition into_service_groups :: "'s shell \<Rightarrow> wire_service_group list decoding" where
  "into_service_groups sh = into (rd_service_groups (sh_decoders sh)) []"

definition into_service_group :: "'s shell \<Rightarrow> wire_service_group decoding" where
  "into_service_group sh = into (rd_service_group (sh_decoders sh)) zero_service_group"

definition lookupServiceGroupByName :: "'s shell \<Rightarrow> string \<Rightarrow> ('s, wire_service_group) cmd" where
  "lookupServiceGroupByName sh name = bindC (api_get sh ''/api/service-groups'' (into_service_groups sh)) (\<lambda>groups.
     case List.find (\<lambda>g. wsg_name g = name) groups of
       Some g \<Rightarrow> retC g
     | None \<Rightarrow> complain (''service-group '' @ quote name @ '' not found''))"

definition service_group_members :: "'s shell \<Rightarrow> string list \<Rightarrow> flags \<Rightarrow> ('s, string) cmd" where
  "service_group_members sh args fs = exact1 args (\<lambda>name. bindC (lookupServiceGroupByName sh name) (\<lambda>g.
     bindC (api_get sh (''/api/service-groups/'' @ int_str (wsg_id g) @ ''/members'') (into_services sh)) (\<lambda>services.
     shown sh (PServices services) (table [''ID'', ''NAME'', ''INTERNAL IP'', ''KIND'', ''BACKEND'', ''DOMAIN'']
       (map service_cells services)))))"

definition service_group_create :: "'s shell \<Rightarrow> string list \<Rightarrow> flags \<Rightarrow> ('s, string) cmd" where
  "service_group_create sh args fs = exact1 args (\<lambda>name.
     bindC (api_post sh ''/api/service-groups'' [(''name'', JStr name)] (into_service_group sh)) (\<lambda>g.
     shown sh (PServiceGroup g) (''created service-group '' @ wsg_name g @ eol)))"

definition service_group_list :: "'s shell \<Rightarrow> string list \<Rightarrow> flags \<Rightarrow> ('s, string) cmd" where
  "service_group_list sh args fs = bindC (api_get sh ''/api/service-groups'' (into_service_groups sh)) (\<lambda>groups.
     shown sh (PServiceGroups groups) (table [''ID'', ''NAME''] (map (\<lambda>g. [int_str (wsg_id g), wsg_name g]) groups)))"

definition service_group_get :: "'s shell \<Rightarrow> string list \<Rightarrow> flags \<Rightarrow> ('s, string) cmd" where
  "service_group_get sh args fs = exact1 args (\<lambda>name. bindC (lookupServiceGroupByName sh name) (\<lambda>g.
     shown sh (PServiceGroup g) (''id    '' @ int_str (wsg_id g) @ eol @ ''name  '' @ wsg_name g @ eol)))"

definition service_group_update :: "'s shell \<Rightarrow> string list \<Rightarrow> flags \<Rightarrow> ('s, string) cmd" where
  "service_group_update sh args fs = exact1 args (\<lambda>name. bindC (lookupServiceGroupByName sh name) (\<lambda>g.
     if flag fs ''name'' = [] then complain ''--name required''
     else bindC (api_patch sh (''/api/service-groups/'' @ int_str (wsg_id g)) [(''name'', JStr (flag fs ''name''))]
         (into_service_group sh)) (\<lambda>out.
       shown sh (PServiceGroup out) (''updated service-group '' @ wsg_name out @ eol))))"

definition service_group_delete :: "'s shell \<Rightarrow> string list \<Rightarrow> flags \<Rightarrow> ('s, string) cmd" where
  "service_group_delete sh args fs = exact1 args (\<lambda>name. bindC (lookupServiceGroupByName sh name) (\<lambda>g.
     bindC (api_delete sh (''/api/service-groups/'' @ int_str (wsg_id g))) (\<lambda>_.
     retC (''deleted service-group '' @ wsg_name g @ eol))))"

definition service_group_join :: "'s shell \<Rightarrow> string list \<Rightarrow> flags \<Rightarrow> ('s, string) cmd" where
  "service_group_join sh args fs = exact2 args (\<lambda>group name.
     bindC (lookupServiceGroupByName sh group) (\<lambda>g. bindC (lookupServiceByName sh name) (\<lambda>sv.
     bindC (api_post sh (''/api/service-groups/'' @ int_str (wsg_id g) @ ''/members'')
       [(''service_id'', JInt (ws_id sv))] no_target) (\<lambda>_.
     retC (''added '' @ ws_name sv @ '' to '' @ wsg_name g @ eol)))))"

definition service_group_leave :: "'s shell \<Rightarrow> string list \<Rightarrow> flags \<Rightarrow> ('s, string) cmd" where
  "service_group_leave sh args fs = exact2 args (\<lambda>group name.
     bindC (lookupServiceGroupByName sh group) (\<lambda>g. bindC (lookupServiceByName sh name) (\<lambda>sv.
     bindC (api_delete sh (''/api/service-groups/'' @ int_str (wsg_id g) @ ''/members/'' @ int_str (ws_id sv))) (\<lambda>_.
     retC (''removed '' @ ws_name sv @ '' from '' @ wsg_name g @ eol)))))"

section \<open>The daemon's state\<close>

definition status_cmd :: "'s shell \<Rightarrow> string list \<Rightarrow> flags \<Rightarrow> ('s, string) cmd" where
  "status_cmd sh args fs = bindC (api_get sh ''/api/status'' (into (rd_status (sh_decoders sh)) zero_status)) (\<lambda>st.
     shown sh (PStatus st) (''running         '' @ boolStr (st_running st) @ eol
       @ ''peers           '' @ nat_str (st_peers st) @ eol @ ''active_flows    '' @ nat_str (st_active_flows st) @ eol
       @ ''uptime_sec      '' @ int_str (st_uptime_sec st) @ eol @ ''wireguard_udp   '' @ st_wireguard_udp st @ eol
       @ ''socket_path     '' @ st_socket_path st @ eol))"

definition dns_cmd :: "'s shell \<Rightarrow> string list \<Rightarrow> flags \<Rightarrow> ('s, string) cmd" where
  "dns_cmd sh args fs = api_text sh ''/api/dns''"

text \<open>\<open>sort.SliceStable\<close>: the order it leaves is determined when \<open>lt\<close> is a strict weak order.\<close>

fun insert_by :: "('a \<Rightarrow> 'a \<Rightarrow> bool) \<Rightarrow> 'a \<Rightarrow> 'a list \<Rightarrow> 'a list" where
  "insert_by lt x [] = [x]"
| "insert_by lt x (y # ys) = (if lt y x then y # insert_by lt x ys else x # y # ys)"

definition stable_sort :: "('a \<Rightarrow> 'a \<Rightarrow> bool) \<Rightarrow> 'a list \<Rightarrow> 'a list" where
  "stable_sort lt xs = foldr (insert_by lt) xs []"

text \<open>An arrow down and an arrow up, encoded.\<close>

definition down_arrow :: string where
  "down_arrow = [CHR 0xE2, CHR 0x86, CHR 0x93]"

definition up_arrow :: string where
  "up_arrow = [CHR 0xE2, CHR 0x86, CHR 0x91]"

definition peer_row :: "wire_peer \<Rightarrow> string list option" where
  "peer_row p = (case (formatBytes (wpe_rx_bytes p), formatBytes (wpe_tx_bytes p)) of
     (Some rx, Some tx) \<Rightarrow> Some
       [nonEmpty (wpe_name p) (shortKey (wpe_public_key p)), nonEmpty (wpe_ip p) ''---'',
        formatHandshake (wpe_last_handshake p) (wpe_last_handshake_ago p),
        rx @ '' '' @ down_arrow @ '' / '' @ tx @ '' '' @ up_arrow, nonEmpty (wpe_endpoint p) ''---'']
   | _ \<Rightarrow> None)"

definition peers_table :: "wire_peer list \<Rightarrow> string option" where
  "peers_table peers = map_option (table [''NAME'', ''VPN_IP'', ''HANDSHAKE'', ''TRANSFER'', ''ENDPOINT''])
     (those (map peer_row (stable_sort (\<lambda>p q. ipLess (wpe_ip p) (wpe_ip q)) peers)))"

definition peers_cmd :: "'s shell \<Rightarrow> string list \<Rightarrow> flags \<Rightarrow> ('s, string) cmd" where
  "peers_cmd sh args fs = bindC (api_get sh ''/api/peers'' (into (rd_peers (sh_decoders sh)) [])) (\<lambda>peers.
     if op_json (sh_options sh) then retC (sh_emit sh (PPeers peers))
     else (case peers_table peers of None \<Rightarrow> failC Panicked | Some t \<Rightarrow> retC t))"

definition flow_less :: "wire_connection \<Rightarrow> wire_connection \<Rightarrow> bool" where
  "flow_less f g = (if wc_src_ip f \<noteq> wc_src_ip g then ipLess (wc_src_ip f) (wc_src_ip g)
     else ipLess (wc_object_ip f) (wc_object_ip g))"

definition connection_row :: "wire_connection \<Rightarrow> string list" where
  "connection_row f =
    (let src = nonEmpty (wc_src_name f) (''user#'' @ int_str (wc_src_user_id f));
         dst = nonEmpty (wc_object_name f) (wc_object_type f @ ''#'' @ int_str (wc_object_id f)) in
     [nat_str (wc_id f), src @ (if wc_src_ip f \<noteq> [] then '' ('' @ wc_src_ip f @ '')'' else []), wc_object_type f,
      dst @ (if wc_object_ip f \<noteq> [] then '' ('' @ wc_object_ip f @ '')'' else []),
      int_str (wc_port f) @ ''/'' @ wc_protocol f])"

definition connections_text :: "wire_connection list \<Rightarrow> string" where
  "connections_text flows =
    (let rows = map connection_row (stable_sort flow_less flows) in
     if rows = [] then ''(no active flows)'' @ eol else table [''ID'', ''FROM'', ''TYPE'', ''TO'', ''PORT/PROTO''] rows)"

definition connections_cmd :: "'s shell \<Rightarrow> string list \<Rightarrow> flags \<Rightarrow> ('s, string) cmd" where
  "connections_cmd sh args fs = bindC (api_get sh ''/api/connections'' (into (rd_connections (sh_decoders sh)) [])) (\<lambda>flows.
     shown sh (PConnections flows) (connections_text flows))"

end
