(* ===== verification/CliPreview.thy ===== *)
theory CliPreview
  imports CliServices "HOL-Library.State_Monad"
begin

text \<open>
  The previews of \<open>cli/cli\<close>: what a command run with \<open>--help\<close> says it would do. \<open>preview.go\<close>, \<open>preview_user.go\<close>
  and \<open>preview_policy.go\<close>. A preview threads the previewer (whether the daemon could be asked) and the state at the other
  end, so it is a computation of the state monad. The static part of the help is the command library's.
\<close>

section \<open>The previewer\<close>

record previewer =
  pv_offline :: bool
  pv_reason :: string

type_synonym ('s, 'a) preview = "(previewer \<times> 's, 'a) state"

type_synonym 's preview_fn = "'s shell \<Rightarrow> string list \<Rightarrow> flags \<Rightarrow> ('s, string + string list) preview"

definition preview_get :: "'s shell \<Rightarrow> string \<Rightarrow> 'a decoding \<Rightarrow> ('s, 'a option) preview" where
  "preview_get sh path t = State (\<lambda>(p, s).
     if pv_offline p then (None, (p, s))
     else (case api_get sh path t s of
         (Inl e, s') \<Rightarrow> (None, (p\<lparr>pv_offline := True, pv_reason := cli_error_text e\<rparr>, s'))
       | (Inr x, s') \<Rightarrow> (Some x, (p, s'))))"

definition is_offline :: "('s, bool) preview" where
  "is_offline = State (\<lambda>(p, s). (pv_offline p, (p, s)))"

text \<open>A call that leaves the previewer alone.\<close>

definition aside :: "('s, 'a) cmd \<Rightarrow> ('s, cli_error + 'a) preview" where
  "aside m = State (\<lambda>(p, s). case m s of (r, s') \<Rightarrow> (r, (p, s')))"

definition lines_of :: "string list \<Rightarrow> ('s, string + string list) preview" where
  "lines_of ls = State_Monad.return (Inr ls)"

definition print_lines :: "string list \<Rightarrow> string" where
  "print_lines ls = concat (map (\<lambda>l. ''  '' @ l @ eol) ls)"

definition runPreview :: "'s shell \<Rightarrow> string \<Rightarrow> 's preview_fn \<Rightarrow> string list \<Rightarrow> flags \<Rightarrow> 's \<Rightarrow> string \<times> 's" where
  "runPreview sh static fn args fs s =
    (case run_state (fn sh args fs) (\<lparr>pv_offline = False, pv_reason = []\<rparr>, s) of (r, (p, s')) \<Rightarrow>
      (static @ eol @ ''What this would do'' @ eol @
       (if pv_offline p \<or> (\<exists>e. r = Inl e) then
          print_lines [''(could not reach the daemon, so this is the static description only)'',
            (case r of Inl e \<Rightarrow> e | Inr _ \<Rightarrow> pv_reason p)]
        else print_lines (case r of Inl e \<Rightarrow> [] | Inr ls \<Rightarrow> ls)
          @ eol @ ''Nothing was changed. Re-run without --help to apply.'' @ eol), s'))"

definition missingArg :: "string list \<Rightarrow> nat \<Rightarrow> string \<Rightarrow> string" where
  "missingArg args i placeholder = (if i < length args \<and> args ! i \<noteq> [] then args ! i else ''<'' @ placeholder @ ''>'')"

section \<open>Users\<close>

definition principalNameTaken :: "'s shell \<Rightarrow> string \<Rightarrow> ('s, string option) preview" where
  "principalNameTaken sh name = do {
     principals \<leftarrow> preview_get sh ''/api/principals'' (into (rd_names (sh_decoders sh)) []);
     State_Monad.return (case principals of None \<Rightarrow> None
       | Some ps \<Rightarrow> map_option fst (List.find (\<lambda>pr. snd pr = name) ps)) }"

definition lookupUser :: "'s shell \<Rightarrow> string \<Rightarrow> ('s, wire_user option) preview" where
  "lookupUser sh name = do {
     users \<leftarrow> preview_get sh ''/api/users'' (into_users sh);
     State_Monad.return (case users of None \<Rightarrow> None | Some us \<Rightarrow> List.find (\<lambda>u. wu_name u = name) us) }"

definition taken_line :: "string \<Rightarrow> string option \<Rightarrow> string list" where
  "taken_line name taken = (case taken of None \<Rightarrow> []
     | Some kind \<Rightarrow> [''conflict: the name '' @ quote name @ '' is already used by a '' @ kind])"

definition no_such :: "string \<Rightarrow> string \<Rightarrow> string list" where
  "no_such noun name = [''no '' @ noun @ '' named '' @ quote name @ '' exists, so this would fail'']"

definition previewUserCreate :: "'s preview_fn" where
  "previewUserCreate sh args fs =
    (let name = missingArg args 0 ''name'';
         start = [''create user '' @ quote name]
           @ (if flag fs ''email'' \<noteq> [] then [''email:       '' @ flag fs ''email''] else [])
           @ (if flag fs ''ip'' \<noteq> [] then [''mesh ip:     '' @ flag fs ''ip'']
              else [''mesh ip:     next free address in the client subnet''])
           @ (if flag fs ''endpoint'' \<noteq> [] then [''endpoint:    '' @ flag fs ''endpoint'' @ '' (overrides the server default)''] else [])
           @ [''generates a keypair and preshared key, stored by the daemon'',
              ''afterwards: lightscale user config '' @ name @ '' prints the client .conf''] in do {
       taken \<leftarrow> principalNameTaken sh name;
       users \<leftarrow> (if flag fs ''ip'' \<noteq> [] then preview_get sh ''/api/users'' (into_users sh) else State_Monad.return None);
       lines_of (start @ taken_line name taken
         @ map (\<lambda>u. ''conflict: ip '' @ flag fs ''ip'' @ '' already belongs to user '' @ quote (wu_name u))
             (filter (\<lambda>u. wu_ip u = flag fs ''ip'') (case users of None \<Rightarrow> [] | Some us \<Rightarrow> us))) })"

definition arrow_line :: "string \<Rightarrow> nat \<Rightarrow> string \<Rightarrow> string \<Rightarrow> string" where
  "arrow_line label w old new = padRight (label @ '':'') w @ '' '' @ old @ '' -> '' @ new"

definition previewUserUpdate :: "'s preview_fn" where
  "previewUserUpdate sh args fs =
    (let name = missingArg args 0 ''name'' in do {
       found \<leftarrow> lookupUser sh name;
       offline \<leftarrow> is_offline;
       (if offline then lines_of [] else case found of None \<Rightarrow> lines_of (no_such ''user'' name)
        | Some u \<Rightarrow>
          let changes = filter (\<lambda>(f, cur). changed fs f)
                [(''name'', wu_name u), (''email'', wu_email u), (''endpoint'', wu_endpoint u)] in
          lines_of ([''update user '' @ quote (wu_name u) @ '' (id '' @ int_str (wu_id u) @ '')'']
            @ map (\<lambda>(f, cur). arrow_line f 10 (if cur = [] then ''(unset)'' else cur)
                 (if flag fs f = [] then ''(cleared)'' else flag fs f)) changes
            @ (if changes = [] then [''nothing to update: no fields were given''] else []))) })"

text \<open>The policies that go with what is deleted, or that there is none.\<close>

definition also_removes :: "wire_policy \<Rightarrow> string" where
  "also_removes pol = ''also removes policy #'' @ int_str (wpo_id pol) @ '': '' @ wpo_subject_name pol @ '' -> ''
     @ wpo_object_name pol @ '' = '' @ wpo_action pol"

definition removed_lines :: "(wire_policy \<Rightarrow> bool) \<Rightarrow> string \<Rightarrow> wire_policy list option \<Rightarrow> string list" where
  "removed_lines goes noun policies = (case policies of None \<Rightarrow> []
     | Some ps \<Rightarrow> if filter goes ps = [] then [''no policies reference this '' @ noun]
         else map also_removes (filter goes ps))"

definition user_goes :: "int \<Rightarrow> wire_policy \<Rightarrow> bool" where
  "user_goes i pol \<longleftrightarrow> wpo_subject_type pol = ''user'' \<and> wpo_subject_id pol = i"

definition previewUserDelete :: "'s preview_fn" where
  "previewUserDelete sh args fs =
    (let name = missingArg args 0 ''name'' in do {
       found \<leftarrow> lookupUser sh name;
       offline \<leftarrow> is_offline;
       (if offline then lines_of [] else case found of None \<Rightarrow> lines_of (no_such ''user'' name)
        | Some u \<Rightarrow> do {
            policies \<leftarrow> preview_get sh ''/api/policies'' (into_policies sh);
            lines_of ([''delete user '' @ quote (wu_name u) @ '' (id '' @ int_str (wu_id u) @ '', mesh ip '' @ wu_ip u @ '')'',
                ''their device can no longer connect, and the mesh ip is freed for reuse'']
              @ removed_lines (user_goes (wu_id u)) ''user'' policies) }) })"

section \<open>Policies\<close>

definition named_lines :: "string \<Rightarrow> string \<Rightarrow> string \<Rightarrow> (string \<times> string) list option \<Rightarrow> string list" where
  "named_lines label name missing refs = (case refs of None \<Rightarrow> []
     | Some rs \<Rightarrow> (let hits = filter (\<lambda>r. snd r = name) rs in
         if hits = [] then [missing] else map (\<lambda>r. label @ fst r @ '' '' @ quote name) hits))"

definition same_pair_line :: "string \<Rightarrow> wire_policy \<Rightarrow> string" where
  "same_pair_line action pol = (if wpo_action pol = action
     then ''policy #'' @ int_str (wpo_id pol) @ '' already says exactly this, so nothing would change''
     else ''replaces policy #'' @ int_str (wpo_id pol) @ '', which currently says '' @ wpo_action pol)"

definition previewPolicyAdd :: "'s preview_fn" where
  "previewPolicyAdd sh args fs =
    (let subject = missingArg args 0 ''subject''; object = missingArg args 1 ''object'';
         action = missingArg args 2 ''allow|deny'' in do {
       principals \<leftarrow> preview_get sh ''/api/principals'' (into (rd_names (sh_decoders sh)) []);
       objects \<leftarrow> preview_get sh ''/api/objects'' (into (rd_names (sh_decoders sh)) []);
       policies \<leftarrow> preview_get sh ''/api/policies'' (into_policies sh);
       lines_of ([''add policy: '' @ subject @ '' -> '' @ object @ '' = '' @ action]
         @ (if action \<noteq> ''allow'' \<and> action \<noteq> ''deny'' \<and> length args > 2
            then [''error: action must be '' @ [CHR 0x27] @ ''allow'' @ [CHR 0x27] @ '' or '' @ [CHR 0x27] @ ''deny''
                @ [CHR 0x27] @ '', got '' @ quote action] else [])
         @ named_lines ''subject:  '' subject (''conflict: no user or user group named '' @ quote subject @ '' exists'') principals
         @ named_lines ''object:   '' object
             (''conflict: nothing named '' @ quote object @ '' exists to grant access to'') objects
         @ map (same_pair_line action) (filter (\<lambda>pol. wpo_subject_name pol = subject \<and> wpo_object_name pol = object)
             (case policies of None \<Rightarrow> [] | Some ps \<Rightarrow> ps))) })"

definition policy_lines :: "wire_policy \<Rightarrow> string list" where
  "policy_lines pol = [''delete policy #'' @ int_str (wpo_id pol) @ '': '' @ wpo_subject_name pol @ '' -> ''
       @ wpo_object_name pol @ '' = '' @ wpo_action pol,
     quote (wpo_subject_name pol) @ '' loses whatever access this rule granted, and open flows are closed'']"

definition previewPolicyDelete :: "'s preview_fn" where
  "previewPolicyDelete sh args fs =
    (let raw = missingArg args 0 ''id'' in
     case parse_int64 raw of
       None \<Rightarrow> lines_of [''delete policy '' @ raw, ''error: the id must be a number (see: lightscale policy list)'']
     | Some i \<Rightarrow> do {
         policies \<leftarrow> preview_get sh ''/api/policies'' (into_policies sh);
         (case policies of None \<Rightarrow> lines_of []
          | Some ps \<Rightarrow> (case List.find (\<lambda>pol. wpo_id pol = i) ps of Some pol \<Rightarrow> lines_of (policy_lines pol)
              | None \<Rightarrow> lines_of [''no policy #'' @ int_str i @ '' exists, so this would fail''])) })"

end
