(* ===== verification/CliPreviewMore.thy ===== *)
theory CliPreviewMore
  imports CliPreview
begin

text \<open>The previews of groups and services: \<open>cli/cli/preview_group.go\<close> and \<open>preview_service.go\<close>.\<close>

section \<open>Groups\<close>

definition objectNameTaken :: "'s shell \<Rightarrow> string \<Rightarrow> ('s, string option) preview" where
  "objectNameTaken sh name = do {
     objects \<leftarrow> preview_get sh ''/api/objects'' (into (rd_names (sh_decoders sh)) []);
     State_Monad.return (case objects of None \<Rightarrow> None
       | Some os \<Rightarrow> map_option fst (List.find (\<lambda>ob. snd ob = name) os)) }"

record 's group_preview =
  gp_noun :: string
  gp_member_noun :: string
  gp_list_path :: string
  gp_member_path :: string
  gp_taken :: "'s shell \<Rightarrow> string \<Rightarrow> ('s, string option) preview"

definition userGroups :: "'s group_preview" where
  "userGroups = \<lparr>gp_noun = ''user group'', gp_member_noun = ''user'', gp_list_path = ''/api/user-groups'',
     gp_member_path = ''/api/users'', gp_taken = principalNameTaken\<rparr>"

definition serviceGroups :: "'s group_preview" where
  "serviceGroups = \<lparr>gp_noun = ''service group'', gp_member_noun = ''service'', gp_list_path = ''/api/service-groups'',
     gp_member_path = ''/api/services'', gp_taken = objectNameTaken\<rparr>"

definition find_row :: "'s shell \<Rightarrow> string \<Rightarrow> string \<Rightarrow> ('s, named_row option) preview" where
  "find_row sh path name = do {
     rows \<leftarrow> preview_get sh path (into (rd_rows (sh_decoders sh)) []);
     State_Monad.return (case rows of None \<Rightarrow> None | Some rs \<Rightarrow> List.find (\<lambda>r. nr_name r = name) rs) }"

definition group_previewCreate :: "'s group_preview \<Rightarrow> 's preview_fn" where
  "group_previewCreate g sh args fs =
    (let name = missingArg args 0 ''name'' in do {
       taken \<leftarrow> gp_taken g sh name;
       lines_of ([''create '' @ gp_noun g @ '' '' @ quote name]
         @ (if changed fs ''lan-mode'' \<and> flag fs ''lan-mode'' = ''true''
            then [''lan mode: on, so members can reach each other directly''] else [])
         @ [''add members with '' @ quote (''join '' @ name @ '' <'' @ gp_member_noun g @ ''>'')]
         @ taken_line name taken) })"

definition group_goes :: "'s group_preview \<Rightarrow> int \<Rightarrow> wire_policy \<Rightarrow> bool" where
  "group_goes g i pol = (let want = (if gp_member_noun g = ''service'' then ''service_group'' else ''user_group'') in
     (wpo_subject_type pol = want \<and> wpo_subject_id pol = i) \<or> (wpo_object_type pol = want \<and> wpo_object_id pol = i))"

definition group_previewDelete :: "'s group_preview \<Rightarrow> 's preview_fn" where
  "group_previewDelete g sh args fs =
    (let name = missingArg args 0 ''name'' in do {
       found \<leftarrow> find_row sh (gp_list_path g) name;
       offline \<leftarrow> is_offline;
       (if offline then lines_of [] else case found of None \<Rightarrow> lines_of (no_such (gp_noun g) name)
        | Some row \<Rightarrow> do {
            policies \<leftarrow> preview_get sh ''/api/policies'' (into_policies sh);
            lines_of ([''delete '' @ gp_noun g @ '' '' @ quote (nr_name row) @ '' (id '' @ int_str (nr_id row) @ '')'',
                ''members are not deleted, they just stop being in this group'']
              @ removed_lines (group_goes g (nr_id row)) ''group'' policies) }) })"

definition group_previewUpdate :: "'s group_preview \<Rightarrow> 's preview_fn" where
  "group_previewUpdate g sh args fs =
    (let name = missingArg args 0 ''name'' in do {
       found \<leftarrow> find_row sh (gp_list_path g) name;
       offline \<leftarrow> is_offline;
       (if offline then lines_of [] else case found of None \<Rightarrow> lines_of (no_such (gp_noun g) name)
        | Some row \<Rightarrow> lines_of ([''update '' @ gp_noun g @ '' '' @ quote (nr_name row) @ '' (id '' @ int_str (nr_id row) @ '')'']
            @ (if changed fs ''name'' then [''name:     '' @ nr_name row @ '' -> '' @ flag fs ''name''] else [])
            @ (if changed fs ''lan-mode''
               then [''lan mode: '' @ boolStr (nr_lan_mode row) @ '' -> '' @ flag fs ''lan-mode''] else [])
            @ (if \<not> changed fs ''name'' \<and> \<not> changed fs ''lan-mode''
               then [''nothing to update: no fields were given''] else []))) })"

definition group_previewJoin :: "'s group_preview \<Rightarrow> 's preview_fn" where
  "group_previewJoin g sh args fs =
    (let group = missingArg args 0 ''group''; member = missingArg args 1 (gp_member_noun g) in do {
       found \<leftarrow> find_row sh (gp_list_path g) group;
       found_member \<leftarrow> find_row sh (gp_member_path g) member;
       offline \<leftarrow> is_offline;
       (if offline then lines_of [] else lines_of
         ([''add '' @ gp_member_noun g @ '' '' @ quote member @ '' to '' @ gp_noun g @ '' '' @ quote group]
          @ (if found = None then [''conflict: no '' @ gp_noun g @ '' named '' @ quote group @ '' exists''] else [])
          @ (if found_member = None
             then [''conflict: no '' @ gp_member_noun g @ '' named '' @ quote member @ '' exists''] else [])
          @ [''any policy granting access to '' @ quote group @ '' then applies to '' @ quote member])) })"

definition group_previewLeave :: "'s group_preview \<Rightarrow> 's preview_fn" where
  "group_previewLeave g sh args fs =
    (let group = missingArg args 0 ''group''; member = missingArg args 1 (gp_member_noun g) in do {
       found \<leftarrow> find_row sh (gp_list_path g) group;
       offline \<leftarrow> is_offline;
       (if offline then lines_of [] else lines_of
         ([''remove '' @ gp_member_noun g @ '' '' @ quote member @ '' from '' @ gp_noun g @ '' '' @ quote group]
          @ (if found = None
             then [''note: no '' @ gp_noun g @ '' named '' @ quote group @ '' exists; leaving is a no-op''] else [])
          @ [''access granted only through '' @ quote group @ '' is lost, and open flows are closed''])) })"

section \<open>Services\<close>

definition commonDomainSuffix :: "wire_service list \<Rightarrow> string" where
  "commonDomainSuffix services =
    (case List.find (\<lambda>sv. case cut (CHR ''.'') (ws_hostname sv) of None \<Rightarrow> False | Some (_, rest) \<Rightarrow> rest \<noteq> []) services of
       None \<Rightarrow> []
     | Some sv \<Rightarrow> (case cut (CHR ''.'') (ws_hostname sv) of None \<Rightarrow> [] | Some (_, rest) \<Rightarrow> rest))"

text \<open>The IPv4 addresses of the services in their order; \<open>any\<close> is the lowest.\<close>

definition service_addrs :: "wire_service list \<Rightarrow> 32 word list" where
  "service_addrs services = concat (map (\<lambda>sv. case parse_addr (ws_ip sv) of Some (V4 a) \<Rightarrow> [a] | _ \<Rightarrow> []) services)"

definition lowest :: "32 word list \<Rightarrow> 32 word option" where
  "lowest addrs = foldl (\<lambda>any a. case any of None \<Rightarrow> Some a | Some b \<Rightarrow> if a < b then Some a else any) None addrs"

lemma word_next_gt: "(c :: 32 word) + 1 \<noteq> 0 \<Longrightarrow> unat (c + 1) = Suc (unat c)"
  by (metis Suc_eq_plus1 add.commute unatSuc)

lemma word_next_decreases:
  assumes "(c :: 32 word) + 1 \<noteq> 0"
  shows "2 ^ 32 - unat (c + 1) < 2 ^ 32 - unat c"
  using unat32_lt [of "c + 1"] word_next_gt [OF assms] by (metis Suc_lessD diff_less_mono2 lessI)

text \<open>The search ends at the last address, whose successor is not valid.\<close>

function next_free :: "32 word list \<Rightarrow> 32 word \<Rightarrow> string" where
  "next_free taken c = (if c \<notin> set taken then addr_string (V4 c)
     else if c + 1 = 0 then [] else next_free taken (c + 1))"
  by pat_completeness auto

termination by (relation "measure (\<lambda>(taken, c). 2 ^ 32 - unat c)") (use word_next_decreases in auto)

declare next_free.simps [simp del]

definition nextFreeIP :: "wire_service list \<Rightarrow> string" where
  "nextFreeIP services = (case lowest (service_addrs services) of None \<Rightarrow> []
     | Some any \<Rightarrow> next_free (service_addrs services) any)"

text \<open>The texts of \<open>origin.Validate\<close>'s errors; \<open>s\<close> is the origin as normalised there.\<close>

definition origin_error_text :: "spec \<Rightarrow> origin_error \<Rightarrow> string" where
  "origin_error_text s e =
    (let addr = (case parse_addr (o_value s) of None \<Rightarrow> [] | Some a \<Rightarrow> addr_string a) in case e of
       UnknownKind \<Rightarrow> ''origin: unknown kind '' @ quote (o_kind s) @ '' (want one of host, container, ip, hostname)''
     | NetworkNotAllowed \<Rightarrow> ''origin: network is only valid with kind '' @ quote Container
     | HostTakesNoValue \<Rightarrow> ''origin: kind '' @ quote Host @ '' takes no value (got '' @ quote (o_value s) @ '')''
     | ValueRequired \<Rightarrow> ''origin: kind '' @ quote (o_kind s) @ '' requires a value''
     | NotAnIP \<Rightarrow> ''origin: '' @ quote (o_value s) @ '' is not a valid ip address''
     | RefusedLoopback \<Rightarrow> ''origin: refusing loopback backend '' @ addr @ '' (use kind '' @ quote Host
         @ '' to target the gateway intentionally)''
     | RefusedLinkLocal \<Rightarrow> ''origin: refusing link-local backend '' @ addr
     | RefusedUnspecified \<Rightarrow> ''origin: refusing unspecified backend '' @ addr
     | RefusedMulticast \<Rightarrow> ''origin: refusing multicast backend '' @ addr)"

definition validateOrigin :: "string \<Rightarrow> string \<Rightarrow> string \<Rightarrow> string option" where
  "validateOrigin kind val network =
    (case validate \<lparr>o_kind = kind, o_value = val, o_network = network\<rparr> of Inr _ \<Rightarrow> None
     | Inl e \<Rightarrow> Some (origin_error_text \<lparr>o_kind = to_lower (trim_space kind), o_value = trim_space val,
         o_network = trim_space network\<rparr> e))"

definition origin_label :: "string \<Rightarrow> string \<Rightarrow> string" where
  "origin_label kind val = (if val \<noteq> [] then kind @ '' '' @ val else kind)"

definition origin_error_line :: "string \<Rightarrow> string \<Rightarrow> string \<Rightarrow> string list" where
  "origin_error_line kind val network = (case validateOrigin kind val network of None \<Rightarrow> [] | Some t \<Rightarrow> [''error: '' @ t])"

text \<open>The domain that the preview expects, and what it says of domain, address and ports.\<close>

definition expected_domain :: "string \<Rightarrow> flags \<Rightarrow> wire_service list \<Rightarrow> string" where
  "expected_domain name fs services =
    (let domain = (if flag fs ''domain'' = [] then flag fs ''internal-hostname'' else flag fs ''domain'') in
     if domain \<noteq> [] then domain
     else if commonDomainSuffix services \<noteq> [] then name @ ''.'' @ commonDomainSuffix services else [])"

definition identity_lines :: "string \<Rightarrow> string \<Rightarrow> flags \<Rightarrow> wire_service list \<Rightarrow> string list" where
  "identity_lines name kind fs services =
    (let given = (if flag fs ''domain'' = [] then flag fs ''internal-hostname'' else flag fs ''domain'');
         domain = expected_domain name fs services in
     [if given \<noteq> [] then ''domain:      '' @ given
      else if domain \<noteq> [] then ''domain:      '' @ domain @ ''  (auto)''
      else ''domain:      <name>.<the daemon'' @ [CHR 0x27] @ ''s configured domain>  (auto)'',
      if flag fs ''internal-ip'' \<noteq> [] then ''internal ip: '' @ flag fs ''internal-ip''
      else if nextFreeIP services \<noteq> [] then ''internal ip: '' @ nextFreeIP services @ ''  (auto, next free)''
      else ''internal ip: next free address in the service subnet  (auto)'',
      if flag fs ''ports'' \<noteq> [] then ''ports:       '' @ flag fs ''ports''
      else if kind = ''host'' then ''error: a host service must declare --ports''
      else ''ports:       all (no --ports given)''])"

definition conflict_lines :: "string \<Rightarrow> flags \<Rightarrow> wire_service \<Rightarrow> string list" where
  "conflict_lines domain fs sv =
     (if domain \<noteq> [] \<and> ws_hostname sv = domain
      then [''conflict: domain '' @ domain @ '' already belongs to service '' @ quote (ws_name sv)] else [])
     @ (if flag fs ''internal-ip'' \<noteq> [] \<and> ws_ip sv = flag fs ''internal-ip''
        then [''conflict: internal ip '' @ flag fs ''internal-ip'' @ '' already belongs to service '' @ quote (ws_name sv)] else [])"

definition backend_lines :: "string \<Rightarrow> container_summary list option \<Rightarrow> string list" where
  "backend_lines val containers = (case containers of None \<Rightarrow> []
     | Some cs \<Rightarrow> (let hits = filter (\<lambda>c. cs_cname c = val) cs in
         if hits = [] then [''warning: no running container named '' @ quote val @ '' is visible'']
         else map (\<lambda>c. if cs_shared c
           then ''backend:     container '' @ quote val @ '' is on a shared network ('' @ join '', '' (cs_networks c)
             @ ''), reachable by name''
           else ''backend:     container '' @ quote val
             @ '' shares no network with the daemon, so it would be resolved through the runtime socket'') hits))"

definition previewServiceCreate :: "'s preview_fn" where
  "previewServiceCreate sh args fs =
    (let name = missingArg args 0 ''name'' in
     case resolve_origin (origin_flags_of fs) (changed fs ''network'') of
       Inl t \<Rightarrow> lines_of [''error: '' @ t]
     | Inr origin \<Rightarrow>
       let kind = (case origin of None \<Rightarrow> [] | Some (k, v) \<Rightarrow> k); val = (case origin of None \<Rightarrow> [] | Some (k, v) \<Rightarrow> v);
           start = [''create service '' @ quote name @ '' backed by ''
               @ (if origin = None then ''<none given>'' else origin_label kind val)]
             @ (if origin = None then [''error: an origin is required (--container, --ip, --hostname, or --host)'']
                else origin_error_line kind val (flag fs ''network'')) in do {
         found \<leftarrow> preview_get sh ''/api/services'' (into_services sh);
         (case found of None \<Rightarrow> lines_of []
          | Some services \<Rightarrow> do {
              taken \<leftarrow> objectNameTaken sh name;
              containers \<leftarrow> (if kind = ''container'' \<and> val \<noteq> []
                then preview_get sh ''/api/discover/containers'' (into_containers sh) else State_Monad.return None);
              lines_of (start @ identity_lines name kind fs services @ taken_line name taken
                @ concat (map (conflict_lines (expected_domain name fs services) fs) services)
                @ backend_lines val containers) }) })"

definition service_fields :: "wire_service \<Rightarrow> (string \<times> string \<times> string) list" where
  "service_fields sv = [(''name'', ''name'', ws_name sv), (''domain'', ''domain'', ws_hostname sv),
     (''internal-hostname'', ''domain'', ws_hostname sv), (''internal-ip'', ''internal ip'', ws_ip sv),
     (''ports'', ''ports'', formatPorts (ws_ports sv)), (''description'', ''description'', ws_description sv)]"

definition previewServiceUpdate :: "'s preview_fn" where
  "previewServiceUpdate sh args fs =
    (let name = missingArg args 0 ''name'' in do {
       found \<leftarrow> aside (lookupServiceByName sh name);
       (case found of Inl e \<Rightarrow> lines_of (no_such ''service'' name)
        | Inr sv \<Rightarrow>
          (case resolve_origin (origin_flags_of fs) (changed fs ''network'') of
             Inl t \<Rightarrow> lines_of [''error: '' @ t]
           | Inr origin \<Rightarrow>
             let changes = filter (\<lambda>(f, label, cur). changed fs f) (service_fields sv) in
             lines_of ([''update service '' @ quote (ws_name sv) @ '' (id '' @ int_str (ws_id sv) @ '')'']
               @ (case origin of None \<Rightarrow> []
                  | Some (kind, val) \<Rightarrow>
                      [''backend:     '' @ origin_label (ws_origin_kind sv) (ws_origin_value sv) @ '' -> '' @ origin_label kind val]
                      @ origin_error_line kind val (flag fs ''network''))
               @ map (\<lambda>(f, label, cur). arrow_line label 12 cur (flag fs f)) changes
               @ (if origin = None \<and> changes = [] then [''nothing to update: no fields were given''] else [])))) })"

definition service_goes :: "int \<Rightarrow> wire_policy \<Rightarrow> bool" where
  "service_goes i pol \<longleftrightarrow> wpo_object_type pol = ''service'' \<and> wpo_object_id pol = i"

definition previewServiceDelete :: "'s preview_fn" where
  "previewServiceDelete sh args fs =
    (let name = missingArg args 0 ''name'' in do {
       found \<leftarrow> aside (lookupServiceByName sh name);
       (case found of Inl e \<Rightarrow> lines_of (no_such ''service'' name)
        | Inr sv \<Rightarrow> do {
            policies \<leftarrow> preview_get sh ''/api/policies'' (into_policies sh);
            lines_of ([''delete service '' @ quote (ws_name sv) @ '' (id '' @ int_str (ws_id sv) @ '', internal ip '' @ ws_ip sv @ '')'']
              @ removed_lines (service_goes (ws_id sv)) ''service'' policies
              @ [''its VIP stops accepting connections and active flows are closed'']) }) })"

end
