(* ===== verification/CliCommands.thy ===== *)
theory CliCommands
  imports CliPreviewMore
begin

text \<open>
  The command tree of \<open>cli/cli\<close> (\<open>New\<close> of \<open>root.go\<close> and the functions that build each group of commands) and what runs
  for a command, with and without \<open>--help\<close>. \<open>serve\<close> is modelled with the web interface.
\<close>

section \<open>The tree\<close>

datatype command = UserCreate | UserList | UserGet | UserUpdate | UserDelete | UserConfig
  | UserGroupCreate | UserGroupList | UserGroupGet | UserGroupUpdate | UserGroupDelete | UserGroupJoin
  | UserGroupLeave | UserGroupMembers
  | ServiceCreate | ServiceList | ServiceGet | ServiceUpdate | ServiceDelete | ServiceCheck | ServiceContainers
  | ServiceGroupCreate | ServiceGroupList | ServiceGroupGet | ServiceGroupUpdate | ServiceGroupDelete
  | ServiceGroupJoin | ServiceGroupLeave | ServiceGroupMembers
  | PolicyAdd | PolicyList | PolicyDelete
  | StatusCmd | DnsCmd | PeersCmd | ConnectionsCmd | ServeCmd

definition newUserCmd :: "(string list \<times> command) list" where
  "newUserCmd = [([''create''], UserCreate), ([''list''], UserList), ([''get''], UserGet), ([''update''], UserUpdate),
     ([''delete''], UserDelete), ([''config''], UserConfig)]"

definition newUserGroupCmd :: "(string list \<times> command) list" where
  "newUserGroupCmd = [([''create''], UserGroupCreate), ([''list''], UserGroupList), ([''get''], UserGroupGet),
     ([''update''], UserGroupUpdate), ([''delete''], UserGroupDelete), ([''join''], UserGroupJoin),
     ([''leave''], UserGroupLeave), ([''members''], UserGroupMembers)]"

text \<open>A command's names: its own and its aliases.\<close>

definition newServiceCmd :: "(string list \<times> command) list" where
  "newServiceCmd = [([''create''], ServiceCreate), ([''list''], ServiceList), ([''get''], ServiceGet),
     ([''update''], ServiceUpdate), ([''delete''], ServiceDelete), ([''check'', ''test''], ServiceCheck),
     ([''containers''], ServiceContainers)]"

definition newServiceGroupCmd :: "(string list \<times> command) list" where
  "newServiceGroupCmd = [([''create''], ServiceGroupCreate), ([''list''], ServiceGroupList), ([''get''], ServiceGroupGet),
     ([''update''], ServiceGroupUpdate), ([''delete''], ServiceGroupDelete), ([''join''], ServiceGroupJoin),
     ([''leave''], ServiceGroupLeave), ([''members''], ServiceGroupMembers)]"

definition newPolicyCmd :: "(string list \<times> command) list" where
  "newPolicyCmd = [([''add''], PolicyAdd), ([''list''], PolicyList), ([''delete''], PolicyDelete)]"

definition groups_of_commands :: "(string \<times> (string list \<times> command) list) list" where
  "groups_of_commands = [(''user'', newUserCmd), (''user-group'', newUserGroupCmd), (''service'', newServiceCmd),
     (''service-group'', newServiceGroupCmd), (''policy'', newPolicyCmd)]"

definition single_commands :: "(string list \<times> command) list" where
  "single_commands = [([''status''], StatusCmd), ([''dns''], DnsCmd), ([''peers''], PeersCmd),
     ([''connections'', ''conns''], ConnectionsCmd), ([''serve''], ServeCmd)]"

text \<open>The command that words name.\<close>

definition named_command :: "(string list \<times> command) list \<Rightarrow> string \<Rightarrow> command option" where
  "named_command cs w = map_option snd (List.find (\<lambda>c. w \<in> set (fst c)) cs)"

definition find_command :: "string list \<Rightarrow> (command \<times> string list) option" where
  "find_command ws = (case ws of [] \<Rightarrow> None
     | w # ws' \<Rightarrow> (case map_of groups_of_commands w of
           Some cs \<Rightarrow> (case ws' of [] \<Rightarrow> None | v # args \<Rightarrow> map_option (\<lambda>c. (c, args)) (named_command cs v))
         | None \<Rightarrow> map_option (\<lambda>c. (c, ws')) (named_command single_commands w)))"

section \<open>What runs\<close>

definition run_users :: "command \<Rightarrow> 's shell \<Rightarrow> string list \<Rightarrow> flags \<Rightarrow> ('s, string) cmd" where
  "run_users c = (case c of
     UserCreate \<Rightarrow> user_create | UserList \<Rightarrow> user_list | UserGet \<Rightarrow> user_get | UserUpdate \<Rightarrow> user_update
   | UserDelete \<Rightarrow> user_delete | UserConfig \<Rightarrow> user_config
   | UserGroupCreate \<Rightarrow> user_group_create | UserGroupList \<Rightarrow> user_group_list | UserGroupGet \<Rightarrow> user_group_get
   | UserGroupUpdate \<Rightarrow> user_group_update | UserGroupDelete \<Rightarrow> user_group_delete | UserGroupJoin \<Rightarrow> user_group_join
   | UserGroupLeave \<Rightarrow> user_group_leave | UserGroupMembers \<Rightarrow> user_group_members
   | PolicyAdd \<Rightarrow> policy_add | PolicyList \<Rightarrow> policy_list | PolicyDelete \<Rightarrow> policy_delete
   | _ \<Rightarrow> (\<lambda>sh args fs. complain []))"

definition run_services :: "command \<Rightarrow> 's shell \<Rightarrow> string list \<Rightarrow> flags \<Rightarrow> ('s, string) cmd" where
  "run_services c = (case c of
     ServiceCreate \<Rightarrow> service_create | ServiceList \<Rightarrow> service_list | ServiceGet \<Rightarrow> service_get
   | ServiceUpdate \<Rightarrow> service_update | ServiceDelete \<Rightarrow> service_delete | ServiceCheck \<Rightarrow> service_check
   | ServiceContainers \<Rightarrow> service_containers
   | ServiceGroupCreate \<Rightarrow> service_group_create | ServiceGroupList \<Rightarrow> service_group_list
   | ServiceGroupGet \<Rightarrow> service_group_get | ServiceGroupUpdate \<Rightarrow> service_group_update
   | ServiceGroupDelete \<Rightarrow> service_group_delete | ServiceGroupJoin \<Rightarrow> service_group_join
   | ServiceGroupLeave \<Rightarrow> service_group_leave | ServiceGroupMembers \<Rightarrow> service_group_members
   | StatusCmd \<Rightarrow> status_cmd | DnsCmd \<Rightarrow> dns_cmd | PeersCmd \<Rightarrow> peers_cmd | ConnectionsCmd \<Rightarrow> connections_cmd
   | _ \<Rightarrow> (\<lambda>sh args fs. complain []))"

definition of_users :: "command \<Rightarrow> bool" where
  "of_users c \<longleftrightarrow> c \<in> snd ` set (newUserCmd @ newUserGroupCmd @ newPolicyCmd)"

definition run_command :: "command \<Rightarrow> 's shell \<Rightarrow> string list \<Rightarrow> flags \<Rightarrow> ('s, string) cmd" where
  "run_command c = (if of_users c then run_users c else run_services c)"

text \<open>The commands that \<open>withPreview\<close> wraps; the others print the library's help.\<close>

definition preview_of :: "command \<Rightarrow> 's preview_fn option" where
  "preview_of c = (case c of
     UserCreate \<Rightarrow> Some previewUserCreate | UserUpdate \<Rightarrow> Some previewUserUpdate | UserDelete \<Rightarrow> Some previewUserDelete
   | UserGroupCreate \<Rightarrow> Some (group_previewCreate userGroups) | UserGroupUpdate \<Rightarrow> Some (group_previewUpdate userGroups)
   | UserGroupDelete \<Rightarrow> Some (group_previewDelete userGroups) | UserGroupJoin \<Rightarrow> Some (group_previewJoin userGroups)
   | UserGroupLeave \<Rightarrow> Some (group_previewLeave userGroups)
   | ServiceCreate \<Rightarrow> Some previewServiceCreate | ServiceUpdate \<Rightarrow> Some previewServiceUpdate
   | ServiceDelete \<Rightarrow> Some previewServiceDelete
   | ServiceGroupCreate \<Rightarrow> Some (group_previewCreate serviceGroups)
   | ServiceGroupUpdate \<Rightarrow> Some (group_previewUpdate serviceGroups)
   | ServiceGroupDelete \<Rightarrow> Some (group_previewDelete serviceGroups)
   | ServiceGroupJoin \<Rightarrow> Some (group_previewJoin serviceGroups)
   | ServiceGroupLeave \<Rightarrow> Some (group_previewLeave serviceGroups)
   | PolicyAdd \<Rightarrow> Some previewPolicyAdd | PolicyDelete \<Rightarrow> Some previewPolicyDelete
   | _ \<Rightarrow> None)"

definition run_help :: "command \<Rightarrow> 's shell \<Rightarrow> string \<Rightarrow> string list \<Rightarrow> flags \<Rightarrow> 's \<Rightarrow> string \<times> 's" where
  "run_help c sh static args fs s = (case preview_of c of None \<Rightarrow> (static, s)
     | Some fn \<Rightarrow> runPreview sh static fn args fs s)"

text \<open>The commands that only show something.\<close>

definition is_view :: "command \<Rightarrow> bool" where
  "is_view c \<longleftrightarrow> c \<in> {UserList, UserGet, UserConfig, UserGroupList, UserGroupGet, UserGroupMembers, PolicyList,
     ServiceList, ServiceGet, ServiceContainers, ServiceGroupList, ServiceGroupGet, ServiceGroupMembers,
     StatusCmd, DnsCmd, PeersCmd, ConnectionsCmd}"

section \<open>Asking changes nothing\<close>

text \<open>
  The other end, as far as previews and views care: a relation that \<open>GET\<close> requests stay in. It is stated for the
  exchange alone, so that it holds of anything behind the client.
\<close>

locale reader =
  fixes exchange :: "client \<Rightarrow> http_request \<Rightarrow> 's \<Rightarrow> (string + http_response) \<times> 's"
    and near :: "'s \<Rightarrow> 's \<Rightarrow> bool"
  assumes near_refl: "near s s"
    and near_trans: "near s t \<Longrightarrow> near t u \<Longrightarrow> near s u"
    and get_near: "rq_method rq = ''GET'' \<Longrightarrow> near s (snd (exchange c rq s))"
begin

definition calm :: "('s, 'e, 'a) call \<Rightarrow> bool" where
  "calm m \<longleftrightarrow> (\<forall>s. near s (snd (m s)))"

lemma calm_basic [simp, intro]: "calm (retC x)" "calm (failC e)" "calm (complain t)" "calm (shown sh p txt)"
  by (simp_all add: calm_def retC_def failC_def complain_def shown_def near_refl)

lemma calm_bind [intro]: "calm m \<Longrightarrow> (\<And>x. calm (f x)) \<Longrightarrow> calm (bindC m f)"
  by (auto simp: calm_def bindC_def split: prod.split sum.split) (metis near_trans snd_conv)+

lemma calm_args [intro]:
  "(\<And>a. calm (k1 a)) \<Longrightarrow> calm (exact1 args k1)"
  "(\<And>a b. calm (k2 a b)) \<Longrightarrow> calm (exact2 args k2)"
  by (auto simp: exact1_def exact2_def split: list.split)

lemma calm_send:
  assumes "ou_exchange (sh_outside sh) = exchange"
  shows "calm (send (sh_outside sh) c ''GET'' path body)"
proof -
  have "near s (snd (exchange c (rq\<lparr>rq_method := ''GET''\<rparr>) s))" for rq s
    by (rule get_near) simp
  from this [of _ "\<lparr>rq_method = ''GET'', rq_url = u, rq_body = b, rq_json = j\<rparr>" for u b j]
  show ?thesis
    using assms by (auto simp: calm_def send_def Let_def near_refl split: sum.split option.split prod.split)
       (metis snd_conv)+
qed

lemma calm_calling [simp]: "calm (calling m) = calm m"
  by (simp add: calm_def calling_def split_def)

lemma calm_get [intro]:
  assumes "ou_exchange (sh_outside sh) = exchange"
  shows "calm (api_get sh path t)"
  unfolding api_get_def Get_def client_do_def calm_calling
  by (intro calm_bind calm_send [OF assms]) (simp split: option.split sum.split)

lemma calm_text [intro]:
  assumes "ou_exchange (sh_outside sh) = exchange"
  shows "calm (api_text sh path)"
  unfolding api_text_def GetText_def calm_calling
  by (intro calm_bind calm_send [OF assms]) (simp split: option.split)

lemma calm_lookups [intro]:
  assumes "ou_exchange (sh_outside sh) = exchange"
  shows "calm (lookupUserByName sh name)" "calm (lookupUserGroupByName sh name)"
    "calm (lookupServiceByName sh name)" "calm (lookupServiceGroupByName sh name)"
  unfolding lookupUserByName_def lookupUserGroupByName_def lookupServiceByName_def lookupServiceGroupByName_def
  by (intro calm_bind calm_get [OF assms]; simp split: option.split)+

lemma calm_user_views:
  assumes "ou_exchange (sh_outside sh) = exchange"
  shows "calm (user_list sh args fs)" "calm (user_get sh args fs)" "calm (user_config sh args fs)"
    "calm (user_group_list sh args fs)" "calm (user_group_get sh args fs)" "calm (user_group_members sh args fs)"
    "calm (policy_list sh args fs)"
  unfolding user_list_def user_get_def user_config_def user_group_list_def user_group_get_def
    user_group_members_def policy_list_def
  by (intro calm_args calm_bind calm_get calm_text calm_lookups assms calm_basic)+

lemma calm_service_views:
  assumes "ou_exchange (sh_outside sh) = exchange"
  shows "calm (service_list sh args fs)" "calm (service_get sh args fs)" "calm (service_containers sh args fs)"
    "calm (service_group_list sh args fs)" "calm (service_group_get sh args fs)" "calm (service_group_members sh args fs)"
    "calm (status_cmd sh args fs)" "calm (dns_cmd sh args fs)" "calm (connections_cmd sh args fs)"
  unfolding service_list_def service_get_def service_containers_def service_group_list_def service_group_get_def
    service_group_members_def status_cmd_def dns_cmd_def connections_cmd_def
  by (intro calm_args calm_bind calm_get calm_text calm_lookups assms calm_basic)+

lemma calm_peers:
  assumes "ou_exchange (sh_outside sh) = exchange"
  shows "calm (peers_cmd sh args fs)"
  unfolding peers_cmd_def by (intro calm_bind calm_get assms) (simp split: option.split)

lemma calm_views:
  assumes "ou_exchange (sh_outside sh) = exchange" and "is_view c"
  shows "calm (run_command c sh args fs)"
  using assms(2) calm_user_views [OF assms(1)] calm_service_views [OF assms(1)] calm_peers [OF assms(1)]
  by (cases c) (simp_all add: is_view_def run_command_def of_users_def newUserCmd_def newUserGroupCmd_def
      newPolicyCmd_def run_users_def run_services_def)

text \<open>Previews.\<close>

definition calm_preview :: "('s, 'a) preview \<Rightarrow> bool" where
  "calm_preview m \<longleftrightarrow> (\<forall>p s. near s (snd (snd (run_state m (p, s)))))"

lemma calm_preview_bind [intro]:
  "calm_preview m \<Longrightarrow> (\<And>x. calm_preview (f x)) \<Longrightarrow> calm_preview (State_Monad.bind m f)"
proof -
  assume m: "calm_preview m" and f: "\<And>x. calm_preview (f x)"
  have "near s (snd (snd (run_state (State_Monad.bind m f) (p, s))))" for p s
  proof -
    obtain x p' s' where r: "run_state m (p, s) = (x, (p', s'))" by (metis surj_pair)
    have "near s (snd (snd (run_state m (p, s))))" using m by (simp add: calm_preview_def)
    then have "near s s'" by (simp add: r)
    moreover have "near s' (snd (snd (run_state (f x) (p', s'))))" using f by (simp add: calm_preview_def)
    ultimately show ?thesis using r near_trans by simp
  qed
  then show ?thesis by (simp add: calm_preview_def)
qed

lemma calm_preview_basic [simp, intro]:
  "calm_preview (State_Monad.return x)" "calm_preview (lines_of ls)" "calm_preview is_offline"
  by (simp_all add: calm_preview_def lines_of_def is_offline_def near_refl)

lemma calm_preview_aside [intro]: "calm m \<Longrightarrow> calm_preview (aside m)"
  by (simp add: calm_preview_def aside_def calm_def split_def)

lemma calm_preview_get [intro]:
  assumes "ou_exchange (sh_outside sh) = exchange"
  shows "calm_preview (preview_get sh path t)"
proof -
  have "near s (snd (api_get sh path t s))" for s using calm_get [OF assms, of path t] by (simp add: calm_def)
  from this show ?thesis
    by (auto simp: calm_preview_def preview_get_def near_refl split: prod.split sum.split) (metis snd_conv)+
qed

lemma calm_preview_lookups [intro]:
  assumes "ou_exchange (sh_outside sh) = exchange"
  shows "calm_preview (principalNameTaken sh name)" "calm_preview (objectNameTaken sh name)"
    "calm_preview (lookupUser sh name)" "calm_preview (find_row sh path name)"
  unfolding principalNameTaken_def objectNameTaken_def lookupUser_def find_row_def
  by (intro calm_preview_bind calm_preview_get [OF assms]; simp)+

lemma calm_user_previews:
  assumes "ou_exchange (sh_outside sh) = exchange"
  shows "calm_preview (previewUserCreate sh args fs)" "calm_preview (previewUserUpdate sh args fs)"
    "calm_preview (previewUserDelete sh args fs)" "calm_preview (previewPolicyAdd sh args fs)"
    "calm_preview (previewPolicyDelete sh args fs)"
proof -
  note g = calm_preview_get [OF assms] calm_preview_lookups [OF assms]
  show "calm_preview (previewUserCreate sh args fs)" unfolding previewUserCreate_def Let_def
    by (intro calm_preview_bind) (simp_all add: g)
  show "calm_preview (previewUserUpdate sh args fs)" unfolding previewUserUpdate_def Let_def
    by (intro calm_preview_bind) (simp_all add: g split: option.split)
  show "calm_preview (previewUserDelete sh args fs)" unfolding previewUserDelete_def Let_def
    by (intro calm_preview_bind) (simp_all add: g calm_preview_bind split: option.split)
  show "calm_preview (previewPolicyAdd sh args fs)" unfolding previewPolicyAdd_def Let_def
    by (intro calm_preview_bind) (simp_all add: g)
  show "calm_preview (previewPolicyDelete sh args fs)" unfolding previewPolicyDelete_def Let_def
    by (auto intro!: calm_preview_bind simp: g split: option.split)
qed

lemma calm_group_previews:
  assumes "ou_exchange (sh_outside sh) = exchange" and "\<And>name. calm_preview (gp_taken g sh name)"
  shows "calm_preview (group_previewCreate g sh args fs)" "calm_preview (group_previewUpdate g sh args fs)"
    "calm_preview (group_previewDelete g sh args fs)" "calm_preview (group_previewJoin g sh args fs)"
    "calm_preview (group_previewLeave g sh args fs)"
  unfolding group_previewCreate_def group_previewUpdate_def group_previewDelete_def group_previewJoin_def
    group_previewLeave_def Let_def
  by (auto intro!: calm_preview_bind assms(2) calm_preview_get [OF assms(1)] calm_preview_lookups [OF assms(1)]
      split: option.split)

lemma calm_service_previews:
  assumes "ou_exchange (sh_outside sh) = exchange"
  shows "calm_preview (previewServiceCreate sh args fs)" "calm_preview (previewServiceUpdate sh args fs)"
    "calm_preview (previewServiceDelete sh args fs)"
proof -
  note g = calm_preview_get [OF assms] calm_preview_lookups [OF assms] calm_preview_aside [OF calm_lookups(3) [OF assms]]
  show "calm_preview (previewServiceCreate sh args fs)" unfolding previewServiceCreate_def Let_def
    by (auto intro!: calm_preview_bind simp: g split: option.split sum.split)
  show "calm_preview (previewServiceUpdate sh args fs)" unfolding previewServiceUpdate_def Let_def
    by (auto intro!: calm_preview_bind simp: g split: option.split sum.split)
  show "calm_preview (previewServiceDelete sh args fs)" unfolding previewServiceDelete_def Let_def
    by (auto intro!: calm_preview_bind simp: g split: option.split sum.split)
qed

lemma calm_previews:
  fixes fn :: "'s preview_fn"
  assumes "ou_exchange (sh_outside sh) = exchange" and "preview_of c = Some fn"
  shows "calm_preview (fn sh args fs)"
proof -
  note g = calm_user_previews [OF assms(1)] calm_service_previews [OF assms(1)]
  have u: "calm_preview (gp_taken userGroups sh name)" "calm_preview (gp_taken serviceGroups sh name)" for name
    by (simp_all add: userGroups_def serviceGroups_def calm_preview_lookups [OF assms(1)])
  note h = calm_group_previews [OF assms(1) u(1)] calm_group_previews [OF assms(1) u(2)]
  show ?thesis using assms(2) g h by (cases c) (auto simp: preview_of_def)
qed

lemma calm_help:
  assumes "ou_exchange (sh_outside sh) = exchange"
  shows "near s (snd (run_help c sh static args fs s))"
proof (cases "preview_of c :: 's preview_fn option")
  case (Some fn)
  have "near s (snd (snd (run_state (fn sh args fs) (p, s))))" for p
    using calm_previews [OF assms Some] by (simp add: calm_preview_def)
  then show ?thesis using Some by (simp add: run_help_def runPreview_def split_def)
qed (simp add: run_help_def near_refl)

end

end
