(* ===== verification/CliDaemon.thy ===== *)
theory CliDaemon
  imports CliCommands Requests
begin

text \<open>
  The client in front of the daemon: an exchange of the client is a request served by the API server of
  \<open>Router\<close>. What lies between them (the transport, the router, the JSON library) is a record of parameters, with what the
  program relies on of them as named laws.
\<close>

section \<open>The wire\<close>

text \<open>The state at the other end is the daemon, with the number of requests it has seen: each has its own surroundings.\<close>

record wiring =
  wi_os :: os
  wi_router :: router
  wi_codec :: codec
  wi_surroundings :: "nat \<Rightarrow> surroundings"
  wi_socket :: string
  wi_url :: "string \<Rightarrow> string \<times> string"
  wi_reply :: "payload reply \<Rightarrow> http_response"

definition request_of :: "wiring \<Rightarrow> http_request \<Rightarrow> request" where
  "request_of wi rq = \<lparr>q_method = rq_method rq, q_path = fst (wi_url wi (rq_url rq)),
     q_body = (case rq_body rq of None \<Rightarrow> [] | Some b \<Rightarrow> b), q_backend_addr = snd (wi_url wi (rq_url rq))\<rparr>"

text \<open>A client that dials another socket finds nobody; a handler that does not return leaves the client to its timeout.\<close>

definition exchange :: "wiring \<Rightarrow> client \<Rightarrow> http_request \<Rightarrow> nat \<times> daemon \<Rightarrow> (string + http_response) \<times> nat \<times> daemon" where
  "exchange wi c rq s = (case s of (n, dm) \<Rightarrow>
     if cl_dial c \<noteq> Some (wi_socket wi) then (Inl ''no such file or directory'', (n, dm))
     else (case serve_http (wi_os wi) (wi_router wi) (wi_codec wi) (wi_surroundings wi n) (request_of wi rq) dm of
         None \<Rightarrow> (Inl ''timeout'', (Suc n, dm))
       | Some (rep, dm') \<Rightarrow> (Inr (wi_reply wi rep), (Suc n, dm'))))"

text \<open>The router only finds routes of the table, under their method.\<close>

definition routed :: "router \<Rightarrow> bool" where
  "routed rt \<longleftrightarrow> (\<forall>m p h ps. rt routes m p = Inr (h, ps) \<longrightarrow> (\<exists>pat. (m, pat, h) \<in> set routes))"

lemma routedD: "routed rt \<Longrightarrow> rt routes m p = Inr (h, ps) \<Longrightarrow> \<exists>pat. (m, pat, h) \<in> set routes"
  unfolding routed_def by blast

definition undisturbed :: "wiring \<Rightarrow> nat \<times> daemon \<Rightarrow> nat \<times> daemon \<Rightarrow> bool" where
  "undisturbed wi s t \<longleftrightarrow> (routed (wi_router wi) \<longrightarrow> same_plane (snd s) (snd t))"

lemma same_plane_trans: "same_plane a b \<Longrightarrow> same_plane b c \<Longrightarrow> same_plane a c"
  by (simp add: same_plane_def)

interpretation asked: reader "exchange wi" "undisturbed wi" for wi
proof unfold_locales
  fix s t u :: "nat \<times> daemon"
  show "undisturbed wi s s" by (simp add: undisturbed_def)
  show "undisturbed wi s t \<Longrightarrow> undisturbed wi t u \<Longrightarrow> undisturbed wi s u"
    by (auto simp: undisturbed_def intro: same_plane_trans)
  fix c :: client and rq :: http_request
  assume get: "rq_method rq = ''GET''"
  obtain n dm where s: "s = (n, dm)" by (cases s)
  have "same_plane dm dm'" if "routed (wi_router wi)"
    and "serve_http (wi_os wi) (wi_router wi) (wi_codec wi) (wi_surroundings wi n) (request_of wi rq) dm = Some (rep, dm')"
    for rep dm'
    by (rule serve_get [OF _ _ that(2)]) (auto simp: request_of_def get dest: routedD [OF that(1)])
  then show "undisturbed wi s (snd (exchange wi c rq s))"
    by (auto simp: s exchange_def undisturbed_def split: option.split)
qed

end
