(* ===== verification/CliLaws.thy ===== *)
theory CliLaws
  imports CliDaemon "HOL-Library.Countable"
begin

text \<open>
  What the client and the server rely on between them: that \<open>encoding/json\<close> reads back what it wrote, by the tags of
  \<open>shared/wire\<close>; that paths pass through URLs unchanged; that the router matches its patterns. And a
  wire on which all of this holds.
\<close>

section \<open>Request bodies\<close>

text \<open>The fields of an object, by the tags of \<open>wire.go\<close>. A missing field keeps its zero value.\<close>

definition str_field :: "json_object \<Rightarrow> string \<Rightarrow> string option" where
  "str_field ob k = (case map_of ob k of None \<Rightarrow> Some [] | Some (JStr s) \<Rightarrow> Some s | _ \<Rightarrow> None)"

definition int_field :: "json_object \<Rightarrow> string \<Rightarrow> int option" where
  "int_field ob k = (case map_of ob k of None \<Rightarrow> Some 0 | Some (JInt i) \<Rightarrow> Some i | _ \<Rightarrow> None)"

definition bool_field :: "json_object \<Rightarrow> string \<Rightarrow> bool option" where
  "bool_field ob k = (case map_of ob k of None \<Rightarrow> Some False | Some (JBool b) \<Rightarrow> Some b | _ \<Rightarrow> None)"

text \<open>A field that is a pointer.\<close>

definition opt_str_field :: "json_object \<Rightarrow> string \<Rightarrow> string option option" where
  "opt_str_field ob k = (case map_of ob k of None \<Rightarrow> Some None | Some (JStr s) \<Rightarrow> Some (Some s) | _ \<Rightarrow> None)"

definition opt_bool_field :: "json_object \<Rightarrow> string \<Rightarrow> bool option option" where
  "opt_bool_field ob k = (case map_of ob k of None \<Rightarrow> Some None | Some (JBool b) \<Rightarrow> Some (Some b) | _ \<Rightarrow> None)"

definition read_create_user :: "json_object \<Rightarrow> create_user_req option" where
  "read_create_user ob = (case (str_field ob ''name'', str_field ob ''email'', str_field ob ''ip'', str_field ob ''endpoint'') of
     (Some a, Some b, Some c, Some e) \<Rightarrow> Some \<lparr>cur_name = a, cur_email = b, cur_ip = c, cur_endpoint = e\<rparr> | _ \<Rightarrow> None)"

definition read_update_user :: "json_object \<Rightarrow> update_user_req option" where
  "read_update_user ob = (case (opt_str_field ob ''name'', opt_str_field ob ''email'', opt_str_field ob ''endpoint'') of
     (Some a, Some b, Some c) \<Rightarrow> Some \<lparr>uur_name = a, uur_email = b, uur_endpoint = c\<rparr> | _ \<Rightarrow> None)"

definition read_create_user_group :: "json_object \<Rightarrow> create_user_group_req option" where
  "read_create_user_group ob = (case (str_field ob ''name'', bool_field ob ''lan_mode'') of
     (Some a, Some b) \<Rightarrow> Some \<lparr>cugr_name = a, cugr_lan_mode = b\<rparr> | _ \<Rightarrow> None)"

definition read_update_user_group :: "json_object \<Rightarrow> update_user_group_req option" where
  "read_update_user_group ob = (case (opt_str_field ob ''name'', opt_bool_field ob ''lan_mode'') of
     (Some a, Some b) \<Rightarrow> Some \<lparr>uugr_name = a, uugr_lan_mode = b\<rparr> | _ \<Rightarrow> None)"

definition read_user_member :: "json_object \<Rightarrow> user_group_member_req option" where
  "read_user_member ob = (case (int_field ob ''user_id'', str_field ob ''user_name'') of
     (Some a, Some b) \<Rightarrow> Some \<lparr>ugm_user_id = a, ugm_user_name = b\<rparr> | _ \<Rightarrow> None)"

definition read_service_member :: "json_object \<Rightarrow> service_group_member_req option" where
  "read_service_member ob = (case (int_field ob ''service_id'', str_field ob ''service_name'') of
     (Some a, Some b) \<Rightarrow> Some \<lparr>sgm_service_id = a, sgm_service_name = b\<rparr> | _ \<Rightarrow> None)"

definition read_create_policy :: "json_object \<Rightarrow> create_policy_req option" where
  "read_create_policy ob = (case (str_field ob ''subject_type'', int_field ob ''subject_id'', str_field ob ''subject_name'',
       str_field ob ''object_type'', int_field ob ''object_id'', str_field ob ''object_name'', str_field ob ''action'') of
     (Some a, Some b, Some c, Some e, Some f, Some g, Some h) \<Rightarrow> Some \<lparr>cpr_subject_type = a, cpr_subject_id = b,
        cpr_subject_name = c, cpr_object_type = e, cpr_object_id = f, cpr_object_name = g, cpr_action = h\<rparr>
   | _ \<Rightarrow> None)"

definition body_laws :: "(json_object \<Rightarrow> string) \<Rightarrow> codec \<Rightarrow> bool" where
  "body_laws marshal c \<longleftrightarrow> (\<forall>ob. distinct (map fst ob) \<longrightarrow>
     dec_create_user c (marshal ob) = read_create_user ob
     \<and> dec_update_user c (marshal ob) = read_update_user ob
     \<and> dec_create_user_group c (marshal ob) = read_create_user_group ob
     \<and> dec_update_user_group c (marshal ob) = read_update_user_group ob
     \<and> dec_create_service_group c (marshal ob) = str_field ob ''name''
     \<and> dec_update_service_group c (marshal ob) = opt_str_field ob ''name''
     \<and> dec_user_member c (marshal ob) = read_user_member ob
     \<and> dec_service_member c (marshal ob) = read_service_member ob
     \<and> dec_create_policy c (marshal ob) = read_create_policy ob)"

section \<open>Replies\<close>

text \<open>The status is the one written; the recovery from a panic answers 500.\<close>

definition status_laws :: "(payload reply \<Rightarrow> http_response) \<Rightarrow> bool" where
  "status_laws f \<longleftrightarrow> (\<forall>st x. rs_status (f (Reply st x)) = st) \<and> (\<forall>st. rs_status (f (ReplyEmpty st)) = st)
     \<and> (\<forall>st e. rs_status (f (ReplyError st e)) = st) \<and> rs_status (f ReplyPanic) = 500"

text \<open>The rows of a listing keep the fields named there; only user groups have a LAN mode.\<close>

definition reply_laws :: "(payload reply \<Rightarrow> http_response) \<Rightarrow> decoders \<Rightarrow> bool" where
  "reply_laws f de \<longleftrightarrow>
     (\<forall>st x. rd_user de (f (Reply st (PUser x))) = Inr x)
     \<and> (\<forall>st xs. rd_users de (f (Reply st (PUsers xs))) = Inr xs)
     \<and> (\<forall>st x. rd_user_group de (f (Reply st (PUserGroup x))) = Inr x)
     \<and> (\<forall>st xs. rd_user_groups de (f (Reply st (PUserGroups xs))) = Inr xs)
     \<and> (\<forall>st x. rd_service_group de (f (Reply st (PServiceGroup x))) = Inr x)
     \<and> (\<forall>st xs. rd_services de (f (Reply st (PServices xs))) = Inr xs)
     \<and> (\<forall>st xs. rd_service_groups de (f (Reply st (PServiceGroups xs))) = Inr xs)
     \<and> (\<forall>st x. rd_policy de (f (Reply st (PPolicy x))) = Inr x)
     \<and> (\<forall>st xs. rd_policies de (f (Reply st (PPolicies xs))) = Inr xs)
     \<and> (\<forall>st xs. rd_rows de (f (Reply st (PUserGroups xs)))
          = Inr (map (\<lambda>g. \<lparr>nr_id = wg_id g, nr_name = wg_name g, nr_lan_mode = wg_lan_mode g\<rparr>) xs))
     \<and> (\<forall>st xs. rd_rows de (f (Reply st (PServiceGroups xs)))
          = Inr (map (\<lambda>g. \<lparr>nr_id = wsg_id g, nr_name = wsg_name g, nr_lan_mode = False\<rparr>) xs))"

section \<open>Paths\<close>

definition path_char :: "char \<Rightarrow> bool" where
  "path_char c \<longleftrightarrow> unreserved c \<or> c = CHR ''/''"

definition path_laws :: "'s outside \<Rightarrow> wiring \<Rightarrow> client \<Rightarrow> bool" where
  "path_laws ou wi cl \<longleftrightarrow> (\<forall>p. list_all path_char p \<longrightarrow> (\<exists>u. ou_parse_url ou (cl_base cl @ p) = Inr u \<and> wi_url wi u = (p, [])))
     \<and> (\<forall>u. \<forall>m\<in>{''GET'', ''POST'', ''PATCH'', ''DELETE''}. ou_new_request ou m u = None)"

text \<open>A pattern's parameters, and a pattern with texts for them. The pattern of a mounted route's root ends in a slash that paths
  may leave out.\<close>

definition is_param :: "string \<Rightarrow> bool" where
  "is_param seg \<longleftrightarrow> seg \<noteq> [] \<and> hd seg = CHR ''{''"

definition param_name :: "string \<Rightarrow> string" where
  "param_name seg = butlast (tl seg)"

definition segments :: "string \<Rightarrow> string list" where
  "segments pat = split_on (CHR ''/'') (trim_suffix pat ''/'')"

definition params :: "string \<Rightarrow> string list" where
  "params pat = map param_name (filter is_param (segments pat))"

definition fill :: "(string \<Rightarrow> string) \<Rightarrow> string \<Rightarrow> string" where
  "fill ps pat = join ''/'' (map (\<lambda>seg. if is_param seg then ps (param_name seg) else seg) (segments pat))"

definition router_laws :: "router \<Rightarrow> bool" where
  "router_laws rt \<longleftrightarrow> routed rt \<and> (\<forall>(m, pat, h)\<in>set routes. \<forall>ps.
     (\<forall>k\<in>set (params pat). ps k \<noteq> [] \<and> list_all unreserved (ps k)) \<longrightarrow>
     rt routes m (fill ps pat) = Inr (h, \<lambda>k. if k \<in> set (params pat) then ps k else []))"

definition wired :: "wiring \<Rightarrow> (nat \<times> daemon) shell \<Rightarrow> bool" where
  "wired wi sh \<longleftrightarrow> ou_exchange (sh_outside sh) = exchange wi
     \<and> cl_dial (cli_client sh) = Some (wi_socket wi)
     \<and> path_laws (sh_outside sh) wi (cli_client sh)
     \<and> router_laws (wi_router wi)
     \<and> body_laws (ou_marshal (sh_outside sh)) (wi_codec wi)
     \<and> status_laws (wi_reply wi) \<and> reply_laws (wi_reply wi) (sh_decoders sh)"

section \<open>A call, served\<close>

definition body_text :: "'s outside \<Rightarrow> json_object option \<Rightarrow> string" where
  "body_text ou b = (case b of None \<Rightarrow> [] | Some ob \<Rightarrow> ou_marshal ou ob)"

definition sent :: "string \<Rightarrow> string \<Rightarrow> string \<Rightarrow> request" where
  "sent m p b = \<lparr>q_method = m, q_path = p, q_body = b, q_backend_addr = []\<rparr>"

definition finish :: "'a decoding \<Rightarrow> http_response \<Rightarrow> cli_error + 'a" where
  "finish out resp = (if rs_status resp div 100 \<noteq> 2 then Inl (Called (APIError (rs_status resp) (rs_body resp)))
     else (case fst out of None \<Rightarrow> Inr (snd out)
       | Some dec \<Rightarrow> if rs_status resp = 204 then Inr (snd out)
           else (case dec resp of Inl t \<Rightarrow> Inl (Called (DecodeFailed t)) | Inr x \<Rightarrow> Inr x)))"

text \<open>A request and what it does, as the client sees it.\<close>

definition answer_to :: "wiring \<Rightarrow> string \<Rightarrow> string \<Rightarrow> string \<Rightarrow> 'a decoding \<Rightarrow> nat \<times> daemon \<Rightarrow> (cli_error + 'a) \<times> nat \<times> daemon" where
  "answer_to wi m p b out s = (case s of (n, dm) \<Rightarrow>
     (case serve_http (wi_os wi) (wi_router wi) (wi_codec wi) (wi_surroundings wi n) (sent m p b) dm of
        None \<Rightarrow> (Inl (Called (SendFailed m p ''timeout'')), (Suc n, dm))
      | Some (rep, dm') \<Rightarrow> (finish out (wi_reply wi rep), (Suc n, dm'))))"

lemma client_do_served:
  assumes "wired wi sh" and "list_all path_char p" and "has_prefix p ''/''" and "m \<in> {''GET'', ''POST'', ''PATCH'', ''DELETE''}"
  shows "calling (client_do (sh_outside sh) (cli_client sh) m p b out) s
    = answer_to wi m p (body_text (sh_outside sh) b) out s"
proof -
  obtain n dm where s: "s = (n, dm)" by (cases s)
  obtain u where u: "ou_parse_url (sh_outside sh) (cl_base (cli_client sh) @ p) = Inr u" "wi_url wi u = (p, [])"
    using assms(1,2) by (auto simp: wired_def path_laws_def)
  have q: "ou_new_request (sh_outside sh) m u = None" using assms(1,4) by (auto simp: wired_def path_laws_def)
  have e: "ou_exchange (sh_outside sh) (cli_client sh) \<lparr>rq_method = m, rq_url = u,
      rq_body = map_option (ou_marshal (sh_outside sh)) b, rq_json = j\<rparr> (n, dm)
    = (case serve_http (wi_os wi) (wi_router wi) (wi_codec wi) (wi_surroundings wi n)
          (sent m p (body_text (sh_outside sh) b)) dm of
         None \<Rightarrow> (Inl ''timeout'', (Suc n, dm)) | Some (rep, dm') \<Rightarrow> (Inr (wi_reply wi rep), (Suc n, dm')))" for j
    using assms(1) u(2) by (cases b) (simp_all add: wired_def exchange_def request_of_def sent_def body_text_def)
  show ?thesis
    by (auto simp: s client_do_def bindC_def send_def assms(3) u(1) q e calling_def answer_to_def finish_def failC_def
        retC_def split: option.split sum.split)
qed

lemma get_served:
  assumes "wired wi sh" and "list_all path_char p" and "has_prefix p ''/''"
  shows "api_get sh p out = answer_to wi ''GET'' p [] out"
  using client_do_served [OF assms, of "''GET''" None out]
  by (simp add: fun_eq_iff api_get_def Get_def body_text_def)

lemma post_served:
  assumes "wired wi sh" and "list_all path_char p" and "has_prefix p ''/''"
  shows "api_post sh p ob out = answer_to wi ''POST'' p (ou_marshal (sh_outside sh) ob) out"
  using client_do_served [OF assms, of "''POST''" "Some ob" out]
  by (simp add: fun_eq_iff api_post_def Post_def body_text_def)

lemma patch_served:
  assumes "wired wi sh" and "list_all path_char p" and "has_prefix p ''/''"
  shows "api_patch sh p ob out = answer_to wi ''PATCH'' p (ou_marshal (sh_outside sh) ob) out"
  using client_do_served [OF assms, of "''PATCH''" "Some ob" out]
  by (simp add: fun_eq_iff api_patch_def Patch_def body_text_def)

lemma delete_served:
  assumes "wired wi sh" and "list_all path_char p" and "has_prefix p ''/''"
  shows "api_delete sh p = answer_to wi ''DELETE'' p [] no_target"
  using client_do_served [OF assms, of "''DELETE''" None no_target]
  by (simp add: fun_eq_iff api_delete_def Delete_def body_text_def)

section \<open>Which handler serves a path\<close>

lemma serve_routed:
  assumes "wired wi sh" and "(m, pat, h) \<in> set routes" and "fill ps pat = p"
    and "\<forall>k\<in>set (params pat). ps k \<noteq> [] \<and> list_all unreserved (ps k)"
  shows "wi_router wi routes m p = Inr (h, \<lambda>k. if k \<in> set (params pat) then ps k else [])"
  using assms by (auto simp: wired_def router_laws_def)

lemma nat_str_unreserved: "list_all unreserved (nat_str n)"
  using nat_str_digits [of n] by (auto simp: list_all_iff unreserved_def)

lemma int_str_pos: "0 < i \<Longrightarrow> int_str i = nat_str (nat i)"
  by (simp add: int_str_def)

lemma id_path:
  assumes "0 < i"
  shows "int_str i \<noteq> []" "list_all unreserved (int_str i)" "list_all path_char (int_str i)"
  using nat_str_unreserved [of "nat i"] assms by (auto simp: int_str_pos path_char_def list_all_iff)

lemma parse_id: "0 < i \<Longrightarrow> i \<le> max_int64 \<Longrightarrow> parse_int64 (int_str i) = Some i"
  using parse_int64_nat_str [of "nat i"] by (simp add: int_str_pos max_int64_def)

lemmas path_eval = fill_def params_def segments_def is_param_def param_name_def trim_suffix_def has_prefix_def
  path_char_def unreserved_def is_digit_def

lemma fixed_paths:
  "list_all path_char ''/api/users''" "list_all path_char ''/api/user-groups''" "list_all path_char ''/api/services''"
  "list_all path_char ''/api/service-groups''" "list_all path_char ''/api/policies''"
  "list_all path_char ''/api/users/''" "list_all path_char ''/api/user-groups/''" "list_all path_char ''/api/services/''"
  "list_all path_char ''/api/service-groups/''" "list_all path_char ''/api/policies/''" "list_all path_char ''/members''"
  "list_all path_char ''/members/''"
  by (simp_all add: path_eval)

lemma fixed_fills:
  "fill ps ''/api/users/'' = ''/api/users''" "fill ps ''/api/user-groups/'' = ''/api/user-groups''"
  "fill ps ''/api/services/'' = ''/api/services''" "fill ps ''/api/service-groups/'' = ''/api/service-groups''"
  "fill ps ''/api/policies/'' = ''/api/policies''"
  "fill ps ''/api/users/{id}'' = ''/api/users/'' @ ps ''id''"
  "fill ps ''/api/services/{id}'' = ''/api/services/'' @ ps ''id''"
  "fill ps ''/api/policies/{id}'' = ''/api/policies/'' @ ps ''id''"
  "fill ps ''/api/user-groups/{id}'' = ''/api/user-groups/'' @ ps ''id''"
  "fill ps ''/api/service-groups/{id}'' = ''/api/service-groups/'' @ ps ''id''"
  "fill ps ''/api/user-groups/{id}/members'' = ''/api/user-groups/'' @ ps ''id'' @ ''/members''"
  "fill ps ''/api/service-groups/{id}/members'' = ''/api/service-groups/'' @ ps ''id'' @ ''/members''"
  "fill ps ''/api/user-groups/{id}/members/{uid}'' = ''/api/user-groups/'' @ ps ''id'' @ ''/members/'' @ ps ''uid''"
  "fill ps ''/api/service-groups/{id}/members/{sid}'' = ''/api/service-groups/'' @ ps ''id'' @ ''/members/'' @ ps ''sid''"
  by (simp_all add: path_eval)

lemma fixed_params:
  "params ''/api/users/'' = []" "params ''/api/user-groups/'' = []" "params ''/api/services/'' = []"
  "params ''/api/service-groups/'' = []" "params ''/api/policies/'' = []"
  "params ''/api/users/{id}'' = [''id'']" "params ''/api/services/{id}'' = [''id'']"
  "params ''/api/policies/{id}'' = [''id'']" "params ''/api/user-groups/{id}'' = [''id'']"
  "params ''/api/service-groups/{id}'' = [''id'']" "params ''/api/user-groups/{id}/members'' = [''id'']"
  "params ''/api/service-groups/{id}/members'' = [''id'']"
  "params ''/api/user-groups/{id}/members/{uid}'' = [''id'', ''uid'']"
  "params ''/api/service-groups/{id}/members/{sid}'' = [''id'', ''sid'']"
  by (simp_all add: path_eval)

end
