(* ===== verification/CliEffects.thy ===== *)
theory CliEffects
  imports CliLaws
begin

text \<open>What the commands of the client do to the daemon behind the wire: a command by name is one operation of the store, with its callback.\<close>

section \<open>Listings\<close>

definition quiet :: "wiring \<Rightarrow> bool" where
  "quiet wi \<longleftrightarrow> (\<forall>n. sql_never_fails (su_env (wi_surroundings wi n)))"

lemma quiet_env_never: "quiet wi \<Longrightarrow> sql_never_fails (su_env (wi_surroundings wi n))"
  by (simp add: quiet_def)

lemma finish_listing: "\<lbrakk>rs_status resp = 200; dec resp = Inr x\<rbrakk> \<Longrightarrow> finish (into dec zero) resp = Inr x"
  by (simp add: finish_def into_def)

lemma served_listing:
  assumes w: "wired wi sh" and r: "(''GET'', pat, h) \<in> set routes" "params pat = []" "fill (\<lambda>_. []) pat = p"
    and h: "\<And>ps. handle (wi_surroundings wi n) (wi_codec wi) ps (sent ''GET'' p []) dm h = Some (Reply 200 x, dm_db dm, [])"
    and c: "h \<noteq> HDiscoverContainers" "h \<noteq> HCheckServiceOrigin"
  shows "serve_http (wi_os wi) (wi_router wi) (wi_codec wi) (wi_surroundings wi n) (sent ''GET'' p []) dm
    = Some (Reply 200 x, dm)"
proof -
  have "wi_router wi routes ''GET'' p = Inr (h, \<lambda>k. if k \<in> set (params pat) then [] else [])"
    by (rule serve_routed [OF w r(1,3)]) (simp add: r(2))
  then show ?thesis using h c by (simp add: serve_http_def sent_def touch_caches_def)
qed

lemma routes_listed:
  "(''GET'', ''/api/users/'', HListUsers) \<in> set routes" "(''GET'', ''/api/user-groups/'', HListUserGroups) \<in> set routes"
  "(''GET'', ''/api/services/'', HListServices) \<in> set routes"
  "(''GET'', ''/api/service-groups/'', HListServiceGroups) \<in> set routes"
  "(''GET'', ''/api/policies/'', HListPolicies) \<in> set routes"
  by (simp_all add: routes_def under_def)

lemma wf_listed:
  assumes "db_wf d" and "sql_never_fails ev"
  shows "ListUsers ev d = Inr (map scanUser (t_users d))" "ListUserGroups ev d = Inr (t_user_groups d)"
    "ListServices ev d = Inr (map (service_view d) (t_services d))" "ListServiceGroups ev d = Inr (t_service_groups d)"
    "ListPolicies ev d = Inr (t_rules d)"
proof -
  show "ListUsers ev d = Inr (map scanUser (t_users d))" "ListUserGroups ev d = Inr (t_user_groups d)"
    "ListPolicies ev d = Inr (t_rules d)"
    using assms(2) by (simp_all add: ListUsers_def ListUserGroups_def ListPolicies_def wf_sorted [OF assms(1)])
  have "sorted_wrt (<) (map sg_id (t_service_groups d))" using assms(1) by (simp add: db_wf_def wf_ids_def ids_ok_def)
  then have "order_by sg_id (t_service_groups d) = t_service_groups d" by (intro order_by_sorted) simp
  then show "ListServiceGroups ev d = Inr (t_service_groups d)" using assms(2) by (simp add: ListServiceGroups_def)
  have "\<exists>ss. ListServices ev d = Inr ss"
    unfolding ListServices_def queryServices_def
    using assms(2) mapE_total [of "\<lambda>s. bindE (loadServicePorts ev (s_id s) d) (\<lambda>ps. Inr (s\<lparr>s_ports := ps\<rparr>))"]
    by (simp add: loadServicePorts_def)
  then obtain ss where s: "ListServices ev d = Inr ss" by blast
  then show "ListServices ev d = Inr (map (service_view d) (t_services d))"
    using queryServices_Inr [OF s [unfolded ListServices_def]] wf_sorted(3) [OF assms(1)] by simp
qed

lemma listed:
  assumes w: "wired wi sh" and q: "quiet wi" and d: "db_wf (dm_db dm)"
  shows "api_get sh ''/api/users'' (into_users sh) (n, dm) = (Inr (map (toUserDTO \<circ> scanUser) (t_users (dm_db dm))), (Suc n, dm))"
    "api_get sh ''/api/user-groups'' (into_user_groups sh) (n, dm) = (Inr (map toUserGroupDTO (t_user_groups (dm_db dm))), (Suc n, dm))"
    "api_get sh ''/api/services'' (into_services sh) (n, dm) = (Inr (map (toServiceDTO \<circ> service_view (dm_db dm)) (t_services (dm_db dm))), (Suc n, dm))"
    "api_get sh ''/api/service-groups'' (into_service_groups sh) (n, dm) = (Inr (map toServiceGroupDTO (t_service_groups (dm_db dm))), (Suc n, dm))"
proof -
  note l = wf_listed [OF d quiet_env_never [OF q, of n]]
  note s = served_listing [OF w routes_listed(1) fixed_params(1) fixed_fills(1), of n dm]
    served_listing [OF w routes_listed(2) fixed_params(2) fixed_fills(2), of n dm]
    served_listing [OF w routes_listed(3) fixed_params(3) fixed_fills(3), of n dm]
    served_listing [OF w routes_listed(4) fixed_params(4) fixed_fills(4), of n dm]
  note h = handle_def handle_users_def handle_services_def sent_def wrap_def answer_def l
    listUsers_def listUserGroups_def listServices_def listServiceGroups_def Let_def
  have st: "rs_status (wi_reply wi (Reply 200 x)) = 200" for x using w by (simp add: wired_def status_laws_def)
  have de: "rd_users (sh_decoders sh) (wi_reply wi (Reply 200 (PUsers us))) = Inr us"
    "rd_user_groups (sh_decoders sh) (wi_reply wi (Reply 200 (PUserGroups gs))) = Inr gs"
    "rd_services (sh_decoders sh) (wi_reply wi (Reply 200 (PServices ss))) = Inr ss"
    "rd_service_groups (sh_decoders sh) (wi_reply wi (Reply 200 (PServiceGroups sgs))) = Inr sgs" for us gs ss sgs
    using w by (simp_all add: wired_def reply_laws_def)
  show "api_get sh ''/api/users'' (into_users sh) (n, dm) = (Inr (map (toUserDTO \<circ> scanUser) (t_users (dm_db dm))), (Suc n, dm))"
    using s(1) [of "PUsers (map (toUserDTO \<circ> scanUser) (t_users (dm_db dm)))"]
    by (simp add: get_served [OF w fixed_paths(1)] has_prefix_def answer_to_def h into_users_def finish_listing st de)
  show "api_get sh ''/api/user-groups'' (into_user_groups sh) (n, dm) = (Inr (map toUserGroupDTO (t_user_groups (dm_db dm))), (Suc n, dm))"
    using s(2) [of "PUserGroups (map toUserGroupDTO (t_user_groups (dm_db dm)))"]
    by (simp add: get_served [OF w fixed_paths(2)] has_prefix_def answer_to_def h into_user_groups_def finish_listing st de)
  show "api_get sh ''/api/services'' (into_services sh) (n, dm) = (Inr (map (toServiceDTO \<circ> service_view (dm_db dm)) (t_services (dm_db dm))), (Suc n, dm))"
    using s(3) [of "PServices (map (toServiceDTO \<circ> service_view (dm_db dm)) (t_services (dm_db dm)))"]
    by (simp add: get_served [OF w fixed_paths(3)] has_prefix_def answer_to_def h into_services_def finish_listing st de)
  show "api_get sh ''/api/service-groups'' (into_service_groups sh) (n, dm) = (Inr (map toServiceGroupDTO (t_service_groups (dm_db dm))), (Suc n, dm))"
    using s(4) [of "PServiceGroups (map toServiceGroupDTO (t_service_groups (dm_db dm)))"]
    by (simp add: get_served [OF w fixed_paths(4)] has_prefix_def answer_to_def h into_service_groups_def finish_listing st de)
qed

section \<open>Lookups by name\<close>

definition not_found :: "string \<Rightarrow> string \<Rightarrow> string" where
  "not_found noun name = noun @ '' '' @ quote name @ '' not found''"

definition looked_up :: "string \<Rightarrow> string \<Rightarrow> ('r \<Rightarrow> 'a) \<Rightarrow> 'r option \<Rightarrow> cli_error + 'a" where
  "looked_up noun name f row = (case row of None \<Rightarrow> Inl (Complained (not_found noun name)) | Some r \<Rightarrow> Inr (f r))"

lemma find_mapped: "List.find P (map f xs) = map_option f (List.find (\<lambda>x. P (f x)) xs)"
  by (induction xs) auto

lemma looked_up_by_name:
  assumes "wired wi sh" and "quiet wi" and "db_wf (dm_db dm)"
  shows "lookupUserByName sh name (n, dm)
      = (looked_up ''user'' name (toUserDTO \<circ> scanUser) (row_by u_name name (t_users (dm_db dm))), (Suc n, dm))"
    "lookupUserGroupByName sh name (n, dm)
      = (looked_up ''user-group'' name toUserGroupDTO (row_by ug_name name (t_user_groups (dm_db dm))), (Suc n, dm))"
    "lookupServiceByName sh name (n, dm)
      = (looked_up ''service'' name (toServiceDTO \<circ> service_view (dm_db dm)) (row_by s_name name (t_services (dm_db dm))), (Suc n, dm))"
    "lookupServiceGroupByName sh name (n, dm)
      = (looked_up ''service-group'' name toServiceGroupDTO (row_by sg_name name (t_service_groups (dm_db dm))), (Suc n, dm))"
  unfolding lookupUserByName_def lookupUserGroupByName_def lookupServiceByName_def lookupServiceGroupByName_def
    bindC_def listed [OF assms]
  by (simp_all add: find_mapped row_by_def looked_up_def not_found_def complain_def failC_def retC_def toUserDTO_def
      toUserGroupDTO_def toServiceDTO_def toServiceGroupDTO_def split: option.split)

section \<open>A request that is an operation of the store\<close>

definition committed :: "wiring \<Rightarrow> nat \<Rightarrow> store_op \<Rightarrow> daemon \<Rightarrow> store_error option \<times> daemon" where
  "committed wi n oper dm = change (wi_os wi) (su_env (wi_surroundings wi n)) (su_callback (wi_surroundings wi n)) oper dm"

text \<open>What the client learns: the result, or the status of the error.\<close>

definition refused :: "wiring \<Rightarrow> store_error \<Rightarrow> cli_error" where
  "refused wi e = Called (APIError (error_status e) (rs_body (wi_reply wi (ReplyError (error_status e) (StoreError e)))))"

lemma error_status_cases: "error_status e \<in> {400, 404, 409, 500}"
  by (cases e) (simp_all add: error_status_def)

lemma error_status_div: "error_status e div 100 \<noteq> 2"
  using error_status_cases [of e] by auto

lemma finish_refused: "status_laws (wi_reply wi) \<Longrightarrow> finish out (wi_reply wi (ReplyError (error_status e) (StoreError e))) = Inl (refused wi e)"
  by (simp add: finish_def status_laws_def error_status_div refused_def)

lemma finish_done:
  assumes "status_laws (wi_reply wi)"
  shows "finish no_target (wi_reply wi (ReplyEmpty 204)) = Inr ()"
    and "\<lbrakk>st = 200 \<or> st = 201; dec (wi_reply wi (Reply st y)) = Inr x\<rbrakk> \<Longrightarrow> finish (into dec zero) (wi_reply wi (Reply st y)) = Inr x"
  using assms by (auto simp: finish_def status_laws_def no_target_def into_def)

lemma served_op:
  assumes w: "wired wi sh" and r: "(m, pat, h) \<in> set routes" "fill ps pat = p"
    "\<forall>k\<in>set (params pat). ps k \<noteq> [] \<and> list_all unreserved (ps k)"
    and h: "handle (wi_surroundings wi n) (wi_codec wi) (\<lambda>k. if k \<in> set (params pat) then ps k else []) (sent m p b) dm h
      = Some (rep, snd opres)"
    and o: "run_op (su_env (wi_surroundings wi n)) oper (dm_db dm) = outcome opres"
    and c: "h \<noteq> HDiscoverContainers" "h \<noteq> HCheckServiceOrigin"
  shows "answer_to wi m p b out (n, dm) = (finish out (wi_reply wi rep), (Suc n, snd (committed wi n oper dm)))"
    and "fst (committed wi n oper dm) = (case fst opres of Inl e \<Rightarrow> Some e | Inr _ \<Rightarrow> None)"
proof -
  obtain res d' ks where op: "opres = (res, d', ks)" by (cases opres)
  have "wi_router wi routes m p = Inr (h, \<lambda>k. if k \<in> set (params pat) then ps k else [])"
    by (rule serve_routed [OF w r])
  then show "answer_to wi m p b out (n, dm) = (finish out (wi_reply wi rep), (Suc n, snd (committed wi n oper dm)))"
    using h o c by (simp add: answer_to_def serve_http_def sent_def touch_caches_def committed_def change_def op outcome_def)
  show "fst (committed wi n oper dm) = (case fst opres of Inl e \<Rightarrow> Some e | Inr _ \<Rightarrow> None)"
    using o by (simp add: committed_def change_def op outcome_def)
qed

text \<open>A request answered with no body, and one answered with a row.\<close>

lemma served_empty:
  assumes w: "wired wi sh" and r: "(m, pat, h) \<in> set routes" "fill ps pat = p"
    "\<forall>k\<in>set (params pat). ps k \<noteq> [] \<and> list_all unreserved (ps k)"
    and h: "handle (wi_surroundings wi n) (wi_codec wi) (\<lambda>k. if k \<in> set (params pat) then ps k else []) (sent m p b) dm h
      = Some (wrap PNothing (respond_empty opres))"
    and o: "run_op (su_env (wi_surroundings wi n)) oper (dm_db dm) = outcome opres"
    and c: "h \<noteq> HDiscoverContainers" "h \<noteq> HCheckServiceOrigin"
  shows "answer_to wi m p b no_target (n, dm)
    = (case committed wi n oper dm of (eo, dm') \<Rightarrow> ((case eo of None \<Rightarrow> Inr () | Some e \<Rightarrow> Inl (refused wi e)), (Suc n, dm')))"
proof -
  obtain res d' ks where op: "opres = (res, d', ks)" by (cases opres)
  have st: "status_laws (wi_reply wi)" using w by (simp add: wired_def)
  let ?rep = "case res of Inl e \<Rightarrow> ReplyError (error_status e) (StoreError e) | Inr _ \<Rightarrow> ReplyEmpty 204"
  have "handle (wi_surroundings wi n) (wi_codec wi) (\<lambda>k. if k \<in> set (params pat) then ps k else []) (sent m p b) dm h
      = Some (?rep, snd opres)"
    using h by (simp add: op respond_empty_def wrap_def writeError_def split: sum.split)
  note s = served_op [OF w r this o c]
  have "finish no_target (wi_reply wi ?rep) = (case res of Inl e \<Rightarrow> Inl (refused wi e) | Inr _ \<Rightarrow> Inr ())"
    by (cases res) (simp_all add: finish_refused [OF st] finish_done [OF st])
  then show ?thesis using s(1) [of no_target] s(2)
    by (cases "committed wi n oper dm") (simp add: op split: sum.splits)
qed

lemma served_row:
  assumes w: "wired wi sh" and r: "(m, pat, h) \<in> set routes" "fill ps pat = p"
    "\<forall>k\<in>set (params pat). ps k \<noteq> [] \<and> list_all unreserved (ps k)"
    and h: "handle (wi_surroundings wi n) (wi_codec wi) (\<lambda>k. if k \<in> set (params pat) then ps k else []) (sent m p b) dm h
      = Some (wrap f (respond st g opres))"
    and o: "run_op (su_env (wi_surroundings wi n)) oper (dm_db dm) = outcome opres"
    and c: "h \<noteq> HDiscoverContainers" "h \<noteq> HCheckServiceOrigin" "st \<in> {200, 201}"
    and d: "\<And>x. dec (wi_reply wi (Reply st (f x))) = Inr x"
  shows "\<exists>eo dm' r. committed wi n oper dm = (eo, dm') \<and> answer_to wi m p b (into dec zero) (n, dm) = (r, (Suc n, dm'))
    \<and> (case eo of None \<Rightarrow> \<exists>x. r = Inr x | Some e \<Rightarrow> r = Inl (refused wi e))"
proof -
  obtain res d' ks where op: "opres = (res, d', ks)" by (cases opres)
  have st: "status_laws (wi_reply wi)" using w by (simp add: wired_def)
  let ?rep = "case res of Inl e \<Rightarrow> ReplyError (error_status e) (StoreError e) | Inr x \<Rightarrow> Reply st (f (g x))"
  have "handle (wi_surroundings wi n) (wi_codec wi) (\<lambda>k. if k \<in> set (params pat) then ps k else []) (sent m p b) dm h
      = Some (?rep, snd opres)"
    using h by (simp add: op respond_def wrap_def writeError_def split: sum.split)
  note s = served_op [OF w r this o c(1,2)]
  have "finish (into dec zero) (wi_reply wi ?rep) = (case res of Inl e \<Rightarrow> Inl (refused wi e) | Inr x \<Rightarrow> Inr (g x))"
    using c(3) d by (cases res) (simp_all add: finish_refused [OF st] finish_done(2) [OF st])
  then show ?thesis using s(1) [of "into dec zero"] s(2)
    by (cases "committed wi n oper dm") (simp add: op split: sum.splits)
qed

end
