(* ===== verification/CliRefine.thy ===== *)
theory CliRefine
  imports CliEffects
begin

text \<open>
  The writing commands of the client, in terms of the store: which operation a command is for the tables it meets, and that running it
  against the daemon is that operation followed by the daemon's callback.
\<close>

section \<open>Which operation a command is\<close>

text \<open>What a command comes to: a complaint of its own before anything is sent, a refusal of the API that is no operation's, or an operation.\<close>

datatype intent = Complaint string | Refusal nat | Operation store_op

definition by_name_or :: "string \<Rightarrow> string \<Rightarrow> 'r option \<Rightarrow> ('r \<Rightarrow> intent) \<Rightarrow> intent" where
  "by_name_or noun name row k = (case row of None \<Rightarrow> Complaint (not_found noun name) | Some r \<Rightarrow> k r)"

definition user_named :: "db \<Rightarrow> string \<Rightarrow> (string option user \<Rightarrow> intent) \<Rightarrow> intent" where
  "user_named d name k = by_name_or ''user'' name (row_by u_name name (t_users d)) k"

definition user_group_named :: "db \<Rightarrow> string \<Rightarrow> (user_group \<Rightarrow> intent) \<Rightarrow> intent" where
  "user_group_named d name k = by_name_or ''user-group'' name (row_by ug_name name (t_user_groups d)) k"

definition service_named :: "db \<Rightarrow> string \<Rightarrow> (string option service_row \<Rightarrow> intent) \<Rightarrow> intent" where
  "service_named d name k = by_name_or ''service'' name (row_by s_name name (t_services d)) k"

definition service_group_named :: "db \<Rightarrow> string \<Rightarrow> (service_group \<Rightarrow> intent) \<Rightarrow> intent" where
  "service_group_named d name k = by_name_or ''service-group'' name (row_by sg_name name (t_service_groups d)) k"

definition given :: "flags \<Rightarrow> string \<Rightarrow> string option" where
  "given fs n = (if changed fs n then Some (flag fs n) else None)"

definition given_lan :: "flags \<Rightarrow> bool option" where
  "given_lan fs = (if flag_on fs ''lan-mode'' then Some True else if flag_on fs ''no-lan-mode'' then Some False else None)"

text \<open>The subject of a rule is looked for among users and user groups, its object among services, service groups, users and user groups.\<close>

definition subject_named :: "db \<Rightarrow> string \<Rightarrow> (string \<times> int) option" where
  "subject_named d nm = (case row_by u_name nm (t_users d) of Some u \<Rightarrow> Some (''user'', u_id u)
     | None \<Rightarrow> map_option (\<lambda>g. (''user_group'', ug_id g)) (row_by ug_name nm (t_user_groups d)))"

definition object_named :: "db \<Rightarrow> string \<Rightarrow> (string \<times> int) option" where
  "object_named d nm = (case row_by s_name nm (t_services d) of Some s \<Rightarrow> Some (''service'', s_id s)
     | None \<Rightarrow> (case row_by sg_name nm (t_service_groups d) of Some g \<Rightarrow> Some (''service_group'', sg_id g)
       | None \<Rightarrow> subject_named d nm))"

definition policy_intent :: "string \<Rightarrow> string \<Rightarrow> string \<Rightarrow> db \<Rightarrow> intent" where
  "policy_intent sub obj act d =
    (if act \<noteq> ''allow'' \<and> act \<noteq> ''deny'' then Complaint (''action must be '' @ [CHR 0x27] @ ''allow'' @ [CHR 0x27]
        @ '' or '' @ [CHR 0x27] @ ''deny'' @ [CHR 0x27])
     else if sub = [] then Refusal 400
     else case subject_named d sub of None \<Rightarrow> Refusal 404
     | Some (st, si) \<Rightarrow> if obj = [] then Refusal 400
         else (case object_named d obj of None \<Rightarrow> Refusal 404
           | Some (ot, oi) \<Rightarrow> Operation (OpCreatePolicy \<lparr>cp_subject_type = st, cp_subject_id = si,
               cp_object_type = ot, cp_object_id = oi, cp_action = act\<rparr>)))"

definition update_intent :: "flags \<Rightarrow> user_group \<Rightarrow> intent" where
  "update_intent fs g = (if flag_on fs ''lan-mode'' \<and> flag_on fs ''no-lan-mode''
     then Complaint ''--lan-mode and --no-lan-mode are mutually exclusive''
     else if given fs ''name'' = None \<and> given_lan fs = None then Complaint ''nothing to update''
     else Operation (OpUpdateUserGroup (ug_id g) \<lparr>uug_name = given fs ''name'', uug_lan_mode = given_lan fs\<rparr>))"

definition one_argument :: "command \<Rightarrow> string \<Rightarrow> flags \<Rightarrow> db \<Rightarrow> intent option" where
  "one_argument c a fs d = (case c of
     UserDelete \<Rightarrow> Some (user_named d a (\<lambda>u. Operation (OpDeleteUser (u_id u))))
   | UserUpdate \<Rightarrow> Some (user_named d a (\<lambda>u.
       if given fs ''name'' = None \<and> given fs ''email'' = None \<and> given fs ''endpoint'' = None then Complaint ''nothing to update''
       else Operation (OpUpdateUser (u_id u) \<lparr>uu_name = given fs ''name'', uu_email = given fs ''email'',
         uu_endpoint = given fs ''endpoint''\<rparr>)))
   | UserGroupCreate \<Rightarrow> Some (Operation (OpCreateUserGroup a (flag_on fs ''lan-mode'')))
   | UserGroupUpdate \<Rightarrow> Some (user_group_named d a (update_intent fs))
   | UserGroupDelete \<Rightarrow> Some (user_group_named d a (\<lambda>g. Operation (OpDeleteUserGroup (ug_id g))))
   | ServiceDelete \<Rightarrow> Some (service_named d a (\<lambda>s. Operation (OpDeleteService (s_id s))))
   | ServiceGroupCreate \<Rightarrow> Some (Operation (OpCreateServiceGroup a))
   | ServiceGroupUpdate \<Rightarrow> Some (service_group_named d a (\<lambda>g. if flag fs ''name'' = [] then Complaint ''--name required''
       else Operation (OpUpdateServiceGroup (sg_id g) (Some (flag fs ''name'')))))
   | ServiceGroupDelete \<Rightarrow> Some (service_group_named d a (\<lambda>g. Operation (OpDeleteServiceGroup (sg_id g))))
   | PolicyDelete \<Rightarrow> Some (case parse_int64 a of None \<Rightarrow> Complaint ''invalid id''
       | Some i \<Rightarrow> if i \<le> 0 then Complaint ''invalid id'' else Operation (OpDeletePolicy i))
   | _ \<Rightarrow> None)"

definition two_arguments :: "command \<Rightarrow> string \<Rightarrow> string \<Rightarrow> db \<Rightarrow> intent option" where
  "two_arguments c a b d = (case c of
     UserGroupJoin \<Rightarrow> Some (user_group_named d a (\<lambda>g. user_named d b (\<lambda>u. Operation (OpAddUserToGroup (ug_id g) (u_id u)))))
   | UserGroupLeave \<Rightarrow> Some (user_group_named d a (\<lambda>g. user_named d b (\<lambda>u. Operation (OpRemoveUserFromGroup (ug_id g) (u_id u)))))
   | ServiceGroupJoin \<Rightarrow> Some (service_group_named d a (\<lambda>g. service_named d b (\<lambda>s.
       Operation (OpAddServiceToGroup (sg_id g) (s_id s)))))
   | ServiceGroupLeave \<Rightarrow> Some (service_group_named d a (\<lambda>g. service_named d b (\<lambda>s.
       Operation (OpRemoveServiceFromGroup (sg_id g) (s_id s)))))
   | _ \<Rightarrow> None)"

text \<open>The commands not covered are those that only show something and those that choose an address.\<close>

definition intended :: "command \<Rightarrow> string list \<Rightarrow> flags \<Rightarrow> db \<Rightarrow> intent option" where
  "intended c args fs d = (case args of [a] \<Rightarrow> one_argument c a fs d | [a, b] \<Rightarrow> two_arguments c a b d
     | [a, b, e] \<Rightarrow> if c = PolicyAdd then Some (policy_intent a b e d) else None | _ \<Rightarrow> None)"

section \<open>Running it\<close>

text \<open>What a run does, from request \<open>n\<close> on.\<close>

definition carries_out :: "wiring \<Rightarrow> daemon \<Rightarrow> intent \<Rightarrow> (cli_error + 'a) \<times> nat \<times> daemon \<Rightarrow> bool" where
  "carries_out wi dm i r \<longleftrightarrow> (case i of
     Complaint t \<Rightarrow> \<exists>m. r = (Inl (Complained t), (m, dm))
   | Refusal st \<Rightarrow> \<exists>m b. r = (Inl (Called (APIError st b)), (m, dm))
   | Operation oper \<Rightarrow> \<exists>m eo dm'. committed wi m oper dm = (eo, dm') \<and> snd r = (Suc m, dm')
       \<and> (case eo of None \<Rightarrow> \<exists>x. fst r = Inr x | Some e \<Rightarrow> fst r = Inl (refused wi e)))"

lemma carries_bind:
  assumes "carries_out wi dm i (m s)" and "\<And>x t. \<exists>y. f x t = (Inr y, t)"
  shows "carries_out wi dm i (bindC m f s)"
proof -
  obtain r t where m: "m s = (r, t)" by (cases "m s")
  have e: "bindC m f s = (Inl e, t)" if "r = Inl e" for e using m that by (simp add: bindC_def)
  have x: "\<exists>y. bindC m f s = (Inr y, t)" if "r = Inr x" for x using m that assms(2) [of x t] by (simp add: bindC_def)
  show ?thesis
  proof (cases i)
    case (Operation oper)
    obtain k eo dm' where "committed wi k oper dm = (eo, dm') \<and> snd (m s) = (Suc k, dm')
      \<and> (case eo of None \<Rightarrow> \<exists>x. fst (m s) = Inr x | Some e \<Rightarrow> fst (m s) = Inl (refused wi e))"
      using assms(1) unfolding carries_out_def Operation intent.case by blast
    from this [unfolded m fst_conv snd_conv] have o: "committed wi k oper dm = (eo, dm')" "t = (Suc k, dm')"
      "case eo of None \<Rightarrow> \<exists>x. r = Inr x | Some e \<Rightarrow> r = Inl (refused wi e)" by simp_all
    show ?thesis
    proof (cases eo)
      case None
      then show ?thesis using o x Operation by (fastforce simp: carries_out_def)
    next
      case (Some err)
      then show ?thesis using o e Operation by (fastforce simp: carries_out_def)
    qed
  qed (use assms(1) m e in \<open>auto simp: carries_out_def\<close>)
qed

lemma carries_lookup:
  assumes "m (n, dm) = (looked_up noun name f row, (Suc n, dm))"
    and "\<And>r. row = Some r \<Longrightarrow> carries_out wi dm (k r) (g (f r) (Suc n, dm))"
  shows "carries_out wi dm (by_name_or noun name row k) (bindC m g (n, dm))"
  using assms by (cases row) (auto simp: bindC_def looked_up_def by_name_or_def carries_out_def)

lemma carries_complaint: "carries_out wi dm (Complaint t) (complain t (n, dm))"
  by (simp add: carries_out_def complain_def failC_def)

lemma retC_ok: "\<exists>y. retC x t = (Inr y, t)" "\<exists>y. shown sh p txt' t = (Inr y, t)"
  by (simp_all add: retC_def shown_def)

lemma row_ids:
  assumes "db_wf d"
  shows "row_by u_name nm (t_users d) = Some u \<Longrightarrow> 0 < u_id u \<and> u_id u \<le> max_int64"
    "row_by ug_name nm (t_user_groups d) = Some g \<Longrightarrow> 0 < ug_id g \<and> ug_id g \<le> max_int64"
    "row_by s_name nm (t_services d) = Some s \<Longrightarrow> 0 < s_id s \<and> s_id s \<le> max_int64"
    "row_by sg_name nm (t_service_groups d) = Some h \<Longrightarrow> 0 < sg_id h \<and> sg_id h \<le> max_int64"
  using assms by (force simp: db_wf_def wf_ids_def ids_ok_def list_all_iff dest: row_by_Some)+

text \<open>Deleting by number.\<close>

lemma delete_routes:
  "(''DELETE'', ''/api/users/{id}'', HDeleteUser) \<in> set routes"
  "(''DELETE'', ''/api/user-groups/{id}'', HDeleteUserGroup) \<in> set routes"
  "(''DELETE'', ''/api/services/{id}'', HDeleteService) \<in> set routes"
  "(''DELETE'', ''/api/service-groups/{id}'', HDeleteServiceGroup) \<in> set routes"
  "(''DELETE'', ''/api/policies/{id}'', HDeletePolicy) \<in> set routes"
  by (simp_all add: routes_def under_def)

lemma carries_empty:
  assumes "answer_to wi m p b no_target (n, dm)
    = (case committed wi n oper dm of (eo, dm') \<Rightarrow> ((case eo of None \<Rightarrow> Inr () | Some e \<Rightarrow> Inl (refused wi e)), (Suc n, dm')))"
  shows "carries_out wi dm (Operation oper) (answer_to wi m p b no_target (n, dm))"
  using assms by (cases "committed wi n oper dm") (auto simp: carries_out_def split: option.split)

lemma carries_deletes:
  assumes w: "wired wi sh" and i: "0 < i" "i \<le> max_int64"
  shows "carries_out wi dm (Operation (OpDeleteUser i)) (api_delete sh (''/api/users/'' @ int_str i) (n, dm))"
    "carries_out wi dm (Operation (OpDeleteUserGroup i)) (api_delete sh (''/api/user-groups/'' @ int_str i) (n, dm))"
    "carries_out wi dm (Operation (OpDeleteService i)) (api_delete sh (''/api/services/'' @ int_str i) (n, dm))"
    "carries_out wi dm (Operation (OpDeleteServiceGroup i)) (api_delete sh (''/api/service-groups/'' @ int_str i) (n, dm))"
    "carries_out wi dm (Operation (OpDeletePolicy i)) (api_delete sh (''/api/policies/'' @ int_str i) (n, dm))"
proof -
  note p = id_path [OF i(1)] and parse = parse_id [OF i]
  note h = handle_def handle_users_def handle_services_def handle_rest_def Let_def parseID_def parse
    deleteUser_def deleteUserGroup_def deleteService_def deleteServiceGroup_def deletePolicy_def
  have d: "api_delete sh (s @ int_str i) = answer_to wi ''DELETE'' (s @ int_str i) [] no_target"
    if "list_all path_char s" "s \<noteq> [] \<and> hd s = CHR ''/''" for s
    using that p(3) by (intro delete_served [OF w]) (cases s; simp add: has_prefix_def)+
  have ds: "api_delete sh (''/api/users/'' @ int_str i) = answer_to wi ''DELETE'' (''/api/users/'' @ int_str i) [] no_target"
    "api_delete sh (''/api/user-groups/'' @ int_str i) = answer_to wi ''DELETE'' (''/api/user-groups/'' @ int_str i) [] no_target"
    "api_delete sh (''/api/services/'' @ int_str i) = answer_to wi ''DELETE'' (''/api/services/'' @ int_str i) [] no_target"
    "api_delete sh (''/api/service-groups/'' @ int_str i) = answer_to wi ''DELETE'' (''/api/service-groups/'' @ int_str i) [] no_target"
    "api_delete sh (''/api/policies/'' @ int_str i) = answer_to wi ''DELETE'' (''/api/policies/'' @ int_str i) [] no_target"
    by (rule d; simp add: fixed_paths [simplified])+
  note s = served_empty [OF w delete_routes(1) fixed_fills(6), of "\<lambda>_. int_str i"]
    served_empty [OF w delete_routes(2) fixed_fills(9), of "\<lambda>_. int_str i"]
    served_empty [OF w delete_routes(3) fixed_fills(7), of "\<lambda>_. int_str i"]
    served_empty [OF w delete_routes(4) fixed_fills(10), of "\<lambda>_. int_str i"]
    served_empty [OF w delete_routes(5) fixed_fills(8), of "\<lambda>_. int_str i"]
  show "carries_out wi dm (Operation (OpDeleteUser i)) (api_delete sh (''/api/users/'' @ int_str i) (n, dm))"
    unfolding ds(1)
    by (intro carries_empty s(1)) (use i in \<open>simp_all add: fixed_params p h\<close>)
  show "carries_out wi dm (Operation (OpDeleteUserGroup i)) (api_delete sh (''/api/user-groups/'' @ int_str i) (n, dm))"
    unfolding ds(2)
    by (intro carries_empty s(2)) (use i in \<open>simp_all add: fixed_params p h\<close>)
  show "carries_out wi dm (Operation (OpDeleteService i)) (api_delete sh (''/api/services/'' @ int_str i) (n, dm))"
    unfolding ds(3)
    by (intro carries_empty s(3)) (use i in \<open>simp_all add: fixed_params p h\<close>)
  show "carries_out wi dm (Operation (OpDeleteServiceGroup i)) (api_delete sh (''/api/service-groups/'' @ int_str i) (n, dm))"
    unfolding ds(4)
    by (intro carries_empty s(4)) (use i in \<open>simp_all add: fixed_params p h\<close>)
  show "carries_out wi dm (Operation (OpDeletePolicy i)) (api_delete sh (''/api/policies/'' @ int_str i) (n, dm))"
    unfolding ds(5)
    by (intro carries_empty s(5)) (use i in \<open>simp_all add: fixed_params p h\<close>)
qed

text \<open>Memberships.\<close>

lemma member_routes:
  "(''POST'', ''/api/user-groups/{id}/members'', HAddUserGroupMember) \<in> set routes"
  "(''POST'', ''/api/service-groups/{id}/members'', HAddServiceGroupMember) \<in> set routes"
  "(''DELETE'', ''/api/user-groups/{id}/members/{uid}'', HRemoveUserGroupMember) \<in> set routes"
  "(''DELETE'', ''/api/service-groups/{id}/members/{sid}'', HRemoveServiceGroupMember) \<in> set routes"
  by (simp_all add: routes_def under_def)

lemma member_bodies:
  assumes "wired wi sh"
  shows "dec_user_member (wi_codec wi) (ou_marshal (sh_outside sh) [(''user_id'', JInt i)])
      = Some \<lparr>ugm_user_id = i, ugm_user_name = []\<rparr>"
    "dec_service_member (wi_codec wi) (ou_marshal (sh_outside sh) [(''service_id'', JInt i)])
      = Some \<lparr>sgm_service_id = i, sgm_service_name = []\<rparr>"
  using assms by (simp_all add: wired_def body_laws_def read_user_member_def read_service_member_def
      int_field_def str_field_def)

lemma carries_joins:
  assumes w: "wired wi sh" and g: "0 < g" "g \<le> max_int64" and i: "0 < i"
  shows "carries_out wi dm (Operation (OpAddUserToGroup g i))
      (api_post sh (''/api/user-groups/'' @ int_str g @ ''/members'') [(''user_id'', JInt i)] no_target (n, dm))"
    "carries_out wi dm (Operation (OpAddServiceToGroup g i))
      (api_post sh (''/api/service-groups/'' @ int_str g @ ''/members'') [(''service_id'', JInt i)] no_target (n, dm))"
proof -
  note p = id_path [OF g(1)]
  note h = handle_def handle_users_def handle_services_def Let_def parseID_def parse_id [OF g] readJSON_def
    addUserGroupMember_def addServiceGroupMember_def member_bodies [OF w]
  have ds: "api_post sh (''/api/user-groups/'' @ int_str g @ ''/members'') ob no_target
      = answer_to wi ''POST'' (''/api/user-groups/'' @ int_str g @ ''/members'') (ou_marshal (sh_outside sh) ob) no_target"
    "api_post sh (''/api/service-groups/'' @ int_str g @ ''/members'') ob no_target
      = answer_to wi ''POST'' (''/api/service-groups/'' @ int_str g @ ''/members'') (ou_marshal (sh_outside sh) ob) no_target" for ob
    using p(3) by (intro post_served [OF w]; simp add: fixed_paths [simplified] has_prefix_def)+
  note s = served_empty [OF w member_routes(1) fixed_fills(11), of "\<lambda>_. int_str g"]
    served_empty [OF w member_routes(2) fixed_fills(12), of "\<lambda>_. int_str g"]
  show "carries_out wi dm (Operation (OpAddUserToGroup g i))
      (api_post sh (''/api/user-groups/'' @ int_str g @ ''/members'') [(''user_id'', JInt i)] no_target (n, dm))"
    unfolding ds(1) by (intro carries_empty s(1)) (use g i in \<open>simp_all add: fixed_params p h sent_def\<close>)
  show "carries_out wi dm (Operation (OpAddServiceToGroup g i))
      (api_post sh (''/api/service-groups/'' @ int_str g @ ''/members'') [(''service_id'', JInt i)] no_target (n, dm))"
    unfolding ds(2) by (intro carries_empty s(2)) (use g i in \<open>simp_all add: fixed_params p h sent_def\<close>)
qed

lemma carries_leaves:
  assumes w: "wired wi sh" and g: "0 < g" "g \<le> max_int64" and i: "0 < i" "i \<le> max_int64"
  shows "carries_out wi dm (Operation (OpRemoveUserFromGroup g i))
      (api_delete sh (''/api/user-groups/'' @ int_str g @ ''/members/'' @ int_str i) (n, dm))"
    "carries_out wi dm (Operation (OpRemoveServiceFromGroup g i))
      (api_delete sh (''/api/service-groups/'' @ int_str g @ ''/members/'' @ int_str i) (n, dm))"
proof -
  note p = id_path [OF g(1)] id_path [OF i(1)]
  note h = handle_def handle_users_def handle_services_def Let_def parseID_def parse_id [OF g] parse_id [OF i]
    removeUserGroupMember_def removeServiceGroupMember_def
  have ds: "api_delete sh (''/api/user-groups/'' @ int_str g @ ''/members/'' @ int_str i)
      = answer_to wi ''DELETE'' (''/api/user-groups/'' @ int_str g @ ''/members/'' @ int_str i) [] no_target"
    "api_delete sh (''/api/service-groups/'' @ int_str g @ ''/members/'' @ int_str i)
      = answer_to wi ''DELETE'' (''/api/service-groups/'' @ int_str g @ ''/members/'' @ int_str i) [] no_target"
    using p by (intro delete_served [OF w]; simp add: fixed_paths [simplified] has_prefix_def)+
  let ?ps = "\<lambda>k. if k = ''id'' then int_str g else int_str i"
  have f: "fill ?ps ''/api/user-groups/{id}/members/{uid}'' = ''/api/user-groups/'' @ int_str g @ ''/members/'' @ int_str i"
    "fill ?ps ''/api/service-groups/{id}/members/{sid}'' = ''/api/service-groups/'' @ int_str g @ ''/members/'' @ int_str i"
    by (simp_all add: fixed_fills)
  note s = served_empty [OF w member_routes(3) f(1)] served_empty [OF w member_routes(4) f(2)]
  show "carries_out wi dm (Operation (OpRemoveUserFromGroup g i))
      (api_delete sh (''/api/user-groups/'' @ int_str g @ ''/members/'' @ int_str i) (n, dm))"
    unfolding ds(1) by (intro carries_empty s(1)) (use g i in \<open>simp_all add: fixed_params p h\<close>)
  show "carries_out wi dm (Operation (OpRemoveServiceFromGroup g i))
      (api_delete sh (''/api/service-groups/'' @ int_str g @ ''/members/'' @ int_str i) (n, dm))"
    unfolding ds(2) by (intro carries_empty s(2)) (use g i in \<open>simp_all add: fixed_params p h\<close>)
qed

text \<open>Creating and updating what has no address.\<close>

lemma row_routes:
  "(''POST'', ''/api/user-groups/'', HCreateUserGroup) \<in> set routes"
  "(''POST'', ''/api/service-groups/'', HCreateServiceGroup) \<in> set routes"
  "(''PATCH'', ''/api/users/{id}'', HUpdateUser) \<in> set routes"
  "(''PATCH'', ''/api/user-groups/{id}'', HUpdateUserGroup) \<in> set routes"
  "(''PATCH'', ''/api/service-groups/{id}'', HUpdateServiceGroup) \<in> set routes"
  "(''POST'', ''/api/policies/'', HCreatePolicy) \<in> set routes"
  by (simp_all add: routes_def under_def)

lemma carries_row:
  assumes "\<exists>eo dm' r. committed wi n oper dm = (eo, dm') \<and> ans = (r, (Suc n, dm'))
    \<and> (case eo of None \<Rightarrow> \<exists>x. r = Inr x | Some e \<Rightarrow> r = Inl (refused wi e))"
  shows "carries_out wi dm (Operation oper) ans"
  using assms by (auto simp: carries_out_def cong: option.case_cong)

definition group_update_body :: "flags \<Rightarrow> json_object" where
  "group_update_body fs = if_changed fs ''name'' ''name'' @ (if flag_on fs ''lan-mode'' then [(''lan_mode'', JBool True)]
     else if flag_on fs ''no-lan-mode'' then [(''lan_mode'', JBool False)] else [])"

lemma update_bodies:
  assumes "wired wi sh"
  shows "dec_update_user (wi_codec wi) (ou_marshal (sh_outside sh) (update_user_body fs))
      = Some \<lparr>uur_name = given fs ''name'', uur_email = given fs ''email'', uur_endpoint = given fs ''endpoint''\<rparr>"
    "dec_update_user_group (wi_codec wi) (ou_marshal (sh_outside sh) (group_update_body fs))
      = Some \<lparr>uugr_name = given fs ''name'', uugr_lan_mode = given_lan fs\<rparr>"
    "dec_update_service_group (wi_codec wi) (ou_marshal (sh_outside sh) [(''name'', JStr nm)]) = Some (Some nm)"
    "dec_create_service_group (wi_codec wi) (ou_marshal (sh_outside sh) [(''name'', JStr nm)]) = Some nm"
    "dec_create_user_group (wi_codec wi) (ou_marshal (sh_outside sh) [(''name'', JStr nm), (''lan_mode'', JBool lan)])
      = Some \<lparr>cugr_name = nm, cugr_lan_mode = lan\<rparr>"
    "dec_create_policy (wi_codec wi) (ou_marshal (sh_outside sh) [(''subject_name'', JStr sub), (''object_name'', JStr obj),
        (''action'', JStr act)])
      = Some \<lparr>cpr_subject_type = [], cpr_subject_id = 0, cpr_subject_name = sub, cpr_object_type = [], cpr_object_id = 0,
          cpr_object_name = obj, cpr_action = act\<rparr>"
  using assms by (simp_all add: wired_def body_laws_def update_user_body_def if_changed_def given_def given_lan_def
      group_update_body_def read_update_user_def read_update_user_group_def read_create_user_group_def
      read_create_policy_def opt_str_field_def opt_bool_field_def str_field_def int_field_def bool_field_def)

lemma carries_creates:
  assumes w: "wired wi sh"
  shows "carries_out wi dm (Operation (OpCreateUserGroup nm lan))
      (api_post sh ''/api/user-groups'' [(''name'', JStr nm), (''lan_mode'', JBool lan)] (into_user_group sh) (n, dm))"
    "carries_out wi dm (Operation (OpCreateServiceGroup nm))
      (api_post sh ''/api/service-groups'' [(''name'', JStr nm)] (into_service_group sh) (n, dm))"
proof -
  note h = handle_def handle_users_def handle_services_def Let_def readJSON_def
    createUserGroup_def createServiceGroup_def update_bodies [OF w]
  have ds: "api_post sh ''/api/user-groups'' ob out = answer_to wi ''POST'' ''/api/user-groups'' (ou_marshal (sh_outside sh) ob) out"
    "api_post sh ''/api/service-groups'' ob out' = answer_to wi ''POST'' ''/api/service-groups'' (ou_marshal (sh_outside sh) ob) out'"
    for ob and out :: "wire_user_group decoding" and out' :: "wire_service_group decoding"
    by (intro post_served [OF w]; simp add: fixed_paths [simplified] has_prefix_def)+
  have de: "rd_user_group (sh_decoders sh) (wi_reply wi (Reply 201 (PUserGroup g))) = Inr g"
    "rd_service_group (sh_decoders sh) (wi_reply wi (Reply 201 (PServiceGroup sg))) = Inr sg" for g sg
    using w by (simp_all add: wired_def reply_laws_def)
  show "carries_out wi dm (Operation (OpCreateUserGroup nm lan))
      (api_post sh ''/api/user-groups'' [(''name'', JStr nm), (''lan_mode'', JBool lan)] (into_user_group sh) (n, dm))"
    unfolding ds(1) into_user_group_def
    by (intro carries_row [of wi n] served_row [OF w row_routes(1) fixed_fills(2), where ps = "\<lambda>_. []" and f = PUserGroup
        and g = toUserGroupDTO and st = 201 and opres = "CreateUserGroup (su_env (wi_surroundings wi n)) nm lan (dm_db dm)"])
      (simp_all add: fixed_params h sent_def de)
  show "carries_out wi dm (Operation (OpCreateServiceGroup nm))
      (api_post sh ''/api/service-groups'' [(''name'', JStr nm)] (into_service_group sh) (n, dm))"
    unfolding ds(2) into_service_group_def
    by (intro carries_row [of wi n] served_row [OF w row_routes(2) fixed_fills(4), where ps = "\<lambda>_. []" and f = PServiceGroup
        and g = toServiceGroupDTO and st = 201 and opres = "CreateServiceGroup (su_env (wi_surroundings wi n)) nm (dm_db dm)"])
      (simp_all add: fixed_params h sent_def de)
qed

lemma carries_updates:
  assumes w: "wired wi sh" and i: "0 < i" "i \<le> max_int64"
  shows "carries_out wi dm (Operation (OpUpdateUser i \<lparr>uu_name = given fs ''name'', uu_email = given fs ''email'',
        uu_endpoint = given fs ''endpoint''\<rparr>))
      (api_patch sh (''/api/users/'' @ int_str i) (update_user_body fs) (into_user sh) (n, dm))"
    "carries_out wi dm (Operation (OpUpdateUserGroup i \<lparr>uug_name = given fs ''name'', uug_lan_mode = given_lan fs\<rparr>))
      (api_patch sh (''/api/user-groups/'' @ int_str i) (group_update_body fs) (into_user_group sh) (n, dm))"
    "carries_out wi dm (Operation (OpUpdateServiceGroup i (Some nm)))
      (api_patch sh (''/api/service-groups/'' @ int_str i) [(''name'', JStr nm)] (into_service_group sh) (n, dm))"
proof -
  note p = id_path [OF i(1)]
  let ?ev = "su_env (wi_surroundings wi n)" and ?d = "dm_db dm"
  let ?uu = "\<lparr>uu_name = given fs ''name'', uu_email = given fs ''email'', uu_endpoint = given fs ''endpoint''\<rparr>"
  let ?uug = "\<lparr>uug_name = given fs ''name'', uug_lan_mode = given_lan fs\<rparr>"
  note h = handle_def handle_users_def handle_services_def Let_def readJSON_def parseID_def parse_id [OF i]
    updateUser_def updateUserGroup_def updateServiceGroup_def update_bodies [OF w]
  have ds: "api_patch sh (''/api/users/'' @ int_str i) ob out1
      = answer_to wi ''PATCH'' (''/api/users/'' @ int_str i) (ou_marshal (sh_outside sh) ob) out1"
    "api_patch sh (''/api/user-groups/'' @ int_str i) ob out2
      = answer_to wi ''PATCH'' (''/api/user-groups/'' @ int_str i) (ou_marshal (sh_outside sh) ob) out2"
    "api_patch sh (''/api/service-groups/'' @ int_str i) ob out3
      = answer_to wi ''PATCH'' (''/api/service-groups/'' @ int_str i) (ou_marshal (sh_outside sh) ob) out3"
    for ob and out1 :: "wire_user decoding" and out2 :: "wire_user_group decoding" and out3 :: "wire_service_group decoding"
    using p(3) by (intro patch_served [OF w]; simp add: fixed_paths [simplified] has_prefix_def)+
  have de: "rd_user (sh_decoders sh) (wi_reply wi (Reply 200 (PUser x))) = Inr x"
    "rd_user_group (sh_decoders sh) (wi_reply wi (Reply 200 (PUserGroup g))) = Inr g"
    "rd_service_group (sh_decoders sh) (wi_reply wi (Reply 200 (PServiceGroup sg))) = Inr sg" for x g sg
    using w by (simp_all add: wired_def reply_laws_def)
  show "carries_out wi dm (Operation (OpUpdateUser i ?uu))
      (api_patch sh (''/api/users/'' @ int_str i) (update_user_body fs) (into_user sh) (n, dm))"
    unfolding ds(1) into_user_def
    by (intro carries_row [of wi n] served_row [OF w row_routes(3) fixed_fills(6), where ps = "\<lambda>_. int_str i" and f = PUser
        and g = toUserDTO and st = 200 and opres = "UpdateUser ?ev i ?uu ?d"])
      (use i in \<open>simp_all add: fixed_params p h sent_def de\<close>)
  show "carries_out wi dm (Operation (OpUpdateUserGroup i ?uug))
      (api_patch sh (''/api/user-groups/'' @ int_str i) (group_update_body fs) (into_user_group sh) (n, dm))"
    unfolding ds(2) into_user_group_def
    by (intro carries_row [of wi n] served_row [OF w row_routes(4) fixed_fills(9), where ps = "\<lambda>_. int_str i" and f = PUserGroup
        and g = toUserGroupDTO and st = 200 and opres = "UpdateUserGroup ?ev i ?uug ?d"])
      (use i in \<open>simp_all add: fixed_params p h sent_def de\<close>)
  show "carries_out wi dm (Operation (OpUpdateServiceGroup i (Some nm)))
      (api_patch sh (''/api/service-groups/'' @ int_str i) [(''name'', JStr nm)] (into_service_group sh) (n, dm))"
    unfolding ds(3) into_service_group_def
    by (intro carries_row [of wi n] served_row [OF w row_routes(5) fixed_fills(10), where ps = "\<lambda>_. int_str i" and f = PServiceGroup
        and g = toServiceGroupDTO and st = 200 and opres = "UpdateServiceGroup ?ev i (Some nm) ?d"])
      (use i in \<open>simp_all add: fixed_params p h sent_def de\<close>)
qed

text \<open>Adding a rule: the API finds subject and object by name.\<close>

definition found :: "'b option \<Rightarrow> store_error + 'b" where
  "found r = (case r of None \<Rightarrow> Inl ErrNotFound | Some x \<Rightarrow> Inr x)"

lemma found_simps [simp]: "found None = Inl ErrNotFound" "found (Some x) = Inr x"
  by (simp_all add: found_def)

lemma id_of_named:
  assumes "sql_never_fails ev"
  shows "id_of u_id (GetUserByName ev nm d) = found (map_option u_id (row_by u_name nm (t_users d)))"
    "id_of ug_id (GetUserGroupByName ev nm d) = found (map_option ug_id (row_by ug_name nm (t_user_groups d)))"
    "id_of s_id (GetServiceByName ev nm d) = found (map_option s_id (row_by s_name nm (t_services d)))"
    "id_of sg_id (GetServiceGroupByName ev nm d) = found (map_option sg_id (row_by sg_name nm (t_service_groups d)))"
proof -
  show "id_of u_id (GetUserByName ev nm d) = found (map_option u_id (row_by u_name nm (t_users d)))"
    using assms by (simp add: id_of_def GetUserByName_def query_user_def split: option.split)
  show "id_of ug_id (GetUserGroupByName ev nm d) = found (map_option ug_id (row_by ug_name nm (t_user_groups d)))"
    using assms by (simp add: id_of_def GetUserGroupByName_def query_row_def split: option.split)
  show "id_of sg_id (GetServiceGroupByName ev nm d) = found (map_option sg_id (row_by sg_name nm (t_service_groups d)))"
    using assms by (simp add: id_of_def GetServiceGroupByName_def query_row_def split: option.split)
  let ?rows = "filter (\<lambda>r. s_name r = nm) (t_services d)"
  have q: "queryServices ev (\<lambda>d. filter (\<lambda>r. s_name r = nm) (t_services d)) d
      = Inr (map (\<lambda>s. s\<lparr>s_ports := ports_of d (s_id s)\<rparr>) (map scanService ?rows))"
    using assms by (simp add: queryServices_def loadServicePorts_def mapE_ok)
  have "List.find P t = (case filter P t of [] \<Rightarrow> None | x # _ \<Rightarrow> Some x)" for P and t :: "string option service_row list"
    by (induction t) simp_all
  then show "id_of s_id (GetServiceByName ev nm d) = found (map_option s_id (row_by s_name nm (t_services d)))"
    unfolding GetServiceByName_def q id_of_def first_or_not_found_def row_by_def
    by (cases ?rows) simp_all
qed

lemma resolved_by_name:
  assumes "sql_never_fails ev" and "nm \<noteq> []"
  shows "resolveSubject ev [] 0 nm d = found (subject_named d nm)"
    "resolveObject ev [] 0 nm d = found (object_named d nm)"
  using assms(2)
  by (cases "row_by ug_name nm (t_user_groups d)"; simp add: resolveSubject_def resolveObject_def
      id_of_named [OF assms(1)] subject_named_def object_named_def split: option.split)+

lemma resolved_empty:
  "resolveSubject ev [] 0 [] d = Inl ErrInvalidInput" "resolveObject ev [] 0 [] d = Inl ErrInvalidInput"
  by (simp_all add: resolveSubject_def resolveObject_def)

lemma carries_policy:
  assumes w: "wired wi sh" and q: "quiet wi"
  shows "carries_out wi dm (policy_intent sub obj act (dm_db dm)) (policy_add sh [sub, obj, act] fs (n, dm))"
proof (cases "act \<noteq> ''allow'' \<and> act \<noteq> ''deny''")
  case True
  then show ?thesis
    by (simp add: policy_intent_def policy_add_def exact3_def carries_out_def complain_def failC_def)
next
  case act: False
  let ?su = "wi_surroundings wi n" and ?d = "dm_db dm" and ?out = "into_policy sh"
  let ?ob = "[(''subject_name'', JStr sub), (''object_name'', JStr obj), (''action'', JStr act)]"
  let ?sent = "sent ''POST'' ''/api/policies'' (ou_marshal (sh_outside sh) ?ob)"
  let ?ev = "su_env ?su"
  note ev = quiet_env_never [OF q, of n]
  have st: "status_laws (wi_reply wi)" using w by (simp add: wired_def)
  have post: "api_post sh ''/api/policies'' ?ob ?out = answer_to wi ''POST'' ''/api/policies'' (ou_marshal (sh_outside sh) ?ob) ?out"
    by (rule post_served [OF w]) (simp_all add: fixed_paths [simplified] has_prefix_def)
  have rt: "wi_router wi routes ''POST'' ''/api/policies'' = Inr (HCreatePolicy, \<lambda>k. if k \<in> set [] then [] else [])"
    using serve_routed [OF w row_routes(6) fixed_fills(5), of "\<lambda>_. []"] by (simp add: fixed_params)
  note h = handle_def handle_rest_def Let_def update_bodies [OF w] createPolicy_def readJSON_def sent_def
  have refusal: "answer_to wi ''POST'' ''/api/policies'' (ou_marshal (sh_outside sh) ?ob) ?out (n, dm) = (Inl (refused wi e), (Suc n, dm))"
    if "bindE (resolveSubject ?ev [] 0 sub ?d) (\<lambda>s. bindE (resolveObject ?ev [] 0 obj ?d) (\<lambda>obj. Inr (s, obj))) = Inl e" for e
  proof -
    have "handle ?su (wi_codec wi) (\<lambda>k. []) ?sent dm HCreatePolicy = Some (ReplyError (error_status e) (StoreError e), ?d, [])"
      using that by (simp add: h wrap_def writeError_def)
    then show ?thesis
      using rt finish_refused [OF st] by (simp add: answer_to_def serve_http_def sent_def touch_caches_def)
  qed
  have add: "carries_out wi dm i (policy_add sh [sub, obj, act] fs (n, dm))"
    if "carries_out wi dm i (answer_to wi ''POST'' ''/api/policies'' (ou_marshal (sh_outside sh) ?ob) ?out (n, dm))" for i
    unfolding policy_add_def exact3_def list.case if_not_P [OF act] post
    by (rule carries_bind [where s = "(n, dm)" and m = "answer_to wi ''POST'' ''/api/policies'' (ou_marshal (sh_outside sh) ?ob) ?out", OF that])
      (rule retC_ok)
  show ?thesis
  proof (cases "bindE (resolveSubject ?ev [] 0 sub ?d) (\<lambda>s. bindE (resolveObject ?ev [] 0 obj ?d) (\<lambda>obj. Inr (s, obj)))")
    case (Inl e)
    have "policy_intent sub obj act ?d = Refusal (error_status e)"
      using Inl act resolved_by_name [OF ev, of sub ?d] resolved_by_name [OF ev, of obj ?d] resolved_empty [of ?ev ?d]
      by (cases "sub = []"; cases "obj = []"; cases "subject_named ?d sub"; cases "object_named ?d obj")
        (auto simp: policy_intent_def error_status_def)
    moreover have "carries_out wi dm (Refusal (error_status e))
        (answer_to wi ''POST'' ''/api/policies'' (ou_marshal (sh_outside sh) ?ob) ?out (n, dm))"
      by (simp add: refusal [OF Inl] carries_out_def refused_def)
    ultimately show ?thesis using add by simp
  next
    case (Inr x)
    obtain sty si ot oi where x: "x = ((sty, si), (ot, oi))" by (metis surj_pair)
    let ?cp = "\<lparr>cp_subject_type = sty, cp_subject_id = si, cp_object_type = ot, cp_object_id = oi, cp_action = act\<rparr>"
    have i: "policy_intent sub obj act ?d = Operation (OpCreatePolicy ?cp)"
      using Inr x act resolved_by_name [OF ev, of sub ?d] resolved_by_name [OF ev, of obj ?d] resolved_empty [of ?ev ?d]
      by (cases "sub = []"; cases "obj = []"; cases "subject_named ?d sub"; cases "object_named ?d obj")
        (auto simp: policy_intent_def)
    obtain res d' ks where op: "CreatePolicy ?ev ?cp ?d = (res, d', ks)" by (metis surj_pair)
    have "\<exists>rep. handle ?su (wi_codec wi) (\<lambda>k. if k \<in> set (params ''/api/policies/'') then [] else []) ?sent dm HCreatePolicy
        = Some (rep, snd (CreatePolicy ?ev ?cp ?d))
      \<and> (case res of Inl e \<Rightarrow> finish ?out (wi_reply wi rep) = Inl (refused wi e) | Inr _ \<Rightarrow> \<exists>y. finish ?out (wi_reply wi rep) = Inr y)"
    proof (cases res)
      case (Inl e)
      then show ?thesis using Inr x op finish_refused [OF st]
        by (simp add: h wrap_def writeError_def fixed_params)
    next
      case (Inr rule)
      then obtain dto where "toPolicyDTO ?ev d' rule = Some dto" using CreatePolicy_named op by blast
      moreover have "finish ?out (wi_reply wi (Reply 201 (PPolicy dto))) = Inr dto" for dto
        using w by (simp add: finish_done(2) [OF st] into_policy_def wired_def reply_laws_def)
      ultimately show ?thesis using \<open>bindE _ _ = Inr x\<close> Inr x op by (simp add: h wrap_def fixed_params)
    qed
    then obtain rep where hd: "handle ?su (wi_codec wi) (\<lambda>k. if k \<in> set (params ''/api/policies/'') then [] else []) ?sent dm HCreatePolicy
        = Some (rep, snd (CreatePolicy ?ev ?cp ?d))"
      and f: "case res of Inl e \<Rightarrow> finish ?out (wi_reply wi rep) = Inl (refused wi e) | Inr _ \<Rightarrow> \<exists>y. finish ?out (wi_reply wi rep) = Inr y"
      by blast
    let ?op = "OpCreatePolicy ?cp"
    have s: "answer_to wi ''POST'' ''/api/policies'' (ou_marshal (sh_outside sh) ?ob) ?out (n, dm)
        = (finish ?out (wi_reply wi rep), (Suc n, snd (committed wi n ?op dm)))"
      by (rule served_op(1) [OF w row_routes(6) fixed_fills(5) _ hd]) (simp_all add: fixed_params)
    have c: "fst (committed wi n ?op dm) = (case fst (CreatePolicy ?ev ?cp ?d) of Inl e \<Rightarrow> Some e | Inr _ \<Rightarrow> None)"
      by (rule served_op(2) [OF w row_routes(6) fixed_fills(5) _ hd]) (simp_all add: fixed_params)
    have "carries_out wi dm (Operation (OpCreatePolicy ?cp))
        (answer_to wi ''POST'' ''/api/policies'' (ou_marshal (sh_outside sh) ?ob) ?out (n, dm))"
      using s c f op by (cases "committed wi n ?op dm"; cases res) (auto simp: carries_out_def)
    then show ?thesis using add i by simp
  qed
qed

section \<open>Every such command is its operation\<close>

lemmas named_defs = user_named_def user_group_named_def service_named_def service_group_named_def

lemma wire_ids [simp]:
  "wu_id (toUserDTO (scanUser u)) = u_id u" "wg_id (toUserGroupDTO g) = ug_id g"
  "ws_id (toServiceDTO (service_view d s)) = s_id s" "wsg_id (toServiceGroupDTO h) = sg_id h"
  by (simp_all add: toUserDTO_def toUserGroupDTO_def toServiceDTO_def toServiceGroupDTO_def)

text \<open>A lookup, then what is done with the row found.\<close>

lemma carries_named:
  assumes "wired wi sh" "quiet wi" "db_wf (dm_db dm)"
  shows "(\<And>u. 0 < u_id u \<Longrightarrow> u_id u \<le> max_int64 \<Longrightarrow> carries_out wi dm (k1 u) (g1 (toUserDTO (scanUser u)) (Suc n, dm)))
      \<Longrightarrow> carries_out wi dm (user_named (dm_db dm) a k1) (bindC (lookupUserByName sh a) g1 (n, dm))"
    "(\<And>u. 0 < ug_id u \<Longrightarrow> ug_id u \<le> max_int64 \<Longrightarrow> carries_out wi dm (k2 u) (g2 (toUserGroupDTO u) (Suc n, dm)))
      \<Longrightarrow> carries_out wi dm (user_group_named (dm_db dm) a k2) (bindC (lookupUserGroupByName sh a) g2 (n, dm))"
    "(\<And>u. 0 < s_id u \<Longrightarrow> s_id u \<le> max_int64
        \<Longrightarrow> carries_out wi dm (k3 u) (g3 (toServiceDTO (service_view (dm_db dm) u)) (Suc n, dm)))
      \<Longrightarrow> carries_out wi dm (service_named (dm_db dm) a k3) (bindC (lookupServiceByName sh a) g3 (n, dm))"
    "(\<And>u. 0 < sg_id u \<Longrightarrow> sg_id u \<le> max_int64 \<Longrightarrow> carries_out wi dm (k4 u) (g4 (toServiceGroupDTO u) (Suc n, dm)))
      \<Longrightarrow> carries_out wi dm (service_group_named (dm_db dm) a k4) (bindC (lookupServiceGroupByName sh a) g4 (n, dm))"
  unfolding named_defs
  by (rule carries_lookup [where m = "lookupUserByName sh a", OF looked_up_by_name(1) [OF assms]]; simp add: row_ids [OF assms(3)])
    (rule carries_lookup [where m = "lookupUserGroupByName sh a", OF looked_up_by_name(2) [OF assms]]; simp add: row_ids [OF assms(3)]
    | rule carries_lookup [where m = "lookupServiceByName sh a", OF looked_up_by_name(3) [OF assms]]; simp add: row_ids [OF assms(3)]
    | rule carries_lookup [where m = "lookupServiceGroupByName sh a", OF looked_up_by_name(4) [OF assms]]; simp add: row_ids [OF assms(3)])+

lemma carries_delete_commands:
  assumes w: "wired wi sh" and "quiet wi" "db_wf (dm_db dm)"
  shows "carries_out wi dm (user_named (dm_db dm) a (\<lambda>u. Operation (OpDeleteUser (u_id u)))) (user_delete sh [a] fs (n, dm))"
    "carries_out wi dm (user_group_named (dm_db dm) a (\<lambda>g. Operation (OpDeleteUserGroup (ug_id g))))
      (user_group_delete sh [a] fs (n, dm))"
    "carries_out wi dm (service_named (dm_db dm) a (\<lambda>s. Operation (OpDeleteService (s_id s)))) (service_delete sh [a] fs (n, dm))"
    "carries_out wi dm (service_group_named (dm_db dm) a (\<lambda>g. Operation (OpDeleteServiceGroup (sg_id g))))
      (service_group_delete sh [a] fs (n, dm))"
  unfolding user_delete_def user_group_delete_def service_delete_def service_group_delete_def exact1_def list.case
  by (rule carries_named [OF assms], simp only: wire_ids, rule carries_bind, rule carries_deletes [OF w], assumption, assumption, rule retC_ok)+

lemma update_body_empty:
  "update_user_body fs = [] \<longleftrightarrow> given fs ''name'' = None \<and> given fs ''email'' = None \<and> given fs ''endpoint'' = None"
  "group_update_body fs = [] \<longleftrightarrow> given fs ''name'' = None \<and> given_lan fs = None"
  by (simp_all add: update_user_body_def group_update_body_def if_changed_def given_def given_lan_def)

lemma carries_if:
  "\<lbrakk>c \<Longrightarrow> carries_out wi dm i (m s); \<not> c \<Longrightarrow> carries_out wi dm j (k s)\<rbrakk>
    \<Longrightarrow> carries_out wi dm (if c then i else j) ((if c then m else k) s)"
  by simp

lemma carries_user_update:
  assumes "wired wi sh" and "quiet wi" "db_wf (dm_db dm)"
  shows "carries_out wi dm (user_named (dm_db dm) a (\<lambda>u.
       if given fs ''name'' = None \<and> given fs ''email'' = None \<and> given fs ''endpoint'' = None then Complaint ''nothing to update''
       else Operation (OpUpdateUser (u_id u) \<lparr>uu_name = given fs ''name'', uu_email = given fs ''email'',
         uu_endpoint = given fs ''endpoint''\<rparr>))) (user_update sh [a] fs (n, dm))"
  unfolding user_update_def exact1_def list.case Let_def update_body_empty
  by (rule carries_named [OF assms], simp only: wire_ids, rule carries_if, rule carries_complaint,
      rule carries_bind, rule carries_updates [OF assms(1)], (assumption | rule retC_ok)+)

lemma carries_user_group_update:
  assumes "wired wi sh" and "quiet wi" "db_wf (dm_db dm)"
  shows "carries_out wi dm (user_group_named (dm_db dm) a (update_intent fs)) (user_group_update sh [a] fs (n, dm))"
  unfolding user_group_update_def exact1_def list.case Let_def group_update_body_def [symmetric] update_body_empty
    update_intent_def
  by (rule carries_named [OF assms], simp only: wire_ids, rule carries_if, rule carries_complaint,
      rule carries_if, rule carries_complaint, rule carries_bind, rule carries_updates [OF assms(1)], (assumption | rule retC_ok)+)

lemma carries_service_group_update:
  assumes "wired wi sh" and "quiet wi" "db_wf (dm_db dm)"
  shows "carries_out wi dm (service_group_named (dm_db dm) a (\<lambda>g. if flag fs ''name'' = [] then Complaint ''--name required''
       else Operation (OpUpdateServiceGroup (sg_id g) (Some (flag fs ''name''))))) (service_group_update sh [a] fs (n, dm))"
  unfolding service_group_update_def exact1_def list.case
  by (rule carries_named [OF assms], simp only: wire_ids, rule carries_if, rule carries_complaint,
      rule carries_bind, rule carries_updates [OF assms(1)], (assumption | rule retC_ok)+)

lemma carries_group_creates:
  assumes "wired wi sh"
  shows "carries_out wi dm (Operation (OpCreateUserGroup a (flag_on fs ''lan-mode''))) (user_group_create sh [a] fs (n, dm))"
    "carries_out wi dm (Operation (OpCreateServiceGroup a)) (service_group_create sh [a] fs (n, dm))"
  unfolding user_group_create_def service_group_create_def exact1_def list.case
  by (rule carries_bind, rule carries_creates [OF assms], rule retC_ok)+

lemma carries_policy_delete:
  assumes "wired wi sh"
  shows "carries_out wi dm (case parse_int64 a of None \<Rightarrow> Complaint ''invalid id''
       | Some i \<Rightarrow> if i \<le> 0 then Complaint ''invalid id'' else Operation (OpDeletePolicy i)) (policy_delete sh [a] fs (n, dm))"
proof (cases "parse_int64 a")
  case (Some i)
  have "carries_out wi dm (Operation (OpDeletePolicy i)) (bindC (api_delete sh (''/api/policies/'' @ int_str i))
      (\<lambda>_. retC (''deleted policy #'' @ int_str i @ eol)) (n, dm))" if "0 < i"
    using that parse_int64_range [OF Some] by (intro carries_bind carries_deletes [OF assms] retC_ok) simp_all
  then show ?thesis unfolding policy_delete_def exact1_def list.case Some option.case
    by (simp only: split: if_split) (simp add: carries_complaint)
qed (simp add: policy_delete_def exact1_def carries_complaint)

lemma carries_memberships:
  assumes "wired wi sh" and "quiet wi" "db_wf (dm_db dm)"
  shows "carries_out wi dm (user_group_named (dm_db dm) a (\<lambda>g. user_named (dm_db dm) b (\<lambda>u.
      Operation (OpAddUserToGroup (ug_id g) (u_id u))))) (user_group_join sh [a, b] fs (n, dm))"
    "carries_out wi dm (user_group_named (dm_db dm) a (\<lambda>g. user_named (dm_db dm) b (\<lambda>u.
      Operation (OpRemoveUserFromGroup (ug_id g) (u_id u))))) (user_group_leave sh [a, b] fs (n, dm))"
    "carries_out wi dm (service_group_named (dm_db dm) a (\<lambda>g. service_named (dm_db dm) b (\<lambda>s.
      Operation (OpAddServiceToGroup (sg_id g) (s_id s))))) (service_group_join sh [a, b] fs (n, dm))"
    "carries_out wi dm (service_group_named (dm_db dm) a (\<lambda>g. service_named (dm_db dm) b (\<lambda>s.
      Operation (OpRemoveServiceFromGroup (sg_id g) (s_id s))))) (service_group_leave sh [a, b] fs (n, dm))"
  unfolding user_group_join_def user_group_leave_def service_group_join_def service_group_leave_def exact2_def list.case
  by (rule carries_named [OF assms], rule carries_named [OF assms], simp only: wire_ids, rule carries_bind,
      rule carries_joins [OF assms(1)] carries_leaves [OF assms(1)], (assumption | rule retC_ok)+)+

lemma run_writes:
  "run_command UserUpdate = user_update" "run_command UserDelete = user_delete"
  "run_command UserGroupCreate = user_group_create" "run_command UserGroupUpdate = user_group_update"
  "run_command UserGroupDelete = user_group_delete" "run_command UserGroupJoin = user_group_join"
  "run_command UserGroupLeave = user_group_leave" "run_command ServiceDelete = service_delete"
  "run_command ServiceGroupCreate = service_group_create" "run_command ServiceGroupUpdate = service_group_update"
  "run_command ServiceGroupDelete = service_group_delete" "run_command ServiceGroupJoin = service_group_join"
  "run_command ServiceGroupLeave = service_group_leave" "run_command PolicyAdd = policy_add"
  "run_command PolicyDelete = policy_delete"
  by (simp_all add: run_command_def of_users_def newUserCmd_def newUserGroupCmd_def newPolicyCmd_def run_users_def run_services_def)

end
