(* ===== verification/CliContracts.thy ===== *)
theory CliContracts
  imports CliRefine
begin

text \<open>
  What running the client's commands does to the daemon, and a wire on which the laws of \<open>CliLaws\<close> hold, so that what is shown of wired clients is about something: bodies and replies are
  sent as numbers, and the router compares method, length and third segment, which tell the routes apart.
\<close>

section \<open>Numbers for values\<close>

instance json :: countable
  by countable_datatype

instance wire_user_ext :: (countable) countable
  by (rule countable_classI [of "\<lambda>r. to_nat ((wu_id r, wu_name r, wu_email r, wu_public_key r, wu_preshared_key r),
    (wu_ip r, wu_endpoint r, wu_migrated r, wu_created r, wu_updated r, wire_user.more r))"]) simp

instance wire_user_group_ext :: (countable) countable
  by (rule countable_classI [of "\<lambda>r. to_nat (wg_id r, wg_name r, wg_lan_mode r, wg_created r, wg_updated r, wire_user_group.more r)"]) simp

instance wire_port_ext :: (countable) countable
  by (rule countable_classI [of "\<lambda>r. to_nat (wp_port r, wp_protocol r, wire_port.more r)"]) simp

instance wire_service_ext :: (countable) countable
  by (rule countable_classI [of "\<lambda>r. to_nat ((ws_id r, ws_name r, ws_hostname r, ws_origin_kind r, ws_origin_value r, ws_origin_network r),
    (ws_ip r, ws_description r, ws_ports r, ws_created r, ws_updated r, wire_service.more r))"]) simp

instance wire_service_group_ext :: (countable) countable
  by (rule countable_classI [of "\<lambda>r. to_nat (wsg_id r, wsg_name r, wsg_created r, wsg_updated r, wire_service_group.more r)"]) simp

instance wire_policy_ext :: (countable) countable
  by (rule countable_classI [of "\<lambda>r. to_nat ((wpo_id r, wpo_subject_type r, wpo_subject_id r, wpo_subject_name r, wpo_object_type r),
    (wpo_object_id r, wpo_object_name r, wpo_action r, wpo_created r, wpo_updated r, wire_policy.more r))"]) simp

definition number_text :: "'a::countable \<Rightarrow> string" where
  "number_text x = nat_str (to_nat x)"

definition of_number :: "string \<Rightarrow> 'a::countable" where
  "of_number s = from_nat (the (digits_val s))"

lemma of_number_text [simp]: "of_number (number_text x) = x"
  by (simp add: of_number_def number_text_def)

section \<open>The parts of the wire\<close>

definition w_wire_codec :: codec where
  "w_wire_codec = \<lparr>dec_create_user = (\<lambda>s. read_create_user (of_number s)), dec_update_user = (\<lambda>s. read_update_user (of_number s)),
     dec_create_user_group = (\<lambda>s. read_create_user_group (of_number s)),
     dec_update_user_group = (\<lambda>s. read_update_user_group (of_number s)), dec_user_member = (\<lambda>s. read_user_member (of_number s)),
     dec_create_service = (\<lambda>_. None), dec_update_service = (\<lambda>_. None),
     dec_create_service_group = (\<lambda>s. str_field (of_number s) ''name''),
     dec_update_service_group = (\<lambda>s. opt_str_field (of_number s) ''name''),
     dec_service_member = (\<lambda>s. read_service_member (of_number s)), dec_create_policy = (\<lambda>s. read_create_policy (of_number s))\<rparr>"

definition w_payload_text :: "payload \<Rightarrow> string" where
  "w_payload_text p = (case p of PUser x \<Rightarrow> number_text x | PUsers xs \<Rightarrow> number_text xs | PUserGroup x \<Rightarrow> number_text x
     | PUserGroups xs \<Rightarrow> ''u'' @ number_text xs | PServices xs \<Rightarrow> number_text xs | PServiceGroup x \<Rightarrow> number_text x
     | PServiceGroups xs \<Rightarrow> ''s'' @ number_text xs | PPolicy x \<Rightarrow> number_text x | PPolicies xs \<Rightarrow> number_text xs | _ \<Rightarrow> [])"

definition w_wire_reply :: "payload reply \<Rightarrow> http_response" where
  "w_wire_reply rep = (case rep of Reply st x \<Rightarrow> \<lparr>rs_status = st, rs_body = w_payload_text x, rs_broken = None\<rparr>
     | ReplyEmpty st \<Rightarrow> \<lparr>rs_status = st, rs_body = [], rs_broken = None\<rparr>
     | ReplyError st e \<Rightarrow> \<lparr>rs_status = st, rs_body = [], rs_broken = None\<rparr>
     | ReplyPanic \<Rightarrow> \<lparr>rs_status = 500, rs_body = [], rs_broken = None\<rparr>)"

text \<open>Listings of groups are marked, so that their rows can be read from either.\<close>

definition w_rows :: "http_response \<Rightarrow> string + named_row list" where
  "w_rows r = Inr (if hd (rs_body r) = CHR ''u''
     then map (\<lambda>g. \<lparr>nr_id = wg_id g, nr_name = wg_name g, nr_lan_mode = wg_lan_mode g\<rparr>) (of_number (tl (rs_body r)) :: wire_user_group list)
     else map (\<lambda>g. \<lparr>nr_id = wsg_id g, nr_name = wsg_name g, nr_lan_mode = False\<rparr>) (of_number (tl (rs_body r)) :: wire_service_group list))"

definition w_decoders :: decoders where
  "w_decoders = \<lparr>rd_user = (\<lambda>r. Inr (of_number (rs_body r))), rd_users = (\<lambda>r. Inr (of_number (rs_body r))),
     rd_user_group = (\<lambda>r. Inr (of_number (rs_body r))), rd_user_groups = (\<lambda>r. Inr (of_number (tl (rs_body r)))),
     rd_service = (\<lambda>r. Inr (of_number (rs_body r))), rd_services = (\<lambda>r. Inr (of_number (rs_body r))),
     rd_service_group = (\<lambda>r. Inr (of_number (rs_body r))), rd_service_groups = (\<lambda>r. Inr (of_number (tl (rs_body r)))),
     rd_policy = (\<lambda>r. Inr (of_number (rs_body r))), rd_policies = (\<lambda>r. Inr (of_number (rs_body r))),
     rd_names = (\<lambda>_. Inl []), rd_rows = w_rows, rd_status = (\<lambda>_. Inl []), rd_check = (\<lambda>_. Inl []),
     rd_containers = (\<lambda>_. Inl []), rd_peers = (\<lambda>_. Inl []), rd_connections = (\<lambda>_. Inl [])\<rparr>"

definition route_key :: "string \<Rightarrow> string list \<Rightarrow> string \<times> nat \<times> string" where
  "route_key m segs = (m, length segs, segs ! 2)"

definition capture :: "string list \<Rightarrow> string list \<Rightarrow> string \<Rightarrow> string" where
  "capture pats segs k = (case List.find (\<lambda>(p, s). is_param p \<and> param_name p = k) (zip pats segs) of
     None \<Rightarrow> [] | Some (p, s) \<Rightarrow> s)"

definition w_wire_router :: router where
  "w_wire_router rs m p = (let segs = split_on (CHR ''/'') p in
     case List.find (\<lambda>(m', pat, h). route_key m' (segments pat) = route_key m segs) rs of
       None \<Rightarrow> Inl 404 | Some (m', pat, h) \<Rightarrow> if m' = m then Inr (h, capture (segments pat) segs) else Inl 404)"

lemma w_reply_laws: "status_laws w_wire_reply" "reply_laws w_wire_reply w_decoders"
  by (simp_all add: status_laws_def reply_laws_def w_wire_reply_def w_decoders_def w_payload_text_def w_rows_def)

lemma w_body_laws: "body_laws number_text w_wire_codec"
  by (simp add: body_laws_def w_wire_codec_def)

lemma keys_distinct: "distinct (map (\<lambda>(m, pat, h). route_key m (segments pat)) routes)"
  by (simp add: routes_def under_def route_key_def segments_def trim_suffix_def has_prefix_def)

lemma params_of_segments: "params pat = map param_name (filter is_param (segments pat))"
  by (simp add: params_def)

lemma find_zip_map:
  "(case List.find (\<lambda>(p, s). is_param p \<and> param_name p = k) (zip ps (map (\<lambda>seg. if is_param seg then f (param_name seg) else seg) ps)) of
     None \<Rightarrow> [] | Some (p, s) \<Rightarrow> s) = (if k \<in> set (map param_name (filter is_param ps)) then f k else [])"
  by (induction ps) auto

lemma segments_plain: "seg \<in> set (segments pat) \<Longrightarrow> CHR ''/'' \<notin> set seg"
proof -
  have "\<forall>seg\<in>set (split_on c s). c \<notin> set seg" for c s
    by (induction c s rule: split_on.induct) (auto split: list.splits)
  then show "seg \<in> set (segments pat) \<Longrightarrow> CHR ''/'' \<notin> set seg" by (simp add: segments_def)
qed

lemma fill_segments:
  assumes "\<forall>k\<in>set (params pat). list_all unreserved (ps k)"
  shows "split_on (CHR ''/'') (fill ps pat) = map (\<lambda>seg. if is_param seg then ps (param_name seg) else seg) (segments pat)"
proof -
  have "\<not> unreserved (CHR ''/'')" by (simp add: unreserved_def is_digit_def)
  then have "CHR ''/'' \<notin> set (if is_param seg then ps (param_name seg) else seg)" if "seg \<in> set (segments pat)" for seg
    using that assms segments_plain [OF that] by (auto simp: params_of_segments list_all_iff)
  then have "\<forall>x\<in>set (map (\<lambda>seg. if is_param seg then ps (param_name seg) else seg) (segments pat)). CHR ''/'' \<notin> set x"
    unfolding set_map by blast
  moreover have "segments pat \<noteq> []" by (simp add: segments_def)
  ultimately show ?thesis unfolding fill_def by (intro split_on_join) (simp_all del: set_map)
qed

lemma third_static: "(m, pat, h) \<in> set routes \<Longrightarrow> 2 < length (segments pat) \<and> \<not> is_param (segments pat ! 2)"
  by (auto simp: routes_def under_def path_eval)

lemma w_router_laws: "router_laws w_wire_router"
proof -
  have "w_wire_router routes m (fill ps pat) = Inr (h, \<lambda>k. if k \<in> set (params pat) then ps k else [])"
    if r: "(m, pat, h) \<in> set routes" and p: "\<forall>k\<in>set (params pat). ps k \<noteq> [] \<and> list_all unreserved (ps k)" for m pat h ps
  proof -
    have segs: "split_on (CHR ''/'') (fill ps pat) = map (\<lambda>seg. if is_param seg then ps (param_name seg) else seg) (segments pat)"
      using p by (intro fill_segments) auto
    have key: "route_key m (map (\<lambda>seg. if is_param seg then ps (param_name seg) else seg) (segments pat)) = route_key m (segments pat)"
      using third_static [OF r] by (simp add: route_key_def)
    have "List.find (\<lambda>x. (case x of (m, pat, h) \<Rightarrow> route_key m (segments pat)) = route_key m (segments pat)) routes = Some (m, pat, h)"
      using find_key_unique [OF keys_distinct r] by simp
    then have "List.find (\<lambda>(m', pat', h). route_key m' (segments pat') = route_key m (segments pat)) routes = Some (m, pat, h)"
      by (simp add: case_prod_unfold)
    then show ?thesis
      by (simp add: w_wire_router_def Let_def key segs capture_def find_zip_map params_of_segments fun_eq_iff)
  qed
  moreover have "routed w_wire_router"
    by (auto simp: routed_def w_wire_router_def Let_def dest!: find_SomeD split: option.splits prod.splits if_splits)
  ultimately show ?thesis unfolding router_laws_def by blast
qed

section \<open>A wired client\<close>

definition w_wiring :: wiring where
  "w_wiring = \<lparr>wi_os = w_os, wi_router = w_wire_router, wi_codec = w_wire_codec, wi_surroundings = (\<lambda>_. w_surroundings),
     wi_socket = clientSocketPath, wi_url = (\<lambda>u. (drop (length ''http://lightscale'') u, [])), wi_reply = w_wire_reply\<rparr>"

definition w_shell :: "(nat \<times> daemon) shell" where
  "w_shell = \<lparr>sh_outside = \<lparr>ou_getenv = (\<lambda>_. []), ou_parse_url = Inr, ou_new_request = (\<lambda>_ _. None),
       ou_marshal = number_text, ou_exchange = exchange w_wiring\<rparr>,
     sh_decoders = w_decoders, sh_emit = (\<lambda>_. []), sh_options = \<lparr>op_socket = [], op_json = False\<rparr>\<rparr>"

lemma w_client: "cli_client w_shell = \<lparr>cl_dial = Some clientSocketPath, cl_base = ''http://lightscale'', cl_socket = clientSocketPath\<rparr>"
  by (simp add: cli_client_def w_shell_def new_client_def Let_def clientSocketPath_def)

lemma w_shell_sel:
  "ou_exchange (sh_outside w_shell) = exchange w_wiring" "ou_parse_url (sh_outside w_shell) = Inr"
  "ou_new_request (sh_outside w_shell) m u = None" "ou_marshal (sh_outside w_shell) = number_text"
  "sh_decoders w_shell = w_decoders"
  by (simp_all add: w_shell_def)

lemma w_wiring_sel:
  "wi_router w_wiring = w_wire_router" "wi_codec w_wiring = w_wire_codec" "wi_reply w_wiring = w_wire_reply"
  "wi_socket w_wiring = clientSocketPath" "wi_url w_wiring u = (drop (length ''http://lightscale'') u, [])"
  "wi_surroundings w_wiring n = w_surroundings"
  by (simp_all add: w_wiring_def)

lemma w_wired: "wired w_wiring w_shell"
  using w_router_laws w_body_laws w_reply_laws
  by (simp add: wired_def path_laws_def w_client w_shell_sel w_wiring_sel)

lemma w_quiet: "quiet w_wiring"
  by (simp add: quiet_def w_wiring_sel w_surroundings_def)

section \<open>Properties\<close>



text \<open>
  C30: asking changes nothing. Every command's \<open>--help\<close>, which asks the daemon what the command would do, and every command that only shows something leaves the daemon's tables, index,
  flows, peers and announced addresses as they were, whatever the arguments and flags, whatever the replies look like and whether
  or not they can be decoded.
\<close>

theorem asking_changes_nothing:
  assumes "routed (wi_router wi)" and "ou_exchange (sh_outside sh) = exchange wi"
  shows "same_plane dm (snd (snd (run_help c sh static args fs (n, dm))))
    \<and> (is_view c \<longrightarrow> same_plane dm (snd (snd (run_command c sh args fs (n, dm)))))"
  using assms(1) asked.calm_help [OF assms(2), of "(n, dm)" c static args fs]
    asked.calm_views [OF assms(2), of c args fs]
  by (auto simp: undisturbed_def asked.calm_def)

theorem asking_changes_nothing_witness:
  "\<exists>idx. Build quiet_env w_live_db = Inr idx
    \<and> same_plane (w_daemon idx) (snd (snd (run_help PolicyDelete w_shell [] [''1''] [] (0, w_daemon idx))))
    \<and> same_plane (w_daemon idx) (snd (snd (run_command PolicyList w_shell [] [] (0, w_daemon idx))))"
proof -
  obtain idx where b: "Build quiet_env w_live_db = Inr idx" using w_live_build by blast
  have "routed (wi_router w_wiring)" using w_router_laws by (simp add: router_laws_def w_wiring_sel)
  moreover have "is_view PolicyList" by (simp add: is_view_def)
  ultimately show ?thesis
    using b asking_changes_nothing [OF _ w_shell_sel(1), of "w_daemon idx" PolicyDelete "[]" "[''1'']" "[]" 0]
      asking_changes_nothing [OF _ w_shell_sel(1), of "w_daemon idx" PolicyList "[]" "[]" "[]" 0] by blast
qed

end
