(* ===== verification/PreviewContracts.thy ===== *)
theory PreviewContracts
  imports CliContracts
begin

text \<open>
  What the previews say, compared with what the commands do: the rules that a deletion removes, and the address that a new service
  gets.
\<close>

section \<open>Computations of the previewer\<close>

lemma run_preview_bind:
  "run_state (State_Monad.bind m f) ps = (case run_state m ps of (x, ps') \<Rightarrow> run_state (f x) ps')"
  by (simp add: State_Monad.bind_def split: prod.split)

lemma run_preview_simps:
  "run_state (lines_of ls) ps = (Inr ls, ps)" "run_state is_offline (p, s) = (pv_offline p, (p, s))"
  "run_state (State_Monad.return x) ps = (x, ps)"
  by (simp_all add: lines_of_def is_offline_def State_Monad.return_def)

lemma run_preview_get:
  "\<not> pv_offline p \<Longrightarrow> api_get sh path t s = (Inr x, s') \<Longrightarrow> run_state (preview_get sh path t) (p, s) = (Some x, (p, s'))"
  by (simp add: preview_get_def)

lemma run_aside: "m s = (r, s') \<Longrightarrow> run_state (aside m) (p, s) = (r, (p, s'))"
  by (simp add: aside_def)

abbreviation online :: previewer where
  "online \<equiv> \<lparr>pv_offline = False, pv_reason = []\<rparr>"

definition preview_text :: "string \<Rightarrow> string list \<Rightarrow> string" where
  "preview_text static ls = static @ eol @ ''What this would do'' @ eol @ print_lines ls
     @ eol @ ''Nothing was changed. Re-run without --help to apply.'' @ eol"

lemma runPreview_online:
  "run_state (fn sh args fs) (online, s) = (Inr ls, (online, s')) \<Longrightarrow> runPreview sh static fn args fs s = (preview_text static ls, s')"
  by (simp add: runPreview_def preview_text_def)

section \<open>What a preview is told\<close>

lemma listed_policies:
  assumes w: "wired wi sh" and q: "quiet wi" and d: "db_wf (dm_db dm)"
  shows "\<exists>out. api_get sh ''/api/policies'' (into_policies sh) (n, dm) = (Inr out, (Suc n, dm))
    \<and> list_all2 (dto_of (dm_db dm)) (t_rules (dm_db dm)) out"
proof -
  obtain out where out: "listPolicies (su_env (wi_surroundings wi n)) (dm_db dm) = (Reply 200 out, dm_db dm, [])"
    and l: "list_all2 (dto_of (dm_db dm)) (t_rules (dm_db dm)) out"
    using policy_handlers_total [OF d] quiet_env_never [OF q] by blast
  have "serve_http (wi_os wi) (wi_router wi) (wi_codec wi) (wi_surroundings wi n) (sent ''GET'' ''/api/policies'' []) dm
      = Some (Reply 200 (PPolicies out), dm)"
    by (rule served_listing [OF w routes_listed(5) fixed_params(5) fixed_fills(5)])
      (simp_all add: handle_def handle_rest_def wrap_def out)
  moreover have "rs_status (wi_reply wi (Reply 200 (PPolicies out))) = 200"
    "rd_policies (sh_decoders sh) (wi_reply wi (Reply 200 (PPolicies out))) = Inr out"
    using w by (simp_all add: wired_def status_laws_def reply_laws_def)
  ultimately have "api_get sh ''/api/policies'' (into_policies sh) (n, dm) = (Inr out, (Suc n, dm))"
    by (simp add: get_served [OF w fixed_paths(5)] has_prefix_def answer_to_def into_policies_def finish_listing)
  then show ?thesis using l by blast
qed

definition group_row :: "user_group \<Rightarrow> named_row" where
  "group_row g = \<lparr>nr_id = ug_id g, nr_name = ug_name g, nr_lan_mode = ug_lan_mode g\<rparr>"

definition service_group_row :: "service_group \<Rightarrow> named_row" where
  "service_group_row g = \<lparr>nr_id = sg_id g, nr_name = sg_name g, nr_lan_mode = False\<rparr>"

lemma listed_rows:
  assumes w: "wired wi sh" and q: "quiet wi" and d: "db_wf (dm_db dm)"
  shows "api_get sh ''/api/user-groups'' (into (rd_rows (sh_decoders sh)) []) (n, dm)
      = (Inr (map group_row (t_user_groups (dm_db dm))), (Suc n, dm))"
    "api_get sh ''/api/service-groups'' (into (rd_rows (sh_decoders sh)) []) (n, dm)
      = (Inr (map service_group_row (t_service_groups (dm_db dm))), (Suc n, dm))"
proof -
  note l = wf_listed [OF d quiet_env_never [OF q, of n]]
  note s = served_listing [OF w routes_listed(2) fixed_params(2) fixed_fills(2), of n dm]
    served_listing [OF w routes_listed(4) fixed_params(4) fixed_fills(4), of n dm]
  note h = handle_def handle_users_def handle_services_def sent_def wrap_def answer_def l
    listUserGroups_def listServiceGroups_def Let_def
  have st: "rs_status (wi_reply wi (Reply 200 x)) = 200" for x using w by (simp add: wired_def status_laws_def)
  have de: "rd_rows (sh_decoders sh) (wi_reply wi (Reply 200 (PUserGroups gs)))
      = Inr (map (\<lambda>g. \<lparr>nr_id = wg_id g, nr_name = wg_name g, nr_lan_mode = wg_lan_mode g\<rparr>) gs)"
    "rd_rows (sh_decoders sh) (wi_reply wi (Reply 200 (PServiceGroups sgs)))
      = Inr (map (\<lambda>g. \<lparr>nr_id = wsg_id g, nr_name = wsg_name g, nr_lan_mode = False\<rparr>) sgs)" for gs sgs
    using w by (simp_all add: wired_def reply_laws_def)
  show "api_get sh ''/api/user-groups'' (into (rd_rows (sh_decoders sh)) []) (n, dm)
      = (Inr (map group_row (t_user_groups (dm_db dm))), (Suc n, dm))"
    using s(1) [of "PUserGroups (map toUserGroupDTO (t_user_groups (dm_db dm)))"]
    by (simp add: get_served [OF w fixed_paths(2)] has_prefix_def answer_to_def h finish_listing st de comp_def
        toUserGroupDTO_def group_row_def [abs_def])
  show "api_get sh ''/api/service-groups'' (into (rd_rows (sh_decoders sh)) []) (n, dm)
      = (Inr (map service_group_row (t_service_groups (dm_db dm))), (Suc n, dm))"
    using s(2) [of "PServiceGroups (map toServiceGroupDTO (t_service_groups (dm_db dm)))"]
    by (simp add: get_served [OF w fixed_paths(4)] has_prefix_def answer_to_def h finish_listing st de comp_def
        toServiceGroupDTO_def service_group_row_def [abs_def])
qed

section \<open>Which rules a preview tells of\<close>

text \<open>The rows told of, in terms of the rules they show.\<close>

lemma told_rows:
  assumes "list_all2 (dto_of d) rs out" and "distinct (map r_id rs)"
    and "\<And>r p. r \<in> set rs \<Longrightarrow> dto_of d r p \<Longrightarrow> goes p \<longleftrightarrow> P r"
  shows "filter goes out = filter (\<lambda>p. wpo_id p \<in> r_id ` {r \<in> set rs. P r}) out"
proof (rule filter_cong [OF refl])
  fix p assume "p \<in> set out"
  then obtain k where "k < length out" "p = out ! k" by (metis in_set_conv_nth)
  then obtain r where r: "r \<in> set rs" "dto_of d r p"
    using assms(1) by (metis list_all2_conv_all_nth nth_mem)
  then have "wpo_id p = r_id r" by (simp add: dto_of_def)
  then show "goes p \<longleftrightarrow> wpo_id p \<in> r_id ` {r \<in> set rs. P r}"
    using r assms(2) assms(3) [OF r] by (auto simp: distinct_map dest: inj_onD)
qed

lemma removed_lines_cong:
  "filter f out = filter g out \<Longrightarrow> removed_lines f noun (Some out) = removed_lines g noun (Some out)"
  by (simp add: removed_lines_def)

section \<open>The previews of deletions\<close>

text \<open>The lines around the rules, none of which reads like one of them.\<close>

definition around :: "string list \<Rightarrow> bool" where
  "around ls \<longleftrightarrow> (\<forall>l\<in>set ls. \<not> has_prefix l ''also removes'')"

text \<open>A preview of a deletion: what is said of the listed rules \<open>out\<close> is that those which \<open>goes\<close> holds of are removed.\<close>

definition tells :: "(nat \<times> daemon) shell \<Rightarrow> (nat \<times> daemon) preview_fn \<Rightarrow> string list \<Rightarrow> flags \<Rightarrow> nat \<times> daemon
    \<Rightarrow> (wire_policy \<Rightarrow> bool) \<Rightarrow> bool" where
  "tells sh fn args fs s goes \<longleftrightarrow> (\<exists>out hd_lines noun tl_lines s'. list_all2 (dto_of (dm_db (snd s))) (t_rules (dm_db (snd s))) out
     \<and> around (hd_lines @ tl_lines)
     \<and> run_state (fn sh args fs) (online, s) = (Inr (hd_lines @ removed_lines goes noun (Some out) @ tl_lines), (online, s')))"

lemma tellsI:
  "\<lbrakk>run_state (fn sh args fs) (online, s) = (Inr (h @ removed_lines goes noun (Some out) @ t), (online, s'));
    list_all2 (dto_of (dm_db (snd s))) (t_rules (dm_db (snd s))) out; around (h @ t)\<rbrakk> \<Longrightarrow> tells sh fn args fs s goes"
  unfolding tells_def by blast

lemma missing_given: "a \<noteq> [] \<Longrightarrow> missingArg [a] 0 p = a"
  by (simp add: missingArg_def)

lemma tells_user:
  assumes w: "wired wi sh" "quiet wi" "db_wf (dm_db dm)" and a: "a \<noteq> []"
    and u: "row_by u_name a (t_users (dm_db dm)) = Some u"
  shows "tells sh previewUserDelete [a] fs (n, dm) (user_goes (u_id u))"
proof -
  obtain out where o: "api_get sh ''/api/policies'' (into_policies sh) (Suc n, dm) = (Inr out, (Suc (Suc n), dm))"
    and l: "list_all2 (dto_of (dm_db dm)) (t_rules (dm_db dm)) out" using listed_policies [OF w] by blast
  have f: "List.find (\<lambda>u. wu_name u = a) (map (toUserDTO \<circ> scanUser) (t_users (dm_db dm))) = Some (toUserDTO (scanUser u))"
    using u by (simp add: find_mapped row_by_def toUserDTO_def)
  let ?u = "toUserDTO (scanUser u)"
  have "run_state (previewUserDelete sh [a] fs) (online, (n, dm)) =
    (Inr ([''delete user '' @ quote (wu_name ?u) @ '' (id '' @ int_str (wu_id ?u) @ '', mesh ip '' @ wu_ip ?u @ '')'',
        ''their device can no longer connect, and the mesh ip is freed for reuse'']
      @ removed_lines (user_goes (wu_id ?u)) ''user'' (Some out) @ []), (online, (Suc (Suc n), dm)))"
    by (simp add: previewUserDelete_def missing_given [OF a] lookupUser_def run_preview_bind run_preview_simps
        run_preview_get [OF _ listed(1) [OF w]] run_preview_get [OF _ o] f del: map_map)
  from tellsI [where fn = previewUserDelete and sh = sh and args = "[a]" and fs = fs, OF this] show ?thesis using l by (auto simp: around_def has_prefix_def toUserDTO_def)
qed

lemma tells_service:
  assumes w: "wired wi sh" "quiet wi" "db_wf (dm_db dm)" and a: "a \<noteq> []"
    and r: "row_by s_name a (t_services (dm_db dm)) = Some sv"
  shows "tells sh previewServiceDelete [a] fs (n, dm) (service_goes (s_id sv))"
proof -
  obtain out where o: "api_get sh ''/api/policies'' (into_policies sh) (Suc n, dm) = (Inr out, (Suc (Suc n), dm))"
    and l: "list_all2 (dto_of (dm_db dm)) (t_rules (dm_db dm)) out" using listed_policies [OF w] by blast
  let ?s = "toServiceDTO (service_view (dm_db dm) sv)"
  have f: "lookupServiceByName sh a (n, dm) = (Inr ?s, (Suc n, dm))"
    using looked_up_by_name(3) [OF w] r by (simp add: looked_up_def)
  have "run_state (previewServiceDelete sh [a] fs) (online, (n, dm)) =
    (Inr ([''delete service '' @ quote (ws_name ?s) @ '' (id '' @ int_str (ws_id ?s) @ '', internal ip '' @ ws_ip ?s @ '')'']
      @ removed_lines (service_goes (ws_id ?s)) ''service'' (Some out)
      @ [''its VIP stops accepting connections and active flows are closed'']), (online, (Suc (Suc n), dm)))"
    by (simp add: previewServiceDelete_def missing_given [OF a] run_preview_bind run_preview_simps
        run_aside [where m = "lookupServiceByName sh a", OF f] run_preview_get [OF _ o])
  from tellsI [where fn = previewServiceDelete and sh = sh and args = "[a]" and fs = fs, OF this] show ?thesis using l by (auto simp: around_def has_prefix_def toServiceDTO_def service_view_def)
qed

lemma tells_group:
  assumes w: "wired wi sh" "quiet wi" "db_wf (dm_db dm)" and a: "a \<noteq> []"
    and rows: "\<And>n. api_get sh (gp_list_path g) (into (rd_rows (sh_decoders sh)) []) (n, dm) = (Inr (map f rs), (Suc n, dm))"
    and r: "row_by nm a rs = Some x" and f: "\<And>x. nr_name (f x) = nm x"
  shows "tells sh (group_previewDelete g) [a] fs (n, dm) (group_goes g (nr_id (f x)))"
proof -
  obtain out where o: "api_get sh ''/api/policies'' (into_policies sh) (Suc n, dm) = (Inr out, (Suc (Suc n), dm))"
    and l: "list_all2 (dto_of (dm_db dm)) (t_rules (dm_db dm)) out" using listed_policies [OF w] by blast
  have found: "List.find (\<lambda>r. nr_name r = a) (map f rs) = Some (f x)"
    using r by (simp add: find_mapped row_by_def f)
  have "run_state (group_previewDelete g sh [a] fs) (online, (n, dm)) =
    (Inr ([''delete '' @ gp_noun g @ '' '' @ quote (nr_name (f x)) @ '' (id '' @ int_str (nr_id (f x)) @ '')'',
        ''members are not deleted, they just stop being in this group'']
      @ removed_lines (group_goes g (nr_id (f x))) ''group'' (Some out) @ []), (online, (Suc (Suc n), dm)))"
    by (simp add: group_previewDelete_def missing_given [OF a] find_row_def run_preview_bind run_preview_simps
        run_preview_get [OF _ rows] run_preview_get [OF _ o] found)
  from tellsI [where fn = "group_previewDelete g" and sh = sh and args = "[a]" and fs = fs, OF this] show ?thesis using l by (auto simp: around_def has_prefix_def)
qed

text \<open>What the preview of a deletion command tells of, rule by rule.\<close>

definition foreseen :: "(nat \<times> daemon) shell \<Rightarrow> command \<Rightarrow> string list \<Rightarrow> flags \<Rightarrow> nat \<times> daemon \<Rightarrow> (policy_rule \<Rightarrow> bool) \<Rightarrow> bool" where
  "foreseen sh c args fs s gone \<longleftrightarrow> (\<exists>fn goes. preview_of c = Some fn \<and> tells sh fn args fs s goes
     \<and> (\<forall>r\<in>set (t_rules (dm_db (snd s))). \<forall>p. dto_of (dm_db (snd s)) r p \<longrightarrow> goes p = gone r))"

lemma foreseenI:
  "\<lbrakk>preview_of c = Some fn; tells sh fn args fs (n, dm) goes;
    \<And>r p. \<lbrakk>r \<in> set (t_rules (dm_db dm)); dto_of (dm_db dm) r p\<rbrakk> \<Longrightarrow> goes p = gone r\<rbrakk> \<Longrightarrow> foreseen sh c args fs (n, dm) gone"
  unfolding foreseen_def by auto

definition vanishes :: "command \<Rightarrow> string \<Rightarrow> int \<Rightarrow> policy_rule \<Rightarrow> bool" where
  "vanishes c kind i r \<longleftrightarrow> rule_mentions kind i r \<and> (c = UserDelete \<longrightarrow> r_subject_type r = ''user'' \<and> r_subject_id r = i)"

lemma foreseen_deletion:
  assumes w: "wired wi sh" "quiet wi" "db_wf (dm_db dm)" "name \<noteq> []"
    and i: "intended c [name] fs (dm_db dm) = Some (Operation oper)" and d: "deletes oper = Some (kind, i)"
  shows "c = UserDelete \<Longrightarrow> foreseen sh c [name] fs (n, dm) (vanishes c kind i)"
    "c = UserGroupDelete \<Longrightarrow> foreseen sh c [name] fs (n, dm) (vanishes c kind i)"
    "c = ServiceDelete \<Longrightarrow> foreseen sh c [name] fs (n, dm) (vanishes c kind i)"
    "c = ServiceGroupDelete \<Longrightarrow> foreseen sh c [name] fs (n, dm) (vanishes c kind i)"
proof -
  note op = i [unfolded intended_def one_argument_def user_named_def user_group_named_def service_named_def
      service_group_named_def by_name_or_def] d [unfolded deletes_def]
  note goes = vanishes_def dto_of_def rule_mentions_def
  have wf: "rule_ok (dm_db dm) r" if "r \<in> set (t_rules (dm_db dm))" for r using w(3) that by (simp add: db_wf_def wf_rules_def)
  { assume c: "c = UserDelete"
    obtain u where u: "row_by u_name name (t_users (dm_db dm)) = Some u" "oper = OpDeleteUser (u_id u)"
      using op(1) by (auto simp: c split: option.splits)
    show "foreseen sh c [name] fs (n, dm) (vanishes c kind i)"
      by (rule foreseenI [where fn = previewUserDelete, OF _ tells_user [OF w u(1)]])
        (use op(2) u(2) in \<open>auto simp: c preview_of_def user_goes_def goes\<close>) }
  { assume c: "c = UserGroupDelete"
    obtain g where g: "row_by ug_name name (t_user_groups (dm_db dm)) = Some g" "oper = OpDeleteUserGroup (ug_id g)"
      using op(1) by (auto simp: c split: option.splits)
    show "foreseen sh c [name] fs (n, dm) (vanishes c kind i)"
      by (rule foreseenI [where fn = "group_previewDelete userGroups",
            OF _ tells_group [where f = group_row and g = userGroups and nm = ug_name, OF w _ g(1)]])
        (use op(2) g(2) in \<open>auto simp: c preview_of_def userGroups_def listed_rows [OF w(1-3)] group_row_def group_goes_def goes\<close>) }
  { assume c: "c = ServiceDelete"
    obtain sv where sv: "row_by s_name name (t_services (dm_db dm)) = Some sv" "oper = OpDeleteService (s_id sv)"
      using op(1) by (auto simp: c split: option.splits)
    show "foreseen sh c [name] fs (n, dm) (vanishes c kind i)"
      by (rule foreseenI [where fn = previewServiceDelete, OF _ tells_service [OF w sv(1)]])
        (use op(2) sv(2) in \<open>auto simp: c preview_of_def service_goes_def goes rule_ok_def validSubject_def dest!: wf\<close>) }
  { assume c: "c = ServiceGroupDelete"
    obtain g where g: "row_by sg_name name (t_service_groups (dm_db dm)) = Some g" "oper = OpDeleteServiceGroup (sg_id g)"
      using op(1) by (auto simp: c split: option.splits)
    show "foreseen sh c [name] fs (n, dm) (vanishes c kind i)"
      by (rule foreseenI [where fn = "group_previewDelete serviceGroups",
            OF _ tells_group [where f = service_group_row and g = serviceGroups and nm = sg_name, OF w _ g(1)]])
        (use op(2) g(2) in \<open>auto simp: c preview_of_def serviceGroups_def listed_rows [OF w(1-3)] service_group_row_def
            group_goes_def goes\<close>) }
qed

text \<open>
  C16: the preview of a deletion names the rules that the deletion removes. For a user group, a service or a service group of the
  tables, \<open>--help\<close> prints, among lines that tell of no rule, one line for each rule that the tables hold now and will not hold
  once the operation that the command is has run, with the names as they are, or that there is none; for a user it does so
  only for the rules that have the user as subject, and leaves out those removed because the user is their object.
\<close>

theorem deletion_previews:
  assumes "wired wi sh" and "quiet wi" and "db_wf (dm_db dm)" and "name \<noteq> []"
    and c: "c \<in> {UserDelete, UserGroupDelete, ServiceDelete, ServiceGroupDelete}"
    and "intended c [name] fs (dm_db dm) = Some (Operation oper)" and "deletes oper = Some (kind, i)"
    and "run_op ev oper (dm_db dm) = (None, d', ks)"
  shows "\<exists>out before noun after. list_all2 (dto_of (dm_db dm)) (t_rules (dm_db dm)) out \<and> around (before @ after)
    \<and> fst (run_help c sh static [name] fs (n, dm)) = preview_text static (before
        @ removed_lines (\<lambda>p. wpo_id p \<in> r_id ` {r \<in> set (t_rules (dm_db dm)). r \<notin> set (t_rules d')
            \<and> (c = UserDelete \<longrightarrow> r_subject_type r = ''user'' \<and> r_subject_id r = i)}) noun (Some out)
        @ after)"
proof -
  let ?d = "dm_db dm"
  let ?gone = "\<lambda>r. r \<notin> set (t_rules d') \<and> (c = UserDelete \<longrightarrow> r_subject_type r = ''user'' \<and> r_subject_id r = i)"
  have gone: "vanishes c kind i r \<longleftrightarrow> ?gone r" if "r \<in> set (t_rules ?d)" for r
    using delete_effect [OF assms(3,7,8)] that by (auto simp: vanishes_def)
  have ids: "distinct (map r_id (t_rules ?d))" using assms(3) by (auto simp: db_wf_def wf_ids_def dest: ids_ok_distinct)
  have "foreseen sh c [name] fs (n, dm) (vanishes c kind i)"
    using c foreseen_deletion [OF assms(1-4,6,7), of n] by blast
  then obtain fn goes where fn: "preview_of c = Some fn" "tells sh fn [name] fs (n, dm) goes"
    and goes: "\<And>r p. r \<in> set (t_rules ?d) \<Longrightarrow> dto_of ?d r p \<Longrightarrow> goes p \<longleftrightarrow> ?gone r"
    unfolding foreseen_def using gone by auto
  from fn(2) obtain out before noun after s' where out: "list_all2 (dto_of ?d) (t_rules ?d) out" "around (before @ after)"
    and run: "run_state (fn sh [name] fs) (online, (n, dm)) = (Inr (before @ removed_lines goes noun (Some out) @ after), (online, s'))"
    unfolding tells_def snd_conv by blast
  have "removed_lines goes noun (Some out) = removed_lines (\<lambda>p. wpo_id p \<in> r_id ` {r \<in> set (t_rules ?d). ?gone r}) noun (Some out)"
    by (rule removed_lines_cong [OF told_rows [OF out(1) ids]]) (rule goes)
  then have "fst (run_help c sh static [name] fs (n, dm)) = preview_text static (before
      @ removed_lines (\<lambda>p. wpo_id p \<in> r_id ` {r \<in> set (t_rules ?d). ?gone r}) noun (Some out) @ after)"
    using runPreview_online [where fn = fn and sh = sh and args = "[name]" and fs = fs and s = "(n, dm)", OF run] fn(1)
    by (simp add: run_help_def)
  then show ?thesis using out by blast
qed

theorem deletion_previews_witness:
  "\<exists>idx before noun out after. Build quiet_env w_live_db = Inr idx \<and> map wpo_id out = [1]
    \<and> fst (run_help UserDelete w_shell [] [''al''] [] (0, w_daemon idx))
      = preview_text [] (before @ removed_lines (\<lambda>p. wpo_id p \<in> {1}) noun (Some out) @ after)"
proof -
  obtain idx where b: "Build quiet_env w_live_db = Inr idx" using w_live_build by blast
  have db: "dm_db (w_daemon idx) = w_live_db" by (simp add: w_daemon_def)
  obtain d' ks where r: "run_op quiet_env (OpDeleteUser 1) w_live_db = (None, d', ks)"
    by (simp add: DeleteUser_def never_fails_withTx outcome_def delete_user_tx_def userByID_def query_user_def w_live_db_def
        w_user_def row_by_def)
  have i: "intended UserDelete [''al''] [] w_live_db = Some (Operation (OpDeleteUser 1))"
    by (simp add: intended_def one_argument_def user_named_def by_name_or_def row_by_def w_live_db_def w_user_def)
  have rules: "t_rules w_live_db = [w_rule]" "r_id w_rule = 1" "r_subject_type w_rule = ''user''" "r_subject_id w_rule = 1"
    by (simp_all add: w_live_db_def w_rule_def)
  have d: "deletes (OpDeleteUser 1) = Some (''user'', 1)" by (simp add: deletes_def)
  have "w_rule \<notin> set (t_rules d')"
    using delete_effect [OF w_live_wf d r] rules by (auto simp: rule_mentions_def)
  then have "r_id ` {r \<in> set (t_rules w_live_db). r \<notin> set (t_rules d') \<and> (UserDelete = UserDelete \<longrightarrow>
      r_subject_type r = ''user'' \<and> r_subject_id r = 1)} = {1}" using rules by auto
  from deletion_previews [OF w_wired w_quiet _ _ _ i [folded db] d r [folded db], of "[]" 0, unfolded db this]
  obtain out before noun after where o: "list_all2 (dto_of w_live_db) (t_rules w_live_db) out"
    and t: "fst (run_help UserDelete w_shell [] [''al''] [] (0, w_daemon idx))
      = preview_text [] (before @ removed_lines (\<lambda>p. wpo_id p \<in> {1}) noun (Some out) @ after)"
    using w_live_wf by blast
  from o have "map wpo_id out = [1]" by (auto simp: rules list_all2_Cons1 dto_of_def)
  then show ?thesis by (intro exI conjI) (rule b, assumption, rule t)
qed

end
