(* ===== verification/PreviewAddress.thy ===== *)
theory PreviewAddress
  imports CliEffects ApiServices
begin

text \<open>
  The address that the preview of \<open>service create\<close> announces (\<open>nextFreeIP\<close> in \<open>cli/cli/preview_service.go\<close>) and the one that
  the daemon picks (\<open>createService\<close> with \<open>ipalloc.Allocate\<close>).
\<close>

section \<open>The search of the preview\<close>

lemma lowest_Min: "xs \<noteq> [] \<Longrightarrow> lowest xs = Some (Min (set xs))"
proof -
  have step: "foldl (\<lambda>any a. case any of None \<Rightarrow> Some a | Some b \<Rightarrow> if a < b then Some a else any) (Some b) ys
      = Some (Min (insert b (set ys)))" for b :: "32 word" and ys
  proof (induction ys arbitrary: b)
    case (Cons y ys)
    have "Min (insert b (set (y # ys))) = Min (insert (min y b) (set ys))"
      by (cases "ys = []") (simp_all add: Min_insert min.commute min.left_commute)
    moreover have "(if y < b then Some y else Some b) = Some (min y b)"
      by (cases "y < b") (auto simp: min_def not_less dest: order.antisym order.strict_implies_order)
    ultimately show ?case by (auto simp: Cons.IH not_le simp del: Min_insert split: if_splits)
  qed simp
  assume "xs \<noteq> []"
  then obtain y ys where "xs = y # ys" by (cases xs) auto
  then show ?thesis by (simp add: lowest_def step)
qed

lemma find_append: "List.find P (xs @ ys) = (case List.find P xs of None \<Rightarrow> List.find P ys | Some x \<Rightarrow> Some x)"
  by (induction xs) auto

definition addr_count :: nat where
  "addr_count = 2 ^ 32"

lemma next_free_find:
  "next_free taken c = (case List.find (\<lambda>n. word_of_nat n \<notin> set taken) [unat c..<addr_count] of None \<Rightarrow> []
     | Some n \<Rightarrow> v4_string (word_of_nat n))"
proof (induction taken c rule: next_free.induct)
  case (1 taken c)
  have u: "[unat c..<addr_count] = unat c # [Suc (unat c)..<addr_count]" by (rule upt_conv_Cons) (unfold addr_count_def, rule unat32_lt)
  show ?case
  proof (cases "c \<in> set taken \<and> c + 1 \<noteq> 0")
    case True
    then show ?thesis using 1 word_next_gt [of c] by (simp add: next_free.simps [of taken c] u)
  next
    case False
    have "[Suc (unat c)..<addr_count] = []" if "c + 1 = 0"
    proof -
      have "(unat c + 1) mod 2 ^ 32 = 0" using that unat_word_ariths(1) [of c 1] by simp
      then have "2 ^ 32 \<le> unat c + 1" by (metis One_nat_def Suc_eq_plus1 mod_less nat.simps(3) not_le)
      then show ?thesis by (simp add: addr_count_def)
    qed
    then show ?thesis using False by (auto simp: next_free.simps [of taken c] u)
  qed
qed

lemma nextFreeIP_find:
  assumes "service_addrs services = ws" and "ws \<noteq> []"
  shows "nextFreeIP services = (case List.find (\<lambda>n. word_of_nat n \<notin> set ws) [unat (Min (set ws))..<addr_count] of None \<Rightarrow> []
     | Some n \<Rightarrow> v4_string (word_of_nat n))"
  using assms by (simp add: nextFreeIP_def lowest_Min next_free_find)


lemma next_free_range:
  assumes "service_addrs services = ws" and "nextFreeIP services = v4_string w"
  shows "w \<notin> set ws \<and> Min (set ws) \<le> w \<and> ws \<noteq> []"
proof -
  have ne: "ws \<noteq> []" using assms v4_string_nonempty [of w, symmetric] by (auto simp: nextFreeIP_def lowest_def)
  then obtain n where n: "List.find (\<lambda>n. word_of_nat n \<notin> set ws) [unat (Min (set ws))..<addr_count] = Some n"
    and w: "w = word_of_nat n"
    using assms(2) v4_string_nonempty [of w, symmetric]
    by (auto simp: nextFreeIP_find [OF assms(1)] v4_string_inj split: option.splits)
  from find_SomeD [OF n] have "unat (Min (set ws)) \<le> n" "n < addr_count" "w \<notin> set ws" by (auto simp: w)
  then have "Min (set ws) \<le> w" by (simp add: w word_le_nat_alt unat_of_nat take_bit_nat_eq_self addr_count_def)
  then show ?thesis using \<open>w \<notin> set ws\<close> ne by blast
qed

lemma next_free_text: "nextFreeIP services = [] \<or> (\<exists>w. nextFreeIP services = v4_string w)"
proof (cases "service_addrs services = []")
  case False
  show ?thesis unfolding nextFreeIP_find [OF refl False] by (auto split: option.split)
qed (simp add: nextFreeIP_def lowest_def)

section \<open>The two searches\<close>

lemma searched_hosts:
  assumes "List.find (\<lambda>n. word_of_nat n \<notin> set ws) [Suc (unat net)..<b] = Some n" and "b \<le> addr_count"
    and "service_addrs services = ws" and l: "\<forall>x\<in>set ws. net \<le> x" and h: "net \<in> set ws \<or> net + 1 \<in> set ws"
    and s: "unat (net + 1) = Suc (unat net)"
  shows "nextFreeIP services = v4_string (word_of_nat n)"
proof -
  have n: "Suc (unat net) \<le> n" "n < b" using find_SomeD [OF assms(1)] by auto
  have rest: "List.find (\<lambda>n. word_of_nat n \<notin> set ws) [Suc (unat net)..<addr_count] = Some n"
  proof -
    have "[Suc (unat net)..<addr_count] = [Suc (unat net)..<b] @ [b..<addr_count]"
      using n assms(2) by (metis le_less_trans less_imp_le_nat upt_add_eq_append le_add_diff_inverse)
    then show ?thesis using assms(1) by (simp add: find_append)
  qed
  have "List.find (\<lambda>n. word_of_nat n \<notin> set ws) [unat (Min (set ws))..<addr_count] = Some n"
  proof (cases "net \<in> set ws")
    case True
    then have "Min (set ws) = net" using l by (intro Min_eqI) auto
    moreover have "[unat net..<addr_count] = unat net # [Suc (unat net)..<addr_count]"
      using n assms(2) by (intro upt_conv_Cons) simp
    ultimately show ?thesis using rest True by simp
  next
    case False
    have "net + 1 \<le> x" if "x \<in> set ws" for x
    proof -
      have "net \<le> x" "x \<noteq> net" using that l False by auto
      then have "unat net \<le> unat x" "unat net \<noteq> unat x" by (auto simp: word_le_nat_alt dest: unsigned_word_eqI)
      then show ?thesis using s by (simp add: word_le_nat_alt)
    qed
    then have "Min (set ws) = net + 1" using h False by (intro Min_eqI) auto
    then show ?thesis using rest s by simp
  qed
  moreover have "ws \<noteq> []" using h by auto
  ultimately show ?thesis using nextFreeIP_find [OF assms(3)] by simp
qed

lemma service_addrs_texts:
  assumes "map ws_ip services = map v4_string ws"
  shows "service_addrs services = ws"
proof -
  have "service_addrs services
      = concat (map (\<lambda>t. case parse_addr t of Some (V4 a) \<Rightarrow> [a] | _ \<Rightarrow> []) (map ws_ip services))"
    by (simp add: service_addrs_def comp_def)
  then show ?thesis by (simp add: assms comp_def)
qed

lemma first_free_found:
  "first_free (host_texts a bits) (map v4_string ws) [] =
    (case List.find (\<lambda>n. word_of_nat n \<notin> set ws) [Suc (unat (net_word a bits))..<unat (bcast_word a bits)] of
       None \<Rightarrow> Inl ErrSubnetExhausted | Some n \<Rightarrow> Inr (v4_string (word_of_nat n)))"
proof -
  have "(v4_string (word_of_nat n) \<notin> set (map v4_string ws) \<and> v4_string (word_of_nat n) \<notin> set ([] :: string list))
      \<longleftrightarrow> word_of_nat n \<notin> set ws" for n
    by (auto simp: v4_string_inj)
  then show ?thesis unfolding first_free_def host_texts_def find_mapped by (simp add: comp_def split: option.split)
qed

lemma texts_of:
  "\<forall>t\<in>set ts. \<exists>c. t = v4_string c \<and> P c \<Longrightarrow> \<exists>ws. ts = map v4_string ws \<and> (\<forall>x\<in>set ws. P x)"
proof (induction ts)
  case (Cons t ts)
  then obtain c ws where "t = v4_string c" "P c" "ts = map v4_string ws" "\<forall>x\<in>set ws. P x" by auto
  then show ?case by (intro exI [of _ "c # ws"]) simp
qed simp

lemma searches_agree:
  assumes w: "service_addrs services = ws" "\<forall>x\<in>set ws. net \<le> x" and s: "unat (net + 1) = Suc (unat net)" and b: "b \<le> addr_count"
    and f: "List.find (\<lambda>n. word_of_nat n \<notin> set ws) [Suc (unat net)..<b] = Some n"
  shows "nextFreeIP services = v4_string (word_of_nat n) \<longleftrightarrow> net \<in> set ws \<or> net + 1 \<in> set ws"
proof
  assume eq: "nextFreeIP services = v4_string (word_of_nat n)"
  show "net \<in> set ws \<or> net + 1 \<in> set ws"
  proof (rule ccontr)
    assume no: "\<not> (net \<in> set ws \<or> net + 1 \<in> set ws)"
    have w1: "word_of_nat (Suc (unat net)) = net + 1" using s by (metis of_nat_unat ucast_id)
    have "Suc (unat net) < b" using find_SomeD [OF f] by auto
    then have "[Suc (unat net)..<b] = Suc (unat net) # [Suc (Suc (unat net))..<b]" by (rule upt_conv_Cons)
    then have n: "n = Suc (unat net)" using f no by (simp add: w1 add.commute [of 1])
    note r = next_free_range [OF w(1) eq]
    have "net + 1 < x" if "x \<in> set ws" for x
    proof -
      have "unat net \<le> unat x" "unat net \<noteq> unat x" "unat (net + 1) \<noteq> unat x"
        using that w(2) no by (auto simp: word_le_nat_alt dest: unsigned_word_eqI)
      then show ?thesis using s by (simp add: word_less_nat_alt)
    qed
    moreover have "Min (set ws) \<in> set ws" using r by simp
    ultimately have "net + 1 < Min (set ws)" by blast
    moreover have "Min (set ws) \<le> net + 1" using r n w1 by (simp add: add.commute [of 1])
    ultimately show False by simp
  qed
qed (use searched_hosts [OF f b w _ s] in blast)

lemma full_subnet:
  assumes "service_addrs services = ws"
    and "List.find (\<lambda>n. word_of_nat n \<notin> set ws) [Suc (unat (net_word a bits))..<unat (bcast_word a bits)] = None"
  shows "nextFreeIP services \<notin> set (host_texts a bits)"
proof
  assume "nextFreeIP services \<in> set (host_texts a bits)"
  then obtain n where "nextFreeIP services = v4_string (word_of_nat n)" "n \<in> set [Suc (unat (net_word a bits))..<unat (bcast_word a bits)]"
    by (auto simp: host_texts_def)
  then show False using next_free_range [OF assms(1)] assms(2) by (fastforce simp: find_None_all)
qed

section \<open>Properties\<close>

text \<open>
  C17: the address that the preview of \<open>service create\<close> announces when none is given, for any services whose addresses lie in
  an IPv4 subnet. While the subnet has a host address free, it is the one that the daemon picks exactly if a service has the
  network address or the first host address; otherwise the two differ, since the preview starts its search at the lowest
  address in use and the daemon at the first of the subnet. Once the subnet is full the daemon refuses with 409, and what the
  preview announces is no host address of the subnet.
\<close>

theorem previewed_address:
  assumes p: "parse_prefix subnet = Some p" "pfx_ip p = V4 a" "\<not> (pfx_bits p = 32 \<and> a = - 1)"
    and ips: "\<forall>sv\<in>set (t_services d). \<exists>c. s_ip sv = v4_string c \<and> net_word a (pfx_bits p) \<le> c"
    and t: "TakenServiceIPs ev d = Inr taken"
  shows "case pick_ip [] subnet [] (TakenServiceIPs ev d) of None \<Rightarrow> False
    | Some (Inr k) \<Rightarrow> nextFreeIP (map (toServiceDTO \<circ> service_view d) (t_services d)) = k
        \<longleftrightarrow> {v4_string (net_word a (pfx_bits p)), v4_string (net_word a (pfx_bits p) + 1)} \<inter> set taken \<noteq> {}
    | Some (Inl e) \<Rightarrow> e = (409, AllocError ErrSubnetExhausted)
        \<and> nextFreeIP (map (toServiceDTO \<circ> service_view d) (t_services d)) \<notin> set (host_texts a (pfx_bits p))"
proof -
  let ?net = "net_word a (pfx_bits p)" and ?b = "unat (bcast_word a (pfx_bits p))"
  let ?sv = "map (toServiceDTO \<circ> service_view d) (t_services d)"
  have taken: "taken = map s_ip (t_services d)" using t by (auto simp: TakenServiceIPs_def exec_sql_def split: if_splits)
  obtain ws where ws: "map s_ip (t_services d) = map v4_string ws" "\<forall>x\<in>set ws. ?net \<le> x"
    using texts_of [of "map s_ip (t_services d)" "\<lambda>c. ?net \<le> c"] ips by auto
  have addrs: "service_addrs ?sv = ws"
    by (rule service_addrs_texts) (simp add: ws(1) [symmetric] toServiceDTO_def comp_def)
  have "pfx_bits p \<le> 32" using parse_prefix_bits [OF p(1)] p(2) by (simp add: is_v6_def)
  then have succ: "unat (?net + 1) = Suc (unat ?net)" using net_succ p(3) by blast
  have b: "?b \<le> addr_count" unfolding addr_count_def using unat32_lt by (rule less_imp_le_nat)
  have pick: "pick_ip [] subnet [] (TakenServiceIPs ev d) = Some (case first_free (host_texts a (pfx_bits p)) taken [] of
      Inl e \<Rightarrow> Inl (409, AllocError e) | Inr k \<Rightarrow> Inr k)"
    using allocate_eq [OF p, of "[]" "[]" taken] by (simp add: pick_ip_def t)
  have mem: "{v4_string ?net, v4_string (?net + 1)} \<inter> set taken \<noteq> {} \<longleftrightarrow> ?net \<in> set ws \<or> ?net + 1 \<in> set ws"
    by (auto simp: taken ws(1) v4_string_inj)
  show ?thesis
    using searches_agree [OF addrs ws(2) succ b] full_subnet [OF addrs, of a "pfx_bits p"]
    unfolding pick mem by (auto simp: taken ws(1) first_free_found split: option.split)
qed

theorem previewed_address_witness:
  "pick_ip [] ''10.6.0.0/29'' [] (TakenServiceIPs quiet_env (empty_db\<lparr>t_services := [w_service\<lparr>s_ip := ''10.6.0.4''\<rparr>]\<rparr>))
      = Some (Inr ''10.6.0.1'')
    \<and> nextFreeIP (map (toServiceDTO \<circ> service_view (empty_db\<lparr>t_services := [w_service\<lparr>s_ip := ''10.6.0.4''\<rparr>]\<rparr>))
        [w_service\<lparr>s_ip := ''10.6.0.4''\<rparr>]) \<noteq> ''10.6.0.1''"
proof -
  let ?d = "empty_db\<lparr>t_services := [w_service\<lparr>s_ip := ''10.6.0.4''\<rparr>]\<rparr>"
  have t: "TakenServiceIPs quiet_env ?d = Inr [''10.6.0.4'']"
    by (simp add: TakenServiceIPs_def quiet_env_def)
  have "''10.6.0.4'' = v4_string 0x0A060004" by (simp add: addr_text_eval)
  then have ips: "\<exists>c. ''10.6.0.4'' = v4_string c \<and> net_word 0x0A060000 29 \<le> c"
    by (intro exI [of _ "0x0A060004"]) (simp add: net_word_def)
  have pick: "pick_ip [] ''10.6.0.0/29'' [] (TakenServiceIPs quiet_env ?d) = Some (Inr ''10.6.0.1'')"
    using allocate_eq [OF prefix_10_6_0_0_29, where reserved = "[]" and rs = "[]" and taken = "[''10.6.0.4'']"]
    by (simp add: pick_ip_def t hosts_10_6_0_0_29 first_free_def)
  have free: "{v4_string (net_word 0x0A060000 29), v4_string (net_word 0x0A060000 29 + 1)} \<inter> set [''10.6.0.4''] = {}"
    by (simp add: net_word_def addr_text_eval)
  show ?thesis
    using previewed_address [OF prefix_10_6_0_0_29 _ _ _ t] ips free by (simp add: pick)
qed

end
