(* ===== verification/Web.thy ===== *)
theory Web
  imports CliDaemon
begin

text \<open>
  The web interface: \<open>web/server.go\<close>, \<open>web/proxy.go\<close> and the command that serves it, \<open>cli/cli/serve.go\<close>. A browser's request
  is a page or a file of the built interface, or a call of the API that is passed on to the daemon's socket. The files (which
  the build generates), the file server and the route matching of the router library are parameters; the reverse proxy of
  \<open>net/http/httputil\<close> is modelled as far as it changes headers.
\<close>

section \<open>Headers\<close>

text \<open>The values of each header, under its canonical name.\<close>

type_synonym headers = "string \<Rightarrow> string list"

definition header_set :: "string \<Rightarrow> string \<Rightarrow> headers \<Rightarrow> headers" where
  "header_set k v h = h(k := [v])"

definition header_get :: "headers \<Rightarrow> string \<Rightarrow> string" where
  "header_get h k = (case h k of [] \<Rightarrow> [] | v # vs \<Rightarrow> v)"

record web_request =
  wq_method :: string
  wq_path :: string
  wq_target :: string
  wq_host :: string
  wq_headers :: headers
  wq_body :: "string option"
  wq_remote :: string

record web_response =
  wr_status :: nat
  wr_headers :: headers
  wr_body :: string

text \<open>A handler: the headers set so far, the request, and the state behind the socket.\<close>

type_synonym 's web_handler = "headers \<Rightarrow> web_request \<Rightarrow> 's \<Rightarrow> web_response \<times> 's"

text \<open>\<open>http.Error\<close>.\<close>

definition http_error :: "headers \<Rightarrow> string \<Rightarrow> nat \<Rightarrow> web_response" where
  "http_error h msg code = \<lparr>wr_status = code,
     wr_headers = header_set ''X-Content-Type-Options'' ''nosniff'' (header_set ''Content-Type'' ''text/plain; charset=utf-8'' h),
     wr_body = msg @ [CHR 0x0A]\<rparr>"

section \<open>Middleware\<close>

definition quoted_self :: string where
  "quoted_self = [CHR 0x27] @ ''self'' @ [CHR 0x27]"

definition unsafe_inline :: string where
  "unsafe_inline = [CHR 0x27] @ ''unsafe-inline'' @ [CHR 0x27]"

definition content_policy :: string where
  "content_policy = ''default-src '' @ quoted_self @ ''; script-src '' @ quoted_self @ '' '' @ unsafe_inline
     @ ''; style-src '' @ quoted_self @ '' '' @ unsafe_inline @ ''; img-src '' @ quoted_self
     @ '' data:; frame-ancestors '' @ [CHR 0x27] @ ''none'' @ [CHR 0x27]"

definition secured :: "(string \<times> string) list" where
  "secured = [(''Content-Security-Policy'', content_policy), (''X-Frame-Options'', ''DENY''),
     (''X-Content-Type-Options'', ''nosniff''), (''Referrer-Policy'', ''no-referrer'')]"

definition securityHeaders :: "'s web_handler \<Rightarrow> 's web_handler" where
  "securityHeaders next_handler h rq s =
     next_handler (foldl (\<lambda>h (k, v). header_set k v h) h secured) rq s"

definition foreign_origin :: "web_request \<Rightarrow> bool" where
  "foreign_origin rq \<longleftrightarrow> (let origin = header_get (wq_headers rq) ''Origin'' in
     origin \<noteq> [] \<and> origin \<noteq> ''http://'' @ wq_host rq \<and> origin \<noteq> ''https://'' @ wq_host rq)"

definition sameOrigin :: "'s web_handler \<Rightarrow> 's web_handler" where
  "sameOrigin next_handler h rq s =
    (if wq_method rq \<noteq> ''GET'' \<and> wq_method rq \<noteq> ''HEAD'' \<and> foreign_origin rq
     then (http_error h ''cross-origin request blocked'' 403, s)
     else next_handler h rq s)"

section \<open>The proxy\<close>

text \<open>What the proxy sends: the request with the address it is sent to.\<close>

record proxied =
  px_url :: string
  px_host :: string
  px_method :: string
  px_headers :: headers
  px_body :: "string option"

definition forwarding :: "string list" where
  "forwarding = [''X-Forwarded-For'', ''X-Forwarded-Host'', ''X-Forwarded-Proto'', ''X-Real-Ip'', ''Forwarded'']"

definition director :: "web_request \<Rightarrow> proxied" where
  "director rq = \<lparr>px_url = ''http://'' @ ''lightscale'' @ wq_target rq, px_host = ''lightscale'', px_method = wq_method rq,
     px_headers = (\<lambda>k. if k \<in> set forwarding then [] else wq_headers rq k), px_body = wq_body rq\<rparr>"

text \<open>
  The reverse proxy drops the headers of one hop, among them those that \<open>Connection\<close> names, and then adds the peer's address to
  \<open>X-Forwarded-For\<close>. Names in \<open>Connection\<close> are matched whatever their case.
\<close>

definition hop_headers :: "string list" where
  "hop_headers = [''Connection'', ''Proxy-Connection'', ''Keep-Alive'', ''Proxy-Authenticate'', ''Proxy-Authorization'',
     ''Te'', ''Trailer'', ''Transfer-Encoding'', ''Upgrade'']"

definition one_hop :: "headers \<Rightarrow> string \<Rightarrow> bool" where
  "one_hop h k \<longleftrightarrow> k \<in> set hop_headers
     \<or> to_lower k \<in> set (concat (map (\<lambda>v. map (\<lambda>t. to_lower (trim_space t)) (split_on (CHR '','') v)) (h ''Connection'')))"

definition remove_hops :: "headers \<Rightarrow> headers" where
  "remove_hops h k = (if one_hop h k then [] else h k)"

definition forwarded :: "string \<Rightarrow> headers \<Rightarrow> headers" where
  "forwarded remote h = (case split_host_port remote of None \<Rightarrow> h
     | Some (ip, port) \<Rightarrow> header_set ''X-Forwarded-For'' (join '', '' (h ''X-Forwarded-For'' @ [ip])) h)"

definition outgoing :: "web_request \<Rightarrow> proxied" where
  "outgoing rq = (let px = director rq in
     px\<lparr>px_headers := forwarded (wq_remote rq) (remove_hops (px_headers px))\<rparr>)"

text \<open>The exchange over a socket. Headers of the answer are added to those set before; without an answer the proxy has its own.\<close>

type_synonym 's socket_exchange = "string \<Rightarrow> proxied \<Rightarrow> 's \<Rightarrow> (string + web_response) \<times> 's"

definition newSocketProxy :: "'s socket_exchange \<Rightarrow> string \<Rightarrow> 's web_handler" where
  "newSocketProxy dial socketPath h rq s = (case dial socketPath (outgoing rq) s of
     (Inl e, s') \<Rightarrow> (\<lparr>wr_status = 502, wr_headers = h, wr_body = []\<rparr>, s')
   | (Inr res, s') \<Rightarrow> (res\<lparr>wr_headers := (\<lambda>k. h k @ remove_hops (wr_headers res) k)\<rparr>, s'))"

section \<open>Pages\<close>

record interface_files =
  if_opens :: "string \<Rightarrow> bool"
  if_serve :: "headers \<Rightarrow> web_request \<Rightarrow> web_response"
  if_index :: "string option"

definition serveIndex :: "interface_files \<Rightarrow> headers \<Rightarrow> web_response" where
  "serveIndex fl h = (case if_index fl of None \<Rightarrow> http_error h ''web UI not built'' 500
     | Some data \<Rightarrow> \<lparr>wr_status = 200, wr_headers = header_set ''Cache-Control'' ''no-cache''
         (header_set ''Content-Type'' ''text/html; charset=utf-8'' h), wr_body = data\<rparr>)"

definition pages :: "interface_files \<Rightarrow> 's web_handler" where
  "pages fl h rq s = (let p = trim_prefix (wq_path rq) ''/'' in
     (if p \<noteq> [] \<and> if_opens fl p then if_serve fl h rq else serveIndex fl h, s))"

text \<open>The routes: the API for every method, everything else for \<open>GET\<close>; the router refuses the rest on its own.\<close>

datatype web_route = ToApi | ToPage | NoRoute nat

definition WebHandler :: "(string \<Rightarrow> string \<Rightarrow> web_route) \<Rightarrow> interface_files \<Rightarrow> 's socket_exchange \<Rightarrow> string \<Rightarrow> 's web_handler" where
  "WebHandler route fl dial socketPath = securityHeaders (\<lambda>h rq s. case route (wq_method rq) (wq_target rq) of
     ToApi \<Rightarrow> sameOrigin (newSocketProxy dial socketPath) h rq s
   | ToPage \<Rightarrow> pages fl h rq s
   | NoRoute code \<Rightarrow> (\<lparr>wr_status = code, wr_headers = h, wr_body = []\<rparr>, s))"

section \<open>The command\<close>

text \<open>
  \<open>lightscale serve\<close>: what is printed, and the error it ends with. \<open>built\<close> is the error of building the handler, \<open>listen\<close> is \<open>net.Listen\<close>, with the address of the listener;
  \<open>serving\<close> is the error that ends \<open>srv.Serve\<close>, if it is not that the server was closed.
\<close>

definition serve_cmd :: "string option \<Rightarrow> (string \<Rightarrow> string + string) \<Rightarrow> string option \<Rightarrow> 's shell \<Rightarrow> string list
    \<Rightarrow> string \<times> cli_error option" where
  "serve_cmd built listen serving sh args = (case args of
     [arg] \<Rightarrow>
       (let bind = normalizeBind arg; c = cli_client sh in
        case built of Some t \<Rightarrow> ([], Some (Complained (''build web handler: '' @ t)))
        | None \<Rightarrow> (case listen bind of
            Inl t \<Rightarrow> ([], Some (Complained (''listen on '' @ bind @ '': '' @ t)))
          | Inr at \<Rightarrow> (''lightscale web UI listening on http://'' @ at @ '' (socket '' @ cl_socket c @ '')'' @ eol,
              map_option Complained serving)))
   | _ \<Rightarrow> ([], Some (BadArgs 1 (length args))))"

text \<open>What the command serves.\<close>

definition served :: "(string \<Rightarrow> string \<Rightarrow> web_route) \<Rightarrow> interface_files \<Rightarrow> 's socket_exchange \<Rightarrow> 's shell \<Rightarrow> 's web_handler" where
  "served route fl dial sh = WebHandler route fl dial (cl_socket (cli_client sh))"

section \<open>In front of the daemon\<close>

text \<open>The daemon behind the socket: the exchange of the client, with the answer's headers a parameter.\<close>

definition to_daemon :: "wiring \<Rightarrow> (http_response \<Rightarrow> headers) \<Rightarrow> (nat \<times> daemon) socket_exchange" where
  "to_daemon wi hs socketPath px s =
    (case exchange wi \<lparr>cl_dial = Some socketPath, cl_base = ''http://lightscale'', cl_socket = socketPath\<rparr>
        \<lparr>rq_method = px_method px, rq_url = px_url px, rq_body = px_body px,
          rq_json = (header_get (px_headers px) ''Content-Type'' = ''application/json'')\<rparr> s of
       (Inl e, s') \<Rightarrow> (Inl e, s')
     | (Inr res, s') \<Rightarrow> (Inr \<lparr>wr_status = rs_status res, wr_headers = hs res, wr_body = rs_body res\<rparr>, s'))"

lemma outgoing_method: "px_method (outgoing rq) = wq_method rq" "px_body (outgoing rq) = wq_body rq"
  by (simp_all add: outgoing_def director_def Let_def)

lemma no_head_routes: "(''HEAD'', pat, h) \<notin> set routes"
  by (simp add: routes_def under_def)

lemma head_near:
  assumes "routed (wi_router wi)" and "rq_method rq = ''HEAD''"
  shows "snd (snd (exchange wi c rq (n, dm))) = dm"
proof (cases "wi_router wi routes (rq_method rq) (fst (wi_url wi (rq_url rq)))")
  case (Inl st)
  then show ?thesis by (simp add: exchange_def serve_http_def request_of_def)
next
  case (Inr r)
  obtain h ps where "r = (h, ps)" by (cases r)
  then show ?thesis using routedD [OF assms(1)] Inr assms(2) no_head_routes by metis
qed

lemma to_daemon_near:
  assumes "routed (wi_router wi)" and "px_method px = ''GET'' \<or> px_method px = ''HEAD''"
  shows "same_plane dm (snd (snd (to_daemon wi hs socketPath px (n, dm))))"
proof -
  let ?rq = "\<lparr>rq_method = px_method px, rq_url = px_url px, rq_body = px_body px,
    rq_json = (header_get (px_headers px) ''Content-Type'' = ''application/json'')\<rparr>"
  let ?c = "\<lparr>cl_dial = Some socketPath, cl_base = ''http://lightscale'', cl_socket = socketPath\<rparr>"
  have "same_plane dm (snd (snd (exchange wi ?c ?rq (n, dm))))"
    using assms asked.get_near [of ?rq wi "(n, dm)" ?c] head_near [OF assms(1), of ?rq ?c n dm]
    by (auto simp: undisturbed_def same_plane_def)
  then show ?thesis by (auto simp: to_daemon_def split: prod.split sum.split)
qed

section \<open>Properties\<close>

text \<open>
  C4: a page of another site cannot change anything through the web interface. A request with an \<open>Origin\<close> that is neither of the
  two of the request's host leaves the daemon's tables, index, flows, peers and announced addresses as they were, whatever its
  method and path; on the API's paths it is refused with 403 before it reaches the daemon unless its method is \<open>GET\<close> or
  \<open>HEAD\<close>, which change nothing.
\<close>

theorem cross_origin_harmless:
  assumes "routed (wi_router wi)" and "foreign_origin rq"
  shows "same_plane dm (snd (snd (WebHandler route fl (to_daemon wi hs) socketPath h rq (n, dm))))
    \<and> (route (wq_method rq) (wq_target rq) = ToApi \<and> wq_method rq \<notin> {''GET'', ''HEAD''} \<longrightarrow>
        wr_status (fst (WebHandler route fl (to_daemon wi hs) socketPath h rq (n, dm))) = 403
        \<and> snd (WebHandler route fl (to_daemon wi hs) socketPath h rq (n, dm)) = (n, dm))"
proof -
  have near: "same_plane dm (snd (snd (newSocketProxy (to_daemon wi hs) socketPath h rq (n, dm))))"
    if "wq_method rq = ''GET'' \<or> wq_method rq = ''HEAD''" for h
    using to_daemon_near [OF assms(1), of "outgoing rq" dm hs socketPath n] that
    by (auto simp: newSocketProxy_def outgoing_method split: prod.split sum.split)
  show ?thesis
    using near assms(2) by (cases "route (wq_method rq) (wq_target rq)")
      (auto simp: WebHandler_def securityHeaders_def sameOrigin_def pages_def http_error_def same_plane_def Let_def)
qed

definition w_web_wiring :: wiring where
  "w_web_wiring = \<lparr>wi_os = w_os, wi_router = w_router, wi_codec = w_codec, wi_surroundings = (\<lambda>_. w_surroundings),
     wi_socket = clientSocketPath, wi_url = (\<lambda>u. (drop (length ''http://lightscale'') u, [])),
     wi_reply = (\<lambda>_. \<lparr>rs_status = 204, rs_body = [], rs_broken = None\<rparr>)\<rparr>"

definition w_web_request :: "string \<Rightarrow> web_request" where
  "w_web_request origin = \<lparr>wq_method = ''DELETE'', wq_path = ''/api/policies/1'', wq_target = ''/api/policies/1'',
     wq_host = ''10.6.0.1:11687'', wq_headers = header_set ''Origin'' origin (\<lambda>_. []), wq_body = None,
     wq_remote = ''10.6.0.9:40000''\<rparr>"

definition w_files :: interface_files where
  "w_files = \<lparr>if_opens = (\<lambda>_. False), if_serve = (\<lambda>h rq. \<lparr>wr_status = 200, wr_headers = h, wr_body = []\<rparr>), if_index = None\<rparr>"

lemma w_routed: "routed (wi_router w_web_wiring)"
  by (auto simp: routed_def w_web_wiring_def w_router_def routes_def under_def split: if_splits)

text \<open>From its own page the rule is deleted, from another the request is refused.\<close>

theorem cross_origin_harmless_witness:
  "(\<forall>dm. wr_status (fst (WebHandler (\<lambda>_ _. ToApi) w_files (to_daemon w_web_wiring (\<lambda>_ _. [])) clientSocketPath (\<lambda>_. [])
      (w_web_request ''https://evil.example'') (0, dm))) = 403)
    \<and> (\<forall>idx. dm_db (snd (snd (WebHandler (\<lambda>_ _. ToApi) w_files (to_daemon w_web_wiring (\<lambda>_ _. [])) clientSocketPath (\<lambda>_. [])
      (w_web_request ''http://10.6.0.1:11687'') (0, w_daemon idx)))) = w_closed_db)"
proof (intro conjI allI)
  fix dm
  have "foreign_origin (w_web_request ''https://evil.example'')"
    by (simp add: foreign_origin_def w_web_request_def header_get_def header_set_def)
  then show "wr_status (fst (WebHandler (\<lambda>_ _. ToApi) w_files (to_daemon w_web_wiring (\<lambda>_ _. [])) clientSocketPath (\<lambda>_. [])
      (w_web_request ''https://evil.example'') (0, dm))) = 403"
    using cross_origin_harmless [OF w_routed, of "w_web_request ''https://evil.example''" dm "\<lambda>_ _. ToApi" w_files]
    by (simp add: w_web_request_def)
next
  fix idx
  obtain dm' where s: "serve_http w_os w_router w_codec w_surroundings w_revoke_request (w_daemon idx) = Some (ReplyEmpty 204, dm')"
    and db: "dm_db dm' = w_closed_db" using w_serve by blast
  show "dm_db (snd (snd (WebHandler (\<lambda>_ _. ToApi) w_files (to_daemon w_web_wiring (\<lambda>_ _. [])) clientSocketPath (\<lambda>_. [])
      (w_web_request ''http://10.6.0.1:11687'') (0, w_daemon idx)))) = w_closed_db"
    using s db by (simp add: WebHandler_def securityHeaders_def sameOrigin_def foreign_origin_def w_web_request_def
        header_get_def header_set_def newSocketProxy_def to_daemon_def exchange_def w_web_wiring_def outgoing_def director_def
        request_of_def w_revoke_request_def Let_def)
qed

definition header_sent :: "web_request \<Rightarrow> string \<Rightarrow> string list" where
  "header_sent rq k = (if k = ''X-Forwarded-For'' then (case split_host_port (wq_remote rq) of None \<Rightarrow> [] | Some (ip, port) \<Rightarrow> [ip])
     else if k \<in> set forwarding \<or> one_hop (wq_headers rq) k then [] else wq_headers rq k)"

lemma proxy_sends:
  "outgoing rq = \<lparr>px_url = ''http://lightscale'' @ wq_target rq, px_host = ''lightscale'', px_method = wq_method rq,
     px_headers = header_sent rq, px_body = wq_body rq\<rparr>"
proof -
  have "''Connection'' \<notin> set forwarding" and f: "''X-Forwarded-For'' \<in> set forwarding" by (simp_all add: forwarding_def)
  then have hop: "remove_hops (px_headers (director rq)) = (\<lambda>k. if k \<in> set forwarding \<or> one_hop (wq_headers rq) k then []
      else wq_headers rq k)"
    by (auto simp: fun_eq_iff remove_hops_def one_hop_def director_def)
  have "forwarded (wq_remote rq) (remove_hops (px_headers (director rq))) = header_sent rq"
    unfolding hop using f by (auto simp: fun_eq_iff forwarded_def header_sent_def header_set_def split: option.split)
  then show ?thesis by (simp add: outgoing_def director_def Let_def)
qed

lemma http_error_secured: "h k = [v] \<Longrightarrow> (k, v) \<in> set secured \<Longrightarrow> header_get (wr_headers (http_error h msg code)) k = v"
  by (auto simp: http_error_def secured_def header_get_def header_set_def)

lemma proxy_secured:
  "h k = [v] \<Longrightarrow> header_get (wr_headers (fst (newSocketProxy dial socketPath h rq s))) k = v"
  by (simp add: newSocketProxy_def header_get_def split: prod.split sum.split)

lemma pages_secured:
  assumes "\<And>h rq k v. (k, v) \<in> set secured \<Longrightarrow> wr_headers (if_serve fl h rq) k = h k"
    and "h k = [v]" and "(k, v) \<in> set secured"
  shows "header_get (wr_headers (fst (pages fl h rq s))) k = v"
proof -
  have "k \<noteq> ''Cache-Control'' \<and> k \<noteq> ''Content-Type''" using assms(3) by (auto simp: secured_def)
  then show ?thesis using assms(2,3) assms(1) [OF assms(3), of h rq] http_error_secured [where h = h and k = k and v = v]
    by (auto simp: pages_def serveIndex_def header_get_def header_set_def Let_def split: option.split)
qed

lemma secured_headers: "(k, v) \<in> set secured \<Longrightarrow> foldl (\<lambda>h (k, v). header_set k v h) h secured k = [v]"
  by (auto simp: secured_def header_set_def)

text \<open>
  The web interface passes calls of the API on as they are. The daemon gets the method, path, query and body of the browser,
  none of the headers that tell of earlier proxies except the address the connection came from, and every other header that
  is not of one hop (\<open>header_sent\<close>); the browser gets the daemon's status and body, or 502 when nobody answers at the socket.
  And every response of the interface, of whatever kind, has the four security headers with their values first.
\<close>

theorem interface_passes_on:
  assumes "\<And>h rq k v. (k, v) \<in> set secured \<Longrightarrow> wr_headers (if_serve fl h rq) k = h k"
  shows "outgoing rq = \<lparr>px_url = ''http://lightscale'' @ wq_target rq, px_host = ''lightscale'', px_method = wq_method rq,
      px_headers = header_sent rq, px_body = wq_body rq\<rparr>
    \<and> (case dial socketPath (outgoing rq) s of
        (Inl e, s') \<Rightarrow> newSocketProxy dial socketPath h rq s = (\<lparr>wr_status = 502, wr_headers = h, wr_body = []\<rparr>, s')
      | (Inr res, s') \<Rightarrow> wr_status (fst (newSocketProxy dial socketPath h rq s)) = wr_status res
          \<and> wr_body (fst (newSocketProxy dial socketPath h rq s)) = wr_body res \<and> snd (newSocketProxy dial socketPath h rq s) = s')
    \<and> (\<forall>(k, v) \<in> set secured. header_get (wr_headers (fst (WebHandler route fl dial socketPath h rq s))) k = v)"
proof (intro conjI)
  show "case dial socketPath (outgoing rq) s of
        (Inl e, s') \<Rightarrow> newSocketProxy dial socketPath h rq s = (\<lparr>wr_status = 502, wr_headers = h, wr_body = []\<rparr>, s')
      | (Inr res, s') \<Rightarrow> wr_status (fst (newSocketProxy dial socketPath h rq s)) = wr_status res
          \<and> wr_body (fst (newSocketProxy dial socketPath h rq s)) = wr_body res \<and> snd (newSocketProxy dial socketPath h rq s) = s'"
    by (auto simp: newSocketProxy_def split: prod.split sum.split)
  have "header_get (wr_headers (fst (WebHandler route fl dial socketPath h rq s))) k = v" if kv: "(k, v) \<in> set secured" for k v
  proof -
    let ?h = "foldl (\<lambda>h (k, v). header_set k v h) h secured"
    have hk: "?h k = [v]" by (rule secured_headers [OF kv])
    have page: "header_get (wr_headers (fst (pages fl ?h rq s))) k = v" by (rule pages_secured [where fl = fl and h = ?h and k = k and v = v, OF _ hk kv]) (rule assms)
    have api: "header_get (wr_headers (fst (sameOrigin (newSocketProxy dial socketPath) ?h rq s))) k = v"
      by (simp add: sameOrigin_def proxy_secured [where h = ?h and k = k, OF hk] http_error_secured [where h = ?h and k = k, OF hk kv])
    show ?thesis unfolding WebHandler_def securityHeaders_def
      using page api hk by (auto simp: header_get_def split: web_route.split)
  qed
  then show "\<forall>(k, v) \<in> set secured. header_get (wr_headers (fst (WebHandler route fl dial socketPath h rq s))) k = v" by blast
qed (rule proxy_sends)

theorem interface_passes_on_witness:
  "header_get (wr_headers (fst (WebHandler (\<lambda>_ _. ToPage) w_files (\<lambda>_ _ s. (Inl [], s)) clientSocketPath (\<lambda>_. [])
      (w_web_request []) ()))) ''X-Frame-Options'' = ''DENY''
    \<and> px_headers (outgoing (w_web_request [])) ''X-Forwarded-For'' = [''10.6.0.9'']"
proof -
  have "wr_headers (if_serve w_files h rq) k = h k" for h rq k by (simp add: w_files_def)
  moreover have "(''X-Frame-Options'', ''DENY'') \<in> set secured" by (simp add: secured_def)
  moreover have "header_sent (w_web_request []) ''X-Forwarded-For'' = [''10.6.0.9'']"
    by (simp add: header_sent_def w_web_request_def split_host_port_def brackets_def Prelude.cut_def)
  ultimately show ?thesis
    using interface_passes_on [where fl = w_files and rq = "w_web_request []" and dial = "\<lambda>_ _ s. (Inl [], s)"
        and socketPath = clientSocketPath and s = "()" and h = "\<lambda>_. []" and route = "\<lambda>_ _. ToPage"]
    by auto
qed

text \<open>
  With \<open>LIGHTSCALE_URL\<close> set, the interface that \<open>lightscale serve\<close> offers reaches no daemon. The client made for that
  address has no socket, so the interface is served all the same and says that its socket is the empty path, and every call of
  the API that it does not refuse itself is answered 502, whatever daemon runs at any other path.
\<close>

theorem served_with_url_reaches_nobody:
  assumes "ou_getenv (sh_outside sh) ''LIGHTSCALE_URL'' \<noteq> []" and "wi_socket wi \<noteq> []" and "route (wq_method rq) (wq_target rq) = ToApi"
  shows "wr_status (fst (served route fl (to_daemon wi hs) sh h rq (n, dm))) \<in> {403, 502}
    \<and> snd (served route fl (to_daemon wi hs) sh h rq (n, dm)) = (n, dm)
    \<and> (split_host_port at \<noteq> None \<longrightarrow> serve_cmd None (\<lambda>b. Inr b) None sh [at]
        = (''lightscale web UI listening on http://'' @ at @ '' (socket )'' @ eol, None))"
proof -
  have c: "cl_socket (cli_client sh) = []" using assms(1) by (simp add: cli_client_def new_client_def Let_def)
  show ?thesis
    unfolding served_def serve_cmd_def c normalizeBind_def
    using assms(2,3) c by (auto simp: WebHandler_def securityHeaders_def sameOrigin_def newSocketProxy_def to_daemon_def
        exchange_def http_error_def)
qed

definition w_url_shell :: "decoders \<Rightarrow> (nat \<times> daemon) shell" where
  "w_url_shell dec = \<lparr>sh_outside = \<lparr>ou_getenv = (\<lambda>_. ''http://gateway:11687''), ou_parse_url = Inr, ou_new_request = (\<lambda>_ _. None),
       ou_marshal = (\<lambda>_. []), ou_exchange = exchange w_web_wiring\<rparr>,
     sh_decoders = dec, sh_emit = (\<lambda>_. []), sh_options = \<lparr>op_socket = [], op_json = False\<rparr>\<rparr>"

theorem served_with_url_reaches_nobody_witness:
  "\<forall>dec dm. wr_status (fst (served (\<lambda>_ _. ToApi) w_files (to_daemon w_web_wiring (\<lambda>_ _. [])) (w_url_shell dec) (\<lambda>_. [])
      (w_web_request []) (0, dm))) \<in> {403, 502}"
proof (intro allI)
  fix dec dm
  have "ou_getenv (sh_outside (w_url_shell dec)) ''LIGHTSCALE_URL'' \<noteq> []" by (simp add: w_url_shell_def)
  moreover have "wi_socket w_web_wiring \<noteq> []" by (simp add: w_web_wiring_def clientSocketPath_def)
  ultimately show "wr_status (fst (served (\<lambda>_ _. ToApi) w_files (to_daemon w_web_wiring (\<lambda>_ _. [])) (w_url_shell dec) (\<lambda>_. [])
      (w_web_request []) (0, dm))) \<in> {403, 502}"
    using served_with_url_reaches_nobody [of "w_url_shell dec" w_web_wiring "\<lambda>_ _. ToApi"] by blast
qed

end
