(* ===== verification/Spec2Isabelle.thy ===== *)
theory Spec2Isabelle
  imports StoreContracts Migrations Netstack Device Splice Admission Dispatch Requests Process
    PreviewContracts PreviewAddress Web
begin

text \<open>
  Verification development of lightscale, a self-hosted WireGuard gateway: the daemon
  \<open>lightscaled\<close> keeps users, groups, services and access rules in a database, runs a userspace
  WireGuard device and a userspace network stack, and forwards a peer's traffic to a service's
  backend or to another peer only when the rules allow it. An operator administers it over an HTTP
  API on a unix socket.

  \<^bold>\<open>Parts and their interaction.\<close> A change made through the API is a transaction of the store
  (\<open>src/daemon/store\<close>); a commit calls the daemon's subscriber
  (\<open>src/daemon/runtime/daemon.go\<close>), which rebuilds the policy index (\<open>src/daemon/policy\<close>), closes
  the flows the new index no longer admits, and brings the WireGuard peers (\<open>src/daemon/wg\<close>) and
  the announced service addresses (\<open>src/daemon/runtime/listeners.go\<close>) in step with it. The data
  plane (\<open>src/daemon/proxy\<close>, \<open>src/daemon/wg/relay.go\<close>) consults the installed index for every
  connection, datagram and relayed packet, and resolves a service's origin to a dial target, asking
  the container runtime (\<open>src/daemon/docker\<close>) where needed.

  \<^bold>\<open>Theories.\<close>
  \<^item> \<open>Prelude\<close>: named collections, lemmas on lists, maps, sums and association lists.
    \<open>Encoding\<close>: decimal, hexadecimal and base64 text. \<open>Netip\<close>: the part of Go's \<open>net/netip\<close> the
    program uses. \<open>HostPort\<close>: \<open>net.SplitHostPort\<close> and \<open>JoinHostPort\<close>.
  \<^item> \<open>Origin\<close> (\<open>shared/origin\<close>), \<open>Config\<close> (\<open>shared/config\<close>), \<open>Wire\<close> (\<open>shared/wire\<close>), \<open>Keys\<close>
    (\<open>daemon/crypto\<close> and the key functions of \<open>wg/server.go\<close>), \<open>Ipalloc\<close> (\<open>daemon/ipalloc\<close>),
    \<open>Dns\<close> (\<open>daemon/dns\<close>).
  \<^item> \<open>Database\<close>: the tables with their constraints, the transaction and the SQL statements;
    \<open>Users\<close>, \<open>Services\<close>, \<open>StoreGroups\<close>: the operations of the files of \<open>daemon/store\<close>;
    \<open>Invariant\<close>, \<open>Store\<close>: well-formedness of the database and that each operation keeps it;
    \<open>StoreContracts\<close>: what the operations return and change.
  \<^item> \<open>PolicyIndex\<close>, \<open>PolicyCheck\<close>, \<open>FlowTable\<close> (\<open>daemon/policy\<close>): the index, the two decision
    functions with the relational specification they implement, the table of open flows.
  \<^item> \<open>Api\<close>, \<open>ApiServices\<close>, \<open>ApiGroups\<close>, \<open>ApiConf\<close> (\<open>daemon/api\<close>): the handlers, as functions from
    a typed request and a database to a reply and a database.
  \<^item> \<open>Docker\<close> (\<open>daemon/docker\<close>); \<open>Resolver\<close>, \<open>Proxy\<close>, \<open>Splice\<close> (\<open>daemon/proxy\<close>: origins to dial targets, the
    two handlers, the copying between two connections); \<open>Relay\<close>, \<open>Netstack\<close>, \<open>Device\<close>, \<open>Peers\<close> (\<open>daemon/wg\<close>);
    \<open>Listeners\<close>, \<open>Socket\<close>, \<open>Daemon\<close>, \<open>Status\<close> (\<open>daemon/runtime\<close>).
  \<^item> \<open>Dispatch\<close>: from an accepted connection (\<open>wg/wildcard.go\<close>) through \<open>runtime/listeners.go\<close> to the proxy;
    \<open>Admission\<close>: connections being admitted while the change callback installs an index and reaps.
  \<^item> \<open>Migrations\<close> (\<open>store.Open\<close> and \<open>daemon/store/migrations\<close>): the database file before, during and after an
    upgrade; \<open>Process\<close> (\<open>daemon/main.go\<close>, \<open>daemon/signals.go\<close>): \<open>init\<close>, the start, and signals against the main loop.
  \<^item> \<open>Router\<close>: the route table of \<open>daemon/api/server.go\<close> and one request through router, decoder,
    handler and encoder; \<open>Requests\<close>: that requests keep the daemon in sync, are answered, and are
    answered with what their route promises.
  \<^item> \<open>Client\<close> (\<open>shared/client\<close>): one call of the API from the other side. \<open>CliFormat\<close>, \<open>CliBase\<close>,
    \<open>CliUsers\<close>, \<open>CliServices\<close>, \<open>CliPreview\<close>, \<open>CliPreviewMore\<close>, \<open>CliCommands\<close> (\<open>cli/cli\<close>): what is
    printed, the commands, their previews, the command tree. \<open>CliDaemon\<close> connects the client to the
    daemon of \<open>Router\<close>; \<open>CliLaws\<close> states what is relied on of the codec and the router, \<open>CliEffects\<close>
    and \<open>CliRefine\<close> carry a command through the exchange to the store operation it is, and
    \<open>CliContracts\<close> holds the resulting properties, with one codec and one router that satisfy the laws.
    \<open>PreviewContracts\<close>, \<open>PreviewAddress\<close>: what a preview says compared with what the command does.
  \<^item> \<open>Web\<close> (\<open>web\<close>, \<open>cli/cli/serve.go\<close>): the web interface, its middleware and its proxy to the daemon.

  \<^bold>\<open>State.\<close> The database is the record \<open>db\<close> with one list per table in row order; an operation takes
  an environment \<open>env\<close> (clock, and which statements the SQL engine makes fail) and returns an error
  or a result with the new database. The daemon is the record \<open>daemon\<close>: database, installed index,
  flow table, device peers, announced addresses, configuration, container client. A command of the
  client is a function of the state at the other end of its exchange to an error or a text and the
  state left; a preview is a computation of the state monad over that state and the previewer. Goroutines that
  share state are step relations or step functions over explicit event sequences (\<open>Daemon\<close>, \<open>Proxy\<close>, \<open>Netstack\<close>,
  \<open>Splice\<close>, \<open>Admission\<close>, \<open>Process\<close>), one step per critical section; a database file is its stage of migration.

  \<^bold>\<open>What the lemmas show.\<close> The store keeps a well-formedness invariant (unique identifiers, names
  per namespace and addresses, no dangling reference) and a failed operation changes nothing. The
  index built from a database decides exactly the relation the rules denote, and reaping keeps the
  flows the index admits. Address allocation returns the lowest free address. The configuration the
  daemon hands to a client, the zone file, keys and the peer status text are read back to what was
  written. A connection reaches a backend only if the installed index admits it and the target is
  no refused address. Flows are released on every path. A change brings index, flows, peers and
  announced addresses in step; overlapping changes need not. Every API request keeps them in step and
  is answered. A command of the client comes down to the store operation its words name, and neither
  previews nor views change anything. The preview of a deletion names the rules that go. A proxied connection
  carries what was sent, and its goroutines end once it is closed; a revocation reaches every registered flow, but
  not a connection that was being dialled. An interrupted upgrade resumes to the same database. A page of another
  site changes nothing through the web interface, and no request to reload the configuration is lost.

  \<^bold>\<open>Bounds and fuel.\<close> Addresses are words of 32 and 128 bits, ports are checked to lie in 1..65535,
  row identifiers are integers below 2^63. The one loop that need not end, the search of
  \<open>ipalloc.Allocate\<close>, is a \<open>partial_function\<close>, and the theorems state that it returns. All other
  recursion is structural or has a termination proof.

  \<^bold>\<open>Parameters.\<close> The container runtime, the resolver of host names, the WireGuard device, the
  network stack, the operating system's file and account calls, random bytes and the clock are
  arguments of the definitions that use them; so are the HTTP router's pattern matching, the JSON
  codec and the transport, with what is relied on stated as named hypotheses (\<open>router_laws\<close>,
  \<open>body_laws\<close>, \<open>reply_laws\<close>, \<open>status_laws\<close>), the TOML decoder, the files built for the web
  interface, and the gVisor stack's answers.

  \<^bold>\<open>Not modelled.\<close> The internals of SQLite, gVisor and the WireGuard device; logging; flow control between the
  two ends of a copied connection; the file server and the matching of the HTTP router; the parsing of words into
  arguments and flags by the command library, and the help that it prints.
\<close>

end
